(* ===== verification/Prelude.thy ===== *)
theory Prelude
  imports Main "HOL-Library.Word"
begin

text \<open>
  Shared vocabulary of the development.  The firmware is freestanding C99 over fixed-width
  unsigned integers, so every machine integer is a word of its width and wraps as C does.
  This theory names those widths, gives the few word facts the components share, and
  provides \<open>blit\<close>, the effect of a byte-copy loop on a buffer.
\<close>

unbundle bit_operations_syntax

type_synonym u8 = "8 word"
type_synonym u16 = "16 word"
type_synonym u32 = "32 word"
type_synonym u64 = "64 word"

named_theorems layout_simps \<open>addresses, sizes and other constants of the memory map\<close>
named_theorems inv_intros \<open>preservation facts of the component invariants\<close>

subsection \<open>Buffers\<close>

definition blit :: "nat \<Rightarrow> 'a list \<Rightarrow> 'a list \<Rightarrow> 'a list" where
  "blit i xs buf = take i buf @ xs @ drop (i + length xs) buf"

lemma length_blit [simp]: "i + length xs \<le> length buf \<Longrightarrow> length (blit i xs buf) = length buf"
  by (simp add: blit_def)

lemma nth_blit:
  assumes "i + length xs \<le> length buf" "k < length buf"
  shows "blit i xs buf ! k =
    (if k < i then buf ! k else if k < i + length xs then xs ! (k - i) else buf ! k)"
  using assms by (auto simp: blit_def nth_append min_def)

lemma take_blit [simp]:
  "i + length xs \<le> length buf \<Longrightarrow> take (i + length xs) (blit i xs buf) = take i buf @ xs"
  by (simp add: blit_def)

lemma take_drop_blit [simp]:
  "i + length xs \<le> length buf \<Longrightarrow> n = length xs \<Longrightarrow> take n (drop i (blit i xs buf)) = xs"
  by (simp add: blit_def)

lemma blit_Nil [simp]: "blit i [] buf = buf"
  by (simp add: blit_def)

text \<open>One turn of a byte-copy loop.\<close>

lemma blit_Cons: "i < length buf \<Longrightarrow> blit (Suc i) xs (buf[i := x]) = blit i (x # xs) buf"
  by (simp add: blit_def take_Suc_conv_app_nth drop_update_cancel)

subsection \<open>Words\<close>

lemma word_and_neq_less:
  fixes a b :: "'a::len word"
  assumes "a AND b \<noteq> a"
  shows "unat (a AND b) < unat a"
proof -
  have "a AND b \<le> a" by (rule word_and_le2)
  with assms have "a AND b < a" by (simp add: order_le_less)
  then show ?thesis by (simp add: word_less_nat_alt)
qed

lemma word_and_bits: "a AND b = a \<Longrightarrow> bit a n \<Longrightarrow> bit (b::'a::len word) n"
  by (metis bit_and_iff)

lemma all_u8:
  assumes "\<forall>n \<in> set [0..<256]. P (word_of_nat n)"
  shows "P (x::u8)"
proof -
  have "unat x < 256" using unsigned_less [of x] by simp
  with assms have "P (word_of_nat (unat x))" by (metis atLeastLessThan_iff le0 set_upt)
  then show ?thesis by simp
qed

lemma u32_le_max: "(x::u32) \<le> 0xffffffff"
proof -
  have "unat x < 4294967296" using unsigned_less [of x] by simp
  then show ?thesis by (simp add: word_le_nat_alt)
qed

lemma u8_and_3: "(x::u8) AND 3 \<in> {0, 1, 2, 3}"
proof -
  have "x AND 3 \<le> 3" by (rule word_and_le1)
  then have "unat (x AND 3) \<le> 3" by (simp add: word_le_nat_alt)
  then have "unat (x AND 3) = 0 \<or> unat (x AND 3) = 1 \<or> unat (x AND 3) = 2 \<or> unat (x AND 3) = 3"
    by arith
  then show ?thesis by (auto simp: word_unat_eq_iff)
qed

lemma unat_ucast_up:
  assumes "LENGTH('a::len) \<le> LENGTH('b::len)"
  shows "unat (ucast (x :: 'a word) :: 'b word) = unat x"
proof -
  have "unat x < 2 ^ LENGTH('a)" by (rule unsigned_less)
  also have "\<dots> \<le> (2::nat) ^ LENGTH('b)" using assms by (rule power_increasing) simp
  finally show ?thesis by (simp add: unsigned_ucast_eq take_bit_nat_eq_self)
qed

lemma uint_ucast_up:
  assumes "LENGTH('a::len) \<le> LENGTH('b::len)"
  shows "uint (ucast (x :: 'a word) :: 'b word) = uint x"
  using unat_ucast_up [OF assms, of x] by (metis of_nat_unat)

lemma ucast_u32_u64: "(ucast (ucast (x::u32) :: u64) :: u32) = x"
  by (rule bit_word_eqI) (auto simp: bit_unsigned_iff dest: bit_imp_le_length)

lemma bit_below:
  fixes w :: "'a::len word"
  assumes "unat w < 2 ^ m" "m \<le> k"
  shows "\<not> bit w k"
proof
  assume "bit w k"
  then have "bit (unat w) k" by (simp add: bit_unsigned_iff bit_imp_le_length)
  moreover have "unat w < 2 ^ k" using assms by (meson less_le_trans one_le_numeral power_increasing)
  ultimately show False by (simp add: bit_iff_odd)
qed

subsection \<open>Machines\<close>

text \<open>
  Several components are driven one input at a time: the frame assembler by bytes, the update
  transaction by messages, the supervisor by events.  Such a component is a step function; \<open>None\<close>
  is undefined behaviour.  Its contract is an invariant that every step keeps, with a
  guarantee on the outputs; what the contract gives for whole input sequences is proved once.
\<close>

fun run_steps :: "('i \<Rightarrow> 's \<Rightarrow> ('o \<times> 's) option) \<Rightarrow> 'i list \<Rightarrow> 's \<Rightarrow> ('o list \<times> 's) option" where
  "run_steps step [] s = Some ([], s)"
| "run_steps step (i # is) s =
     (case step i s of
        None \<Rightarrow> None
      | Some (out, s) \<Rightarrow>
          (case run_steps step is s of
             None \<Rightarrow> None
           | Some (outs, s) \<Rightarrow> Some (out # outs, s)))"

lemma run_steps_append:
  "run_steps step (xs @ ys) s =
     (case run_steps step xs s of
        None \<Rightarrow> None
      | Some (os, s) \<Rightarrow>
          (case run_steps step ys s of None \<Rightarrow> None | Some (os', s) \<Rightarrow> Some (os @ os', s)))"
  by (induction xs arbitrary: s) (auto split: option.splits prod.splits)

locale machine =
  fixes step :: "'i \<Rightarrow> 's \<Rightarrow> ('o \<times> 's) option"
    and inv :: "'s \<Rightarrow> bool"
    and good :: "'o \<Rightarrow> bool"
  assumes step_ok: "inv s \<Longrightarrow> \<exists>out s'. step i s = Some (out, s') \<and> inv s' \<and> good out"
begin

lemma run_ok:
  "inv s \<Longrightarrow> \<exists>outs s'. run_steps step is s = Some (outs, s') \<and> inv s' \<and>
    length outs = length is \<and> (\<forall>out \<in> set outs. good out)"
proof (induction "is" arbitrary: s)
  case Nil
  then show ?case by simp
next
  case (Cons i "is")
  obtain out s1 where s1: "step i s = Some (out, s1)" "inv s1" "good out"
    using step_ok [OF Cons.prems] by blast
  with Cons.IH [of s1] show ?case by auto
qed

lemma run_inv: "inv s \<Longrightarrow> run_steps step is s = Some (outs, s') \<Longrightarrow> inv s'"
  using run_ok [of s "is"] by auto

lemma run_good: "inv s \<Longrightarrow> run_steps step is s = Some (outs, s') \<Longrightarrow> out \<in> set outs \<Longrightarrow> good out"
  using run_ok [of s "is"] by auto

end

text \<open>A machine whose busy phases are measured: a busy step gets closer to an idle state.\<close>

locale draining_machine = machine +
  fixes idle :: "'b \<Rightarrow> bool" and left :: "'b \<Rightarrow> nat"
  assumes drains: "inv s \<Longrightarrow> \<not> idle s \<Longrightarrow> step i s = Some (out, s') \<Longrightarrow> idle s' \<or> left s' < left s"
begin

lemma reaches_idle:
  "inv s \<Longrightarrow> left s \<le> length is \<Longrightarrow>
    \<exists>k \<le> length is. \<exists>outs s'. run_steps step (take k is) s = Some (outs, s') \<and> inv s' \<and>
      (idle s' \<or> left s' = 0)"
proof (induction "is" arbitrary: s)
  case Nil
  then show ?case by auto
next
  case (Cons i "is")
  show ?case
  proof (cases "idle s")
    case True
    with Cons.prems show ?thesis by (intro exI [of _ 0]) simp
  next
    case busy: False
    obtain out s1 where s1: "step i s = Some (out, s1)" "inv s1"
      using step_ok [OF Cons.prems(1)] by blast
    show ?thesis
    proof (cases "idle s1")
      case True
      with s1 show ?thesis by (intro exI [of _ 1]) simp
    next
      case False
      then have "left s1 < left s" using drains [OF Cons.prems(1) busy s1(1)] by simp
      then have "left s1 \<le> length is" using Cons.prems(2) by simp
      from Cons.IH [OF s1(2) this] obtain k outs s' where "k \<le> length is"
        "run_steps step (take k is) s1 = Some (outs, s')" "inv s'" "idle s' \<or> left s' = 0"
        by blast
      with s1 show ?thesis by (intro exI [of _ "Suc k"]) simp
    qed
  qed
qed

end

subsection \<open>Step relations\<close>

text \<open>
  A step relation and an invariant it keeps, and a second relation whose steps from states of the invariant are
  steps of the first: then its runs are runs of the first.
\<close>

locale guarded_steps =
  fixes step :: "'s \<Rightarrow> 's \<Rightarrow> bool" and inv :: "'s \<Rightarrow> bool"
  assumes keeps: "inv s \<Longrightarrow> step s s' \<Longrightarrow> inv s'"
begin

lemma path_inv: "(step ^^ n) s s' \<Longrightarrow> inv s \<Longrightarrow> inv s'"
  by (induction n arbitrary: s') (auto intro: keeps)

end

locale instance_steps = guarded_steps +
  fixes sub :: "'a \<Rightarrow> 'a \<Rightarrow> bool"
  assumes sub_step: "inv s \<Longrightarrow> sub s s' \<Longrightarrow> step s s'"
begin

lemma sub_path: "(sub ^^ n) s s' \<Longrightarrow> inv s \<Longrightarrow> (step ^^ n) s s' \<and> inv s'"
proof (induction n arbitrary: s')
  case 0
  then show ?case by simp
next
  case (Suc n)
  then obtain m where m: "(sub ^^ n) s m" "sub m s'" by auto
  with Suc have "(step ^^ n) s m" "inv m" by auto
  moreover have "step m s'" using sub_step [OF \<open>inv m\<close> m(2)] .
  ultimately show ?case by (auto intro: keeps)
qed

end

end
