(* ===== verification/Contract.thy ===== *)
theory Contract
  imports Prelude
begin

text \<open>
  The data of the core contract, \<^verbatim>\<open>core/contract.h\<close>: the status every call reports
  through, compartment specifications and module descriptors.
\<close>

datatype ic_status = IC_OK | IC_ERR_NOMEM | IC_ERR_ARGUMENT | IC_ERR_CONTRACT
  | IC_ERR_VALIDATE | IC_ERR_STATE | IC_ERR_PLATFORM

definition IC_CONTRACT_VERSION :: u16 where
  "IC_CONTRACT_VERSION = 1"

definition IC_MODULE_MAGIC :: u32 where
  "IC_MODULE_MAGIC = 0x494E434C"

record ic_compartment_spec =
  text_base :: u32
  text_size :: u32
  sram_base :: u32
  sram_size :: u32

definition IC_MODULE_EBPF :: u16 where
  "IC_MODULE_EBPF = 1"

definition IC_MODULE_NATIVE :: u16 where
  "IC_MODULE_NATIVE = 2"

record ic_module_desc =
  d_magic :: u32
  d_contract_ver :: u16
  d_kind :: u16
  d_text_base :: u32
  d_text_size :: u32
  d_sram_base :: u32
  d_sram_size :: u32
  d_entry_offset :: u32
  d_reserved :: u32

end
