(* ===== verification/Platform.thy ===== *)
theory Platform
  imports Contract
begin

text \<open>
  The memory map and the constants of \<^verbatim>\<open>core/platform.h\<close>.  The header is compiled for two
  targets; an address that depends on \<^verbatim>\<open>QEMU_TARGET\<close> is a function of the target.
\<close>

datatype target = Qemu | Board

fun MON_TEXT :: "target \<Rightarrow> u32" where
  "MON_TEXT Qemu = 0x80100000"
| "MON_TEXT Board = 0x08004000"

fun NAT_TEXT :: "target \<Rightarrow> u32" where
  "NAT_TEXT Qemu = 0x80210000"
| "NAT_TEXT Board = 0x2000A000"

fun NAT_SRAM :: "target \<Rightarrow> u32" where
  "NAT_SRAM Qemu = 0x80211000"
| "NAT_SRAM Board = 0x2000B000"

fun NAT2_TEXT :: "target \<Rightarrow> u32" where
  "NAT2_TEXT Qemu = 0x80212000"
| "NAT2_TEXT Board = 0x2000C000"

fun NAT2_SRAM :: "target \<Rightarrow> u32" where
  "NAT2_SRAM Qemu = 0x80213000"
| "NAT2_SRAM Board = 0x2000D000"

fun ATK_TEXT :: "target \<Rightarrow> u32" where
  "ATK_TEXT Qemu = 0x80102000"
| "ATK_TEXT Board = 0x08006000"

fun MON_BOX :: "target \<Rightarrow> u32" where
  "MON_BOX Qemu = 0x80200000"
| "MON_BOX Board = 0x20004000"

fun ATK_BOX :: "target \<Rightarrow> u32" where
  "ATK_BOX Qemu = 0x80208000"
| "ATK_BOX Board = 0x20008000"

fun SUP_STACK :: "target \<Rightarrow> u32" where
  "SUP_STACK Qemu = 0x8000F000"
| "SUP_STACK Board = 0x20003F00"

fun MON_STACK :: "target \<Rightarrow> u32" where
  "MON_STACK Qemu = 0x80201F00"
| "MON_STACK Board = 0x20005F00"

fun ATK_STACK :: "target \<Rightarrow> u32" where
  "ATK_STACK Qemu = 0x80209F00"
| "ATK_STACK Board = 0x20009F00"

fun PROG_AREA :: "target \<Rightarrow> u32" where
  "PROG_AREA Qemu = 0x80020000"
| "PROG_AREA Board = 0x20003000"

fun STATUS_BASE :: "target \<Rightarrow> u32" where
  "STATUS_BASE Qemu = 0x80010000"
| "STATUS_BASE Board = 0x20000100"

fun MAILBOX_BASE :: "target \<Rightarrow> u32" where
  "MAILBOX_BASE Qemu = 0x80011000"
| "MAILBOX_BASE Board = 0x20002000"

lemmas target_addresses [layout_simps] = MON_TEXT.simps
  NAT_TEXT.simps
  NAT_SRAM.simps
  NAT2_TEXT.simps
  NAT2_SRAM.simps
  ATK_TEXT.simps
  MON_BOX.simps
  ATK_BOX.simps
  SUP_STACK.simps
  MON_STACK.simps
  ATK_STACK.simps
  PROG_AREA.simps
  STATUS_BASE.simps
  MAILBOX_BASE.simps

definition MAP_CELLS :: u32 where "MAP_CELLS = 0x40"
definition PROG_MAGIC :: u32 where "PROG_MAGIC = 0x474F5250"
definition PROG_PEND_MAGIC :: u32 where "PROG_PEND_MAGIC = 0x444E4550"
definition PROG_PEND_MAGIC_OFF :: u32 where "PROG_PEND_MAGIC_OFF = 0x240"
definition PEND_EBPF :: u32 where "PEND_EBPF = 0x1"
definition PEND_NATIVE :: u32 where "PEND_NATIVE = 0x2"
definition SHA256_LEN :: u32 where "SHA256_LEN = 0x20"

text \<open>The words of the STATUS window.\<close>

definition S_CAIJUE :: nat where "S_CAIJUE = 16"
definition S_INSNS :: nat where "S_INSNS = 24"
definition S_VINTACT :: nat where "S_VINTACT = 32"
definition S_IINTACT :: nat where "S_IINTACT = 33"
definition S_OWNOOK :: nat where "S_OWNOOK = 34"
definition S_INTER :: nat where "S_INTER = 40"
definition S_LOG0C :: nat where "S_LOG0C = 41"
definition S_DONE :: nat where "S_DONE = 56"
definition S_BAN_CAIJUE :: nat where "S_BAN_CAIJUE = 64"
definition S_CINSNS :: nat where "S_CINSNS = 72"
definition S_CYC0 :: nat where "S_CYC0 = 80"
definition S_CYC1 :: nat where "S_CYC1 = 81"
definition S_CYC2 :: nat where "S_CYC2 = 82"
definition S_JINGBAO :: nat where "S_JINGBAO = 83"
definition S_CHONGTU_N :: nat where "S_CHONGTU_N = 84"
definition S_LAIYUAN :: nat where "S_LAIYUAN = 85"
definition S_NATOK :: nat where "S_NATOK = 86"
definition S_RDROK :: nat where "S_RDROK = 87"
definition S_GATE :: nat where "S_GATE = 88"
definition S_LOAD :: nat where "S_LOAD = 89"
definition S_UTX :: nat where "S_UTX = 90"
definition S_URX :: nat where "S_URX = 91"
definition S_NAT2 :: nat where "S_NAT2 = 92"
definition S_HLOAD :: nat where "S_HLOAD = 93"
definition S_HREJ :: nat where "S_HREJ = 94"
definition S_ROLL :: nat where "S_ROLL = 95"
definition S_REMAP :: nat where "S_REMAP = 96"
definition S_NSLOT :: nat where "S_NSLOT = 97"
definition S_REARM :: nat where "S_REARM = 98"
definition S_FPROG :: nat where "S_FPROG = 99"
definition S_PREEMPT :: nat where "S_PREEMPT = 100"
definition S_TXABORT :: nat where "S_TXABORT = 101"
definition S_HALT :: nat where "S_HALT = 102"
definition S_HALTC :: nat where "S_HALTC = 103"
definition S_FUZZA :: nat where "S_FUZZA = 104"
definition S_FUZZR :: nat where "S_FUZZR = 105"
definition STATUS_WORDS :: nat where "STATUS_WORDS = 106"

definition FRAME_TELE :: u8 where "FRAME_TELE = 0xF"
definition FRAME_REARM :: u8 where "FRAME_REARM = 0xE"
definition FRAME_STATUS :: u8 where "FRAME_STATUS = 0xD"
definition FRAME_UPDATE :: u8 where "FRAME_UPDATE = 0x4"
definition FRAME_UPDATE_REPLY :: u8 where "FRAME_UPDATE_REPLY = 0xC"

lemmas status_slots = S_CAIJUE_def
  S_INSNS_def
  S_VINTACT_def
  S_IINTACT_def
  S_OWNOOK_def
  S_INTER_def
  S_LOG0C_def
  S_DONE_def
  S_BAN_CAIJUE_def
  S_CINSNS_def
  S_CYC0_def
  S_CYC1_def
  S_CYC2_def
  S_JINGBAO_def
  S_CHONGTU_N_def
  S_LAIYUAN_def
  S_NATOK_def
  S_RDROK_def
  S_GATE_def
  S_LOAD_def
  S_UTX_def
  S_URX_def
  S_NAT2_def
  S_HLOAD_def
  S_HREJ_def
  S_ROLL_def
  S_REMAP_def
  S_NSLOT_def
  S_REARM_def
  S_FPROG_def
  S_PREEMPT_def
  S_TXABORT_def
  S_HALT_def
  S_HALTC_def
  S_FUZZA_def
  S_FUZZR_def
  STATUS_WORDS_def

lemmas platform_consts = MAP_CELLS_def PROG_MAGIC_def PROG_PEND_MAGIC_def PROG_PEND_MAGIC_OFF_def PEND_EBPF_def PEND_NATIVE_def SHA256_LEN_def
  FRAME_TELE_def FRAME_REARM_def FRAME_STATUS_def FRAME_UPDATE_def FRAME_UPDATE_REPLY_def

end
