(* ===== verification/Budget.thy ===== *)
theory Budget
  imports Platform
begin

text \<open>
  The budget of an activation: the timer macros of \<^verbatim>\<open>core/platform.h\<close>, which read a 64-bit counter and
  store a 64-bit compare value in halves of 32 bits.
\<close>

subsection \<open>Reading the counter\<close>

definition low :: "u64 \<Rightarrow> u32" where "low x = ucast x"

definition high :: "u64 \<Rightarrow> u32" where "high x = ucast (drop_bit 32 x)"

text \<open>
  The values of the counter at the successive reads.  The emulator reads the low half and then the high half; the
  board reads the high half again until it did not change.  \<open>None\<close>: the readings do not decide the loop.
\<close>

fun budget_now :: "target \<Rightarrow> u64 list \<Rightarrow> (u32 \<times> u32) option" where
  "budget_now Qemu (a # b # cs) = Some (low a, high b)"
| "budget_now Board (a # b # c # cs) = (if high a \<noteq> high c then budget_now Board cs else Some (low b, high a))"
| "budget_now t cs = None"

subsection \<open>Arming\<close>

definition BUDGET_TICKS :: u32 where "BUDGET_TICKS = 2000000"

text \<open>
  The compare value; the enable bits of \<^verbatim>\<open>mie\<close>, the control and status registers of the board's SysTick, and the
  pending flag and the enable flag of its line in the interrupt controller.
\<close>

record timer =
  cmp_hi :: u32
  cmp_lo :: u32
  mie :: u32
  stk_ctlr :: u32
  stk_sr :: u32
  line_pending :: bool
  line_enabled :: bool

fun BUDGET_INIT :: "target \<Rightarrow> timer \<Rightarrow> timer" where
  "BUDGET_INIT Qemu tm = tm\<lparr>mie := mie tm OR 0x80\<rparr>"
| "BUDGET_INIT Board tm = tm\<lparr>line_enabled := False, stk_sr := 0, stk_ctlr := stk_ctlr tm OR 2\<rparr>"

definition store_cmp :: "u32 \<Rightarrow> u32 \<Rightarrow> timer \<Rightarrow> timer" where
  "store_cmp hi lo tm = tm\<lparr>cmp_hi := hi, cmp_lo := lo\<rparr>"

text \<open>The states after each of the stores, in their order.\<close>

fun budget_stores :: "target \<Rightarrow> u32 \<Rightarrow> u32 \<Rightarrow> timer \<Rightarrow> timer list" where
  "budget_stores Qemu lo hi tm =
     [store_cmp 0xFFFFFFFF (cmp_lo tm) tm, store_cmp 0xFFFFFFFF lo tm, store_cmp hi lo tm]"
| "budget_stores Board lo hi tm =
     (let armed = store_cmp hi lo tm
      in [store_cmp 0xFFFFFFFF (cmp_lo tm) tm, store_cmp 0xFFFFFFFF lo tm, armed, armed\<lparr>stk_sr := 0\<rparr>,
          armed\<lparr>stk_sr := 0, line_pending := False\<rparr>,
          armed\<lparr>stk_sr := 0, line_pending := False, line_enabled := True\<rparr>])"

definition BUDGET_ARM :: "target \<Rightarrow> u32 \<Rightarrow> u64 list \<Rightarrow> timer \<Rightarrow> timer list option" where
  "BUDGET_ARM t ticks cs tm =
     (case budget_now t cs of
        None \<Rightarrow> None
      | Some (now, hi) \<Rightarrow>
          (let lo = now + ticks in Some (budget_stores t lo (if lo < now then hi + 1 else hi) tm)))"

fun BUDGET_ACK :: "target \<Rightarrow> timer \<Rightarrow> timer" where
  "BUDGET_ACK Qemu tm = tm"
| "BUDGET_ACK Board tm = tm\<lparr>stk_sr := 0, line_pending := False\<rparr>"

text \<open>The hardware compares the counter with both halves.\<close>

definition deadline :: "timer \<Rightarrow> nat" where
  "deadline tm = unat (cmp_hi tm) * 2 ^ 32 + unat (cmp_lo tm)"

definition fires :: "timer \<Rightarrow> u64 \<Rightarrow> bool" where
  "fires tm x \<longleftrightarrow> deadline tm \<le> unat x"

subsection \<open>The deadline\<close>

lemma unat_halves: "unat (low x) = unat x mod 2 ^ 32" "unat (high x) = unat x div 2 ^ 32"
proof -
  have "unat x < 2 ^ 64" using unsigned_less [of x] by simp
  then show "unat (low x) = unat x mod 2 ^ 32" "unat (high x) = unat x div 2 ^ 32"
    by (simp_all add: low_def high_def drop_bit_eq_div unsigned_ucast_eq take_bit_nat_def unat_div)
qed

lemma high_mono: "x \<le> y \<Longrightarrow> unat (high x) \<le> unat (high y)"
  by (simp add: unat_halves word_le_nat_alt div_le_mono)

text \<open>The loop of the board ends with the halves of one reading, and it ends when the counter is slower than it.\<close>

lemma board_reading:
  "sorted cs \<Longrightarrow> budget_now Board cs = Some (lo, hi) \<Longrightarrow> \<exists>x \<in> set cs. lo = low x \<and> hi = high x"
proof (induction Board cs rule: budget_now.induct)
  case (2 a b c cs)
  show ?case
  proof (cases "high a = high c")
    case True
    have "unat (high a) \<le> unat (high b)" "unat (high b) \<le> unat (high c)" using 2(2) by (simp_all add: high_mono)
    then have "high b = high a" using True by (simp add: word_unat_eq_iff)
    then show ?thesis using True 2(3) by auto
  next
    case False
    then show ?thesis using 2 by auto
  qed
qed simp_all

lemma board_decides:
  assumes "sorted (a # b # c # d # e # f # cs)" "unat f < unat a + 2 ^ 32"
  shows "budget_now Board (a # b # c # d # e # f # cs) \<noteq> None"
proof -
  have "c \<le> d" "d \<le> f" "a \<le> c" using assms(1) by auto
  then have "unat (high a) \<le> unat (high c)" "unat (high c) \<le> unat (high d)" "unat (high d) \<le> unat (high f)"
    by (simp_all add: high_mono)
  moreover have "unat (high f) \<le> unat (high a) + 1" using assms(2) unfolding unat_halves by simp
  ultimately have "high a = high c \<or> high d = high f" by (auto simp: word_unat_eq_iff)
  then show ?thesis by auto
qed

lemma readings_decide:
  assumes "sorted cs" "6 \<le> length cs" "unat (cs ! 5) < unat (cs ! 0) + 2 ^ 32"
  shows "budget_now t cs \<noteq> None"
proof -
  obtain a b c d e f rest where cs: "cs = a # b # c # d # e # f # rest"
    using assms(2) by (auto simp: numeral_eq_Suc Suc_le_length_iff)
  show ?thesis using board_decides [of a b c d e f rest] assms(1,3) unfolding cs by (cases t) simp_all
qed

lemma carry:
  fixes now ticks hi :: u32
  assumes "unat hi * 2 ^ 32 + unat now + unat ticks < 2 ^ 64"
  shows "unat (if now + ticks < now then hi + 1 else hi) * 2 ^ 32 + unat (now + ticks) =
    unat hi * 2 ^ 32 + unat now + unat ticks"
proof -
  have b: "unat now < 2 ^ 32" "unat ticks < 2 ^ 32" using unsigned_less [of now] unsigned_less [of ticks] by simp_all
  show ?thesis
  proof (cases "unat now + unat ticks < 2 ^ 32")
    case True
    then have u: "unat (now + ticks) = unat now + unat ticks" by (simp add: unat_word_ariths)
    then have "\<not> now + ticks < now" by (simp add: word_less_nat_alt)
    then show ?thesis using u by simp
  next
    case False
    then have u: "unat (now + ticks) = unat now + unat ticks - 2 ^ 32" using b by (simp add: unat_word_ariths mod_if)
    then have less: "now + ticks < now" using b False by (simp add: word_less_nat_alt)
    have "unat hi + 1 < 2 ^ 32" using assms False by simp
    then have "unat (hi + 1) = unat hi + 1" by (simp add: unat_word_ariths)
    then show ?thesis using u less False by simp
  qed
qed

lemma stores_deadlines:
  "deadline (last (budget_stores t lo hi tm)) = unat hi * 2 ^ 32 + unat lo"
  "\<And>s. s \<in> set (budget_stores t lo hi tm) \<Longrightarrow> 0xFFFFFFFF * 2 ^ 32 \<le> deadline s \<or> deadline s = unat hi * 2 ^ 32 + unat lo"
  by (cases t; auto simp: Let_def deadline_def store_cmp_def)+

lemma armed_states:
  assumes "BUDGET_ARM t ticks cs tm = Some tms" "budget_now t cs = Some (now, hi)"
    and "unat hi * 2 ^ 32 + unat now + unat ticks < 2 ^ 64"
  shows "deadline (last tms) = unat hi * 2 ^ 32 + unat now + unat ticks"
    "s \<in> set tms \<Longrightarrow> 0xFFFFFFFF * 2 ^ 32 \<le> deadline s \<or> deadline s = unat hi * 2 ^ 32 + unat now + unat ticks"
proof -
  let ?hi = "if now + ticks < now then hi + 1 else hi"
  have tms: "tms = budget_stores t (now + ticks) ?hi tm" using assms(1,2) by (simp add: BUDGET_ARM_def Let_def)
  note d = stores_deadlines [where t = t and lo = "now + ticks" and hi = ?hi and tm = tm, folded tms, unfolded carry [OF assms(3)]]
  show "deadline (last tms) = unat hi * 2 ^ 32 + unat now + unat ticks" by (rule d)
  show "s \<in> set tms \<Longrightarrow> 0xFFFFFFFF * 2 ^ 32 \<le> deadline s \<or> deadline s = unat hi * 2 ^ 32 + unat now + unat ticks"
    by (rule d)
qed

lemma line_opens_last:
  assumes "BUDGET_ARM Board ticks cs tm = Some tms"
  shows "stk_sr (last tms) = 0 \<and> \<not> line_pending (last tms) \<and> line_enabled (last tms) \<and>
    (\<forall>s \<in> set (butlast tms). line_enabled s = line_enabled tm)"
  using assms by (auto simp: BUDGET_ARM_def Let_def store_cmp_def split: option.splits)

text \<open>
  C35: the deadline of an activation.  With a counter that does not run backwards, is below its last \<open>2 ^ 33\<close> ticks
  and is slow enough for six readings to take less than \<open>2 ^ 32\<close> of them, arming ends and stores the sum of one of the
  values read and the budget; only on the emulator, whose two halves are read once, a carry between the reads moves
  the deadline \<open>2 ^ 32\<close> ticks further.  None of the stores on the way lets the timer fire before the sum, and the
  board opens a closed line only with the last of them, its pending flag dropped.
\<close>

theorem budget_deadline:
  assumes "sorted cs" "6 \<le> length cs" "unat (cs ! 5) < unat (cs ! 0) + 2 ^ 32"
    and "\<forall>x \<in> set cs. unat (high x) < 0xFFFFFFFE"
  shows "\<exists>tms. BUDGET_ARM t ticks cs tm = Some tms \<and> (\<exists>x \<in> set cs. deadline (last tms) = unat x + unat ticks +
      (if t = Qemu then 2 ^ 32 * (unat (high (cs ! 1)) - unat (high (cs ! 0))) else 0) \<and>
    (\<forall>s \<in> set tms. \<forall>y. unat y < unat x + unat ticks \<longrightarrow> \<not> fires s y) \<and>
    (t = Board \<longrightarrow> \<not> line_pending (last tms) \<and> line_enabled (last tms) \<and>
      (\<forall>s \<in> set (butlast tms). line_enabled s = line_enabled tm)))"
proof -
  have split: "unat (high x) * 2 ^ 32 + unat (low x) = unat x" for x unfolding unat_halves by simp
  have lt: "\<And>x. unat (low x) < 2 ^ 32" "unat ticks < 2 ^ 32"
    using unsigned_less [of "low _"] unsigned_less [of ticks] by simp_all
  obtain now hi where n: "budget_now t cs = Some (now, hi)" using readings_decide [OF assms(1-3), of t] by auto
  then obtain tms where arm: "BUDGET_ARM t ticks cs tm = Some tms" by (simp add: BUDGET_ARM_def Let_def)
  have "\<exists>x \<in> set cs. \<exists>y \<in> set cs. now = low x \<and> hi = high y \<and> unat (high x) \<le> unat (high y) \<and>
      unat (high y) - unat (high x) = (if t = Qemu then unat (high (cs ! 1)) - unat (high (cs ! 0)) else 0)"
  proof (cases t)
    case Board
    with board_reading [OF assms(1)] n show ?thesis by auto
  next
    case Qemu
    with n obtain a b rest where "cs = a # b # rest" by (auto elim: budget_now.elims)
    with Qemu n assms(1) high_mono [of a b] show ?thesis by auto
  qed
  then obtain x y where xy: "x \<in> set cs" "y \<in> set cs" "now = low x" "hi = high y" "unat (high x) \<le> unat (high y)"
      "unat (high y) - unat (high x) = (if t = Qemu then unat (high (cs ! 1)) - unat (high (cs ! 0)) else 0)" by blast
  have small: "unat hi * 2 ^ 32 + unat now + unat ticks < 2 ^ 64"
  proof -
    have "unat (high y) < 0xFFFFFFFE" using assms(4) xy(2) by blast
    then have "unat (high y) * 2 ^ 32 \<le> 0xFFFFFFFD * 2 ^ 32" by simp
    then show ?thesis using lt(1) [of x] lt(2) unfolding xy(3,4) by simp
  qed
  have sum: "unat hi * 2 ^ 32 + unat now + unat ticks = unat x + unat ticks + 2 ^ 32 * (unat (high y) - unat (high x))"
    using split [of x] xy(5) unfolding xy(3,4) by (simp add: algebra_simps diff_mult_distrib)
  note a = armed_states [OF arm n small]
  have "unat (high x) < 0xFFFFFFFE" using assms(4) xy(1) by blast
  then have top: "unat x + unat ticks \<le> 0xFFFFFFFF * 2 ^ 32" using split [of x] lt(1) [of x] lt(2) by simp
  have "\<not> fires s z" if "s \<in> set tms" "unat z < unat x + unat ticks" for s z
    using a(2) [OF that(1)] that(2) top unfolding sum fires_def by linarith
  moreover have "deadline (last tms) = unat x + unat ticks +
      (if t = Qemu then 2 ^ 32 * (unat (high (cs ! 1)) - unat (high (cs ! 0))) else 0)"
    using a(1) sum xy(6) by simp
  ultimately show ?thesis using xy(1) line_opens_last [of ticks cs tm tms] arm by blast
qed

text \<open>A carry between the two reads on the emulator: the deadline is \<open>2 ^ 32\<close> ticks late.\<close>

definition carry_readings :: "u64 list" where
  "carry_readings = [0xFFFFFFF0, 0x100000005, 0x100000006, 0x100000007, 0x100000008, 0x100000009]"

theorem budget_deadline_witness:
  "\<exists>tms. BUDGET_ARM Qemu BUDGET_TICKS carry_readings \<lparr>cmp_hi = 0, cmp_lo = 7, mie = 0x80,
      stk_ctlr = 0, stk_sr = 0, line_pending = False, line_enabled = False\<rparr> = Some tms \<and>
    (\<exists>x \<in> set carry_readings. deadline (last tms) = unat x + 2000000 + 2 ^ 32)"
proof -
  have cs: "sorted carry_readings" "6 \<le> length carry_readings"
      "unat (carry_readings ! 5) < unat (carry_readings ! 0) + 2 ^ 32"
      "\<forall>x \<in> set carry_readings. unat (high x) < 0xFFFFFFFE"
      "unat (high (carry_readings ! 1)) - unat (high (carry_readings ! 0)) = 1"
    by (simp_all add: unat_halves carry_readings_def)
  have "unat BUDGET_TICKS = 2000000" by (simp add: BUDGET_TICKS_def)
  with budget_deadline [OF cs(1-4), of Qemu BUDGET_TICKS] show ?thesis unfolding cs(5) by simp blast
qed

end
