(* ===== verification/Ebpf.thy ===== *)
theory Ebpf
  imports Prelude
begin

text \<open>
  The eBPF subset interpreter, \<^verbatim>\<open>core/ebpf.h\<close> and \<^verbatim>\<open>core/ebpf.c\<close>.
  One turn of its \<^verbatim>\<open>for (;;)\<close> is \<open>ebpf_step\<close>; the loop is the partial function
  \<open>ebpf_loop\<close>, whose value \<open>None\<close> means that the C loop does not return;
  \<open>ebpf_run\<close> adds the prologue and the \<^verbatim>\<open>out:\<close> epilogue.

  Memory.  The program structure carries raw pointers.  A pointer is its number (\<open>p_ctx\<close>),
  and the object it points to is the list of its bytes (\<open>p_ctx_bytes\<close>), so an access outside
  the object is visible: the step's result is then \<open>Undefined UB_MEMORY\<close>, as it is for the C
  standard.  In the same way \<open>UB_DIVISION\<close> is an integer division by zero and
  \<open>UB_OVERFLOW\<close> the overflow of a signed negation.  Pointer values are 64 bits wide; on RV32
  the conversion back to a pointer drops the upper half, which is zero for every address
  inside an object.
\<close>

subsection \<open>Data\<close>

datatype ebpf_fault = EBPF_OK | FAULT_PC | FAULT_STEPS | FAULT_MEM | FAULT_STORE
  | FAULT_DIV0 | FAULT_OPCODE | FAULT_CALL | FAULT_FP

fun fault_code :: "ebpf_fault \<Rightarrow> u8" where
  "fault_code EBPF_OK = 0"
| "fault_code FAULT_PC = 1"
| "fault_code FAULT_STEPS = 2"
| "fault_code FAULT_MEM = 3"
| "fault_code FAULT_STORE = 4"
| "fault_code FAULT_DIV0 = 5"
| "fault_code FAULT_OPCODE = 6"
| "fault_code FAULT_CALL = 7"
| "fault_code FAULT_FP = 8"

record ebpf_insn =
  i_op :: u8
  i_dst :: u8
  i_src :: u8
  i_off :: u16
  i_imm :: u32

definition EBPF_MAX_INSNS :: u32 where
  "EBPF_MAX_INSNS = 64"

record ebpf_prog =
  p_ins :: "u64 list"
  p_insn_cnt :: u32
  p_ctx :: u64
  p_ctx_bytes :: "u8 list"
  p_ctx_size :: u32
  p_max_steps :: u32
  p_map_cells :: u32

record ebpf_result =
  r_retval :: u64
  r_insns :: u32
  r_fault :: ebpf_fault

datatype ub = UB_MEMORY | UB_DIVISION | UB_OVERFLOW

text \<open>
  The interpreter's locals.  \<open>s_map\<close> is the grid behind \<^verbatim>\<open>p->map\<close> (\<open>None\<close> for a null
  pointer); it is part of the state because helper 2 writes it.
\<close>

record ebpf_state =
  s_regs :: "u64 list"
  s_pc :: u32
  s_steps :: u32
  s_insns :: u32
  s_map :: "u32 list option"

datatype step_result =
    Running ebpf_state
  | Exited u64 ebpf_state
  | Faulted ebpf_fault ebpf_state
  | Undefined ub

subsection \<open>Decoding and loads\<close>

definition decode_insn :: "u64 \<Rightarrow> ebpf_insn" where
  "decode_insn e =
     \<lparr>i_op = ucast (e AND 0xff),
      i_dst = ucast (drop_bit 8 e AND 0x0f),
      i_src = ucast (drop_bit 12 e AND 0x0f),
      i_off = ucast (drop_bit 16 e AND 0xffff),
      i_imm = ucast (drop_bit 32 e AND 0xffffffff)\<rparr>"

definition load_le :: "u8 list \<Rightarrow> u8 \<Rightarrow> u64 option" where
  "load_le m sz =
     (if length m < unat sz then None
      else if sz = 1 then Some (ucast (m ! 0))
      else if sz = 2 then Some (ucast (m ! 0) OR push_bit 8 (ucast (m ! 1)))
      else if sz = 4 then
        Some (ucast (m ! 0) OR push_bit 8 (ucast (m ! 1))
           OR push_bit 16 (ucast (m ! 2)) OR push_bit 24 (ucast (m ! 3)))
      else if length m < 8 then None
      else
        Some (ucast (m ! 0) OR push_bit 8 (ucast (m ! 1))
           OR push_bit 16 (ucast (m ! 2)) OR push_bit 24 (ucast (m ! 3))
           OR push_bit 32 (ucast (m ! 4)) OR push_bit 40 (ucast (m ! 5))
           OR push_bit 48 (ucast (m ! 6)) OR push_bit 56 (ucast (m ! 7))))"

subsection \<open>Arithmetic\<close>

definition bswap16 :: "u16 \<Rightarrow> u16" where
  "bswap16 x = push_bit 8 x OR drop_bit 8 x"

definition bswap32 :: "u32 \<Rightarrow> u32" where
  "bswap32 x = push_bit 24 x OR (push_bit 8 x AND 0xff0000)
     OR (drop_bit 8 x AND 0xff00) OR drop_bit 24 x"

definition bswap64 :: "u64 \<Rightarrow> u64" where
  "bswap64 x = push_bit 32 (ucast (bswap32 (ucast x))) OR ucast (bswap32 (ucast (drop_bit 32 x)))"

datatype alu_result = Val u64 | AFault ebpf_fault | AUndef ub

definition alu_shift :: "bool \<Rightarrow> u64 \<Rightarrow> nat" where
  "alu_shift is64 arg = unat (if is64 then arg AND 63 else arg AND 31)"

definition alu_end :: "ebpf_insn \<Rightarrow> u64 \<Rightarrow> alu_result" where
  "alu_end i v =
     (let sz = (ucast (i_imm i) :: u8) in
      if i_op i AND 0x08 \<noteq> 0 then
        (if sz = 16 then Val (ucast (bswap16 (ucast v)))
         else if sz = 32 then Val (ucast (bswap32 (ucast v)))
         else if sz = 64 then Val (bswap64 v)
         else AFault FAULT_OPCODE)
      else Val v)"

definition alu_switch :: "bool \<Rightarrow> ebpf_insn \<Rightarrow> u8 \<Rightarrow> u64 \<Rightarrow> u64 \<Rightarrow> alu_result" where
  "alu_switch is64 i op v arg =
     (if op = 0x00 then Val (v + arg)
      else if op = 0x10 then Val (v - arg)
      else if op = 0x20 then Val (v * arg)
      else if op = 0x30 then
        (if arg = 0 then AFault FAULT_DIV0
         else if is64 then Val (v div arg)
         else if (ucast arg :: u32) = 0 then AUndef UB_DIVISION
         else Val (ucast ((ucast v :: u32) div ucast arg)))
      else if op = 0x90 then
        (if arg = 0 then AFault FAULT_DIV0
         else if is64 then Val (v mod arg)
         else if (ucast arg :: u32) = 0 then AUndef UB_DIVISION
         else Val (ucast ((ucast v :: u32) mod ucast arg)))
      else if op = 0x40 then Val (v OR arg)
      else if op = 0x50 then Val (v AND arg)
      else if op = 0xa0 then Val (v XOR arg)
      else if op = 0xb0 then Val arg
      else if op = 0x60 then
        Val (if is64 then push_bit (alu_shift is64 arg) v
             else ucast (push_bit (alu_shift is64 arg) (ucast v :: u32)))
      else if op = 0x70 then
        Val (if is64 then drop_bit (alu_shift is64 arg) v
             else ucast (drop_bit (alu_shift is64 arg) (ucast v :: u32)))
      else if op = 0xc0 then
        Val (if is64 then signed_drop_bit (alu_shift is64 arg) v
             else signed_drop_bit (alu_shift is64 arg) (scast (ucast v :: u32)))
      else if op = 0x80 then
        (if v = 0x8000000000000000 then AUndef UB_OVERFLOW else Val (- v))
      else if op = 0xd0 then alu_end i v
      else AFault FAULT_OPCODE)"

definition alu_arg :: "ebpf_state \<Rightarrow> ebpf_insn \<Rightarrow> bool \<Rightarrow> u8 \<Rightarrow> u64" where
  "alu_arg st i is64 op =
     (if op \<noteq> 0x80 \<and> op \<noteq> 0xd0 then
        (if i_op i AND 0x08 \<noteq> 0 then s_regs st ! unat (i_src i)
         else if is64 then scast (i_imm i) else ucast (i_imm i))
      else 0)"

definition alu_step :: "ebpf_state \<Rightarrow> ebpf_insn \<Rightarrow> bool \<Rightarrow> u8 \<Rightarrow> step_result" where
  "alu_step st i is64 op =
     (let arg = alu_arg st i is64 op in
      if i_dst i = 10 then Faulted FAULT_FP st
      else
        (let v = (if op = 0xb0 then 0 else s_regs st ! unat (i_dst i)) in
         case alu_switch is64 i op v arg of
           AFault f \<Rightarrow> Faulted f st
         | AUndef u \<Rightarrow> Undefined u
         | Val v' \<Rightarrow>
             (let v'' = (if is64 then v' else v' AND 0xffffffff) in
              Running (st\<lparr>s_regs := (s_regs st)[unat (i_dst i) := v''],
                          s_pc := s_pc st + 1\<rparr>))))"

subsection \<open>Jumps and helper calls\<close>

definition call_step :: "ebpf_prog \<Rightarrow> ebpf_state \<Rightarrow> ebpf_insn \<Rightarrow> step_result" where
  "call_step p st i =
     (case s_map st of
        None \<Rightarrow> Faulted FAULT_CALL st
      | Some m \<Rightarrow>
          (if p_map_cells p = 0 \<or> p_map_cells p AND (p_map_cells p - 1) \<noteq> 0
           then Faulted FAULT_CALL st
           else
             (let k = unat ((ucast (s_regs st ! 1) :: u32) AND (p_map_cells p - 1)) in
              if i_imm i = 1 then
                (if k < length m then
                   Running (st\<lparr>s_regs := (s_regs st)[0 := ucast (m ! k)],
                               s_pc := s_pc st + 1\<rparr>)
                 else Undefined UB_MEMORY)
              else if i_imm i = 2 then
                (if k < length m then
                   Running (st\<lparr>s_map := Some (m[k := ucast (s_regs st ! 2)]),
                               s_regs := (s_regs st)[0 := 0],
                               s_pc := s_pc st + 1\<rparr>)
                 else Undefined UB_MEMORY)
              else Faulted FAULT_CALL st)))"

datatype jmp_result = Taken bool | JCall | JExit | JBad

definition jmp_switch :: "u8 \<Rightarrow> 'a::len word \<Rightarrow> 'a word \<Rightarrow> jmp_result" where
  "jmp_switch op a b =
     (if op = 0x00 then Taken True
      else if op = 0x10 then Taken (a = b)
      else if op = 0x50 then Taken (a \<noteq> b)
      else if op = 0x20 then Taken (b < a)
      else if op = 0x30 then Taken (b \<le> a)
      else if op = 0xa0 then Taken (a < b)
      else if op = 0xb0 then Taken (a \<le> b)
      else if op = 0x40 then Taken (a AND b \<noteq> 0)
      else if op = 0x60 then Taken (sint b < sint a)
      else if op = 0x70 then Taken (sint b \<le> sint a)
      else if op = 0xc0 then Taken (sint a < sint b)
      else if op = 0xd0 then Taken (sint a \<le> sint b)
      else if op = 0x80 then JCall
      else if op = 0x90 then JExit
      else JBad)"

definition jump_target :: "u32 \<Rightarrow> u16 \<Rightarrow> u32" where
  "jump_target pc off = pc + 1 + scast off"

definition jmp_step :: "ebpf_prog \<Rightarrow> ebpf_state \<Rightarrow> ebpf_insn \<Rightarrow> bool \<Rightarrow> u8 \<Rightarrow> step_result" where
  "jmp_step p st i is32 op =
     (if \<not> is32 \<and> op = 0x80 then call_step p st i
      else
        (let reads = (op \<noteq> 0x00 \<and> op \<noteq> 0x90);
             arg = (if reads then
                      (if i_op i AND 0x08 \<noteq> 0 then s_regs st ! unat (i_src i)
                       else if is32 then ucast (i_imm i) else scast (i_imm i))
                    else 0);
             v = (if reads then s_regs st ! unat (i_dst i) else 0);
             res = (if is32 then jmp_switch op (ucast v :: u32) (ucast arg)
                    else jmp_switch op v arg)
         in case res of
              JCall \<Rightarrow> Faulted FAULT_CALL st
            | JExit \<Rightarrow> Exited (s_regs st ! 0) st
            | JBad \<Rightarrow> Faulted FAULT_OPCODE st
            | Taken t \<Rightarrow>
                Running (st\<lparr>s_pc := (if t then jump_target (s_pc st) (i_off i)
                                     else s_pc st + 1)\<rparr>)))"

subsection \<open>Context loads\<close>

definition ldx_size :: "u8 \<Rightarrow> u8" where
  "ldx_size opc =
     (let szcode = drop_bit 3 opc AND 3 in
      if szcode = 0 then 4 else if szcode = 2 then 1 else push_bit (unat szcode) 1)"

definition ldx_step :: "ebpf_prog \<Rightarrow> ebpf_state \<Rightarrow> ebpf_insn \<Rightarrow> step_result" where
  "ldx_step p st i =
     (if i_op i AND 0xe0 \<noteq> 0x60 \<or> i_src i = 10 \<or> i_dst i = 10
      then Faulted FAULT_OPCODE st
      else
        (let sz = ldx_size (i_op i);
             addr = s_regs st ! unat (i_src i) + scast (i_off i)
         in if addr < p_ctx p \<or> addr - p_ctx p + ucast sz > ucast (p_ctx_size p)
            then Faulted FAULT_MEM st
            else
              (case load_le (drop (unat (addr - p_ctx p)) (p_ctx_bytes p)) sz of
                 None \<Rightarrow> Undefined UB_MEMORY
               | Some v \<Rightarrow>
                   Running (st\<lparr>s_regs := (s_regs st)[unat (i_dst i) := v],
                               s_pc := s_pc st + 1\<rparr>))))"

subsection \<open>The loop\<close>

definition exec_insn :: "ebpf_prog \<Rightarrow> ebpf_state \<Rightarrow> ebpf_insn \<Rightarrow> step_result" where
  "exec_insn p st i =
     (if i_dst i > 10 \<or> i_src i > 10 then Faulted FAULT_OPCODE st
      else
        (let cls = i_op i AND 0x07; op = i_op i AND 0xf0 in
         if cls = 0x07 \<or> cls = 0x04 then alu_step st i (cls = 0x07) op
         else if cls = 0x05 \<or> cls = 0x06 then jmp_step p st i (cls = 0x06) op
         else if cls = 0x01 then ldx_step p st i
         else if cls = 0x02 \<or> cls = 0x03 then Faulted FAULT_STORE st
         else Faulted FAULT_OPCODE st))"

definition ebpf_step :: "ebpf_prog \<Rightarrow> ebpf_state \<Rightarrow> step_result" where
  "ebpf_step p st =
     (if s_pc st \<ge> p_insn_cnt p then Faulted FAULT_PC st
      else
        (let st = st\<lparr>s_steps := s_steps st + 1\<rparr> in
         if s_steps st > p_max_steps p then Faulted FAULT_STEPS st
         else exec_insn p (st\<lparr>s_insns := s_insns st + 1\<rparr>)
                (decode_insn (p_ins p ! unat (s_pc st)))))"

datatype run_result = Ret int ebpf_result "u32 list option" | Undef ub

text \<open>The epilogue at \<^verbatim>\<open>out:\<close>, for a clean exit and for a fault.\<close>

definition out_exit :: "u64 \<Rightarrow> ebpf_state \<Rightarrow> run_result" where
  "out_exit v st = Ret 0 \<lparr>r_retval = v, r_insns = s_insns st, r_fault = EBPF_OK\<rparr> (s_map st)"

definition out_fault :: "ebpf_fault \<Rightarrow> ebpf_state \<Rightarrow> run_result" where
  "out_fault f st = Ret (-1) \<lparr>r_retval = 0, r_insns = s_insns st, r_fault = f\<rparr> (s_map st)"

partial_function (option) ebpf_loop :: "ebpf_prog \<Rightarrow> ebpf_state \<Rightarrow> run_result option" where
  "ebpf_loop p st =
     (case ebpf_step p st of
        Running st' \<Rightarrow> ebpf_loop p st'
      | Exited v st' \<Rightarrow> Some (out_exit v st')
      | Faulted f st' \<Rightarrow> Some (out_fault f st')
      | Undefined u \<Rightarrow> Some (Undef u))"

declare ebpf_loop.simps [code]

definition init_state :: "ebpf_prog \<Rightarrow> u32 list option \<Rightarrow> ebpf_state" where
  "init_state p mp =
     \<lparr>s_regs = (replicate 11 0)[1 := p_ctx p], s_pc = 0, s_steps = 0, s_insns = 0,
      s_map = mp\<rparr>"

definition ebpf_run :: "ebpf_prog \<Rightarrow> u32 list option \<Rightarrow> run_result option" where
  "ebpf_run p mp =
     (if p_insn_cnt p = 0 \<or> p_insn_cnt p > EBPF_MAX_INSNS
      then Some (out_fault FAULT_PC (init_state p mp))
      else if length (p_ins p) < unat (p_insn_cnt p) then Some (Undef UB_MEMORY)
      else ebpf_loop p (init_state p mp))"

subsection \<open>What a step changes\<close>

definition same_frame :: "ebpf_state \<Rightarrow> ebpf_state \<Rightarrow> bool" where
  "same_frame st st' \<longleftrightarrow>
     s_steps st' = s_steps st \<and> s_insns st' = s_insns st \<and>
     length (s_regs st') = length (s_regs st) \<and>
     map_option length (s_map st') = map_option length (s_map st)"

lemma alu_step_Running:
  assumes "alu_step st i is64 op = Running st'"
  shows "same_frame st st' \<and> s_pc st' = s_pc st + 1 \<and> i_dst i \<noteq> 10 \<and> s_map st' = s_map st \<and>
    (\<exists>v. s_regs st' = (s_regs st)[unat (i_dst i) := v])"
  using assms by (auto simp: alu_step_def Let_def same_frame_def split: if_splits alu_result.splits)

lemma call_step_Running:
  assumes "call_step p st i = Running st'"
  shows "same_frame st st' \<and> s_pc st' = s_pc st + 1 \<and> (\<exists>v. s_regs st' = (s_regs st)[0 := v])"
  using assms
  by (auto simp: call_step_def Let_def same_frame_def split: if_splits option.splits)

lemma jmp_step_Running:
  assumes "jmp_step p st i is32 op = Running st'"
  shows "same_frame st st' \<and>
    (s_pc st' = s_pc st + 1 \<or> s_pc st' = jump_target (s_pc st) (i_off i)) \<and>
    (s_regs st' = s_regs st \<or> op = 0x80 \<and> (\<exists>v. s_regs st' = (s_regs st)[0 := v]))"
  using assms
  by (auto simp: jmp_step_def Let_def same_frame_def
      split: if_splits jmp_result.splits dest!: call_step_Running)

lemma ldx_step_Running:
  assumes "ldx_step p st i = Running st'"
  shows "same_frame st st' \<and> s_pc st' = s_pc st + 1 \<and> i_dst i \<noteq> 10 \<and> s_map st' = s_map st \<and>
    (\<exists>v. s_regs st' = (s_regs st)[unat (i_dst i) := v])"
  using assms
  by (auto simp: ldx_step_def Let_def same_frame_def split: if_splits option.splits)

lemma exec_insn_Running: "exec_insn p st i = Running st' \<Longrightarrow> same_frame st st'"
  by (auto simp: exec_insn_def Let_def split: if_splits
      dest: alu_step_Running jmp_step_Running ldx_step_Running)

lemma exec_insn_halted:
  "exec_insn p st i = Exited v st' \<or> exec_insn p st i = Faulted f st' \<Longrightarrow> st' = st"
  by (auto simp: exec_insn_def alu_step_def jmp_step_def call_step_def ldx_step_def Let_def
      split: if_splits option.splits alu_result.splits jmp_result.splits)

lemma ebpf_step_Running:
  assumes "ebpf_step p st = Running st'"
  shows "s_pc st < p_insn_cnt p \<and> s_steps st' = s_steps st + 1 \<and> s_insns st' = s_insns st + 1 \<and>
    s_steps st' \<le> p_max_steps p \<and> length (s_regs st') = length (s_regs st) \<and>
    map_option length (s_map st') = map_option length (s_map st)"
  using assms
  by (auto simp: ebpf_step_def Let_def same_frame_def split: if_splits dest!: exec_insn_Running)

subsection \<open>Termination\<close>

text \<open>
  The loop returns because \<^verbatim>\<open>steps\<close> grows towards \<^verbatim>\<open>max_steps\<close>.  This needs
  \<^verbatim>\<open>max_steps\<close> to be below the largest 32-bit value: the counter wraps, so the test
  \<^verbatim>\<open>++steps > max_steps\<close> never succeeds for \<^verbatim>\<open>0xFFFFFFFF\<close>.
\<close>

lemma step_measure:
  fixes n m :: u32
  assumes "m < 0xffffffff" "n \<le> m" "n + 1 \<le> m"
  shows "unat m - unat (n + 1) < unat m - unat n"
proof -
  have "n + 1 \<noteq> 0"
  proof
    assume "n + 1 = 0"
    then have "n = - 1" by (simp add: eq_neg_iff_add_eq_0)
    with assms(1,2) show False
      by (simp add: word_le_nat_alt word_less_nat_alt unsigned_minus_1_eq_mask mask_eq_exp_minus_1)
  qed
  then have "unat (n + 1) = Suc (unat n)" by (metis add.commute unatSuc)
  with assms(3) show ?thesis by (simp add: word_le_nat_alt)
qed

text \<open>
  The rule every later proof about a run uses: an invariant of the loop head, kept by each
  step that continues, whose stopping steps give the conclusion.
\<close>

lemma ebpf_loop_rule [consumes 3, case_names step stop]:
  assumes max: "p_max_steps p < 0xffffffff"
    and start: "I st" and le: "s_steps st \<le> p_max_steps p"
    and step: "\<And>st st'. I st \<Longrightarrow> ebpf_step p st = Running st' \<Longrightarrow> I st'"
    and stop: "\<And>st. I st \<Longrightarrow> s_steps st \<le> p_max_steps p \<Longrightarrow>
      (case ebpf_step p st of
         Running st' \<Rightarrow> True
       | Exited v st' \<Rightarrow> Q (out_exit v st')
       | Faulted f st' \<Rightarrow> Q (out_fault f st')
       | Undefined u \<Rightarrow> Q (Undef u))"
  shows "\<exists>r. ebpf_loop p st = Some r \<and> Q r"
  using start le
proof (induction "unat (p_max_steps p) - unat (s_steps st)" arbitrary: st rule: less_induct)
  case less
  show ?case
  proof (cases "ebpf_step p st")
    case (Running st')
    note run = ebpf_step_Running [OF Running]
    have "unat (p_max_steps p) - unat (s_steps st') < unat (p_max_steps p) - unat (s_steps st)"
      using run step_measure [OF max less.prems(2)] by metis
    then have "\<exists>r. ebpf_loop p st' = Some r \<and> Q r"
      using less.hyps step [OF less.prems(1) Running] run by blast
    with Running show ?thesis by (simp add: ebpf_loop.simps [of p st])
  qed (use stop [OF less.prems] in \<open>simp_all add: ebpf_loop.simps [of p st]\<close>)
qed

definition run_wf :: "ebpf_prog \<Rightarrow> u32 list option \<Rightarrow> run_result \<Rightarrow> bool" where
  "run_wf p mp r =
     (case r of
        Undef u \<Rightarrow> True
      | Ret c res m \<Rightarrow>
          r_insns res \<le> p_max_steps p \<and>
          (c = 0 \<longleftrightarrow> r_fault res = EBPF_OK) \<and> (c = 0 \<or> c = - 1) \<and>
          (r_fault res = EBPF_OK \<or> r_retval res = 0) \<and>
          map_option length m = map_option length mp)"

lemma ebpf_step_stopped:
  "ebpf_step p st = Exited v st' \<Longrightarrow>
     s_map st' = s_map st \<and> s_insns st' = s_insns st + 1 \<and> s_steps st + 1 \<le> p_max_steps p"
  "ebpf_step p st = Faulted f st' \<Longrightarrow>
     s_map st' = s_map st \<and>
     (s_insns st' = s_insns st + 1 \<and> s_steps st + 1 \<le> p_max_steps p \<or>
      s_insns st' = s_insns st)"
  by (auto simp: ebpf_step_def Let_def not_less split: if_splits dest!: exec_insn_halted [OF disjI1]
      exec_insn_halted [OF disjI2])

lemma alu_switch_no_ok: "alu_switch is64 i op v arg \<noteq> AFault EBPF_OK"
  by (simp add: alu_switch_def alu_end_def Let_def)

lemma alu_step_Faulted:
  "alu_step st i is64 op = Faulted f st' \<Longrightarrow>
     f = FAULT_FP \<or> (\<exists>v arg. alu_switch is64 i op v arg = AFault f)"
  by (auto simp: alu_step_def Let_def split: if_splits alu_result.splits)

lemma call_step_Faulted: "call_step p st i = Faulted f st' \<Longrightarrow> f = FAULT_CALL"
  by (auto simp: call_step_def Let_def split: if_splits option.splits)

lemma jmp_step_Faulted:
  "jmp_step p st i is32 op = Faulted f st' \<Longrightarrow> f = FAULT_CALL \<or> f = FAULT_OPCODE"
  by (auto simp: jmp_step_def Let_def split: if_splits jmp_result.splits dest: call_step_Faulted)

lemma ldx_step_Faulted: "ldx_step p st i = Faulted f st' \<Longrightarrow> f = FAULT_OPCODE \<or> f = FAULT_MEM"
  by (auto simp: ldx_step_def Let_def split: if_splits option.splits)

lemma exec_insn_no_ok: "exec_insn p st i \<noteq> Faulted EBPF_OK st'"
proof
  assume "exec_insn p st i = Faulted EBPF_OK st'"
  then show False
    using alu_switch_no_ok
    by (auto simp: exec_insn_def Let_def split: if_splits
        dest!: alu_step_Faulted jmp_step_Faulted ldx_step_Faulted)
qed

lemma ebpf_step_no_ok: "ebpf_step p st \<noteq> Faulted EBPF_OK st'"
  by (auto simp: ebpf_step_def Let_def exec_insn_no_ok)


text \<open>A one-instruction loop, \<^verbatim>\<open>ja -1\<close>.\<close>

definition spin_prog :: "u32 \<Rightarrow> ebpf_prog" where
  "spin_prog cap =
     \<lparr>p_ins = [0x00000000ffff0005], p_insn_cnt = 1, p_ctx = 0x20004080, p_ctx_bytes = [],
      p_ctx_size = 0, p_max_steps = cap, p_map_cells = 0\<rparr>"

lemma decode_spin:
  "decode_insn 0x00000000ffff0005 = \<lparr>i_op = 5, i_dst = 0, i_src = 0, i_off = 0xffff, i_imm = 0\<rparr>"
  by code_simp

lemma spin_step:
  "s_pc st = 0 \<Longrightarrow> \<exists>st'. ebpf_step (spin_prog 0xffffffff) st = Running st' \<and> s_pc st' = 0"
proof -
  have "\<not> (0xffffffff :: u32) < s_steps st + 1"
    by (simp add: not_less u32_le_max)
  moreover assume "s_pc st = 0"
  ultimately show ?thesis
    by (simp add: ebpf_step_def spin_prog_def Let_def decode_spin exec_insn_def jmp_step_def
        jmp_switch_def jump_target_def)
qed

lemma spin_none: "s_pc st = 0 \<Longrightarrow> ebpf_loop (spin_prog 0xffffffff) st = None"
proof (rule ccontr)
  assume pc: "s_pc st = 0" and "ebpf_loop (spin_prog 0xffffffff) st \<noteq> None"
  then obtain r where r: "ebpf_loop (spin_prog 0xffffffff) st = Some r" by blast
  have "\<not> (spin_prog 0xffffffff = spin_prog 0xffffffff \<and> s_pc st = 0)"
  proof (rule ebpf_loop.raw_induct
      [where P = "\<lambda>p st r. \<not> (p = spin_prog 0xffffffff \<and> s_pc st = 0)", OF _ r])
    fix loop :: "ebpf_prog \<Rightarrow> ebpf_state \<Rightarrow> run_result option" and p st r
    assume IH: "\<And>p st r. loop p st = Some r \<Longrightarrow> \<not> (p = spin_prog 0xffffffff \<and> s_pc st = 0)"
      and eq: "(case ebpf_step p st of Running st' \<Rightarrow> loop p st'
        | Exited v st' \<Rightarrow> Some (out_exit v st') | Faulted f st' \<Rightarrow> Some (out_fault f st')
        | Undefined u \<Rightarrow> Some (Undef u)) = Some r"
    show "\<not> (p = spin_prog 0xffffffff \<and> s_pc st = 0)"
      using eq IH spin_step [of st] by auto
  qed
  with pc show False by simp
qed


text \<open>
  With the cap \<^verbatim>\<open>0xFFFFFFFF\<close> the 32-bit step counter wraps before it can exceed the
  cap, and the one-instruction program \<^verbatim>\<open>ja -1\<close> never returns.
\<close>

theorem ebpf_run_diverges: "ebpf_run (spin_prog 0xffffffff) mp = None"
  by (simp add: ebpf_run_def spin_none init_state_def) (simp add: spin_prog_def EBPF_MAX_INSNS_def)

subsection \<open>Context loads stay inside the context\<close>

lemma ldx_size_cases: "ldx_size opc \<in> {1, 2, 4, 8}"
  using u8_and_3 [of "drop_bit 3 opc"] by (auto simp: ldx_size_def Let_def)

lemma load_le_Some:
  "sz \<in> {1, 2, 4, 8} \<Longrightarrow> unat sz \<le> length m \<Longrightarrow> \<exists>v. load_le m sz = Some v"
  by (auto simp: load_le_def)

text \<open>
  The bounds test of the source adds the access size to the offset in 64 bits.  The sum
  cannot wrap when the context does not start in the first eight bytes of memory.
\<close>

lemma ctx_offset_bound:
  fixes a c :: u64
  assumes "8 \<le> c" "c \<le> a" "sz \<in> {1, 2, 4, 8::u8}"
  shows "unat (a - c + ucast sz) = unat (a - c) + unat sz"
proof -
  have "unat (a - c) = unat a - unat c" using assms(2) by (simp add: unat_sub)
  moreover have "unat a < 18446744073709551616" using unsigned_less [of a] by simp
  moreover have "8 \<le> unat c" using assms(1) by (simp add: word_le_nat_alt)
  moreover have "unat c \<le> unat a" using assms(2) by (simp add: word_le_nat_alt)
  moreover have "unat sz \<le> 8" using assms(3) by auto
  ultimately have lt: "unat (a - c) + unat sz < 18446744073709551616" by linarith
  have "unat (ucast sz :: u64) = unat sz"
    using assms(3) by auto
  then show ?thesis using lt by (simp add: unat_word_ariths)
qed

lemma ldx_in_context:
  assumes "8 \<le> p_ctx p" "\<not> addr < p_ctx p" "sz \<in> {1, 2, 4, 8::u8}"
    and "\<not> addr - p_ctx p + ucast sz > ucast (p_ctx_size p)"
  shows "unat (addr - p_ctx p) + unat sz \<le> unat (p_ctx_size p)"
proof -
  have "unat (ucast (p_ctx_size p) :: u64) = unat (p_ctx_size p)"
    by (simp add: unat_ucast_up)
  then show ?thesis
    using assms ctx_offset_bound [of "p_ctx p" addr sz] by (simp add: not_less word_le_nat_alt)
qed

definition ctx_ok :: "ebpf_prog \<Rightarrow> bool" where
  "ctx_ok p \<longleftrightarrow> 8 \<le> p_ctx p \<and> unat (p_ctx_size p) \<le> length (p_ctx_bytes p)"

lemma ldx_step_defined:
  assumes "ctx_ok p"
  shows "ldx_step p st i \<noteq> Undefined u"
proof
  let ?addr = "s_regs st ! unat (i_src i) + scast (i_off i)"
  let ?sz = "ldx_size (i_op i)"
  assume undef: "ldx_step p st i = Undefined u"
  then have ge: "\<not> ?addr < p_ctx p"
    and le: "\<not> ?addr - p_ctx p + ucast ?sz > ucast (p_ctx_size p)"
    and none: "load_le (drop (unat (?addr - p_ctx p)) (p_ctx_bytes p)) ?sz = None"
    by (auto simp: ldx_step_def Let_def split: if_splits option.splits)
  have "unat (?addr - p_ctx p) + unat ?sz \<le> unat (p_ctx_size p)"
    using assms ge le ldx_size_cases by (intro ldx_in_context) (auto simp: ctx_ok_def)
  then have "unat ?sz \<le> length (drop (unat (?addr - p_ctx p)) (p_ctx_bytes p))"
    using assms unfolding ctx_ok_def length_drop by linarith
  with load_le_Some [OF ldx_size_cases] none show False by fastforce
qed

end
