(* ===== verification/Loader.thy ===== *)
theory Loader
  imports Contract
begin

text \<open>
  The validation gates, \<^verbatim>\<open>core/loader.c\<close>: the compartment and module descriptor checks and
  the program verifier \<open>ic_program_check\<close>, a per-instruction shape check followed by a
  worklist data-flow analysis (\<open>check_regs\<close>) over register types.

  The two arrays \<^verbatim>\<open>in_m\<close> and \<^verbatim>\<open>pending\<close> of \<^verbatim>\<open>check_regs\<close> are one list of pairs
  (\<open>cells\<close>) of length \<^verbatim>\<open>cnt\<close>: the source uses no entry past \<^verbatim>\<open>cnt\<close>.  A pointer that
  may be null is an option.
\<close>

subsection \<open>Compartments and module descriptors\<close>

definition IC_MIN_REGION :: u32 where
  "IC_MIN_REGION = 0x400"

definition region_ok :: "u32 \<Rightarrow> u32 \<Rightarrow> bool" where
  "region_ok base sz \<longleftrightarrow>
     base mod 0x1000 = 0 \<and> sz \<ge> IC_MIN_REGION \<and> sz AND (sz - 1) = 0 \<and> base + sz > base"

definition ic_compartment_check :: "ic_compartment_spec option \<Rightarrow> ic_status" where
  "ic_compartment_check sp =
     (case sp of
        None \<Rightarrow> IC_ERR_ARGUMENT
      | Some s \<Rightarrow>
          if \<not> region_ok (text_base s) (text_size s) then IC_ERR_ARGUMENT
          else if \<not> region_ok (sram_base s) (sram_size s) then IC_ERR_ARGUMENT
          else IC_OK)"

definition check_native :: "ic_module_desc \<Rightarrow> ic_status" where
  "check_native d =
     (if \<not> region_ok (d_text_base d) (d_text_size d) then IC_ERR_ARGUMENT
      else if \<not> region_ok (d_sram_base d) (d_sram_size d) then IC_ERR_ARGUMENT
      else if d_entry_offset d AND 1 \<noteq> 0 \<or> d_entry_offset d \<ge> d_text_size d
      then IC_ERR_ARGUMENT
      else IC_OK)"

definition check_ebpf :: "ic_module_desc \<Rightarrow> ic_status" where
  "check_ebpf d =
     (if d_text_base d \<noteq> 0 \<and> d_text_base d mod 8 \<noteq> 0 then IC_ERR_ARGUMENT
      else if d_text_size d mod 8 \<noteq> 0 \<or> d_text_size d < 8 then IC_ERR_ARGUMENT
      else if d_entry_offset d mod 8 \<noteq> 0 \<or> d_entry_offset d \<ge> d_text_size d
      then IC_ERR_ARGUMENT
      else if d_sram_size d \<noteq> 0 \<and> d_sram_base d mod 4 \<noteq> 0 then IC_ERR_ARGUMENT
      else if d_sram_base d \<noteq> 0 \<and> d_sram_size d = 0 then IC_ERR_ARGUMENT
      else IC_OK)"

definition ic_module_check :: "ic_module_desc option \<Rightarrow> ic_status" where
  "ic_module_check dp =
     (case dp of
        None \<Rightarrow> IC_ERR_ARGUMENT
      | Some d \<Rightarrow>
          if d_magic d \<noteq> IC_MODULE_MAGIC then IC_ERR_CONTRACT
          else if d_contract_ver d \<noteq> IC_CONTRACT_VERSION then IC_ERR_CONTRACT
          else if d_kind d \<noteq> IC_MODULE_EBPF \<and> d_kind d \<noteq> IC_MODULE_NATIVE then IC_ERR_ARGUMENT
          else if d_reserved d \<noteq> 0 then IC_ERR_ARGUMENT
          else if d_kind d = IC_MODULE_EBPF then check_ebpf d else check_native d)"

subsection \<open>The instruction tables of the verifier\<close>

definition IC_PROG_MAX_INSNS :: u32 where
  "IC_PROG_MAX_INSNS = 64"

definition opcode_known :: "u8 \<Rightarrow> bool" where
  "opcode_known op =
     (let cls = op AND 0x07; o' = op AND 0xf0 in
      if cls = 0x01 then op AND 0xe0 = 0x60
      else if cls = 0x04 \<or> cls = 0x07 then
        (if o' = 0xd0 then op AND 0x08 \<noteq> 0 else o' \<le> 0xc0)
      else if cls = 0x05 \<or> cls = 0x06 then
        o' \<le> 0x90 \<or> (0xa0 \<le> o' \<and> o' \<le> 0xd0)
      else False)"

definition e_op :: "u64 \<Rightarrow> u8" where
  "e_op e = ucast (e AND 0xff)"

definition e_dst :: "u64 \<Rightarrow> u8" where
  "e_dst e = ucast (drop_bit 8 e AND 0x0f)"

definition e_src :: "u64 \<Rightarrow> u8" where
  "e_src e = ucast (drop_bit 12 e AND 0x0f)"

definition e_off :: "u64 \<Rightarrow> u16" where
  "e_off e = ucast (drop_bit 16 e AND 0xffff)"

definition e_imm :: "u64 \<Rightarrow> u32" where
  "e_imm e = ucast (drop_bit 32 e AND 0xffffffff)"

definition T_BOTTOM :: u32 where "T_BOTTOM = 0"
definition T_SCALAR :: u32 where "T_SCALAR = 1"
definition T_CTX :: u32 where "T_CTX = 2"
definition T_MASK :: u32 where "T_MASK = 3"

definition reg_type :: "u32 \<Rightarrow> u8 \<Rightarrow> u32" where
  "reg_type st r = drop_bit (2 * unat r) st AND T_MASK"

definition set_type :: "u32 \<Rightarrow> u8 \<Rightarrow> u32 \<Rightarrow> u32" where
  "set_type st r t =
     (st AND NOT (push_bit (2 * unat r) T_MASK)) OR push_bit (2 * unat r) t"

definition reg_bit :: "u8 \<Rightarrow> u32" where
  "reg_bit r = push_bit (unat r) 1"

definition insn_reads :: "u64 \<Rightarrow> u32" where
  "insn_reads e =
     (let op = e_op e; dst = e_dst e; src = e_src e; cls = op AND 0x07; hi = op AND 0xf0;
          two = reg_bit dst OR (if op AND 0x08 \<noteq> 0 then reg_bit src else 0) in
      if cls = 0x04 \<or> cls = 0x07 then
        (if hi = 0xb0 then (if op AND 0x08 \<noteq> 0 then reg_bit src else 0)
         else if hi = 0x80 \<or> hi = 0xd0 then reg_bit dst
         else two)
      else if cls = 0x05 \<or> cls = 0x06 then
        (if hi = 0x90 then 1
         else if hi = 0x80 then (if e_imm e = 2 then reg_bit 1 OR reg_bit 2 else reg_bit 1)
         else if hi = 0x00 then 0
         else two)
      else if cls = 0x01 then reg_bit src
      else 0)"

definition insn_writes :: "u64 \<Rightarrow> u32" where
  "insn_writes e =
     (let op = e_op e; cls = op AND 0x07 in
      if cls = 0x01 \<or> cls = 0x04 \<or> cls = 0x07 then reg_bit (e_dst e)
      else if (cls = 0x05 \<or> cls = 0x06) \<and> op AND 0xf0 = 0x80 then 1
      else 0)"

definition insn_succ :: "u64 \<Rightarrow> u32 \<Rightarrow> u32 list" where
  "insn_succ e pc =
     (let op = e_op e; cls = op AND 0x07; hi = op AND 0xf0;
          target = pc + 1 + scast (e_off e) in
      if cls = 0x05 \<or> cls = 0x06 then
        (if hi = 0x90 then []
         else if hi = 0x00 then [target]
         else if hi = 0x80 then [pc + 1]
         else [pc + 1, target])
      else [pc + 1])"

subsection \<open>The register gate\<close>

definition regs11 :: "u8 list" where
  "regs11 = [0, 1, 2, 3, 4, 5, 6, 7, 8, 9, 10]"

definition read_ok :: "u8 \<Rightarrow> u32 \<Rightarrow> u8 \<Rightarrow> bool" where
  "read_ok cls st r =
     (let t = reg_type st r in
      if t = T_BOTTOM then False
      else if cls = 0x01 \<and> t \<noteq> T_CTX then False
      else if (cls = 0x04 \<or> cls = 0x07) \<and> t = T_CTX then False
      else True)"

definition insn_check :: "u64 \<Rightarrow> u32 \<Rightarrow> bool" where
  "insn_check e st =
     (let op = e_op e; cls = op AND 0x07; hi = op AND 0xf0; reads = insn_reads e in
      list_all (\<lambda>r. reads AND reg_bit r = 0 \<or> read_ok cls st r) regs11 \<and>
      \<not> ((cls = 0x04 \<or> cls = 0x07) \<and> (hi = 0x30 \<or> hi = 0x90) \<and> op AND 0x08 = 0 \<and>
         e_imm e = 0))"

definition set_written :: "u32 \<Rightarrow> u32 \<Rightarrow> u8 \<Rightarrow> u32" where
  "set_written writes out r = (if writes AND reg_bit r \<noteq> 0 then set_type out r T_SCALAR else out)"

definition insn_out :: "u64 \<Rightarrow> u32 \<Rightarrow> u32" where
  "insn_out e st =
     (let op = e_op e; cls = op AND 0x07; hi = op AND 0xf0; writes = insn_writes e;
          out = foldl (set_written writes) st regs11 in
      if (cls = 0x05 \<or> cls = 0x06) \<and> hi = 0x80 then set_type out 0 T_SCALAR else out)"

fun propagate :: "u32 \<Rightarrow> u32 list \<Rightarrow> (u32 \<times> bool) list \<Rightarrow> (u32 \<times> bool) list option" where
  "propagate out [] cells = Some cells"
| "propagate out (s # ss) cells =
     (if unat s \<ge> length cells then None
      else
        (let old = fst (cells ! unat s); merged = old AND out in
         propagate out ss (if merged \<noteq> old then cells[unat s := (merged, True)] else cells)))"

definition next_pending :: "(u32 \<times> bool) list \<Rightarrow> nat option" where
  "next_pending cells = find (\<lambda>i. snd (cells ! i)) [0..<length cells]"

definition cells_weight :: "(u32 \<times> bool) list \<Rightarrow> nat" where
  "cells_weight cells = sum_list (map (\<lambda>(m, q). 2 * unat m + (if q then 1 else 0)) cells)"

lemma cells_weight_update:
  assumes "i < length cells"
  shows "cells_weight (cells[i := (m, q)]) + 2 * unat (fst (cells ! i)) +
      (if snd (cells ! i) then 1 else 0) = cells_weight cells + 2 * unat m + (if q then 1 else 0)"
proof -
  let ?f = "\<lambda>(m, q). 2 * unat (m::u32) + (if q then 1 else (0::nat))"
  have le: "?f (cells ! i) \<le> sum_list (map ?f cells)"
    using assms by (metis elem_le_sum_list length_map nth_map)
  have "cells_weight (cells[i := (m, q)]) = sum_list (map ?f cells) + ?f (m, q) - ?f (cells ! i)"
    using assms by (simp add: cells_weight_def map_update sum_list_update)
  with le show ?thesis by (simp add: cells_weight_def split: prod.splits)
qed

lemma propagate_weight: "propagate out ss cells = Some cells' \<Longrightarrow> cells_weight cells' \<le> cells_weight cells"
proof (induction ss arbitrary: cells)
  case Nil
  then show ?case by simp
next
  case (Cons s ss)
  let ?old = "fst (cells ! unat s)"
  from Cons.prems have lt: "unat s < length cells" by (auto split: if_splits)
  show ?case
  proof (cases "?old AND out = ?old")
    case True
    with Cons lt show ?thesis by (auto simp: Let_def)
  next
    case False
    then have "unat (?old AND out) < unat ?old" by (rule word_and_neq_less)
    moreover have "cells_weight cells' \<le> cells_weight (cells[unat s := (?old AND out, True)])"
      using Cons False lt by (auto simp: Let_def)
    ultimately show ?thesis
      using cells_weight_update [OF lt, of "?old AND out" True] by (auto split: if_splits)
  qed
qed

lemma next_pending_Some:
  "next_pending cells = Some pc \<Longrightarrow> pc < length cells \<and> snd (cells ! pc)"
  by (auto simp: next_pending_def find_Some_iff)

function check_loop :: "u64 list \<Rightarrow> (u32 \<times> bool) list \<Rightarrow> ic_status" where
  "check_loop ins cells =
     (case next_pending cells of
        None \<Rightarrow> IC_OK
      | Some pc \<Rightarrow>
          (let st = fst (cells ! pc); cells1 = cells[pc := (st, False)]; e = ins ! pc in
           if \<not> insn_check e st then IC_ERR_VALIDATE
           else
             (case propagate (insn_out e st) (insn_succ e (of_nat pc)) cells1 of
                None \<Rightarrow> IC_ERR_VALIDATE
              | Some cells2 \<Rightarrow> check_loop ins cells2)))"
  by pat_completeness auto
termination
proof (relation "measure (\<lambda>(ins, cells). cells_weight cells)", goal_cases)
  case 1
  show ?case by simp
next
  case (2 ins cells pc st cells1 e cells2)
  then have "cells_weight cells2 \<le> cells_weight (cells[pc := (fst (cells ! pc), False)])"
    using propagate_weight by simp
  moreover have "cells_weight (cells[pc := (fst (cells ! pc), False)]) < cells_weight cells"
    using cells_weight_update [of pc cells "fst (cells ! pc)" False] next_pending_Some 2 by fastforce
  ultimately show ?case by simp
qed

declare check_loop.simps [simp del]

definition check_regs :: "u64 list \<Rightarrow> u32 \<Rightarrow> ic_status" where
  "check_regs ins cnt =
     check_loop ins ((replicate (unat cnt) (0xffffffff, True))[0 := (set_type 0 1 T_CTX, True)])"

subsection \<open>The shape check\<close>

definition shape_ok :: "u32 \<Rightarrow> nat \<Rightarrow> u64 \<Rightarrow> bool" where
  "shape_ok cnt pc e =
     (let op = e_op e; dst = e_dst e; src = e_src e; off = e_off e;
          cls = op AND 0x07; hi = op AND 0xf0 in
      if dst > 10 \<or> src > 10 then False
      else if cls = 0x01 \<and> dst = 10 then False
      else if \<not> opcode_known op then False
      else if (cls = 0x04 \<or> cls = 0x07) \<and> hi = 0xd0 \<and> op AND 0x08 \<noteq> 0 \<and>
              drop_bit 32 e \<noteq> 16 \<and> drop_bit 32 e \<noteq> 32 \<and> drop_bit 32 e \<noteq> 64
      then False
      else if cls = 0x05 \<or> cls = 0x06 then
        (if hi = 0x90 then True
         else if hi = 0x80 then
           (if cls = 0x06 then False
            else if op AND 0x08 \<noteq> 0 then False
            else \<not> (e_imm e = 0 \<or> e_imm e > 2))
         else
           (let target = int pc + 1 + sint off in \<not> (target < 0 \<or> target \<ge> sint cnt)))
      else True)"

definition ic_program_check :: "u64 list option \<Rightarrow> u32 \<Rightarrow> ic_status" where
  "ic_program_check insp cnt =
     (case insp of
        None \<Rightarrow> IC_ERR_ARGUMENT
      | Some ins \<Rightarrow>
          if cnt = 0 \<or> cnt > IC_PROG_MAX_INSNS then IC_ERR_ARGUMENT
          else if list_all (\<lambda>pc. shape_ok cnt pc (ins ! pc)) [0..<unat cnt]
          then check_regs ins cnt
          else IC_ERR_VALIDATE)"

end
