(* ===== verification/Soundness.thy ===== *)
theory Soundness
  imports Ebpf Loader
begin

text \<open>
  Soundness of the verifier of \<^verbatim>\<open>core/loader.c\<close> for the interpreter of
  \<^verbatim>\<open>core/ebpf.c\<close>: what a program that \<open>ic_program_check\<close> accepts can do at run time.
\<close>

subsection \<open>Type states as a meet semilattice\<close>

text \<open>
  The type states form a meet semilattice.  The order is written out as \<open>meet a b = a\<close>, the form in
  which \<^verbatim>\<open>merged != in_m[s]\<close> tests it.
\<close>

locale type_meet =
  fixes meet :: "'s \<Rightarrow> 's \<Rightarrow> 's"
  assumes assoc: "meet (meet a b) c = meet a (meet b c)"
    and commute: "meet a b = meet b a"
    and idem: "meet a a = a"
begin

lemma below_trans: "meet a b = a \<Longrightarrow> meet b c = b \<Longrightarrow> meet a c = a"
  by (metis assoc)

lemma meet_below1: "meet (meet a b) a = meet a b"
  by (metis assoc commute idem)

lemma meet_below2: "meet (meet a b) b = meet a b"
  by (metis assoc idem)

end

interpretation reg_types: type_meet "(AND) :: u32 \<Rightarrow> u32 \<Rightarrow> u32"
  by unfold_locales (simp_all add: ac_simps)

subsection \<open>The fixed point of the register gate\<close>

text \<open>
  \<open>stable_at ins ms pc\<close>: the type states \<open>ms\<close> satisfy the gate at \<open>pc\<close>, and each successor's
  state is below the state the instruction leaves (below in the lattice whose meet is the
  bitwise AND).
\<close>

definition stable_at :: "u64 list \<Rightarrow> u32 list \<Rightarrow> nat \<Rightarrow> bool" where
  "stable_at ins ms pc \<longleftrightarrow>
     insn_check (ins ! pc) (ms ! pc) \<and>
     (\<forall>s \<in> set (insn_succ (ins ! pc) (of_nat pc)).
        unat s < length ms \<and> ms ! unat s AND insn_out (ins ! pc) (ms ! pc) = ms ! unat s)"

lemma length_propagate: "propagate out ss cells = Some cells' \<Longrightarrow> length cells' = length cells"
  by (induction ss arbitrary: cells) (auto simp: Let_def split: if_splits)

text \<open>
  One propagation only lowers states; where it lowers one it marks the cell pending; and
  afterwards every successor is below \<open>out\<close>.
\<close>

lemma propagate_cells:
  assumes "propagate out ss cells = Some cells'" "i < length cells"
  shows "fst (cells' ! i) AND fst (cells ! i) = fst (cells' ! i) \<and>
    (snd (cells' ! i) \<or> cells' ! i = cells ! i) \<and>
    (snd (cells ! i) \<longrightarrow> snd (cells' ! i))"
  using assms
proof (induction ss arbitrary: cells)
  case Nil
  then show ?case by simp
next
  case (Cons s ss)
  let ?m = "fst (cells ! unat s) AND out"
  let ?c = "if ?m \<noteq> fst (cells ! unat s) then cells[unat s := (?m, True)] else cells"
  have ih: "fst (cells' ! i) AND fst (?c ! i) = fst (cells' ! i)"
    "snd (cells' ! i) \<or> cells' ! i = ?c ! i" "snd (?c ! i) \<longrightarrow> snd (cells' ! i)"
    using Cons.IH [of ?c] Cons.prems by (auto simp: Let_def split: if_splits)
  have "fst (?c ! i) AND fst (cells ! i) = fst (?c ! i)"
    using Cons.prems(2) by (cases "i = unat s") (auto simp: reg_types.meet_below1)
  then have "fst (cells' ! i) AND fst (cells ! i) = fst (cells' ! i)"
    by (rule reg_types.below_trans [OF ih(1)])
  moreover have "?c ! i = cells ! i \<or> snd (?c ! i)" "snd (cells ! i) \<longrightarrow> snd (?c ! i)"
    using Cons.prems(2) by (cases "i = unat s"; simp)+
  ultimately show ?case using ih(2,3) by metis
qed

lemma propagate_below:
  assumes "propagate out ss cells = Some cells'" "s \<in> set ss"
  shows "unat s < length cells \<and> fst (cells' ! unat s) AND out = fst (cells' ! unat s)"
  using assms
proof (induction ss arbitrary: cells)
  case Nil
  then show ?case by simp
next
  case (Cons t ss)
  let ?m = "fst (cells ! unat t) AND out"
  let ?c = "if ?m \<noteq> fst (cells ! unat t) then cells[unat t := (?m, True)] else cells"
  have lt: "unat t < length cells" and rec: "propagate out ss ?c = Some cells'"
    using Cons.prems(1) by (auto simp: Let_def split: if_splits)
  show ?case
  proof (cases "s = t")
    case True
    have "fst (?c ! unat t) AND out = fst (?c ! unat t)"
      using lt by (simp add: reg_types.meet_below2)
    moreover have "fst (cells' ! unat t) AND fst (?c ! unat t) = fst (cells' ! unat t)"
      using propagate_cells [OF rec, of "unat t"] lt by simp
    ultimately show ?thesis
      using lt True reg_types.below_trans by blast
  next
    case False
    with Cons.prems Cons.IH [OF rec] show ?thesis by (auto split: if_splits)
  qed
qed

lemma check_loop_stable:
  assumes "check_loop ins cells = IC_OK"
    and "\<forall>pc < length cells. snd (cells ! pc) \<or> stable_at ins (map fst cells) pc"
  shows "\<exists>ms. length ms = length cells \<and>
    (\<forall>i < length cells. ms ! i AND fst (cells ! i) = ms ! i) \<and>
    (\<forall>pc < length cells. stable_at ins ms pc)"
  using assms
proof (induction ins cells rule: check_loop.induct)
  case (1 ins cells)
  show ?case
  proof (cases "next_pending cells")
    case None
    then have "\<forall>pc < length cells. \<not> snd (cells ! pc)"
      by (auto simp: next_pending_def find_None_iff)
    with "1.prems"(2) show ?thesis by (intro exI [of _ "map fst cells"]) auto
  next
    case (Some pc)
    let ?st = "fst (cells ! pc)"
    let ?c1 = "cells[pc := (?st, False)]"
    let ?ss = "insn_succ (ins ! pc) (of_nat pc)"
    from next_pending_Some [OF Some] have pc: "pc < length cells" by simp
    from "1.prems"(1) Some obtain c2 where
      chk: "insn_check (ins ! pc) ?st" and
      pg: "propagate (insn_out (ins ! pc) ?st) ?ss ?c1 = Some c2" and
      rec: "check_loop ins c2 = IC_OK"
      by (auto simp: check_loop.simps [of ins cells] Let_def split: if_splits option.splits)
    have len: "length c2 = length cells" using length_propagate [OF pg] by simp
    have lower: "fst (c2 ! i) AND fst (cells ! i) = fst (c2 ! i)" if "i < length cells" for i
      using propagate_cells [OF pg, of i] that pc by (cases "i = pc") simp_all
    have kept: "snd (c2 ! i) \<or> c2 ! i = ?c1 ! i" if "i < length cells" for i
      using propagate_cells [OF pg, of i] that by simp
    have "snd (c2 ! q) \<or> stable_at ins (map fst c2) q" if q: "q < length c2" for q
    proof (cases "snd (c2 ! q)")
      case False
      have same: "c2 ! q = ?c1 ! q" using kept [of q] q len False by simp
      have below: "unat s < length cells \<and>
          fst (c2 ! unat s) AND insn_out (ins ! q) (fst (c2 ! q)) = fst (c2 ! unat s)"
        if s: "s \<in> set (insn_succ (ins ! q) (of_nat q))" for s
      proof (cases "q = pc")
        case True
        with same pc have "fst (c2 ! q) = ?st" by simp
        with propagate_below [OF pg, of s] s True show ?thesis by simp
      next
        case False
        with same have "c2 ! q = cells ! q" by simp
        moreover from this have "stable_at ins (map fst cells) q"
          using "1.prems"(2) q len \<open>\<not> snd (c2 ! q)\<close> by auto
        ultimately have "unat s < length cells" "fst (cells ! unat s) AND
            insn_out (ins ! q) (fst (c2 ! q)) = fst (cells ! unat s)"
          using s q len by (auto simp: stable_at_def)
        with lower [of "unat s"] show ?thesis using reg_types.below_trans by blast
      qed
      have "insn_check (ins ! q) (fst (c2 ! q))"
      proof (cases "q = pc")
        case True
        with same pc chk show ?thesis by simp
      next
        case False
        with same "1.prems"(2) q len \<open>\<not> snd (c2 ! q)\<close> show ?thesis
          by (auto simp: stable_at_def)
      qed
      with below q len show ?thesis by (simp add: stable_at_def)
    qed simp
    then obtain ms where ms: "length ms = length c2"
      "\<forall>i < length c2. ms ! i AND fst (c2 ! i) = ms ! i"
      "\<forall>pc < length c2. stable_at ins ms pc"
      using "1.IH" [OF Some refl refl refl _ pg rec] chk by blast
    have "ms ! i AND fst (cells ! i) = ms ! i" if "i < length cells" for i
      using ms(2) lower that len reg_types.below_trans by metis
    with ms len show ?thesis by auto
  qed
qed

subsection \<open>Type states bit by bit\<close>

text \<open>Register \<open>r\<close> owns the bits \<open>2r\<close> and \<open>2r + 1\<close> of a state.\<close>

definition reg_live :: "u32 \<Rightarrow> u8 \<Rightarrow> bool" where
  "reg_live m r \<longleftrightarrow> bit m (2 * unat r) \<or> bit m (2 * unat r + 1)"

lemma bit_3: "bit (3::u32) n \<longleftrightarrow> n < 2"
proof -
  have "(3::u32) = mask 2" by (simp add: mask_eq_exp_minus_1)
  then have "bit (3::u32) n \<longleftrightarrow> bit (mask 2 :: u32) n" by (rule arg_cong)
  then show ?thesis by (auto simp only: bit_mask_iff) auto
qed

lemma bit_1: "bit (1::u32) n \<longleftrightarrow> n = 0"
  by (simp add: bit_1_iff)

lemma bit_2: "bit (2::u32) n \<longleftrightarrow> n = 1"
  using bit_exp_iff [of 1 n, where 'a = "32 word"] by auto

lemma all_less_two: "(\<forall>n < (2::nat). P n) \<longleftrightarrow> P 0 \<and> P 1"
  by (auto simp: less_2_cases_iff)

lemma reg_type_bottom: "reg_type m r = T_BOTTOM \<longleftrightarrow> \<not> reg_live m r"
proof -
  have "x AND 3 = 0 \<longleftrightarrow> \<not> bit x 0 \<and> \<not> bit x 1" for x :: u32
  proof -
    have "x AND 3 = 0 \<longleftrightarrow> (\<forall>n. bit (x AND 3) n \<longleftrightarrow> bit (0::u32) n)"
      by (metis bit_word_eqI)
    also have "\<dots> \<longleftrightarrow> (\<forall>n < 2. \<not> bit x n)" by (simp only: bit_and_iff bit_3) auto
    finally show ?thesis by (simp add: all_less_two)
  qed
  then show ?thesis
    by (simp add: reg_type_def T_BOTTOM_def T_MASK_def reg_live_def bit_drop_bit_eq add.commute)
qed

lemma reg_type_ctx: "reg_type m r = T_CTX \<Longrightarrow> bit m (2 * unat r + 1)"
proof -
  have "x AND 3 = 2 \<Longrightarrow> bit x 1" for x :: u32
    by (metis bit_2 bit_and_iff)
  from this [of "drop_bit (2 * unat r) m"]
  show "reg_type m r = T_CTX \<Longrightarrow> bit m (2 * unat r + 1)"
    by (simp add: reg_type_def T_CTX_def T_MASK_def bit_drop_bit_eq add.commute)
qed

lemma bit_set_scalar:
  assumes "unat r \<le> 10"
  shows "bit (set_type m r T_SCALAR) n \<longleftrightarrow>
    n = 2 * unat r \<or> (n \<noteq> 2 * unat r \<and> n \<noteq> 2 * unat r + 1 \<and> bit m n)"
  using assms bit_imp_le_length [of m n]
  by (auto simp: set_type_def T_SCALAR_def T_MASK_def bit_or_iff bit_and_iff bit_not_iff
      bit_push_bit_iff bit_exp_iff bit_3 less_2_cases_iff simp del: bit_numeral_word_iff)

lemma bit_reg_bit: "unat r < 32 \<Longrightarrow> bit (reg_bit r) n \<longleftrightarrow> n = unat r"
  by (auto simp: reg_bit_def bit_exp_iff)

lemma and_reg_bit: "w AND reg_bit r \<noteq> 0 \<longleftrightarrow> bit w (unat r)"
  by (simp add: reg_bit_def bit_iff_and_push_bit_not_eq_0)

lemma set_regs11: "r \<in> set regs11 \<longleftrightarrow> unat r \<le> 10"
proof -
  have "unat r \<le> 10 \<longleftrightarrow> unat r \<in> {0, 1, 2, 3, 4, 5, 6, 7, 8, 9, 10}" by simp arith
  then show ?thesis by (simp add: regs11_def word_unat_eq_iff)
qed

lemma set_written_bits:
  assumes "unat x \<le> 10" "unat r \<le> 10"
  shows "bit (set_written writes st x) (2 * unat r + 1) \<Longrightarrow> bit st (2 * unat r + 1)"
    and "reg_live (set_written writes st x) r \<Longrightarrow> reg_live st r \<or> bit writes (unat r)"
  using assms
  by (auto simp: set_written_def bit_set_scalar reg_live_def and_reg_bit split: if_splits; presburger)+

lemma fold_written_bits:
  assumes "\<forall>x \<in> set rs. unat x \<le> 10" "unat r \<le> 10"
  shows "(bit (foldl (set_written writes) st rs) (2 * unat r + 1) \<longrightarrow> bit st (2 * unat r + 1)) \<and>
    (reg_live (foldl (set_written writes) st rs) r \<longrightarrow> reg_live st r \<or> bit writes (unat r))"
  using assms(1)
proof (induction rs arbitrary: st)
  case Nil
  then show ?case by simp
next
  case (Cons x rs)
  with set_written_bits [of x r writes st] assms(2) show ?case by auto
qed

lemma insn_out_bits:
  assumes r: "unat r \<le> 10"
  shows "bit (insn_out e m) (2 * unat r + 1) \<Longrightarrow> bit m (2 * unat r + 1)"
    and "reg_live (insn_out e m) r \<Longrightarrow> reg_live m r \<or> bit (insn_writes e) (unat r)"
proof -
  let ?w = "insn_writes e"
  let ?out = "foldl (set_written ?w) m regs11"
  have fold: "(bit ?out (2 * unat r + 1) \<longrightarrow> bit m (2 * unat r + 1)) \<and>
      (reg_live ?out r \<longrightarrow> reg_live m r \<or> bit ?w (unat r))"
    using r by (intro fold_written_bits) (simp_all add: set_regs11)
  show "bit (insn_out e m) (2 * unat r + 1) \<Longrightarrow> bit m (2 * unat r + 1)"
    using fold r bit_set_scalar [of 0 ?out "2 * unat r + 1"]
    by (auto simp: insn_out_def Let_def split: if_splits)
  show "reg_live (insn_out e m) r \<Longrightarrow> reg_live m r \<or> bit ?w (unat r)"
  proof (cases "(e_op e AND 7 = 5 \<or> e_op e AND 7 = 6) \<and> e_op e AND 0xf0 = 0x80")
    case True
    then have "bit ?w 0" by (auto simp: insn_writes_def Let_def)
    then show "reg_live (insn_out e m) r \<Longrightarrow> reg_live m r \<or> bit ?w (unat r)"
      using fold True bit_set_scalar [of 0 ?out]
      by (cases "unat r = 0") (auto simp: insn_out_def Let_def reg_live_def)
  next
    case False
    then have "insn_out e m = ?out" by (auto simp: insn_out_def Let_def)
    with fold show "reg_live (insn_out e m) r \<Longrightarrow> reg_live m r \<or> bit ?w (unat r)" by simp
  qed
qed


subsection \<open>What the shape check says of an opcode\<close>

lemma hi_cases:
  "(x::u8) AND 0xf0 \<in> {0, 0x10, 0x20, 0x30, 0x40, 0x50, 0x60, 0x70, 0x80, 0x90, 0xa0, 0xb0,
     0xc0, 0xd0, 0xe0, 0xf0}"
proof -
  have f0: "(0xf0::u8) = NOT (mask 4)" by (simp add: mask_eq_exp_minus_1)
  have "x AND 0xf0 = push_bit 4 (drop_bit 4 x)"
    unfolding f0
    by (rule bit_word_eqI)
      (auto simp: bit_and_iff bit_not_iff bit_mask_iff bit_push_bit_iff bit_drop_bit_eq
        simp del: push_bit_numeral mask_numeral)
  moreover have "drop_bit 4 x \<in> {0, 1, 2, 3, 4, 5, 6, 7, 8, 9, 10, 11, 12, 13, 14, 15}"
  proof -
    have "unat x < 256" using unsigned_less [of x] by simp
    then have "unat (drop_bit 4 x) < 16" by (simp add: drop_bit_eq_div unat_div)
    then show ?thesis by (simp add: word_unat_eq_iff) arith
  qed
  ultimately show ?thesis by (elim insertE emptyE) simp_all
qed

definition div32_reg :: "u64 \<Rightarrow> bool" where
  "div32_reg e \<longleftrightarrow>
     e_op e AND 0x07 = 0x04 \<and> (e_op e AND 0xf0 = 0x30 \<or> e_op e AND 0xf0 = 0x90) \<and>
     e_op e AND 0x08 \<noteq> 0"

definition neg_insn :: "u64 \<Rightarrow> bool" where
  "neg_insn e \<longleftrightarrow>
     (e_op e AND 0x07 = 0x04 \<or> e_op e AND 0x07 = 0x07) \<and> e_op e AND 0xf0 = 0x80"

text \<open>The outcomes that an accepted instruction may have.\<close>

definition insn_benign :: "bool \<Rightarrow> u64 \<Rightarrow> step_result \<Rightarrow> bool" where
  "insn_benign c e r =
     (case r of
        Running st \<Rightarrow> True
      | Exited v st \<Rightarrow> True
      | Faulted f st \<Rightarrow> f \<in> {FAULT_DIV0, FAULT_MEM, FAULT_FP} \<or> c \<and> f = FAULT_CALL
      | Undefined u \<Rightarrow> u = UB_DIVISION \<and> div32_reg e \<or> u = UB_OVERFLOW \<and> neg_insn e)"

lemma alu_switch_Val:
  assumes "hi = x AND 0xf0"
    and "hi \<le> 0xc0 \<or> hi = 0xd0 \<and> i_op i AND 8 \<noteq> 0 \<and> (ucast (i_imm i) :: u8) \<in> {16, 32, 64}"
  shows "alu_switch is64 i hi v arg = AFault f \<Longrightarrow> f = FAULT_DIV0"
    and "alu_switch is64 i hi v arg = AUndef u \<Longrightarrow>
      u = UB_OVERFLOW \<and> hi = 0x80 \<or>
      u = UB_DIVISION \<and> \<not> is64 \<and> (hi = 0x30 \<or> hi = 0x90) \<and> arg \<noteq> 0 \<and> (ucast arg :: u32) = 0"
proof -
  show "alu_switch is64 i hi v arg = AFault f \<Longrightarrow> f = FAULT_DIV0"
    using assms(2) hi_cases [of x] unfolding assms(1) [symmetric]
    by (elim insertE emptyE) (auto simp: alu_switch_def alu_end_def Let_def split: if_splits)
  show "alu_switch is64 i hi v arg = AUndef u \<Longrightarrow>
      u = UB_OVERFLOW \<and> hi = 0x80 \<or>
      u = UB_DIVISION \<and> \<not> is64 \<and> (hi = 0x30 \<or> hi = 0x90) \<and> arg \<noteq> 0 \<and> (ucast arg :: u32) = 0"
    using hi_cases [of x] unfolding assms(1) [symmetric]
    by (elim insertE emptyE) (auto simp: alu_switch_def alu_end_def Let_def split: if_splits)
qed

lemma jmp_switch_Taken:
  assumes "hi = x AND 0xf0" "hi \<le> 0xd0"
  shows "jmp_switch hi a b \<noteq> JBad" "jmp_switch hi a b = JCall \<Longrightarrow> hi = 0x80"
    "jmp_switch hi a b = JExit \<Longrightarrow> hi = 0x90"
    "jmp_switch hi a b = Taken t \<Longrightarrow> hi \<noteq> 0x80 \<and> hi \<noteq> 0x90 \<and> (hi = 0 \<longrightarrow> t)"
  using assms(2) hi_cases [of x] unfolding assms(1) [symmetric]
  by (elim insertE emptyE; auto simp: jmp_switch_def)+


subsection \<open>One accepted instruction\<close>

text \<open>The call the theorems are about: enough instruction words and a map the helpers accept.\<close>

definition map_ok :: "ebpf_prog \<Rightarrow> u32 list option \<Rightarrow> bool" where
  "map_ok p mp \<longleftrightarrow>
     p_map_cells p \<noteq> 0 \<and> p_map_cells p AND (p_map_cells p - 1) = 0 \<and>
     (\<exists>m. mp = Some m \<and> unat (p_map_cells p) \<le> length m)"

text \<open>
  The monitor also runs programs without a map; a helper call then faults.  What is needed for
  safety is only that a map the helpers would accept is as long as it claims to be.
\<close>

definition map_sane :: "ebpf_prog \<Rightarrow> u32 list option \<Rightarrow> bool" where
  "map_sane p mp \<longleftrightarrow>
     (p_map_cells p \<noteq> 0 \<and> p_map_cells p AND (p_map_cells p - 1) = 0 \<longrightarrow>
        (\<forall>m. mp = Some m \<longrightarrow> unat (p_map_cells p) \<le> length m))"

lemma map_ok_sane: "map_ok p mp \<Longrightarrow> map_sane p mp"
  by (auto simp: map_ok_def map_sane_def)

lemma map_index:
  assumes "p_map_cells p \<noteq> 0"
  shows "unat (x AND (p_map_cells p - 1)) < unat (p_map_cells p)"
proof -
  have "1 \<le> p_map_cells p" using assms by (simp add: word_le_nat_alt unat_gt_0 Suc_leI)
  then have "unat (p_map_cells p - 1) < unat (p_map_cells p)"
    by (simp add: unat_sub word_le_nat_alt)
  moreover have "x AND (p_map_cells p - 1) \<le> p_map_cells p - 1" by (rule word_and_le1)
  ultimately show ?thesis by (simp add: word_le_nat_alt)
qed

lemma decode_fields:
  "decode_insn e = \<lparr>i_op = e_op e, i_dst = e_dst e, i_src = e_src e, i_off = e_off e, i_imm = e_imm e\<rparr>"
  by (simp add: decode_insn_def e_op_def e_dst_def e_src_def e_off_def e_imm_def)

lemma imm_cases:
  assumes "drop_bit 32 e = 16 \<or> drop_bit 32 e = 32 \<or> drop_bit 32 e = (64::u64)"
  shows "(ucast (e_imm e) :: u8) \<in> {16, 32, 64}"
  using assms by (auto simp: e_imm_def)

lemma insn_checkD:
  "insn_check e m \<Longrightarrow> bit (insn_reads e) (unat r) \<Longrightarrow> unat r \<le> 10 \<Longrightarrow>
    read_ok (e_op e AND 0x07) m r"
  unfolding insn_check_def Let_def list_all_iff by (metis set_regs11 and_reg_bit)

lemma read_okD:
  "read_ok cls m r \<Longrightarrow> reg_live m r"
  "read_ok 0x01 m r \<Longrightarrow> bit m (2 * unat r + 1)"
  by (auto simp: read_ok_def Let_def reg_type_bottom dest: reg_type_ctx split: if_splits)

definition ctx_only :: "u32 \<Rightarrow> bool" where
  "ctx_only m \<longleftrightarrow> (\<forall>r::u8. unat r \<le> 10 \<longrightarrow> bit m (2 * unat r + 1) \<longrightarrow> r = 1)"

lemma ldx_reads: "e_op e AND 7 = 1 \<Longrightarrow> insn_reads e = reg_bit (e_src e)"
  by (simp add: insn_reads_def Let_def)

lemma alu_safe:
  assumes shape: "shape_ok cnt pc e" and chk: "insn_check e m"
    and cls: "e_op e AND 0x07 = 0x04 \<or> e_op e AND 0x07 = 0x07"
  shows "insn_benign c e (alu_step st (decode_insn e) (e_op e AND 0x07 = 0x07) (e_op e AND 0xf0))"
proof -
  let ?hi = "e_op e AND 0xf0" and ?is64 = "e_op e AND 0x07 = 0x07" and ?i = "decode_insn e"
  have known: "opcode_known (e_op e)" and
    endian: "?hi = 0xd0 \<Longrightarrow> e_op e AND 8 \<noteq> 0 \<Longrightarrow>
      drop_bit 32 e = 16 \<or> drop_bit 32 e = 32 \<or> drop_bit 32 e = 64"
    using shape cls by (auto simp: shape_ok_def Let_def split: if_splits)
  have "?hi \<le> 0xc0 \<or> ?hi = 0xd0 \<and> e_op e AND 8 \<noteq> 0"
    using known cls by (auto simp: opcode_known_def Let_def split: if_splits)
  then have hi: "?hi \<le> 0xc0 \<or> ?hi = 0xd0 \<and> i_op ?i AND 8 \<noteq> 0 \<and>
      (ucast (i_imm ?i) :: u8) \<in> {16, 32, 64}"
    using endian imm_cases [of e] by (auto simp: decode_fields)
  show ?thesis
  proof (cases "alu_step st ?i ?is64 ?hi")
    case (Faulted f st')
    then have "f = FAULT_FP \<or> f = FAULT_DIV0"
      using alu_switch_Val(1) [OF refl hi] by (blast dest: alu_step_Faulted)
    with Faulted show ?thesis by (auto simp: insn_benign_def)
  next
    case (Undefined u)
    then obtain v where "alu_switch ?is64 ?i ?hi v (alu_arg st ?i ?is64 ?hi) = AUndef u"
      by (auto simp: alu_step_def Let_def split: if_splits alu_result.splits)
    then consider "u = UB_OVERFLOW" "?hi = 0x80"
      | "u = UB_DIVISION" "\<not> ?is64" "?hi = 0x30 \<or> ?hi = 0x90"
        "alu_arg st ?i ?is64 ?hi \<noteq> 0" "(ucast (alu_arg st ?i ?is64 ?hi) :: u32) = 0"
      using alu_switch_Val(2) [OF refl hi] by blast
    then show ?thesis
    proof cases
      case 1
      with Undefined cls show ?thesis by (auto simp: insn_benign_def neg_insn_def)
    next
      case 2
      then have "e_op e AND 8 \<noteq> 0" by (auto simp: alu_arg_def decode_fields ucast_u32_u64 split: if_splits)
      with Undefined 2 cls show ?thesis by (auto simp: insn_benign_def div32_reg_def)
    qed
  qed (simp_all add: insn_benign_def alu_step_def Let_def split: if_splits alu_result.splits)
qed

lemma alu_succ:
  assumes "e_op e AND 0x07 = 0x04 \<or> e_op e AND 0x07 = 0x07"
    and "alu_step st (decode_insn e) is64 op = Running st'"
  shows "s_pc st' \<in> set (insn_succ e (s_pc st))"
  using assms(1) alu_step_Running [OF assms(2)] by (auto simp: insn_succ_def Let_def)

lemma call_safe:
  assumes shape: "shape_ok cnt pc e" and call: "e_op e AND 0x07 = 0x05" "e_op e AND 0xf0 = 0x80"
    and mp: "map_ok p (s_map st)"
  shows "\<exists>st'. call_step p st (decode_insn e) = Running st'"
proof -
  have "e_imm e \<noteq> 0" "\<not> e_imm e > 2"
    using shape call by (auto simp: shape_ok_def Let_def split: if_splits)
  then have "unat (e_imm e) = 1 \<or> unat (e_imm e) = 2"
    by (simp add: word_less_nat_alt not_less word_unat_eq_iff) arith
  then have imm: "e_imm e = 1 \<or> e_imm e = 2" by (simp add: word_unat_eq_iff)
  from mp obtain m where m: "s_map st = Some m" "unat (p_map_cells p) \<le> length m"
    and cells: "p_map_cells p \<noteq> 0" "p_map_cells p AND (p_map_cells p - 1) = 0"
    by (auto simp: map_ok_def)
  have "unat (ucast (s_regs st ! 1) AND (p_map_cells p - 1)) < length m"
    using map_index [OF cells(1)] m(2) by (rule less_le_trans)
  then show ?thesis
    using imm m cells by (auto simp: call_step_def Let_def decode_fields)
qed

lemma call_without_map:
  assumes "map_sane p (s_map st)" "\<not> map_ok p (s_map st)"
  shows "call_step p st i = Faulted FAULT_CALL st"
  using assms by (cases "s_map st") (auto simp: map_sane_def map_ok_def call_step_def)

lemma jmp_step_cases:
  assumes hi: "hi = x AND 0xf0" "hi \<le> 0xd0" and call: "hi \<noteq> 0x80"
  shows "jmp_step p st i is32 hi = Exited (s_regs st ! 0) st \<or>
    (\<exists>t. jmp_step p st i is32 hi = Running
       (st\<lparr>s_pc := if t then jump_target (s_pc st) (i_off i) else s_pc st + 1\<rparr>) \<and>
       hi \<noteq> 0x90 \<and> (hi = 0 \<longrightarrow> t))"
proof -
  obtain res where "\<exists>(a::u32) b (c::u64) d. res = jmp_switch hi a b \<or> res = jmp_switch hi c d"
    and step: "jmp_step p st i is32 hi = (case res of
              JCall \<Rightarrow> Faulted FAULT_CALL st
            | JExit \<Rightarrow> Exited (s_regs st ! 0) st
            | JBad \<Rightarrow> Faulted FAULT_OPCODE st
            | Taken t \<Rightarrow>
                Running (st\<lparr>s_pc := (if t then jump_target (s_pc st) (i_off i)
                                     else s_pc st + 1)\<rparr>))"
    using call unfolding jmp_step_def Let_def by (cases is32) (simp, blast)+
  then have "res \<noteq> JBad" "res \<noteq> JCall" "res = Taken t \<Longrightarrow> hi \<noteq> 0x90 \<and> (hi = 0 \<longrightarrow> t)" for t
    using jmp_switch_Taken [OF hi] call by metis+
  with step show ?thesis by (cases res) auto
qed

lemma jmp_safe:
  assumes shape: "shape_ok cnt pc e" and mp: "map_sane p (s_map st)" "\<not> c \<Longrightarrow> map_ok p (s_map st)"
    and cls: "e_op e AND 0x07 = 0x05 \<or> e_op e AND 0x07 = 0x06"
  shows "insn_benign c e (jmp_step p st (decode_insn e) (e_op e AND 0x07 = 0x06) (e_op e AND 0xf0)) \<and>
    (\<forall>st'. jmp_step p st (decode_insn e) (e_op e AND 0x07 = 0x06) (e_op e AND 0xf0) = Running st' \<longrightarrow>
       s_pc st' \<in> set (insn_succ e (s_pc st)))"
proof -
  let ?hi = "e_op e AND 0xf0" and ?is32 = "e_op e AND 0x07 = 0x06" and ?i = "decode_insn e"
  have "opcode_known (e_op e)" and no32: "?hi = 0x80 \<Longrightarrow> \<not> ?is32"
    using shape cls by (auto simp: shape_ok_def Let_def split: if_splits)
  then have hi: "?hi \<le> 0xd0"
    using cls by (auto simp: opcode_known_def Let_def word_le_nat_alt split: if_splits)
  show ?thesis
  proof (cases "?hi = 0x80")
    case True
    show ?thesis
    proof (cases "map_ok p (s_map st)")
      case ok: True
      then obtain st' where st': "call_step p st ?i = Running st'"
        using call_safe [OF shape _ _ ok] True no32 cls by blast
      have "s_pc st' = s_pc st + 1" using call_step_Running [OF st'] by simp
      with st' True no32 cls show ?thesis
        by (auto simp: jmp_step_def insn_benign_def insn_succ_def Let_def)
    next
      case no_map: False
      then have c by (rule contrapos_np) (rule mp(2))
      with call_without_map [OF mp(1) no_map] True no32 cls show ?thesis
        by (auto simp: jmp_step_def insn_benign_def Let_def)
    qed
  next
    case False
    have shapes: "jmp_step p st ?i ?is32 ?hi = Exited (s_regs st ! 0) st \<or>
        (\<exists>t. jmp_step p st ?i ?is32 ?hi = Running
          (st\<lparr>s_pc := if t then jump_target (s_pc st) (i_off ?i) else s_pc st + 1\<rparr>) \<and>
          ?hi \<noteq> 0x90 \<and> (?hi = 0 \<longrightarrow> t))"
      using False jmp_step_cases [OF refl hi] by metis
    then show ?thesis
      using False cls
      by (auto simp: insn_benign_def insn_succ_def jump_target_def decode_fields Let_def)
  qed
qed

lemma ldx_safe:
  assumes shape: "shape_ok cnt pc e" and chk: "insn_check e m" and only: "ctx_only m"
    and cls: "e_op e AND 0x07 = 0x01" and ctx: "ctx_ok p"
  shows "insn_benign c e (ldx_step p st (decode_insn e)) \<and>
    (\<forall>st'. ldx_step p st (decode_insn e) = Running st' \<longrightarrow>
       s_pc st' \<in> set (insn_succ e (s_pc st)))"
proof -
  let ?i = "decode_insn e"
  have known: "opcode_known (e_op e)" and dst: "e_dst e \<noteq> 10" and src: "unat (e_src e) \<le> 10"
    using shape cls by (auto simp: shape_ok_def Let_def not_less word_le_nat_alt split: if_splits)
  have mode: "e_op e AND 0xe0 = 0x60" using known cls by (simp add: opcode_known_def Let_def)
  have "bit (insn_reads e) (unat (e_src e))"
    using src cls by (simp add: ldx_reads bit_reg_bit)
  then have "bit m (2 * unat (e_src e) + 1)"
    using insn_checkD [OF chk _ src] read_okD(2) cls by metis
  then have "e_src e = 1" using only src by (simp add: ctx_only_def)
  then have "ldx_step p st ?i \<noteq> Faulted FAULT_OPCODE st'" for st'
    using dst mode by (auto simp: ldx_step_def decode_fields Let_def split: option.splits)
  then have "ldx_step p st ?i = Faulted f st' \<Longrightarrow> f = FAULT_MEM" for f st'
    by (blast dest: ldx_step_Faulted)
  moreover have "ldx_step p st ?i \<noteq> Undefined u" for u
    by (rule ldx_step_defined [OF ctx])
  moreover have "ldx_step p st ?i = Running st' \<Longrightarrow> s_pc st' = s_pc st + 1" for st'
    by (simp add: ldx_step_Running)
  ultimately show ?thesis
    using cls by (auto simp: insn_benign_def insn_succ_def Let_def split: step_result.splits)
qed

lemma exec_safe:
  assumes shape: "shape_ok cnt pc e" and "insn_check e m" "ctx_only m"
    and "map_sane p (s_map st)" "\<not> c \<Longrightarrow> map_ok p (s_map st)" "ctx_ok p"
  shows "insn_benign c e (exec_insn p st (decode_insn e)) \<and>
    (\<forall>st'. exec_insn p st (decode_insn e) = Running st' \<longrightarrow>
       s_pc st' \<in> set (insn_succ e (s_pc st)))"
proof -
  let ?cls = "e_op e AND 0x07"
  have regs: "\<not> (i_dst (decode_insn e) > 10 \<or> i_src (decode_insn e) > 10)"
    and "opcode_known (e_op e)"
    using shape by (auto simp: shape_ok_def decode_fields Let_def split: if_splits)
  then consider "?cls = 0x04 \<or> ?cls = 0x07" | "?cls = 0x05 \<or> ?cls = 0x06" | "?cls = 0x01"
    by (auto simp: opcode_known_def Let_def split: if_splits)
  then show ?thesis
  proof cases
    case 1
    then have "exec_insn p st (decode_insn e) =
        alu_step st (decode_insn e) (?cls = 0x07) (e_op e AND 0xf0)"
      using regs by (auto simp: exec_insn_def Let_def decode_fields)
    with 1 assms alu_succ alu_safe show ?thesis by metis
  next
    case 2
    then have "exec_insn p st (decode_insn e) =
        jmp_step p st (decode_insn e) (?cls = 0x06) (e_op e AND 0xf0)"
      using regs by (auto simp: exec_insn_def Let_def decode_fields)
    with 2 assms jmp_safe show ?thesis by metis
  next
    case 3
    then have "exec_insn p st (decode_insn e) = ldx_step p st (decode_insn e)"
      using regs by (auto simp: exec_insn_def Let_def decode_fields)
    with 3 assms ldx_safe show ?thesis by metis
  qed
qed

subsection \<open>Accepted programs\<close>

lemma program_check_typed:
  assumes "ic_program_check (Some ins) cnt = IC_OK"
  shows "0 < unat cnt \<and> unat cnt \<le> 64 \<and> (\<forall>pc < unat cnt. shape_ok cnt pc (ins ! pc)) \<and>
    (\<exists>ms. length ms = unat cnt \<and> (\<forall>pc < unat cnt. stable_at ins ms pc) \<and>
       (\<forall>n. bit (ms ! 0) n \<longrightarrow> n = 3))"
proof -
  let ?cells = "(replicate (unat cnt) (0xffffffff, True))[0 := (set_type 0 1 T_CTX, True)]"
  have cnt: "0 < unat cnt" "unat cnt \<le> 64" and shape: "\<forall>pc < unat cnt. shape_ok cnt pc (ins ! pc)"
    and "check_loop ins ?cells = IC_OK"
    using assms by (auto simp: ic_program_check_def check_regs_def IC_PROG_MAX_INSNS_def list_all_iff
        not_less word_le_nat_alt unat_gt_0 split: if_splits)
  have "\<forall>pc < length ?cells. snd (?cells ! pc) \<or> stable_at ins (map fst ?cells) pc"
    by (simp add: nth_list_update)
  with \<open>check_loop ins ?cells = IC_OK\<close> obtain ms where
    ms: "length ms = unat cnt" "\<forall>pc < unat cnt. stable_at ins ms pc"
    and "\<forall>i < unat cnt. ms ! i AND fst (?cells ! i) = ms ! i"
    using check_loop_stable [of ins ?cells] by auto
  then have entry: "ms ! 0 AND set_type 0 1 T_CTX = ms ! 0"
    using cnt by (auto dest: spec [of _ 0])
  have "n = 3" if "bit (ms ! 0) n" for n
  proof -
    have "set_type 0 1 T_CTX = (8::u32)" by (simp add: set_type_def T_CTX_def T_MASK_def)
    moreover have "bit (set_type 0 1 T_CTX) n" using entry that by (rule word_and_bits)
    moreover have "(8::u32) = 2 ^ 3" by simp
    ultimately show ?thesis by (metis bit_exp_iff)
  qed
  with cnt shape ms show ?thesis by blast
qed

subsection \<open>Accepted programs run safely\<close>

definition run_outcome :: "bool \<Rightarrow> ebpf_prog \<Rightarrow> run_result \<Rightarrow> bool" where
  "run_outcome c p r =
     (case r of
        Ret k res m \<Rightarrow>
          r_fault res \<in> {EBPF_OK, FAULT_STEPS, FAULT_MEM, FAULT_DIV0, FAULT_FP} \<or>
          c \<and> r_fault res = FAULT_CALL
      | Undef u \<Rightarrow>
          u = UB_DIVISION \<and> (\<exists>pc < unat (p_insn_cnt p). div32_reg (p_ins p ! pc)) \<or>
          u = UB_OVERFLOW \<and> (\<exists>pc < unat (p_insn_cnt p). neg_insn (p_ins p ! pc)))"

text \<open>The outcomes with a map, where a helper call cannot fault.\<close>

definition safe_outcome :: "ebpf_prog \<Rightarrow> run_result \<Rightarrow> bool" where
  "safe_outcome p r = run_outcome False p r"

text \<open>The invariant at the loop head: the pc is inside the image and typed, the map is intact.\<close>

definition typed_state :: "bool \<Rightarrow> ebpf_prog \<Rightarrow> u32 list \<Rightarrow> ebpf_state \<Rightarrow> bool" where
  "typed_state c p ms st \<longleftrightarrow>
     s_pc st < p_insn_cnt p \<and> ctx_only (ms ! unat (s_pc st)) \<and> map_sane p (s_map st) \<and>
     (\<not> c \<longrightarrow> map_ok p (s_map st))"

lemma map_ok_length:
  "map_option length mp' = map_option length mp \<Longrightarrow> map_ok p mp \<Longrightarrow> map_ok p mp'"
  by (cases mp; cases mp') (auto simp: map_ok_def)

lemma map_sane_length:
  "map_option length mp' = map_option length mp \<Longrightarrow> map_sane p mp \<Longrightarrow> map_sane p mp'"
  by (cases mp; cases mp') (auto simp: map_sane_def)

lemma ctx_only_below:
  assumes "ctx_only m" "m' AND insn_out e m = m'"
  shows "ctx_only m'"
  using assms(1) insn_out_bits(1) word_and_bits [OF assms(2)] unfolding ctx_only_def by blast

lemma ebpf_step_typed:
  assumes shape: "\<forall>pc < unat (p_insn_cnt p). shape_ok (p_insn_cnt p) pc (p_ins p ! pc)"
    and ms: "length ms = unat (p_insn_cnt p)"
      "\<forall>pc < unat (p_insn_cnt p). stable_at (p_ins p) ms pc"
    and inv: "typed_state c p ms st" and ctx: "ctx_ok p"
  shows "case ebpf_step p st of
       Running st' \<Rightarrow> typed_state c p ms st'
     | Exited v st' \<Rightarrow> run_outcome c p (out_exit v st')
     | Faulted f st' \<Rightarrow> run_outcome c p (out_fault f st')
     | Undefined u \<Rightarrow> run_outcome c p (Undef u)"
proof -
  let ?pc = "unat (s_pc st)" and ?e = "p_ins p ! unat (s_pc st)"
  let ?st = "st\<lparr>s_steps := s_steps st + 1, s_insns := s_insns st + 1\<rparr>"
  have pc: "?pc < unat (p_insn_cnt p)" using inv by (simp add: typed_state_def word_less_nat_alt)
  then have sh: "shape_ok (p_insn_cnt p) ?pc ?e" and st: "stable_at (p_ins p) ms ?pc"
    using shape ms by auto
  then have chk: "insn_check ?e (ms ! ?pc)" by (simp add: stable_at_def)
  have only: "ctx_only (ms ! ?pc)" and sane: "map_sane p (s_map ?st)"
    and mp: "\<not> c \<Longrightarrow> map_ok p (s_map ?st)"
    using inv by (auto simp: typed_state_def)
  note ex = exec_safe [OF sh chk only sane mp ctx]
  show ?thesis
  proof (cases "s_steps st + 1 > p_max_steps p")
    case True
    then show ?thesis
      using inv by (auto simp: ebpf_step_def Let_def run_outcome_def out_fault_def typed_state_def)
  next
    case False
    then have step: "ebpf_step p st = exec_insn p ?st (decode_insn ?e)"
      using inv by (auto simp: ebpf_step_def Let_def typed_state_def)
    show ?thesis
    proof (cases "exec_insn p ?st (decode_insn ?e)")
      case (Running st')
      have succ: "s_pc st' \<in> set (insn_succ ?e (of_nat ?pc))" using ex Running by simp
      then have "unat (s_pc st') < unat (p_insn_cnt p)" "ctx_only (ms ! unat (s_pc st'))"
        using st only ms(1) by (auto simp: stable_at_def intro: ctx_only_below)
      moreover have "map_sane p (s_map st')" "\<not> c \<longrightarrow> map_ok p (s_map st')"
        using exec_insn_Running [OF Running] map_ok_length [OF _ mp] map_sane_length [OF _ sane]
        by (simp_all add: same_frame_def)
      ultimately show ?thesis using Running step by (simp add: typed_state_def word_less_nat_alt)
    next
      case (Undefined u)
      then show ?thesis using ex step pc by (auto simp: run_outcome_def insn_benign_def)
    qed (use ex step in \<open>auto simp: run_outcome_def out_fault_def out_exit_def insn_benign_def\<close>)
  qed
qed

lemma accepted_run_core:
  assumes "ic_program_check (Some (p_ins p)) (p_insn_cnt p) = IC_OK"
    and "unat (p_insn_cnt p) \<le> length (p_ins p)"
    and "p_max_steps p < 0xffffffff" "ctx_ok p" "map_sane p mp" "\<not> c \<longrightarrow> map_ok p mp"
  shows "\<exists>r. ebpf_run p mp = Some r \<and> run_outcome c p r"
proof -
  from program_check_typed [OF assms(1)] obtain ms where
    cnt: "0 < unat (p_insn_cnt p)" "unat (p_insn_cnt p) \<le> 64"
    and shape: "\<forall>pc < unat (p_insn_cnt p). shape_ok (p_insn_cnt p) pc (p_ins p ! pc)"
    and ms: "length ms = unat (p_insn_cnt p)" "\<forall>pc < unat (p_insn_cnt p). stable_at (p_ins p) ms pc"
    and entry: "\<forall>n. bit (ms ! 0) n \<longrightarrow> n = 3"
    by blast
  have "ctx_only (ms ! 0)"
    unfolding ctx_only_def
  proof (intro allI impI)
    fix r :: u8 assume "bit (ms ! 0) (2 * unat r + 1)"
    with entry have "2 * unat r + 1 = 3" by blast
    then have "unat r = unat (1::u8)" by simp
    then show "r = 1" by (simp only: word_unat_eq_iff)
  qed
  then have start: "typed_state c p ms (init_state p mp)"
    using cnt assms(5,6) by (simp add: typed_state_def init_state_def word_less_nat_alt)
  have "\<exists>r. ebpf_loop p (init_state p mp) = Some r \<and> run_outcome c p r"
    using assms(3) start
  proof (rule ebpf_loop_rule)
    show "s_steps (init_state p mp) \<le> p_max_steps p" by (simp add: init_state_def)
  next
    fix st st' :: ebpf_state assume "typed_state c p ms st" "ebpf_step p st = Running st'"
    with ebpf_step_typed [OF shape ms _ assms(4), of c st] show "typed_state c p ms st'" by simp
  next
    fix st :: ebpf_state assume "typed_state c p ms st"
    from ebpf_step_typed [OF shape ms this assms(4)]
    show "case ebpf_step p st of Running st' \<Rightarrow> True
       | Exited v st' \<Rightarrow> run_outcome c p (out_exit v st')
       | Faulted f st' \<Rightarrow> run_outcome c p (out_fault f st')
       | Undefined u \<Rightarrow> run_outcome c p (Undef u)"
      by (auto split: step_result.splits)
  qed
  then show ?thesis
    using cnt assms(2) by (auto simp: ebpf_run_def EBPF_MAX_INSNS_def word_less_nat_alt not_less)
qed

text \<open>The gate as an interface: what is accepted runs safely on what the caller owns.\<close>

locale program_gate =
  fixes accept :: "'prog \<Rightarrow> bool" and fit :: "'prog \<Rightarrow> 'env \<Rightarrow> bool"
    and run :: "'prog \<Rightarrow> 'env \<Rightarrow> 'out option" and good :: "'prog \<Rightarrow> 'out \<Rightarrow> bool"
  assumes accepted: "accept p \<Longrightarrow> fit p e \<Longrightarrow> \<exists>r. run p e = Some r \<and> good p r"
begin

lemma runs_all:
  "\<forall>p \<in> set ps. accept p \<and> fit p e \<Longrightarrow>
    \<exists>rs. those (map (\<lambda>p. run p e) ps) = Some rs \<and> length rs = length ps \<and>
      (\<forall>i < length ps. good (ps ! i) (rs ! i))"
proof (induction ps)
  case Nil
  then show ?case by simp
next
  case (Cons p ps)
  obtain r where r: "run p e = Some r" "good p r" using accepted Cons.prems by (meson list.set_intros(1))
  from Cons obtain rs where "those (map (\<lambda>p. run p e) ps) = Some rs" "length rs = length ps"
    "\<forall>i < length ps. good (ps ! i) (rs ! i)" by auto
  with r show ?case by (auto simp: nth_Cons split: nat.splits)
qed

end

interpretation gate: program_gate
  "\<lambda>p. ic_program_check (Some (p_ins p)) (p_insn_cnt p) = IC_OK"
  "\<lambda>p mp. unat (p_insn_cnt p) \<le> length (p_ins p) \<and> p_max_steps p < 0xffffffff \<and> ctx_ok p \<and> map_sane p mp"
  ebpf_run "run_outcome True"
  by unfold_locales (use accepted_run_core [where c = True] in blast)


subsection \<open>The exceptions are real\<close>


definition quiet_prog :: "u64 list \<Rightarrow> u64 \<Rightarrow> ebpf_prog" where
  "quiet_prog ins ctx =
     \<lparr>p_ins = ins, p_insn_cnt = of_nat (length ins), p_ctx = ctx, p_ctx_bytes = [],
      p_ctx_size = 0, p_max_steps = 64, p_map_cells = 1\<rparr>"

definition div32_ins :: "u64 list" where
  "div32_ins = [0x00000001000000b7, 0x0000002000000067, 0x00000005000002b7,
     0x000000000000023c, 0x0000000000000095]"

definition neg_ins :: "u64 list" where
  "neg_ins = [0x00000001000000b7, 0x0000002000000067, 0x8000000000000027, 0x0000000000000087, 0x0000000000000095]"

definition null_ctx_ins :: "u64 list" where
  "null_ctx_ins = [0x00000000ffff1071, 0x0000000000000095]"

lemma decode_null_ctx:
  "decode_insn 0x00000000ffff1071 = \<lparr>i_op = 0x71, i_dst = 0, i_src = 1, i_off = 0xffff, i_imm = 0\<rparr>"
  by code_simp

lemma null_ctx_step:
  "ebpf_step (quiet_prog null_ctx_ins 0) (init_state (quiet_prog null_ctx_ins 0) mp) = Undefined UB_MEMORY"
  by (simp add: ebpf_step_def exec_insn_def ldx_step_def ldx_size_def load_le_def Let_def
      init_state_def quiet_prog_def null_ctx_ins_def decode_null_ctx)

lemma null_ctx_run: "ebpf_run (quiet_prog null_ctx_ins 0) mp = Some (Undef UB_MEMORY)"
  using null_ctx_step [of mp]
  by (simp add: ebpf_run_def ebpf_loop.simps [of _ "init_state _ _"])
    (simp add: quiet_prog_def null_ctx_ins_def EBPF_MAX_INSNS_def)


definition one_ins :: "u64 list" where
  "one_ins = [0x00000001000000b7, 0x0000000000000095]"

lemma one_ins_ok: "ic_program_check (Some one_ins) 2 = IC_OK"
  by code_simp


end
