(* ===== verification/Dataflow.thy ===== *)
theory Dataflow
  imports Soundness
begin

text \<open>
  What the register gate of \<^verbatim>\<open>core/loader.c\<close> buys: an accepted program never observes a
  register it has not written, so its result does not depend on what the registers other than
  \<^verbatim>\<open>r1\<close> hold at entry.
\<close>

subsection \<open>No register is read before it is written\<close>

text \<open>
  Two register files that agree on the registers an instruction reads are indistinguishable to
  it: the two results are the same but for the registers, and these receive the same update.
\<close>

definition agree :: "u32 \<Rightarrow> u64 list \<Rightarrow> u64 list \<Rightarrow> bool" where
  "agree rs xs ys \<longleftrightarrow> length xs = 11 \<and> length ys = 11 \<and>
     (\<forall>r::u8. unat r \<le> 10 \<longrightarrow> bit rs (unat r) \<longrightarrow> xs ! unat r = ys ! unat r)"

definition same_update :: "u32 \<Rightarrow> u64 list \<Rightarrow> u64 list \<Rightarrow> step_result \<Rightarrow> step_result \<Rightarrow> bool" where
  "same_update writes xs ys a b =
     (case a of
        Running st \<Rightarrow>
          ((\<forall>k. \<not> bit writes k) \<and> s_regs st = xs \<and> b = Running (st\<lparr>s_regs := ys\<rparr>)) \<or>
          (\<exists>r v. unat r \<le> 10 \<and> bit writes (unat (r::u8)) \<and> s_regs st = xs[unat r := v] \<and>
             b = Running (st\<lparr>s_regs := ys[unat r := v]\<rparr>))
      | Exited v st \<Rightarrow> \<exists>zs. b = Exited v (st\<lparr>s_regs := zs\<rparr>)
      | Faulted f st \<Rightarrow> \<exists>zs. b = Faulted f (st\<lparr>s_regs := zs\<rparr>)
      | Undefined u \<Rightarrow> b = Undefined u)"

lemma agreeD: "agree rs xs ys \<Longrightarrow> unat r \<le> 10 \<Longrightarrow> bit rs (unat (r::u8)) \<Longrightarrow> xs ! unat r = ys ! unat r"
  by (simp add: agree_def)

lemma reads_bits:
  assumes "unat (e_dst e) \<le> 10" "unat (e_src e) \<le> 10"
  shows "bit (insn_reads e) n \<longleftrightarrow>
    (let cls = e_op e AND 7; hi = e_op e AND 0xf0; x = e_op e AND 8 \<noteq> 0 in
     if cls = 4 \<or> cls = 7 then
       (if hi = 0xb0 then x \<and> n = unat (e_src e)
        else if hi = 0x80 \<or> hi = 0xd0 then n = unat (e_dst e)
        else n = unat (e_dst e) \<or> x \<and> n = unat (e_src e))
     else if cls = 5 \<or> cls = 6 then
       (if hi = 0x90 then n = 0
        else if hi = 0x80 then n = 1 \<or> e_imm e = 2 \<and> n = 2
        else if hi = 0 then False
        else n = unat (e_dst e) \<or> x \<and> n = unat (e_src e))
     else if cls = 1 then n = unat (e_src e) else False)"
  using assms
  by (simp add: insn_reads_def Let_def bit_reg_bit bit_or_iff bit_1)

lemma writes_bits:
  assumes "unat (e_dst e) \<le> 10"
  shows "e_op e AND 7 = 4 \<or> e_op e AND 7 = 7 \<or> e_op e AND 7 = 1 \<Longrightarrow>
      bit (insn_writes e) (unat (e_dst e))"
    and "e_op e AND 7 = 5 \<Longrightarrow> e_op e AND 0xf0 = 0x80 \<Longrightarrow> bit (insn_writes e) (unat (0::u8))"
  using assms by (auto simp: insn_writes_def Let_def bit_reg_bit)

lemma same_update_Running:
  "unat r \<le> 10 \<Longrightarrow> bit w (unat (r::u8)) \<Longrightarrow> s_regs a = xs[unat r := v] \<Longrightarrow>
    b = a\<lparr>s_regs := ys[unat r := v]\<rparr> \<Longrightarrow> same_update w xs ys (Running a) (Running b)"
  by (auto simp: same_update_def)

lemma upd_swap: "(st::ebpf_state)\<lparr>s_regs := ys, s_pc := n\<rparr> = st\<lparr>s_pc := n, s_regs := ys\<rparr>"
  by (cases st) simp

lemma same_update_halted:
  "same_update w xs ys (Faulted f st) (Faulted f (st\<lparr>s_regs := zs\<rparr>))"
  "same_update w xs ys (Exited v st) (Exited v (st\<lparr>s_regs := zs\<rparr>))"
  "same_update w xs ys (Undefined u) (Undefined u)"
  by (auto simp: same_update_def)

text \<open>The two halves of an ALU step: what it reads, and what it does with the value.\<close>

definition alu_dst :: "ebpf_state \<Rightarrow> ebpf_insn \<Rightarrow> u8 \<Rightarrow> u64" where
  "alu_dst st i op = (if op = 0xb0 then 0 else s_regs st ! unat (i_dst i))"

definition alu_finish :: "ebpf_state \<Rightarrow> ebpf_insn \<Rightarrow> bool \<Rightarrow> alu_result \<Rightarrow> step_result" where
  "alu_finish st i is64 w =
     (case w of
        AFault f \<Rightarrow> Faulted f st
      | AUndef u \<Rightarrow> Undefined u
      | Val v \<Rightarrow>
          Running (st\<lparr>s_regs := (s_regs st)[unat (i_dst i) := if is64 then v else v AND 0xffffffff],
                      s_pc := s_pc st + 1\<rparr>))"

lemma alu_step_eq:
  "alu_step st i is64 op =
     (if i_dst i = 10 then Faulted FAULT_FP st
      else alu_finish st i is64 (alu_switch is64 i op (alu_dst st i op) (alu_arg st i is64 op)))"
  unfolding alu_step_def alu_finish_def alu_dst_def Let_def ..

lemma alu_finish_same:
  assumes "unat (i_dst i) \<le> 10" "bit w (unat (i_dst i))"
  shows "same_update w (s_regs st) ys (alu_finish st i is64 r) (alu_finish (st\<lparr>s_regs := ys\<rparr>) i is64 r)"
  by (cases r) (simp_all add: alu_finish_def same_update_halted same_update_Running [OF assms])

lemma alu_same:
  assumes ag: "agree (insn_reads e) (s_regs st) ys"
    and cls: "e_op e AND 0x07 = 0x04 \<or> e_op e AND 0x07 = 0x07"
    and regs: "unat (e_dst e) \<le> 10" "unat (e_src e) \<le> 10"
  shows "same_update (insn_writes e) (s_regs st) ys
    (alu_step st (decode_insn e) is64 (e_op e AND 0xf0))
    (alu_step (st\<lparr>s_regs := ys\<rparr>) (decode_insn e) is64 (e_op e AND 0xf0))"
proof -
  let ?i = "decode_insn e" and ?hi = "e_op e AND 0xf0"
  note eq = agreeD [OF ag]
  have "alu_arg (st\<lparr>s_regs := ys\<rparr>) ?i is64 ?hi = alu_arg st ?i is64 ?hi"
    using cls regs eq [of "e_src e"] by (auto simp: alu_arg_def decode_fields reads_bits Let_def)
  moreover have "alu_dst (st\<lparr>s_regs := ys\<rparr>) ?i ?hi = alu_dst st ?i ?hi"
    using cls regs eq [of "e_dst e"] by (auto simp: alu_dst_def decode_fields reads_bits Let_def)
  moreover have "unat (i_dst ?i) \<le> 10" "bit (insn_writes e) (unat (i_dst ?i))"
    using regs(1) writes_bits(1) [OF regs(1)] cls by (auto simp: decode_fields)
  ultimately show ?thesis
    unfolding alu_step_eq by (simp add: alu_finish_same same_update_halted)
qed

text \<open>The same for jumps.\<close>

definition jmp_arg :: "ebpf_state \<Rightarrow> ebpf_insn \<Rightarrow> bool \<Rightarrow> u8 \<Rightarrow> u64" where
  "jmp_arg st i is32 op =
     (if op \<noteq> 0x00 \<and> op \<noteq> 0x90 then
        (if i_op i AND 0x08 \<noteq> 0 then s_regs st ! unat (i_src i)
         else if is32 then ucast (i_imm i) else scast (i_imm i))
      else 0)"

definition jmp_dst :: "ebpf_state \<Rightarrow> ebpf_insn \<Rightarrow> u8 \<Rightarrow> u64" where
  "jmp_dst st i op = (if op \<noteq> 0x00 \<and> op \<noteq> 0x90 then s_regs st ! unat (i_dst i) else 0)"

definition jmp_res :: "bool \<Rightarrow> u8 \<Rightarrow> u64 \<Rightarrow> u64 \<Rightarrow> jmp_result" where
  "jmp_res is32 op v arg =
     (if is32 then jmp_switch op (ucast v :: u32) (ucast arg) else jmp_switch op v arg)"

definition jmp_finish :: "ebpf_state \<Rightarrow> ebpf_insn \<Rightarrow> jmp_result \<Rightarrow> step_result" where
  "jmp_finish st i res =
     (case res of
              JCall \<Rightarrow> Faulted FAULT_CALL st
            | JExit \<Rightarrow> Exited (s_regs st ! 0) st
            | JBad \<Rightarrow> Faulted FAULT_OPCODE st
            | Taken t \<Rightarrow>
                Running (st\<lparr>s_pc := (if t then jump_target (s_pc st) (i_off i)
                                     else s_pc st + 1)\<rparr>))"

lemma jmp_step_eq:
  "jmp_step p st i is32 op =
     (if \<not> is32 \<and> op = 0x80 then call_step p st i
      else jmp_finish st i (jmp_res is32 op (jmp_dst st i op) (jmp_arg st i is32 op)))"
  unfolding jmp_step_def jmp_finish_def jmp_dst_def jmp_arg_def jmp_res_def Let_def ..

lemma jmp_finish_same:
  assumes "res = JExit \<Longrightarrow> ys ! 0 = s_regs st ! 0" "\<And>k. \<not> bit w k"
  shows "same_update w (s_regs st) ys (jmp_finish st i res) (jmp_finish (st\<lparr>s_regs := ys\<rparr>) i res)"
  using assms by (cases res) (auto simp: jmp_finish_def same_update_def upd_swap)

lemma call_same:
  assumes ag: "agree (insn_reads e) (s_regs st) ys"
    and cls: "e_op e AND 0x07 = 0x05" "e_op e AND 0xf0 = 0x80"
    and regs: "unat (e_dst e) \<le> 10" "unat (e_src e) \<le> 10"
  shows "same_update (insn_writes e) (s_regs st) ys
    (call_step p st (decode_insn e)) (call_step p (st\<lparr>s_regs := ys\<rparr>) (decode_insn e))"
proof -
  note eq = agreeD [OF ag]
  have r1: "ys ! 1 = s_regs st ! 1" using eq [of 1] cls regs by (simp add: reads_bits)
  have r2: "ys ! 2 = s_regs st ! 2" if "e_imm e = 2"
    using eq [of 2] cls regs that by (simp add: reads_bits)
  have w: "bit (insn_writes e) (unat (0::u8))" using writes_bits(2) [OF regs(1)] cls by simp
  have upd: "same_update (insn_writes e) (s_regs st) ys (Running (a\<lparr>s_regs := (s_regs st)[0 := v], s_pc := n\<rparr>))
      (Running (a\<lparr>s_regs := ys[0 := v], s_pc := n\<rparr>))" for a :: ebpf_state and v n
    using w by (intro same_update_Running [where r = 0]) (simp_all add: upd_swap)
  show ?thesis
    using r1 r2 upd [where a = st] upd [where a = "st\<lparr>s_map := m\<rparr>" for m]
    by (cases "s_map st") (simp_all add: call_step_def Let_def decode_fields same_update_halted)
qed

lemma jmp_same:
  assumes ag: "agree (insn_reads e) (s_regs st) ys"
    and shape: "shape_ok cnt pc e" and cls: "e_op e AND 0x07 = 0x05 \<or> e_op e AND 0x07 = 0x06"
    and regs: "unat (e_dst e) \<le> 10" "unat (e_src e) \<le> 10"
    and is32: "is32 = (e_op e AND 0x07 = 0x06)"
  shows "same_update (insn_writes e) (s_regs st) ys
    (jmp_step p st (decode_insn e) is32 (e_op e AND 0xf0))
    (jmp_step p (st\<lparr>s_regs := ys\<rparr>) (decode_insn e) is32 (e_op e AND 0xf0))"
proof -
  let ?hi = "e_op e AND 0xf0" and ?i = "decode_insn e"
  note eq = agreeD [OF ag]
  show ?thesis
  proof (cases "?hi = 0x80")
    case True
    then have "\<not> is32" "e_op e AND 0x07 = 0x05"
      using shape cls is32 by (auto simp: shape_ok_def Let_def split: if_splits)
    with True call_same [OF ag _ True regs] show ?thesis by (simp add: jmp_step_eq)
  next
    case False
    have "jmp_arg (st\<lparr>s_regs := ys\<rparr>) ?i is32 ?hi = jmp_arg st ?i is32 ?hi"
      using cls regs False eq [of "e_src e"] by (auto simp: jmp_arg_def decode_fields reads_bits Let_def)
    moreover have "jmp_dst (st\<lparr>s_regs := ys\<rparr>) ?i ?hi = jmp_dst st ?i ?hi"
      using cls regs False eq [of "e_dst e"] by (auto simp: jmp_dst_def decode_fields reads_bits Let_def)
    moreover have "jmp_res is32 ?hi v arg = JExit \<Longrightarrow> ys ! 0 = s_regs st ! 0" for v arg
      using eq [of 0] regs cls by (auto simp: jmp_res_def jmp_switch_def reads_bits Let_def split: if_splits)
    moreover have "\<not> bit (insn_writes e) k" for k
      using False cls by (auto simp: insn_writes_def Let_def)
    ultimately show ?thesis
      using False unfolding jmp_step_eq by (simp add: jmp_finish_same)
  qed
qed

lemma ldx_same:
  assumes ag: "agree (insn_reads e) (s_regs st) ys" and cls: "e_op e AND 0x07 = 0x01"
    and regs: "unat (e_dst e) \<le> 10" "unat (e_src e) \<le> 10"
  shows "same_update (insn_writes e) (s_regs st) ys
    (ldx_step p st (decode_insn e)) (ldx_step p (st\<lparr>s_regs := ys\<rparr>) (decode_insn e))"
proof -
  have s: "ys ! unat (e_src e) = s_regs st ! unat (e_src e)"
    using agreeD [OF ag, of "e_src e"] regs cls by (auto simp: reads_bits Let_def)
  have w: "bit (insn_writes e) (unat (e_dst e))" using writes_bits(1) [OF regs(1)] cls by simp
  let ?addr = "s_regs st ! unat (e_src e) + scast (e_off e)"
  have upd: "same_update (insn_writes e) (s_regs st) ys
      (Running (st\<lparr>s_regs := (s_regs st)[unat (e_dst e) := v], s_pc := n\<rparr>))
      (Running (st\<lparr>s_regs := ys[unat (e_dst e) := v], s_pc := n\<rparr>))" for v n
    by (rule same_update_Running [OF regs(1) w]) (simp_all add: upd_swap)
  show ?thesis
    using upd by (cases "load_le (drop (unat (?addr - p_ctx p)) (p_ctx_bytes p)) (ldx_size (e_op e))")
      (simp_all add: ldx_step_def Let_def decode_fields s same_update_halted)
qed

lemma shape_regs: "shape_ok cnt pc e \<Longrightarrow> e_dst e \<le> 10" "shape_ok cnt pc e \<Longrightarrow> e_src e \<le> 10"
  by (auto simp: shape_ok_def Let_def split: if_splits)

lemma exec_same:
  assumes ag: "agree (insn_reads e) (s_regs st) ys" and shape: "shape_ok cnt pc e"
  shows "same_update (insn_writes e) (s_regs st) ys
    (exec_insn p st (decode_insn e)) (exec_insn p (st\<lparr>s_regs := ys\<rparr>) (decode_insn e))"
proof -
  have le: "e_dst e \<le> 10" "e_src e \<le> 10"
    using shape_regs [OF shape] by auto
  then have regs: "unat (e_dst e) \<le> 10" "unat (e_src e) \<le> 10"
    by (simp_all add: word_le_nat_alt)
  note ex = exec_insn_def Let_def decode_fields
  consider "e_op e AND 0x07 = 0x04 \<or> e_op e AND 0x07 = 0x07"
    | "e_op e AND 0x07 = 0x05 \<or> e_op e AND 0x07 = 0x06" | "e_op e AND 0x07 = 0x01"
    using shape by (auto simp: shape_ok_def opcode_known_def Let_def split: if_splits)
  then show ?thesis
  proof cases
    case 1
    with alu_same [OF ag 1 regs] le show ?thesis by (auto simp: ex)
  next
    case 2
    with jmp_same [OF ag shape 2 regs refl] le show ?thesis by (auto simp: ex)
  next
    case 3
    with ldx_same [OF ag 3 regs] le show ?thesis by (auto simp: ex)
  qed
qed

lemma exec_dispatch:
  assumes "e_dst e \<le> 10" "e_src e \<le> 10"
  shows "e_op e AND 0x07 = 0x04 \<or> e_op e AND 0x07 = 0x07 \<Longrightarrow>
      exec_insn p st (decode_insn e) =
      alu_step st (decode_insn e) (e_op e AND 0x07 = 0x07) (e_op e AND 0xf0)"
    and "e_op e AND 0x07 = 0x05 \<or> e_op e AND 0x07 = 0x06 \<Longrightarrow>
      exec_insn p st (decode_insn e) =
      jmp_step p st (decode_insn e) (e_op e AND 0x07 = 0x06) (e_op e AND 0xf0)"
    and "e_op e AND 0x07 = 0x01 \<Longrightarrow> exec_insn p st (decode_insn e) = ldx_step p st (decode_insn e)"
  using assms by (auto simp: exec_insn_def Let_def decode_fields)

lemma exec_succ:
  assumes shape: "shape_ok cnt pc e" and run: "exec_insn p st (decode_insn e) = Running st'"
  shows "s_pc st' \<in> set (insn_succ e (s_pc st))"
proof -
  have le: "e_dst e \<le> 10" "e_src e \<le> 10"
    using shape_regs [OF shape] by auto
  consider "e_op e AND 0x07 = 0x04 \<or> e_op e AND 0x07 = 0x07"
    | "e_op e AND 0x07 = 0x05 \<or> e_op e AND 0x07 = 0x06" | "e_op e AND 0x07 = 0x01"
    using shape by (auto simp: shape_ok_def opcode_known_def Let_def split: if_splits)
  then show ?thesis
  proof cases
    case 1
    with run have "alu_step st (decode_insn e) (e_op e AND 0x07 = 0x07) (e_op e AND 0xf0) = Running st'"
      by (simp only: exec_dispatch(1) [OF le 1])
    then show ?thesis by (rule alu_succ [OF 1])
  next
    case 2
    let ?hi = "e_op e AND 0xf0" and ?is32 = "e_op e AND 0x07 = 0x06" and ?i = "decode_insn e"
    have jmp: "jmp_step p st ?i ?is32 ?hi = Running st'"
      using run by (simp only: exec_dispatch(2) [OF le 2])
    show ?thesis
    proof (cases "\<not> ?is32 \<and> ?hi = 0x80")
      case True
      with jmp call_step_Running [of p st ?i st'] 2 show ?thesis
        by (auto simp: jmp_step_eq insn_succ_def Let_def)
    next
      case False
      have fin: "jmp_finish st ?i (jmp_res ?is32 ?hi (jmp_dst st ?i ?hi) (jmp_arg st ?i ?is32 ?hi)) = Running st'"
        using jmp unfolding jmp_step_eq if_not_P [OF False] .
      then obtain t where t: "jmp_res ?is32 ?hi (jmp_dst st ?i ?hi) (jmp_arg st ?i ?is32 ?hi) = Taken t"
        "s_pc st' = (if t then jump_target (s_pc st) (i_off ?i) else s_pc st + 1)"
        by (auto simp: jmp_finish_def split: jmp_result.splits)
      have "?hi \<noteq> 0x80 \<and> ?hi \<noteq> 0x90 \<and> (?hi = 0 \<longrightarrow> t)"
        using t(1) by (auto simp: jmp_res_def jmp_switch_def split: if_splits)
      with t(2) 2 show ?thesis
        by (auto simp: insn_succ_def Let_def jump_target_def decode_fields)
    qed
  next
    case 3
    with run have "ldx_step p st (decode_insn e) = Running st'"
      by (simp only: exec_dispatch(3) [OF le 3])
    with ldx_step_Running 3 show ?thesis by (auto simp: insn_succ_def Let_def)
  qed
qed

text \<open>Two register files that agree on every register the type state calls written.\<close>

definition agree_live :: "u32 \<Rightarrow> u64 list \<Rightarrow> u64 list \<Rightarrow> bool" where
  "agree_live m xs ys \<longleftrightarrow> length xs = 11 \<and> length ys = 11 \<and>
     (\<forall>r::u8. unat r \<le> 10 \<longrightarrow> reg_live m r \<longrightarrow> xs ! unat r = ys ! unat r)"

lemma agree_live_reads:
  "agree_live m xs ys \<Longrightarrow> insn_check e m \<Longrightarrow> agree (insn_reads e) xs ys"
  unfolding agree_live_def agree_def using insn_checkD read_okD(1) by blast

lemma reg_live_below: "m' AND out = m' \<Longrightarrow> reg_live m' r \<Longrightarrow> reg_live out r"
  unfolding reg_live_def using word_and_bits [of m' out] by blast

lemma agree_live_update:
  assumes ag: "agree_live m xs ys" and below: "m' AND insn_out e m = m'"
    and upd: "bit (insn_writes e) (unat r)" "unat (r::u8) \<le> 10"
    and one: "\<And>k. bit (insn_writes e) k \<Longrightarrow> k = unat r"
  shows "agree_live m' (xs[unat r := v]) (ys[unat r := v])"
proof -
  have "(xs[unat r := v]) ! unat q = (ys[unat r := v]) ! unat q"
    if q: "unat (q::u8) \<le> 10" "reg_live m' q" for q
  proof (cases "q = r")
    case True
    with ag q show ?thesis by (simp add: agree_live_def)
  next
    case False
    then have ne: "unat r \<noteq> unat q" by (metis word_unat_eq_iff)
    then have "\<not> bit (insn_writes e) (unat q)" using one by metis
    then have "reg_live m q"
      using insn_out_bits(2) [OF q(1)] reg_live_below [OF below q(2)] by blast
    with ag q ne show ?thesis by (simp add: agree_live_def)
  qed
  with ag show ?thesis by (simp add: agree_live_def)
qed

lemma writes_one:
  assumes "unat (e_dst e) \<le> 10" "bit (insn_writes e) j" "bit (insn_writes e) k"
  shows "j = k"
  using assms by (auto simp: insn_writes_def Let_def bit_reg_bit bit_1 split: if_splits)

lemma agree_live_keep:
  assumes ag: "agree_live m xs ys" and below: "m' AND insn_out e m = m'"
    and none: "\<And>k. \<not> bit (insn_writes e) k"
  shows "agree_live m' xs ys"
  using ag insn_out_bits(2) [of _ e m] reg_live_below [OF below] none
  unfolding agree_live_def by blast

lemma agree_live_next:
  assumes ag: "agree_live m (s_regs st) ys" and below: "m' AND insn_out e m = m'"
    and dst: "unat (e_dst e) \<le> 10"
    and same: "same_update (insn_writes e) (s_regs st) ys (Running st') b"
  shows "\<exists>zs. b = Running (st'\<lparr>s_regs := zs\<rparr>) \<and> agree_live m' (s_regs st') zs"
proof -
  from same consider
    "\<forall>k. \<not> bit (insn_writes e) k" "s_regs st' = s_regs st" "b = Running (st'\<lparr>s_regs := ys\<rparr>)"
    | r v where "unat (r::u8) \<le> 10" "bit (insn_writes e) (unat r)"
      "s_regs st' = (s_regs st)[unat r := v]" "b = Running (st'\<lparr>s_regs := ys[unat r := v]\<rparr>)"
    by (auto simp: same_update_def)
  then show ?thesis
  proof cases
    case 1
    with agree_live_keep [OF ag below] show ?thesis by auto
  next
    case 2
    with agree_live_update [OF ag below 2(2) 2(1) writes_one [OF dst _ 2(2)]] show ?thesis by auto
  qed
qed

lemma exec_live:
  assumes ag: "agree_live m (s_regs st) ys" and chk: "insn_check e m" and shape: "shape_ok cnt pc e"
  shows "same_update (insn_writes e) (s_regs st) ys
    (exec_insn p st (decode_insn e)) (exec_insn p (st\<lparr>s_regs := ys\<rparr>) (decode_insn e))"
  using exec_same [OF agree_live_reads [OF ag chk] shape] .

text \<open>The invariant of the two runs: the second is the first with other values in dead registers.\<close>

definition twin :: "ebpf_prog \<Rightarrow> u32 list \<Rightarrow> run_result option \<Rightarrow> ebpf_state \<Rightarrow> bool" where
  "twin p ms goal st \<longleftrightarrow> s_pc st < p_insn_cnt p \<and>
     (\<exists>ys. agree_live (ms ! unat (s_pc st)) (s_regs st) ys \<and>
        ebpf_loop p (st\<lparr>s_regs := ys\<rparr>) = goal)"

lemma counters_swap:
  "(st::ebpf_state)\<lparr>s_regs := ys, s_steps := a, s_insns := b\<rparr> =
     st\<lparr>s_steps := a, s_insns := b, s_regs := ys\<rparr>"
  by (cases st) simp

lemma ebpf_step_regs:
  assumes "s_pc st < p_insn_cnt p"
  shows "ebpf_step p (st\<lparr>s_regs := ys\<rparr>) =
    (if s_steps st + 1 > p_max_steps p
     then Faulted FAULT_STEPS (st\<lparr>s_regs := ys, s_steps := s_steps st + 1\<rparr>)
     else exec_insn p (st\<lparr>s_steps := s_steps st + 1, s_insns := s_insns st + 1\<rparr>\<lparr>s_regs := ys\<rparr>)
            (decode_insn (p_ins p ! unat (s_pc st))))"
proof -
  show ?thesis using less_le_not_le [THEN iffD1, THEN conjunct2, OF assms] by (simp add: ebpf_step_def Let_def counters_swap)
qed

lemma twin_step:
  assumes shape: "\<forall>pc < unat (p_insn_cnt p). shape_ok (p_insn_cnt p) pc (p_ins p ! pc)"
    and ms: "length ms = unat (p_insn_cnt p)"
      "\<forall>pc < unat (p_insn_cnt p). stable_at (p_ins p) ms pc"
    and inv: "twin p ms goal st"
  shows "case ebpf_step p st of
       Running st' \<Rightarrow> twin p ms goal st'
     | Exited v st' \<Rightarrow> goal = Some (out_exit v st')
     | Faulted f st' \<Rightarrow> goal = Some (out_fault f st')
     | Undefined u \<Rightarrow> goal = Some (Undef u)"
proof -
  let ?pc = "unat (s_pc st)" and ?e = "p_ins p ! unat (s_pc st)"
  let ?st = "st\<lparr>s_steps := s_steps st + 1, s_insns := s_insns st + 1\<rparr>"
  from inv obtain ys where lt: "s_pc st < p_insn_cnt p"
    and ag: "agree_live (ms ! ?pc) (s_regs st) ys" and goal: "ebpf_loop p (st\<lparr>s_regs := ys\<rparr>) = goal"
    by (auto simp: twin_def)
  then have pc: "?pc < unat (p_insn_cnt p)" by (simp add: word_less_nat_alt)
  with shape ms have sh: "shape_ok (p_insn_cnt p) ?pc ?e" and stb: "stable_at (p_ins p) ms ?pc"
    by auto
  have dst: "unat (e_dst ?e) \<le> 10"
    using shape_regs(1) [OF sh] by (simp add: word_le_nat_alt)
  have ag': "agree_live (ms ! ?pc) (s_regs ?st) ys" using ag by simp
  have same: "same_update (insn_writes ?e) (s_regs ?st) ys
      (exec_insn p ?st (decode_insn ?e)) (exec_insn p (?st\<lparr>s_regs := ys\<rparr>) (decode_insn ?e))"
    using exec_live [OF ag' _ sh] stb by (simp add: stable_at_def)
  note loop = goal [symmetric, unfolded ebpf_loop.simps [of p "st\<lparr>s_regs := ys\<rparr>"] ebpf_step_regs [OF lt]]
  show ?thesis
  proof (cases "s_steps st + 1 > p_max_steps p")
    case True
    with loop less_le_not_le [THEN iffD1, THEN conjunct2, OF lt] show ?thesis
      by (simp add: ebpf_step_def Let_def out_fault_def)
  next
    case False
    then have step: "ebpf_step p st = exec_insn p ?st (decode_insn ?e)"
      using less_le_not_le [THEN iffD1, THEN conjunct2, OF lt] by (simp add: ebpf_step_def Let_def)
    show ?thesis
    proof (cases "exec_insn p ?st (decode_insn ?e)")
      case (Running st')
      have "s_pc st' \<in> set (insn_succ ?e (of_nat ?pc))" using exec_succ [OF sh Running] by simp
      with stb ms(1) have "unat (s_pc st') < unat (p_insn_cnt p)"
        and below: "ms ! unat (s_pc st') AND insn_out ?e (ms ! ?pc) = ms ! unat (s_pc st')"
        by (auto simp: stable_at_def)
      moreover obtain zs where "exec_insn p (?st\<lparr>s_regs := ys\<rparr>) (decode_insn ?e) = Running (st'\<lparr>s_regs := zs\<rparr>)"
        "agree_live (ms ! unat (s_pc st')) (s_regs st') zs"
        using agree_live_next [OF ag' below dst same [unfolded Running]] by auto
      ultimately show ?thesis
        using loop False Running step by (auto simp: twin_def word_less_nat_alt)
    qed (use same loop False step in \<open>auto simp: same_update_def out_exit_def out_fault_def\<close>)
  qed
qed



end
