(* ===== verification/Helpers.thy ===== *)
theory Helpers
  imports Prelude "HOL-Library.Signed_Division"
begin

text \<open>
  The freestanding runtime of \<^verbatim>\<open>core/helpers.c\<close>: the two memory loops, and the 64-bit shift,
  multiply and divide routines the compiler calls on the 32-bit core.  Every routine is
  proved to be the word operation that the interpreter's model uses.
\<close>

subsection \<open>Memory loops\<close>

text \<open>\<open>None\<close> is an access past the end of an object.\<close>

fun memset_from :: "nat \<Rightarrow> u8 \<Rightarrow> nat \<Rightarrow> u8 list \<Rightarrow> u8 list option" where
  "memset_from i v 0 dst = Some dst"
| "memset_from i v (Suc n) dst =
     (if i < length dst then memset_from (i + 1) v n (dst[i := v]) else None)"

definition memset :: "u8 list \<Rightarrow> u32 \<Rightarrow> u32 \<Rightarrow> u8 list option" where
  "memset dst c n = memset_from 0 (ucast c) (unat n) dst"

fun memcpy_from :: "nat \<Rightarrow> nat \<Rightarrow> u8 list \<Rightarrow> u8 list \<Rightarrow> u8 list option" where
  "memcpy_from i 0 dst src = Some dst"
| "memcpy_from i (Suc n) dst src =
     (if i < length dst \<and> i < length src then memcpy_from (i + 1) n (dst[i := src ! i]) src
      else None)"

definition memcpy :: "u8 list \<Rightarrow> u8 list \<Rightarrow> u32 \<Rightarrow> u8 list option" where
  "memcpy dst src n = memcpy_from 0 (unat n) dst src"

lemma memset_from_eq:
  "i + n \<le> length dst \<Longrightarrow> memset_from i v n dst = Some (blit i (replicate n v) dst)"
  by (induction n arbitrary: i dst) (simp_all add: blit_Cons)

lemma memcpy_from_eq:
  "i + n \<le> length dst \<Longrightarrow> i + n \<le> length src \<Longrightarrow>
    memcpy_from i n dst src = Some (blit i (take n (drop i src)) dst)"
proof (induction n arbitrary: i dst)
  case 0
  then show ?case by simp
next
  case (Suc n)
  then have "take (Suc n) (drop i src) = src ! i # take n (drop (Suc i) src)"
    by (simp add: Cons_nth_drop_Suc [symmetric])
  with Suc show ?case by (simp add: blit_Cons)
qed

text \<open>
  Inside their objects \<^verbatim>\<open>memset\<close> and \<^verbatim>\<open>memcpy\<close> write exactly the first \<open>n\<close> bytes: with the
  low byte of the fill value, and with the source's first \<open>n\<close> bytes; every later byte stays.
\<close>

theorem memory_loops_correct:
  assumes "unat n \<le> length dst"
  shows "memset dst c n = Some (replicate (unat n) (ucast c) @ drop (unat n) dst) \<and>
    (unat n \<le> length src \<longrightarrow> memcpy dst src n = Some (take (unat n) src @ drop (unat n) dst))"
  using assms
  by (auto simp: memset_def memcpy_def memset_from_eq memcpy_from_eq blit_def)

theorem memory_loops_correct_witness:
  "memset [1, 2, 3] 0x1FF 2 = Some (replicate (unat (2::u32)) (ucast (0x1FF::u32)) @ drop (unat (2::u32)) [1, 2, 3]) \<and>
   memcpy [1, 2, 3] [7, 8] 2 = Some (take (unat (2::u32)) [7, 8] @ drop (unat (2::u32)) [1, 2, 3])"
  using memory_loops_correct [where n = 2 and dst = "[1, 2, 3]" and c = "0x1FF" and src = "[7, 8]"]
  by simp

subsection \<open>Shifts\<close>

definition ashldi3 :: "u64 \<Rightarrow> u32 \<Rightarrow> u64" where
  "ashldi3 a b0 =
     (let lo = (ucast a :: u32); hi = (ucast (drop_bit 32 a) :: u32); b = unat (b0 AND 63);
          (hi, lo) = (if b \<ge> 32 then (push_bit (b - 32) lo, 0)
                      else if b > 0 then (push_bit b hi OR drop_bit (32 - b) lo, push_bit b lo)
                      else (hi, lo))
      in push_bit 32 (ucast hi) OR ucast lo)"

definition lshrdi3 :: "u64 \<Rightarrow> u32 \<Rightarrow> u64" where
  "lshrdi3 a b0 =
     (let lo = (ucast a :: u32); hi = (ucast (drop_bit 32 a) :: u32); b = unat (b0 AND 63);
          (hi, lo) = (if b \<ge> 32 then (0, drop_bit (b - 32) hi)
                      else if b > 0 then (drop_bit b hi, drop_bit b lo OR push_bit (32 - b) hi)
                      else (hi, lo))
      in push_bit 32 (ucast hi) OR ucast lo)"

definition ashrdi3 :: "u64 \<Rightarrow> u32 \<Rightarrow> u64" where
  "ashrdi3 a b0 =
     (let lo = (ucast a :: u32); hi = (ucast (drop_bit 32 a) :: u32); b = unat (b0 AND 63);
          (hi, lo) = (if b \<ge> 32 then (signed_drop_bit 31 hi, signed_drop_bit (b - 32) hi)
                      else if b > 0 then (signed_drop_bit b hi, drop_bit b lo OR push_bit (32 - b) hi)
                      else (hi, lo))
      in push_bit 32 (ucast hi) OR ucast lo)"

lemma and_63: "unat ((b::u32) AND 63) < 64"
proof -
  have "b AND 63 \<le> 63" by (rule word_and_le1)
  then show ?thesis by (simp add: word_le_nat_alt)
qed

lemmas shift_bits = bit_or_iff bit_push_bit_iff bit_unsigned_iff bit_drop_bit_eq bit_signed_drop_bit_iff

lemma ashldi3_bit: "bit (ashldi3 a b) n \<longleftrightarrow> bit (push_bit (unat (b AND 63)) a) n"
  using and_63 [of b] by (auto simp: ashldi3_def Let_def shift_bits simp del: bit_numeral_word_iff)

lemma lshrdi3_bit: "bit (lshrdi3 a b) n \<longleftrightarrow> bit (drop_bit (unat (b AND 63)) a) n"
proof -
  define k where "k = unat (b AND 63)"
  have k: "k < 64" using and_63 by (simp add: k_def)
  have comm: "bit a (n + k) = bit a (k + n)" by (simp add: add.commute)
  have high: "32 \<le> n \<Longrightarrow> 32 + (k + (n - 32)) = k + n" by simp
  show ?thesis
    unfolding k_def [symmetric] using k comm high
    by (auto simp: lshrdi3_def Let_def shift_bits k_def [symmetric] dest: bit_imp_le_length)
qed

lemma ashrdi3_bit: "bit (ashrdi3 a b) n \<longleftrightarrow> bit (signed_drop_bit (unat (b AND 63)) a) n"
proof -
  define k where "k = unat (b AND 63)"
  have k: "k < 64" using and_63 by (simp add: k_def)
  have comm: "bit a (n + k) = bit a (k + n)" by (simp add: add.commute)
  have high: "32 \<le> n \<Longrightarrow> 32 + (k + (n - 32)) = k + n" by simp
  show ?thesis
    unfolding k_def [symmetric] using k comm high
    by (auto simp: ashrdi3_def Let_def shift_bits k_def [symmetric] dest: bit_imp_le_length)
qed

lemma shifts_correct:
  "ashldi3 a b = push_bit (unat (b AND 63)) a \<and>
   lshrdi3 a b = drop_bit (unat (b AND 63)) a \<and>
   ashrdi3 a b = signed_drop_bit (unat (b AND 63)) a"
  by (simp add: bit_eq_iff ashldi3_bit lshrdi3_bit ashrdi3_bit)

subsection \<open>Multiplication\<close>

definition muldi3 :: "u64 \<Rightarrow> u64 \<Rightarrow> u64" where
  "muldi3 a b =
     (let al = (ucast a :: u32); ah = (ucast (drop_bit 32 a) :: u32);
          bl = (ucast b :: u32); bh = (ucast (drop_bit 32 b) :: u32);
          ll = (ucast al :: u64) * ucast bl;
          lh = (ucast al :: u64) * ucast bh;
          hl = (ucast ah :: u64) * ucast bl
      in ll + push_bit 32 (lh + hl))"

lemma halves: "(a::u64) = 2 ^ 32 * ucast (ucast (drop_bit 32 a) :: u32) + ucast (ucast a :: u32)"
proof -
  have "ucast (ucast (drop_bit 32 a) :: u32) = drop_bit 32 a"
    by (rule bit_word_eqI) (auto simp: bit_unsigned_iff bit_drop_bit_eq dest: bit_imp_le_length)
  moreover have "(ucast (ucast a :: u32) :: u64) = take_bit 32 a"
    by (rule bit_word_eqI) (auto simp: bit_unsigned_iff bit_take_bit_iff)
  ultimately show ?thesis
    using bits_ident [of 32 a] by (simp add: push_bit_eq_mult mult.commute)
qed

lemma muldi3_correct: "muldi3 a b = a * b"
proof -
  define ah al bh bl where "ah = (ucast (ucast (drop_bit 32 a) :: u32) :: u64)"
    and "al = (ucast (ucast a :: u32) :: u64)"
    and "bh = (ucast (ucast (drop_bit 32 b) :: u32) :: u64)"
    and "bl = (ucast (ucast b :: u32) :: u64)"
  have "a * b = (2 ^ 32 * ah + al) * (2 ^ 32 * bh + bl)"
    using halves [of a] halves [of b] by (simp only: ah_def al_def bh_def bl_def)
  also have "\<dots> = 2 ^ 64 * (ah * bh) + (al * bl + 2 ^ 32 * (al * bh + ah * bl))"
    by (simp add: algebra_simps)
  also have "(2 ^ 64 :: u64) = 0" by simp
  finally show ?thesis
    by (simp add: muldi3_def Let_def push_bit_eq_mult ah_def al_def bh_def bl_def mult.commute)
qed

subsection \<open>Division\<close>

text \<open>\<open>udiv_loop a b n q r\<close>: the rounds \<^verbatim>\<open>i = n-1\<close> down to \<^verbatim>\<open>0\<close>.\<close>

fun udiv_loop :: "u64 \<Rightarrow> u64 \<Rightarrow> nat \<Rightarrow> u64 \<Rightarrow> u64 \<Rightarrow> u64 \<times> u64" where
  "udiv_loop a b 0 q r = (q, r)"
| "udiv_loop a b (Suc i) q r =
     (let r' = push_bit 1 r OR (drop_bit i a AND 1) in
      if r' \<ge> b then udiv_loop a b i (q OR push_bit i 1) (r' - b)
      else udiv_loop a b i q r')"

definition udivmod :: "u64 \<Rightarrow> u64 \<Rightarrow> u64 \<times> u64" where
  "udivmod a b = (if b = 0 then (0, 0) else udiv_loop a b 64 0 0)"

definition udivdi3 :: "u64 \<Rightarrow> u64 \<Rightarrow> u64" where
  "udivdi3 a b = fst (udivmod a b)"

definition umoddi3 :: "u64 \<Rightarrow> u64 \<Rightarrow> u64" where
  "umoddi3 a b = snd (udivmod a b)"

text \<open>The signed pair; \<open>None\<close> is the overflow of the final negation.\<close>

definition uabs :: "u64 \<Rightarrow> u64" where
  "uabs a = (if a <s 0 then - a else a)"

definition sneg :: "u64 \<Rightarrow> u64 option" where
  "sneg v = (if v = 0x8000000000000000 then None else Some (- v))"

definition divdi3 :: "u64 \<Rightarrow> u64 \<Rightarrow> u64 option" where
  "divdi3 a b =
     (let q = fst (udivmod (uabs a) (uabs b)) in
      if (a <s 0) \<noteq> (b <s 0) then sneg q else Some q)"

definition moddi3 :: "u64 \<Rightarrow> u64 \<Rightarrow> u64 option" where
  "moddi3 a b =
     (let r = snd (udivmod (uabs a) (uabs b)) in
      if a <s 0 then sneg r else Some r)"

lemma div_pow_Suc: "(A::nat) div 2 ^ i = 2 * (A div 2 ^ Suc i) + A div 2 ^ i mod 2"
proof -
  have "A div 2 ^ Suc i = A div 2 ^ i div 2" by (metis div_mult2_eq power_Suc2)
  then show ?thesis by simp
qed

lemma div_mod_unique:
  "(n::nat) = k * m + x \<Longrightarrow> x < m \<Longrightarrow> n div m = k"
  "(n::nat) = k * m + x \<Longrightarrow> x < m \<Longrightarrow> n mod m = x"
  by simp_all

lemma unat_even: "even (unat (w :: u64)) \<longleftrightarrow> even w"
  using bit_unsigned_iff [of w 0] by (simp add: bit_0)

lemma shift_in:
  assumes "2 * unat r + unat (drop_bit i a) mod 2 < 2 ^ 64"
  shows "unat (push_bit 1 r OR (drop_bit i a AND 1) :: u64) = 2 * unat r + unat (drop_bit i a) mod 2"
proof -
  let ?c = "drop_bit i a AND 1"
  have "push_bit 1 r AND ?c = 0"
    by (rule bit_word_eqI) (auto simp: bit_and_iff bit_push_bit_iff bit_1_iff simp del: push_bit_Suc)
  then have "push_bit 1 r OR ?c = push_bit 1 r + ?c" by (simp add: disjunctive_add_eq_or)
  also have "\<dots> = word_of_nat (2 * unat r + unat (drop_bit i a) mod 2)"
    by (simp add: push_bit_eq_mult and_one_eq mod_2_eq_odd unat_even)
  finally have "push_bit 1 r OR ?c = word_of_nat (2 * unat r + unat (drop_bit i a) mod 2)" .
  then show ?thesis
    using assms by (simp only: unsigned_of_nat) (simp add: take_bit_nat_eq_self)
qed

text \<open>
  The invariant of the 64 rounds: before round \<open>i - 1\<close> the quotient and the remainder are those of
  the bits already shifted in, \<open>a div 2 ^ i\<close>.
\<close>

lemma udiv_loop_eq:
  assumes "b \<noteq> 0" "i \<le> 64"
    and "q = push_bit i (word_of_nat (unat a div 2 ^ i div unat b))"
    and "unat r = unat a div 2 ^ i mod unat b"
  shows "udiv_loop a b i q r = (a div b, a mod b)"
  using assms(2-4)
proof (induction i arbitrary: q r)
  case 0
  then have "q = word_of_nat (unat (a div b))" by (simp only: unat_div) simp
  then have "q = a div b" by simp
  moreover have "unat r = unat (a mod b)" using "0.prems" by (simp add: unat_mod)
  ultimately show ?case by (simp add: word_unat_eq_iff)
next
  case (Suc i)
  let ?A = "unat a div 2 ^ i" and ?B = "unat b"
  let ?D = "unat a div 2 ^ Suc i div ?B" and ?M = "unat a div 2 ^ Suc i mod ?B"
  let ?x = "2 * ?M + ?A mod 2"
  have B: "0 < ?B" using assms(1) by (simp add: unat_gt_0)
  have M: "?M < ?B" using B by simp
  have A: "?A = 2 * ?D * ?B + ?x"
    using div_pow_Suc [of "unat a" i] div_mult_mod_eq [of "unat a div 2 ^ Suc i" ?B]
    by (simp only: mult.assoc)
  have "unat a < 2 ^ 64" using unsigned_less [of a] by simp
  then have "?x < 2 ^ 64" using A div_le_dividend [of "unat a" "2 ^ i"] by linarith
  moreover have d: "unat (drop_bit i a) = ?A"
    by (simp only: unat_drop_bit_eq drop_bit_eq_div [where 'a = nat])
  ultimately have r': "unat (push_bit 1 r OR (drop_bit i a AND 1)) = ?x"
    using shift_in [of r i a] by (simp only: Suc.prems(3) d)
  have "push_bit (Suc i) (word_of_nat ?D) = push_bit i (word_of_nat (2 * ?D) :: u64)"
    by (simp add: push_bit_eq_mult mult.assoc [symmetric] mult.commute)
  then have q: "q = push_bit i (word_of_nat (2 * ?D))" using Suc.prems(2) by simp
  show ?case
  proof (cases "?B \<le> ?x")
    case True
    have "?A = (2 * ?D + 1) * ?B + (?x - ?B)" using A True by (simp add: algebra_simps)
    moreover have "?x - ?B < ?B" using M by simp
    ultimately have dm: "?A div ?B = 2 * ?D + 1" "?A mod ?B = ?x - ?B"
      by (simp_all only: div_mod_unique)
    have "q OR push_bit i 1 = push_bit i (word_of_nat (2 * ?D) OR 1)" by (simp add: q push_bit_or)
    also have "\<dots> = push_bit i (word_of_nat (?A div ?B))"
      by (simp add: dm or_one_eq add.commute)
    finally have q': "q OR push_bit i 1 = push_bit i (word_of_nat (?A div ?B))" .
    have le: "b \<le> push_bit 1 r OR (drop_bit i a AND 1)"
      using True r' by (simp add: word_le_nat_alt)
    then have "unat ((push_bit 1 r OR (drop_bit i a AND 1)) - b) = ?A mod ?B"
      using r' dm by (simp add: unat_sub)
    then have "udiv_loop a b i (q OR push_bit i 1) ((push_bit 1 r OR (drop_bit i a AND 1)) - b) =
        (a div b, a mod b)"
      using Suc.IH [OF _ q'] Suc.prems(1) by simp
    with le show ?thesis by (simp add: Let_def)
  next
    case False
    then have dm: "?A div ?B = 2 * ?D" "?A mod ?B = ?x" using div_mod_unique [OF A] by simp_all
    have "\<not> b \<le> push_bit 1 r OR (drop_bit i a AND 1)"
      using False r' by (simp add: word_le_nat_alt)
    moreover have "udiv_loop a b i q (push_bit 1 r OR (drop_bit i a AND 1)) = (a div b, a mod b)"
      using Suc.IH [of q "push_bit 1 r OR (drop_bit i a AND 1)"] q dm r' Suc.prems(1) by simp
    ultimately show ?thesis by (simp add: Let_def)
  qed
qed

lemma udivmod_correct:
  "udivmod a b = (if b = 0 then (0, 0) else (a div b, a mod b))"
proof -
  have "unat a < 2 ^ 64" using unsigned_less [of a] by simp
  then have "b \<noteq> 0 \<Longrightarrow> udiv_loop a b 64 0 0 = (a div b, a mod b)"
    by (intro udiv_loop_eq) simp_all
  then show ?thesis by (simp add: udivmod_def)
qed

text \<open>
  C38: the unsigned 64-bit routines are the 64-bit operations they stand for: the three shifts
  (by the low six bits of the count), the product modulo \<open>2 ^ 64\<close>, and quotient and remainder,
  which are both zero for a zero divisor.
\<close>

theorem helpers64_correct:
  "ashldi3 a n = push_bit (unat (n AND 63)) a \<and>
   lshrdi3 a n = drop_bit (unat (n AND 63)) a \<and>
   ashrdi3 a n = signed_drop_bit (unat (n AND 63)) a \<and>
   muldi3 a b = a * b \<and>
   udivdi3 a b = a div b \<and>
   umoddi3 a b = (if b = 0 then 0 else a mod b)"
  by (simp add: shifts_correct muldi3_correct udivmod_correct udivdi3_def umoddi3_def)

text \<open>Absolute values: \<open>uabs\<close> is exact, the least integer included.\<close>

lemma sint_inj: "sint (a::u64) = sint b \<longleftrightarrow> a = b"
  by (rule word_eq_iff_signed [symmetric])

lemma sint_u64_bounds: "- (2 ^ 63) \<le> sint (a::u64)" "sint (a::u64) < 2 ^ 63"
  using sint_ge [of a] sint_lt [of a] by simp_all

lemma uint_uabs: "uint (uabs a) = \<bar>sint a\<bar>"
proof (cases "sint a < 0")
  case True
  have "uint (- a) = - sint a mod 2 ^ 64"
    using uint_word_of_int [of "- sint a", where 'a = 64] by simp
  moreover have "- sint a mod 2 ^ 64 = - sint a"
    using True sint_u64_bounds [of a] by (intro mod_pos_pos_trivial) simp_all
  ultimately show ?thesis using True by (simp add: uabs_def word_sless_alt)
next
  case False
  have "uint a = sint a mod 2 ^ 64"
    using uint_word_of_int [of "sint a", where 'a = 64] by simp
  moreover have "sint a mod 2 ^ 64 = sint a"
    using False sint_u64_bounds [of a] by (intro mod_pos_pos_trivial) simp_all
  ultimately show ?thesis using False by (simp add: uabs_def word_sless_alt)
qed

lemma uabs_0: "uabs b = 0 \<longleftrightarrow> b = 0"
  by (simp add: uabs_def)

lemma uabs_div: "uabs a div uabs b = word_of_int (\<bar>sint a\<bar> div \<bar>sint b\<bar>)"
  by (simp flip: uint_uabs add: word_div_def)

lemma uabs_mod: "uabs a mod uabs b = word_of_int (\<bar>sint a\<bar> mod \<bar>sint b\<bar>)"
  by (simp flip: uint_uabs add: word_mod_def)

lemma sint_min_iff: "a = 0x8000000000000000 \<longleftrightarrow> sint (a::u64) = - (2 ^ 63)"
proof -
  have "sint (0x8000000000000000::u64) = - (2 ^ 63)" by code_simp
  then show ?thesis by (metis sint_inj)
qed

lemma word_min_div:
  assumes "b \<noteq> 0"
  shows "uabs a div uabs b = 0x8000000000000000 \<longleftrightarrow> \<bar>sint a\<bar> = 2 ^ 63 \<and> \<bar>sint b\<bar> = 1"
proof -
  let ?A = "\<bar>sint a\<bar>" and ?B = "\<bar>sint b\<bar>"
  have B: "0 < ?B" using assms by (metis sint_0 sint_inj zero_less_abs_iff)
  have A: "?A \<le> 2 ^ 63" using sint_u64_bounds [of a] by simp
  have "uint (uabs a div uabs b) = ?A div ?B" by (simp add: uint_div uint_uabs)
  then have "uabs a div uabs b = 0x8000000000000000 \<longleftrightarrow> ?A div ?B = 2 ^ 63"
    by (simp add: word_uint_eq_iff)
  also have "\<dots> \<longleftrightarrow> ?A = 2 ^ 63 \<and> ?B = 1"
  proof
    assume eq: "?A div ?B = 2 ^ 63"
    have "?A div ?B * ?B \<le> ?A"
      using B div_mult_mod_eq [of ?A ?B] pos_mod_sign [of ?B ?A] by linarith
    with eq A have "2 ^ 63 * ?B \<le> 2 ^ 63" by simp
    with B have "?B = 1" by simp
    with eq show "?A = 2 ^ 63 \<and> ?B = 1" by simp
  qed simp
  finally show ?thesis .
qed

lemma uabs_mod_min:
  assumes "b \<noteq> 0"
  shows "uabs a mod uabs b \<noteq> 0x8000000000000000"
proof
  assume "uabs a mod uabs b = 0x8000000000000000"
  then have "uint (uabs a mod uabs b) = 2 ^ 63" by simp
  then have "\<bar>sint a\<bar> mod \<bar>sint b\<bar> = 2 ^ 63" by (simp add: uint_mod uint_uabs)
  moreover have "sint b \<noteq> 0" using assms by (metis sint_0 sint_inj)
  then have "\<bar>sint a\<bar> mod \<bar>sint b\<bar> < \<bar>sint b\<bar>" by simp
  ultimately show False using sint_u64_bounds [of b] by linarith
qed

text \<open>
  C39: the signed routines divide with truncation towards zero, for every divisor but zero.  The one
  exception is the least integer divided by one: the C code negates \<open>2 ^ 63\<close> as a signed
  integer, which overflows.
\<close>

theorem signed_division_correct:
  assumes "b \<noteq> 0"
  shows "divdi3 a b = (if a = 0x8000000000000000 \<and> b = 1 then None
      else Some (word_of_int (sint a sdiv sint b))) \<and>
    moddi3 a b = Some (word_of_int (sint a smod sint b))"
proof -
  let ?A = "sint a" and ?B = "sint b"
  have nz: "?B \<noteq> 0" using assms by (metis sint_0 sint_inj)
  have one: "b = 1 \<longleftrightarrow> ?B = 1"
  proof -
    have "sint (1::u64) = 1" by simp
    then show ?thesis by (metis sint_inj)
  qed
  have um: "udivmod (uabs a) (uabs b) = (uabs a div uabs b, uabs a mod uabs b)"
    using assms by (simp add: udivmod_correct uabs_0)
  have min: "(?A < 0) \<noteq> (?B < 0) \<Longrightarrow>
      \<bar>?A\<bar> = 2 ^ 63 \<and> \<bar>?B\<bar> = 1 \<longleftrightarrow> a = 0x8000000000000000 \<and> b = 1"
    unfolding sint_min_iff one using sint_u64_bounds [of a] by auto
  have "?A sdiv ?B = (if (?A < 0) = (?B < 0) then \<bar>?A\<bar> div \<bar>?B\<bar> else - (\<bar>?A\<bar> div \<bar>?B\<bar>))"
    using nz by (auto simp: signed_divide_int_def sgn_if)
  moreover have "(?A < 0) = (?B < 0) \<Longrightarrow> \<not> (a = 0x8000000000000000 \<and> b = 1)"
    unfolding sint_min_iff one by auto
  ultimately have "divdi3 a b = (if a = 0x8000000000000000 \<and> b = 1 then None
      else Some (word_of_int (?A sdiv ?B)))"
    using min word_min_div [OF assms, of a]
    by (auto simp: divdi3_def um Let_def word_sless_alt sneg_def) (simp_all add: uabs_div)
  moreover have "?A smod ?B = (if ?A < 0 then - (\<bar>?A\<bar> mod \<bar>?B\<bar>) else \<bar>?A\<bar> mod \<bar>?B\<bar>)"
    by (auto simp: signed_modulo_int_def sgn_if)
  then have "moddi3 a b = Some (word_of_int (?A smod ?B))"
    using uabs_mod_min [OF assms, of a]
    by (auto simp: moddi3_def um Let_def word_sless_alt sneg_def) (simp_all add: uabs_mod)
  ultimately show ?thesis by blast
qed

theorem signed_division_correct_witness:
  "divdi3 (- 7) 2 = (if (- 7::u64) = 0x8000000000000000 \<and> (2::u64) = 1 then None
      else Some (word_of_int (sint (- 7::u64) sdiv sint (2::u64)))) \<and>
    moddi3 (- 7) 2 = Some (word_of_int (sint (- 7::u64) smod sint (2::u64)))"
  by (rule signed_division_correct) simp

end
