(* ===== verification/Bytes.thy ===== *)
theory Bytes
  imports Prelude
begin

text \<open>
  Little-endian numbers in byte buffers, as \<^verbatim>\<open>le32\<close> and \<^verbatim>\<open>le16\<close> of \<^verbatim>\<open>core/update.c\<close> (and the copy
  in \<^verbatim>\<open>modules/supervisor.c\<close>) read them, and the bytes a number is stored as.
\<close>

definition le32 :: "u8 list \<Rightarrow> nat \<Rightarrow> u32" where
  "le32 p i = ucast (p ! i) OR push_bit 8 (ucast (p ! (i + 1)))
     OR push_bit 16 (ucast (p ! (i + 2))) OR push_bit 24 (ucast (p ! (i + 3)))"

definition le16 :: "u8 list \<Rightarrow> nat \<Rightarrow> u16" where
  "le16 p i = ucast (p ! i) OR push_bit 8 (ucast (p ! (i + 1)))"

definition le16_bytes :: "u16 \<Rightarrow> u8 list" where
  "le16_bytes x = [ucast x, ucast (drop_bit 8 x)]"

definition le32_bytes :: "u32 \<Rightarrow> u8 list" where
  "le32_bytes x = [ucast x, ucast (drop_bit 8 x), ucast (drop_bit 16 x), ucast (drop_bit 24 x)]"

lemma length_le_bytes [simp]: "length (le16_bytes x) = 2" "length (le32_bytes y) = 4"
  by (simp_all add: le16_bytes_def le32_bytes_def)

lemma le16_low: "(ucast (le16 p i) :: u8) = p ! i"
  by (rule bit_word_eqI) (auto simp: le16_def bit_simps)

lemma le16_high: "(ucast (drop_bit 8 (le16 p i)) :: u8) = p ! (i + 1)"
  by (rule bit_word_eqI) (auto simp: le16_def bit_simps dest: bit_imp_le_length)

lemma le16_eqD: "le16 p i = le16 q j \<Longrightarrow> p ! i = q ! j \<and> p ! (i + 1) = q ! (j + 1)"
  using le16_low le16_high by metis

lemma le16_le16_bytes: "take 2 (drop i p) = le16_bytes x \<Longrightarrow> le16 p i = x"
proof -
  assume p: "take 2 (drop i p) = le16_bytes x"
  then have "length (take 2 (drop i p)) = 2" by simp
  then have i: "i + 1 < length p" by simp
  have "p ! i = take 2 (drop i p) ! 0" "p ! (i + 1) = take 2 (drop i p) ! 1" using i by simp_all
  then have "p ! i = ucast x" "p ! (i + 1) = ucast (drop_bit 8 x)"
    unfolding p by (simp_all add: le16_bytes_def)
  then show ?thesis
    by (intro bit_word_eqI) (auto simp: le16_def bit_simps)
qed

lemma le32_le32_bytes: "take 4 (drop i p) = le32_bytes x \<Longrightarrow> le32 p i = x"
proof -
  assume p: "take 4 (drop i p) = le32_bytes x"
  then have "length (take 4 (drop i p)) = 4" by simp
  then have i: "i + 3 < length p" by simp
  have "p ! (i + k) = take 4 (drop i p) ! k" if "k < 4" for k using i that by simp
  from this [of 0] this [of 1] this [of 2] this [of 3]
  have bytes: "p ! i = ucast x" "p ! Suc i = ucast (drop_bit 8 x)"
    "p ! Suc (Suc i) = ucast (drop_bit 16 x)" "p ! (i + 3) = ucast (drop_bit 24 x)"
    unfolding p by (simp_all add: le32_bytes_def)
  have "bit (le32 p i) n = bit x n" if "n < 32" for n
  proof -
    consider "n < 8" | "8 \<le> n" "n < 16" | "16 \<le> n" "n < 24" | "24 \<le> n" by linarith
    then show ?thesis using that by cases (auto simp: le32_def bit_simps bytes)
  qed
  then show ?thesis by (intro bit_word_eqI) simp
qed

lemma le32_blit:
  "i + 4 \<le> length buf \<Longrightarrow> le32 (blit i (le32_bytes x) buf) i = x"
  by (rule le32_le32_bytes) simp

end
