(* ===== verification/Flash.thy ===== *)
theory Flash
  imports Bytes Platform
begin

text \<open>
  The slot mirror of \<^verbatim>\<open>core/flash.c\<close>: two pages that keep the native images over a reset.  The
  mirror is the \<^verbatim>\<open>0x800\<close> bytes from \<^verbatim>\<open>MIR_BASE\<close> (or \<^verbatim>\<open>mir_ram\<close>, its stand-in under QEMU), with slot 1 at
  \<^verbatim>\<open>0x400\<close>.  \<open>None\<close> is an access outside an object: the C page buffer is 64 words on the stack.
\<close>

definition MIR_BASE :: u32 where "MIR_BASE = 0x0800A000"
definition MIR_MAGIC :: u32 where "MIR_MAGIC = 0x4D495234"
definition MIR_SLOT0 :: u32 where "MIR_SLOT0 = MIR_BASE"
definition MIR_SLOT1 :: u32 where "MIR_SLOT1 = MIR_BASE + 0x400"

text \<open>
  The flash controller of the board.  A routine is the list of its bus accesses; a wait polls the
  status register until its bit is clear, at most four million times.
\<close>

definition FMC_KEYR :: u32 where "FMC_KEYR = 0x40022004"
definition FMC_MODEKEYR :: u32 where "FMC_MODEKEYR = 0x40022008"
definition FMC_CTLR :: u32 where "FMC_CTLR = 0x40022010"
definition FMC_ADDR :: u32 where "FMC_ADDR = 0x40022014"
definition FMC_STATR :: u32 where "FMC_STATR = 0x4002200C"
definition FMC_STD_PG :: u32 where "FMC_STD_PG = 1"
definition FMC_CTLR_START :: u32 where "FMC_CTLR_START = 0x40"
definition FMC_CTLR_LOCK :: u32 where "FMC_CTLR_LOCK = 0x80"
definition FMC_SR_WRBSY :: u32 where "FMC_SR_WRBSY = 2"
definition FMC_BUSY :: u32 where "FMC_BUSY = 1"
definition FMC_CTLR_CLEAN :: u32 where "FMC_CTLR_CLEAN = 0x100"

datatype bus = Wr32 u32 u32 | Wr16 u32 u16 | Wait u32

fun fmc_wait :: "u32 \<Rightarrow> u32 \<Rightarrow> u32 list \<Rightarrow> (u32 \<times> u32 list) option" where
  "fmc_wait msk guard [] = None"
| "fmc_wait msk guard (v # reads) =
     (if v AND msk = 0 then Some (guard, reads)
      else if guard - 1 = 0 then Some (0, reads)
      else fmc_wait msk (guard - 1) reads)"

definition fmc_wait_bsy :: "u32 list \<Rightarrow> (u32 \<times> u32 list) option" where
  "fmc_wait_bsy reads = fmc_wait FMC_BUSY 4000000 reads"

definition fmc_wait_wrbsy :: "u32 list \<Rightarrow> (u32 \<times> u32 list) option" where
  "fmc_wait_wrbsy reads = fmc_wait FMC_SR_WRBSY 4000000 reads"

definition fmc_unlock :: "bus list" where
  "fmc_unlock =
     [Wr32 FMC_KEYR 0x45670123, Wr32 FMC_KEYR 0xCDEF89AB,
      Wr32 FMC_MODEKEYR 0x45670123, Wr32 FMC_MODEKEYR 0xCDEF89AB, Wr32 FMC_CTLR FMC_CTLR_CLEAN]"

definition erase_page :: "u32 \<Rightarrow> bus list" where
  "erase_page addr =
     [Wr32 FMC_CTLR (FMC_CTLR_CLEAN OR push_bit 15 1), Wr32 FMC_ADDR addr,
      Wr32 FMC_CTLR (FMC_CTLR_CLEAN OR push_bit 15 1 OR FMC_CTLR_START),
      Wait FMC_BUSY, Wr32 FMC_CTLR FMC_CTLR_CLEAN]"

definition program_page :: "u32 \<Rightarrow> u8 list \<Rightarrow> u32 \<Rightarrow> bus list" where
  "program_page addr bytes n =
     [Wr32 FMC_CTLR (FMC_CTLR_CLEAN OR FMC_STD_PG), Wait FMC_BUSY, Wait FMC_SR_WRBSY] @
     concat (map (\<lambda>i. [Wr16 (addr + 2 * of_nat i) (le16 bytes (2 * i)), Wait FMC_SR_WRBSY])
       [0..<unat (n * 2)])"

definition flash_write_bus :: "u32 \<Rightarrow> u8 list \<Rightarrow> bus list" where
  "flash_write_bus slot page =
     (let base = (if slot \<noteq> 0 then MIR_SLOT1 else MIR_SLOT0) in
      fmc_unlock @ erase_page base @ program_page base page 64
        @ [Wr32 FMC_CTLR (FMC_CTLR_CLEAN OR FMC_CTLR_LOCK)])"

text \<open>What the halfword stores of a bus trace leave in an erased array.\<close>

fun apply_stores :: "bus list \<Rightarrow> (u32 \<Rightarrow> u8) \<Rightarrow> u32 \<Rightarrow> u8" where
  "apply_stores [] f = f"
| "apply_stores (Wr16 a v # bs) f = apply_stores bs (f(a := ucast v, a + 1 := ucast (drop_bit 8 v)))"
| "apply_stores (b # bs) f = apply_stores bs f"

text \<open>The offset of a slot in the mirror.\<close>

definition mir_off :: "u32 \<Rightarrow> nat" where
  "mir_off slot = unat ((if slot \<noteq> 0 then MIR_SLOT1 else MIR_SLOT0) - MIR_BASE)"

definition blank_page :: "u32 \<Rightarrow> u32 \<Rightarrow> u32 \<Rightarrow> u8 list" where
  "blank_page slot len entry =
     le32_bytes MIR_MAGIC @ le32_bytes slot @ le32_bytes len @ le32_bytes entry @ replicate 240 0xFF"

definition flash_mirror_write ::
    "u32 \<Rightarrow> u8 list \<Rightarrow> u32 \<Rightarrow> u32 \<Rightarrow> u8 list \<Rightarrow> (u32 \<times> u8 list) option" where
  "flash_mirror_write slot code len entry mir =
     (if slot > 1 \<or> len > 0x1F0 then Some (- 1, mir)
      else
        (let page = blank_page slot len entry in
         if length page < 16 + unat len \<or> length code < unat len then None
         else
           (let page = blit 16 (take (unat len) code) page in
            Some (0, blit (mir_off slot) page mir))))"

definition flash_mirror_read ::
    "u32 \<Rightarrow> u8 list \<Rightarrow> u32 \<Rightarrow> u32 \<Rightarrow> u8 list \<Rightarrow> (u32 \<times> u8 list \<times> u32) option" where
  "flash_mirror_read slot out cap entry mir =
     (if slot > 1 then Some (0, out, entry)
      else
        (let src = drop (mir_off slot) mir in
         if length src < 16 then None
         else if le32 src 0 \<noteq> MIR_MAGIC then Some (0, out, entry)
         else
           (let len = le32 src 8; entry = le32 src 12; len = (if len > cap then cap else len) in
            if length src < 16 + unat len \<or> length out < unat len then None
            else Some (len, blit 0 (take (unat len) (drop 16 src)) out, entry))))"

subsection \<open>Reading back\<close>

lemma slot_cases: "\<not> slot > (1::u32) \<Longrightarrow> slot = 0 \<or> slot = 1"
  by (auto simp: word_le_nat_alt word_less_nat_alt not_less word_unat_eq_iff)

lemma mir_off_simps [simp]: "mir_off 0 = 0" "mir_off 1 = 0x400"
  by (simp_all add: mir_off_def MIR_SLOT0_def MIR_SLOT1_def)

lemma mir_off_le: "mir_off slot \<le> 0x400"
  by (simp add: mir_off_def MIR_SLOT0_def MIR_SLOT1_def)

lemma length_blank_page [simp]: "length (blank_page slot len entry) = 256"
  by (simp add: blank_page_def)

definition mirror_page :: "u32 \<Rightarrow> u8 list \<Rightarrow> u32 \<Rightarrow> u32 \<Rightarrow> u8 list" where
  "mirror_page slot code len entry = blit 16 (take (unat len) code) (blank_page slot len entry)"

lemma length_mirror_page [simp]:
  "unat len \<le> 240 \<Longrightarrow> length (mirror_page slot code len entry) = 256"
  by (simp add: mirror_page_def)

lemma flash_mirror_write_ok:
  assumes "slot = 0 \<or> slot = 1" "unat len \<le> 240" "unat len \<le> length code"
  shows "flash_mirror_write slot code len entry mir =
    Some (0, blit (mir_off slot) (mirror_page slot code len entry) mir)"
proof -
  have "\<not> slot > 1" using assms(1) by auto
  moreover have "\<not> len > 0x1F0" using assms(2) by (simp add: word_less_nat_alt not_less)
  ultimately show ?thesis
    using assms by (simp add: flash_mirror_write_def Let_def mirror_page_def)
qed

lemma mirror_page_fields:
  assumes "unat len \<le> 240" "unat len \<le> length code"
  shows "le32 (mirror_page slot code len entry @ rest) 0 = MIR_MAGIC"
    "le32 (mirror_page slot code len entry @ rest) 8 = len"
    "le32 (mirror_page slot code len entry @ rest) 12 = entry"
    "take (unat len) (drop 16 (mirror_page slot code len entry @ rest)) = take (unat len) code"
  by (rule le32_le32_bytes; simp add: mirror_page_def blank_page_def blit_def le32_bytes_def)+
    (use assms in \<open>simp add: mirror_page_def blit_def blank_page_def\<close>)

lemma flash_read_written:
  assumes slot: "slot = 0 \<or> slot = 1" and len: "unat len \<le> 240" "unat len \<le> length code"
    and mir: "length mir = 0x800" and out: "len \<le> cap" "unat len \<le> length out"
  shows "flash_mirror_read slot out cap e (blit (mir_off slot) (mirror_page slot code len entry) mir) =
    Some (len, blit 0 (take (unat len) code) out, entry)"
proof -
  let ?page = "mirror_page slot code len entry"
  have "\<not> slot > 1" using slot by auto
  obtain rest where src: "drop (mir_off slot) (blit (mir_off slot) ?page mir) = ?page @ rest"
    using slot mir len by (auto simp: blit_def)
  note fields = mirror_page_fields [OF len, of slot entry rest]
  have "\<not> cap < len" using out by simp
  then show ?thesis
    using \<open>\<not> slot > 1\<close> len out fields
    unfolding flash_mirror_read_def Let_def src by (simp del: take_append drop_append)
qed

text \<open>A read looks at no more than 16 bytes of header and \<open>cap\<close> bytes of image.\<close>

lemma le32_take: "i + 4 \<le> n \<Longrightarrow> le32 (take n p) i = le32 p i"
  by (simp add: le32_def)

lemma flash_read_prefix:
  assumes eq: "take n (drop (mir_off slot) mir) = take n (drop (mir_off slot) mir')"
    and len: "length mir = length mir'" and cap: "16 + unat cap \<le> n"
  shows "flash_mirror_read slot out cap e mir = flash_mirror_read slot out cap e mir'"
proof -
  let ?p = "drop (mir_off slot) mir" and ?q = "drop (mir_off slot) mir'"
  have f: "le32 ?p i = le32 ?q i" if "i + 4 \<le> 16" for i
    using le32_take [of i n ?p] le32_take [of i n ?q] eq cap that by simp
  have t: "take k (drop 16 ?p) = take k (drop 16 ?q)" if "k \<le> unat cap" for k
  proof -
    have "take k (drop 16 (take n ?p)) = take k (drop 16 (take n ?q))" by (simp only: eq)
    then show ?thesis using that cap by (simp add: drop_take del: drop_drop)
  qed
  show ?thesis
  proof (cases "le32 ?q 8 > cap")
    case True
    then show ?thesis
      unfolding flash_mirror_read_def Let_def
      using f [of 0] f [of 8] f [of 12] t [of "unat cap"] len by (simp del: drop_drop)
  next
    case False
    then have "unat (le32 ?q 8) \<le> unat cap" by (simp add: word_less_nat_alt not_less)
    with False show ?thesis
      unfolding flash_mirror_read_def Let_def
      using f [of 0] f [of 8] f [of 12] t [of "unat (le32 ?q 8)"] len by (simp del: drop_drop)
  qed
qed

lemma flash_read_other:
  assumes slots: "slot = 0 \<or> slot = 1" "other = 0 \<or> other = 1" "other \<noteq> slot"
    and len: "unat len \<le> 240" and mir: "length mir = 0x800" and cap: "unat cap \<le> 0x3F0"
  shows "flash_mirror_read other out cap e (blit (mir_off slot) (mirror_page slot code len entry) mir) =
    flash_mirror_read other out cap e mir"
proof (rule flash_read_prefix [where n = "0x400"])
  show "take 0x400 (drop (mir_off other) (blit (mir_off slot) (mirror_page slot code len entry) mir)) =
      take 0x400 (drop (mir_off other) mir)"
    using slots mir len by (auto simp: blit_def)
qed (use slots mir len cap in auto)

subsection \<open>The mirror as a store of two images\<close>

text \<open>
  What the boot restore relies on: an image written to a slot is what a later read of this slot
  gives, and the other slot keeps its contents.
\<close>

locale image_store =
  fixes wr :: "'k \<Rightarrow> 'v \<Rightarrow> 's \<Rightarrow> 's" and rd :: "'k \<Rightarrow> 's \<Rightarrow> 'v option"
    and slot :: "'k \<Rightarrow> bool" and fits :: "'v \<Rightarrow> bool" and ok :: "'s \<Rightarrow> bool"
  assumes rd_wr: "ok s \<Longrightarrow> slot k \<Longrightarrow> fits v \<Longrightarrow> rd k (wr k v s) = Some v"
    and rd_other: "ok s \<Longrightarrow> slot k \<Longrightarrow> slot j \<Longrightarrow> j \<noteq> k \<Longrightarrow> fits v \<Longrightarrow> rd j (wr k v s) = rd j s"
    and wr_ok: "ok s \<Longrightarrow> slot k \<Longrightarrow> fits v \<Longrightarrow> ok (wr k v s)"
begin

text \<open>After any sequence of writes a slot holds the last image written to it.\<close>

lemma rd_writes:
  "ok s \<Longrightarrow> \<forall>(k, v) \<in> set ws. slot k \<and> fits v \<Longrightarrow> slot j \<Longrightarrow>
    rd j (fold (\<lambda>(k, v). wr k v) ws s) =
      (case map_of (rev ws) j of Some v \<Rightarrow> Some v | None \<Rightarrow> rd j s)"
proof (induction ws arbitrary: s)
  case Nil
  then show ?case by simp
next
  case (Cons w ws)
  obtain k v where w: "w = (k, v)" by (cases w)
  have kv: "slot k" "fits v" using Cons.prems(2) w by auto
  have "rd j (wr k v s) = (if j = k then Some v else rd j s)"
    using rd_wr rd_other Cons.prems(1,3) kv by simp
  then show ?case
    using Cons.IH [of "wr k v s"] wr_ok Cons.prems kv
    by (auto simp: w map_add_def split: option.splits)
qed

end

definition mirror_put :: "u32 \<Rightarrow> u8 list \<times> u32 \<Rightarrow> u8 list \<Rightarrow> u8 list" where
  "mirror_put slot img mir =
     (case flash_mirror_write slot (fst img) (of_nat (length (fst img))) (snd img) mir of
        Some (r, mir') \<Rightarrow> mir' | None \<Rightarrow> mir)"

definition mirror_get :: "u32 \<Rightarrow> u8 list \<Rightarrow> (u8 list \<times> u32) option" where
  "mirror_get slot mir =
     (case flash_mirror_read slot (replicate 0x1F0 0) 0x1F0 0 mir of
        Some (len, out, entry) \<Rightarrow> Some (take (unat len) out, entry) | None \<Rightarrow> None)"

lemma image_len: "length code \<le> 240 \<Longrightarrow> unat (of_nat (length code) :: u32) = length code"
  by (simp add: unat_of_nat take_bit_nat_eq_self)

interpretation mirror: image_store mirror_put mirror_get
  "\<lambda>slot. slot = 0 \<or> slot = 1" "\<lambda>img. length (fst img) \<le> 240" "\<lambda>mir. length mir = 0x800"
proof unfold_locales
  fix mir :: "u8 list" and k j :: u32 and v :: "u8 list \<times> u32"
  assume mir: "length mir = 0x800" and k: "k = 0 \<or> k = 1" and v: "length (fst v) \<le> 240"
  have put: "mirror_put k v mir =
      blit (mir_off k) (mirror_page k (fst v) (of_nat (length (fst v))) (snd v)) mir"
    using flash_mirror_write_ok [OF k] v by (simp add: mirror_put_def image_len)
  show "mirror_get k (mirror_put k v mir) = Some v"
    using flash_read_written [OF k _ _ mir] v
    by (simp add: put mirror_get_def image_len word_le_nat_alt blit_def)
  show "length (mirror_put k v mir) = 0x800"
    using k v mir by (auto simp: put image_len)
  assume j: "j = 0 \<or> j = 1" "j \<noteq> k"
  show "mirror_get j (mirror_put k v mir) = mirror_get j mir"
    using flash_read_other [OF k j _ mir] v by (simp add: put mirror_get_def image_len)
qed

text \<open>
  The slot mirror is a store of two images of at most 240 bytes: after any sequence of
  writes, reading a slot gives the last image and entry offset written to it, or what it held
  before when no write went to it.
\<close>

theorem mirror_keeps_images:
  assumes "length mir = 0x800" "\<forall>(k, v) \<in> set ws. (k = 0 \<or> k = 1) \<and> length (fst v) \<le> 240"
    and "slot = 0 \<or> slot = 1"
  shows "mirror_get slot (fold (\<lambda>(k, v). mirror_put k v) ws mir) =
    (case map_of (rev ws) slot of Some v \<Rightarrow> Some v | None \<Rightarrow> mirror_get slot mir)"
  using assms by (rule mirror.rd_writes)

theorem mirror_keeps_images_witness:
  "mirror_get 1 (fold (\<lambda>(k, v). mirror_put k v) [(1, [5, 6], 4), (0, [9], 2)] (replicate 0x800 0)) =
    Some ([5, 6], 4)"
  by (subst mirror_keeps_images) simp_all

lemma flash_mirror_write_overflow:
  assumes "slot = 0 \<or> slot = 1" "240 < unat len" "unat len \<le> 0x1F0"
  shows "flash_mirror_write slot code len entry mir = None"
proof -
  have "\<not> slot > 1" using assms(1) by auto
  moreover have "\<not> len > 0x1F0" using assms(3) by (simp add: word_less_nat_alt not_less)
  ultimately show ?thesis
    using assms(2) by (simp add: flash_mirror_write_def Let_def)
qed

text \<open>
  The write routine admits images of up to \<^verbatim>\<open>0x1F0\<close> bytes but its page buffer has room for 240:
  a longer image, of which \<^verbatim>\<open>hot_swap\<close> passes up to \<^verbatim>\<open>0x1F0\<close> bytes, is written past the buffer.
\<close>

theorem mirror_write_overflows:
  assumes "slot = 0 \<or> slot = 1" "240 < unat len" "unat len \<le> 0x1F0"
  shows "flash_mirror_write slot code len entry mir = None"
  using assms by (rule flash_mirror_write_overflow)

theorem mirror_write_overflows_witness:
  "flash_mirror_write 0 (replicate 300 0) 300 0 (replicate 0x800 0) = None"
  by (rule mirror_write_overflows) simp_all

lemma flash_mirror_read_bounded:
  assumes "length mir = 0x800" "cap \<le> 0x1F0" "unat cap \<le> length out"
  shows "\<exists>n out' entry'. flash_mirror_read slot out cap entry mir = Some (n, out', entry') \<and>
    n \<le> cap \<and> length out' = length out \<and> drop (unat n) out' = drop (unat n) out"
proof (cases "slot > 1 \<or> le32 (drop (mir_off slot) mir) 0 \<noteq> MIR_MAGIC")
  case True
  then have "flash_mirror_read slot out cap entry mir = Some (0, out, entry)"
    using assms(1) mir_off_le [of slot] by (auto simp: flash_mirror_read_def Let_def)
  then show ?thesis by simp
next
  case False
  then have slot: "slot = 0 \<or> slot = 1" using slot_cases by simp
  let ?src = "drop (mir_off slot) mir" and ?l = "le32 (drop (mir_off slot) mir) 8"
  define n where "n = (if ?l > cap then cap else ?l)"
  have n: "n \<le> cap" by (auto simp: n_def)
  then have un: "unat n \<le> 0x1F0" "unat n \<le> length out"
    using assms(2,3) by (auto simp: word_le_nat_alt)
  have src: "0x400 \<le> length ?src" using assms(1) slot by auto
  have "flash_mirror_read slot out cap entry mir =
      Some (n, blit 0 (take (unat n) (drop 16 ?src)) out, le32 ?src 12)"
    using False un src by (simp add: flash_mirror_read_def Let_def n_def [symmetric] del: length_drop)
  moreover have "length (take (unat n) (drop 16 ?src)) = unat n"
    using un src by simp
  ultimately show ?thesis
    using n un by (auto simp: blit_def simp del: length_take)
qed

text \<open>
  Whatever the pages hold, a boot-time read stays inside the mirror and the slot's text
  area, writes no more than \<open>cap\<close> bytes there, and reports no more than it wrote.
\<close>

theorem mirror_read_bounded:
  assumes "length mir = 0x800" "cap \<le> 0x1F0" "unat cap \<le> length out"
  shows "\<exists>n out' entry'. flash_mirror_read slot out cap entry mir = Some (n, out', entry') \<and>
    n \<le> cap \<and> length out' = length out \<and> drop (unat n) out' = drop (unat n) out"
  using assms by (rule flash_mirror_read_bounded)

theorem mirror_read_bounded_witness:
  "\<exists>n out' entry'. flash_mirror_read 0 (replicate 0x1F0 0) 0x1F0 0 (replicate 0x800 0xFF) = Some (n, out', entry') \<and>
    n \<le> 0x1F0 \<and> length out' = length (replicate 0x1F0 (0::u8)) \<and>
    drop (unat n) out' = drop (unat n) (replicate 0x1F0 0)"
  by (rule mirror_read_bounded) simp_all

subsection \<open>The controller sequence\<close>

lemma fmc_wait_returns:
  "0 < unat guard \<Longrightarrow> unat guard \<le> length reads \<Longrightarrow>
    \<exists>g rest. fmc_wait msk guard reads = Some (g, rest) \<and> length reads \<le> length rest + unat guard"
proof (induction msk guard reads rule: fmc_wait.induct)
  case (1 msk guard)
  then show ?case by simp
next
  case (2 msk guard v reads)
  show ?case
  proof (cases "v AND msk = 0 \<or> guard - 1 = 0")
    case True
    with 2 show ?thesis by auto
  next
    case False
    have g: "unat (guard - 1) = unat guard - 1"
      using 2(2) by (simp add: unat_minus_one word_gt_0 unat_gt_0)
    moreover have "0 < unat (guard - 1)" using False by (simp add: unat_gt_0)
    ultimately show ?thesis
      using 2(1) False 2(3) by fastforce
  qed
qed

lemma apply_stores_append: "apply_stores (xs @ ys) f = apply_stores ys (apply_stores xs f)"
  by (induction xs f rule: apply_stores.induct) (simp_all add: fun_upd_def)

lemma apply_half_words:
  assumes "2 * n < 2 ^ 32"
  shows "apply_stores (concat (map (\<lambda>i. [Wr16 (addr + 2 * of_nat i) (le16 bytes (2 * i)), Wait m]) [0..<n])) f =
    (\<lambda>a. if unat (a - addr) < 2 * n then bytes ! unat (a - addr) else f a)"
  using assms
proof (induction n)
  case 0
  then show ?case by simp
next
  case (Suc n)
  have nat: "unat (of_nat m :: u32) = m" if "m < 2 ^ 32" for m
    using that by (simp add: unat_of_nat take_bit_nat_eq_self)
  have u: "unat (2 * of_nat n :: u32) = 2 * n" using nat [of "2 * n"] Suc.prems by simp
  have u1: "unat (2 * of_nat n + 1 :: u32) = 2 * n + 1"
    using nat [of "2 * n + 1"] Suc.prems by (simp add: add.commute)
  have e: "a = addr + 2 * of_nat n \<longleftrightarrow> unat (a - addr) = 2 * n" for a
    unfolding u [symmetric] word_unat_eq_iff [symmetric] by (auto simp: algebra_simps)
  have e1: "a = addr + 2 * of_nat n + 1 \<longleftrightarrow> unat (a - addr) = 2 * n + 1" for a
    unfolding u1 [symmetric] word_unat_eq_iff [symmetric] by (auto simp: algebra_simps)
  show ?case
    using Suc by (auto simp: apply_stores_append fun_eq_iff le16_low le16_high e e1)
qed

text \<open>
  The half-word stores of the programming sequence put the page, and nothing else, into the
  slot's 256 bytes of flash.
\<close>

theorem flash_program_lands:
  assumes "length page = 256"
  shows "apply_stores (flash_write_bus slot page) f =
    (\<lambda>a. let k = unat (a - (if slot \<noteq> 0 then MIR_SLOT1 else MIR_SLOT0)) in
       if k < 256 then page ! k else f a)"
  using apply_half_words [of 128]
  by (simp add: flash_write_bus_def fmc_unlock_def erase_page_def program_page_def Let_def
      apply_stores_append)

theorem flash_program_lands_witness:
  "apply_stores (flash_write_bus 1 (replicate 256 7)) (\<lambda>a. 0xFF) =
    (\<lambda>a. let k = unat (a - (if (1::u32) \<noteq> 0 then MIR_SLOT1 else MIR_SLOT0)) in
       if k < 256 then replicate 256 7 ! k else 0xFF)"
  by (rule flash_program_lands) simp

end
