(* ===== verification/Pmp.thy ===== *)
theory Pmp
  imports Loader Platform
begin

text \<open>
  Physical memory protection.  \<^verbatim>\<open>NAPOT\<close> of \<^verbatim>\<open>core/platform.h\<close> encodes a region in an address register;
  \<open>napot_match\<close> and \<open>pmp_allows\<close> state what the RISC-V architecture makes of the registers: the
  trailing ones of an address register and the zero above them are the bits that are not compared,
  the lowest-numbered matching entry decides, and user mode has no access without a match.
\<close>

unbundle bit_operations_syntax

definition NAPOT :: "u32 \<Rightarrow> u32 \<Rightarrow> u32" where
  "NAPOT b s = drop_bit 2 b OR (drop_bit 3 s - 1)"

definition PMP_DENY :: u32 where
  "PMP_DENY = 0xFFFFFFFF"

definition napot_match :: "u32 \<Rightarrow> u32 \<Rightarrow> bool" where
  "napot_match a x \<longleftrightarrow> (drop_bit 2 x XOR a) AND NOT (a XOR (a + 1)) = 0"

datatype access = Read | Write | Exec

definition access_bit :: "access \<Rightarrow> nat" where
  "access_bit acc = (case acc of Read \<Rightarrow> 0 | Write \<Rightarrow> 1 | Exec \<Rightarrow> 2)"

fun pmp_decide :: "(u32 \<times> u32) list \<Rightarrow> access \<Rightarrow> u32 \<Rightarrow> bool" where
  "pmp_decide [] acc x = False"
| "pmp_decide ((cfg, a) # es) acc x =
     (if drop_bit 3 cfg AND 3 = 3 \<and> napot_match a x then bit cfg (access_bit acc)
      else pmp_decide es acc x)"

text \<open>\<open>csrs\<close> is the register file: \<^verbatim>\<open>pmpcfg0\<close> is \<^verbatim>\<open>0x3A0\<close>, the address registers start at \<^verbatim>\<open>0x3B0\<close>.\<close>

definition pmp_allows :: "(u32 \<Rightarrow> u32) \<Rightarrow> access \<Rightarrow> u32 \<Rightarrow> bool" where
  "pmp_allows csrs acc x =
     pmp_decide (map (\<lambda>k. (drop_bit (8 * k) (csrs 0x3a0) AND 0xFF, csrs (0x3b0 + of_nat k))) [0..<4]) acc x"

definition in_region :: "u32 \<Rightarrow> u32 \<Rightarrow> u32 \<Rightarrow> bool" where
  "in_region b s x \<longleftrightarrow> b \<le> x \<and> unat x < unat b + unat s"

subsection \<open>Powers of two\<close>

lemma unat_pow2: "n < 32 \<Longrightarrow> unat (2 ^ n :: u32) = 2 ^ n"
proof -
  assume n: "n < 32"
  have "(2::nat) ^ n < 2 ^ 32" using n by (rule power_strict_increasing) simp
  then have "unat (of_nat (2 ^ n) :: u32) = 2 ^ n"
    unfolding unat_of_nat by simp
  then show ?thesis by simp
qed

lemma pow2_word:
  assumes "w AND (w - 1) = 0" "w \<noteq> (0::u32)"
  obtains n where "n < 32" "unat w = 2 ^ n"
proof -
  have "1 \<le> unat w" using assms(2) by (simp add: unat_gt_0 Suc_le_eq)
  then obtain n where n: "2 ^ n \<le> unat w" "unat w < 2 ^ (n + 1)"
    using ex_power_ivl1 [of 2 "unat w"] by auto
  have top: "bit v n" if "2 ^ n \<le> unat v" "unat v < 2 ^ (n + 1)" for v :: u32
  proof -
    have "unat v div 2 ^ n = 1" using that by (simp add: div_nat_eqI)
    then have "bit (unat v) n" by (simp add: bit_iff_odd)
    then show ?thesis by (simp add: bit_unsigned_iff)
  qed
  have "unat w = 2 ^ n"
  proof (rule ccontr)
    assume "unat w \<noteq> 2 ^ n"
    then have "2 ^ n \<le> unat (w - 1)" "unat (w - 1) < 2 ^ (n + 1)"
      using n by (simp_all add: unat_minus_one assms(2))
    then have "bit (w AND (w - 1)) n" using top n by (simp add: bit_and_iff)
    with assms(1) show False by simp
  qed
  moreover have "n < 32"
  proof -
    have "unat w < 2 ^ 32" using unsigned_less [of w] by simp
    with n(1) have "2 ^ n < (2::nat) ^ 32" by (rule le_less_trans)
    then show ?thesis using power_less_imp_less_exp by (metis one_less_numeral_iff semiring_norm(76))
  qed
  ultimately show ?thesis using that by blast
qed

subsection \<open>What an address register matches\<close>

lemma napot_bits:
  assumes n: "3 \<le> n" "n < 32" and s: "unat s = 2 ^ n" and al: "unat b mod unat s = 0"
  shows "NAPOT b s XOR (NAPOT b s + 1) = mask (n - 2)"
    "k \<ge> n - 2 \<Longrightarrow> bit (NAPOT b s) k = bit b (k + 2)"
proof -
  let ?b = "drop_bit 2 b"
  have s2: "s = 2 ^ n" using s n by (simp add: word_unat_eq_iff unat_pow2)
  have "drop_bit 3 (2 ^ n :: u32) = 2 ^ (n - 3)"
    by (rule bit_word_eqI) (use n in \<open>auto simp: bit_simps\<close>)
  then have sz: "drop_bit 3 s - 1 = mask (n - 3)"
    by (simp add: s2 mask_eq_exp_minus_1)
  have low: "\<not> bit b k" if "k < n" for k
  proof -
    have "take_bit n (unat b) = 0" using al s by (simp add: take_bit_eq_mod)
    then have "\<not> bit (take_bit n (unat b)) k" by simp
    then show ?thesis using that n by (simp add: bit_take_bit_iff bit_unsigned_iff)
  qed
  have bl: "\<not> bit ?b k" if "k < n - 2" for k using low that n by (simp add: bit_drop_bit_eq)
  have zero: "?b AND mask (n - 3) = 0" by (rule bit_word_eqI) (auto simp: bit_simps low)
  then have a: "NAPOT b s = ?b + mask (n - 3)"
    by (simp add: NAPOT_def sz disjunctive_add_eq_or)
  have "?b AND 2 ^ (n - 3) = 0" by (rule bit_word_eqI) (use n in \<open>auto simp: bit_simps low\<close>)
  then have a1: "NAPOT b s + 1 = ?b OR 2 ^ (n - 3)"
    by (simp add: a mask_eq_exp_minus_1 disjunctive_add_eq_or)
  have o: "NAPOT b s = ?b OR mask (n - 3)" by (simp add: NAPOT_def sz)
  show "NAPOT b s XOR (NAPOT b s + 1) = mask (n - 2)"
    unfolding a1 unfolding o
    by (rule bit_word_eqI) (use n in \<open>auto simp: bit_simps low\<close>)
  show "k \<ge> n - 2 \<Longrightarrow> bit (NAPOT b s) k = bit b (k + 2)"
    unfolding o using n by (auto simp: bit_simps)
qed

lemma napot_match_bits:
  assumes n: "3 \<le> n" "n < 32" and s: "unat s = 2 ^ n" and al: "unat b mod unat s = 0"
  shows "napot_match (NAPOT b s) x \<longleftrightarrow> drop_bit n x = drop_bit n b"
proof -
  have "napot_match (NAPOT b s) x \<longleftrightarrow> (\<forall>k \<ge> n - 2. bit x (k + 2) = bit b (k + 2))"
    (is "?m \<longleftrightarrow> ?eq")
  proof
    assume m: ?m
    show ?eq
    proof (intro allI impI)
      fix k assume k: "n - 2 \<le> k"
      show "bit x (k + 2) = bit b (k + 2)"
      proof (cases "k < 32")
        case True
        have "\<not> bit ((drop_bit 2 x XOR NAPOT b s) AND NOT (mask (n - 2))) k"
          using m by (simp add: napot_match_def napot_bits(1) [OF assms])
        then show ?thesis
          using True k napot_bits(2) [OF assms, of k] by (simp add: bit_simps add.commute)
      next
        case False
        then have "\<not> bit x (k + 2)" "\<not> bit b (k + 2)" by (auto dest: bit_imp_le_length)
        then show ?thesis by simp
      qed
    qed
  next
    assume eq: ?eq
    have "bit ((drop_bit 2 x XOR NAPOT b s) AND NOT (mask (n - 2))) k = bit 0 k" if "k < 32" for k
      using eq [rule_format, of k] napot_bits(2) [OF assms, of k] that
      by (auto simp: bit_simps add.commute)
    then show ?m
      unfolding napot_match_def napot_bits(1) [OF assms] by (intro bit_word_eqI) simp
  qed
  also have "\<dots> \<longleftrightarrow> drop_bit n x = drop_bit n b"
  proof
    assume eq: "\<forall>k \<ge> n - 2. bit x (k + 2) = bit b (k + 2)"
    have "bit x (k + n) = bit b (k + n)" for k
    proof -
      have "k + n - 2 + 2 = k + n" using n by simp
      then show ?thesis using eq [rule_format, of "k + n - 2"] by simp
    qed
    then show "drop_bit n x = drop_bit n b"
      by (intro bit_word_eqI) (simp add: bit_drop_bit_eq add.commute)
  next
    assume eq: "drop_bit n x = drop_bit n b"
    show "\<forall>k \<ge> n - 2. bit x (k + 2) = bit b (k + 2)"
    proof (intro allI impI)
      fix k assume "n - 2 \<le> k"
      then have k: "n + (k + 2 - n) = k + 2" using n by simp
      have "bit (drop_bit n x) (k + 2 - n) = bit (drop_bit n b) (k + 2 - n)" by (simp add: eq)
      then show "bit x (k + 2) = bit b (k + 2)"
        unfolding bit_drop_bit_eq comp_def k .
    qed
  qed
  finally show ?thesis .
qed

lemma aligned_interval:
  assumes "b mod p = 0" "0 < (p::nat)"
  shows "x div p = b div p \<longleftrightarrow> b \<le> x \<and> x < b + p"
proof -
  from assms(1) have "p dvd b" by (simp add: mod_eq_0_iff_dvd)
  then obtain q where b: "b = q * p" by (auto simp: dvd_def mult.commute)
  have "x div p = q \<longleftrightarrow> q * p \<le> x \<and> x < q * p + p"
    using assms(2) by (metis add.commute div_nat_eqI div_times_less_eq_dividend
        dividend_less_div_times mult.commute mult_Suc_right)
  then show ?thesis using assms(2) by (simp add: b)
qed

lemma napot_region:
  assumes s: "s AND (s - 1) = 0" "8 \<le> s" and al: "unat b mod unat s = 0"
  shows "napot_match (NAPOT b s) x \<longleftrightarrow> in_region b s x"
proof -
  have "s \<noteq> 0" using s(2) by auto
  with s(1) obtain n where n: "n < 32" "unat s = 2 ^ n" by (rule pow2_word)
  have "3 \<le> n"
  proof (rule ccontr)
    assume "\<not> 3 \<le> n"
    then have "n \<in> {0, 1, 2}" by auto
    then show False using n(2) s(2) by (auto simp: word_le_nat_alt)
  qed
  then have "napot_match (NAPOT b s) x \<longleftrightarrow> unat x div 2 ^ n = unat b div 2 ^ n"
    using napot_match_bits [OF _ n al] by (simp add: word_unat_eq_iff unat_drop_bit_eq
        drop_bit_eq_div [where 'a = nat])
  also have "\<dots> \<longleftrightarrow> in_region b s x"
    using al aligned_interval [of "unat b" "2 ^ n"] n(2) by (simp add: in_region_def word_le_nat_alt)
  finally show ?thesis .
qed

text \<open>
  For a region the descriptor gate accepts, the address register \<^verbatim>\<open>NAPOT\<close> computes matches exactly
  the addresses of the region, provided that the base is a multiple of the size.
\<close>

theorem napot_exact:
  assumes "region_ok b s" and "unat b mod unat s = 0"
  shows "napot_match (NAPOT b s) x \<longleftrightarrow> b \<le> x \<and> unat x < unat b + unat s"
proof -
  have "8 \<le> s" using assms(1) by (simp add: region_ok_def IC_MIN_REGION_def word_le_nat_alt)
  with assms napot_region show ?thesis by (simp add: region_ok_def in_region_def)
qed

theorem napot_exact_witness:
  "napot_match (NAPOT 0x20004000 0x2000) 0x20005FFF \<longleftrightarrow>
    (0x20004000::u32) \<le> 0x20005FFF \<and> unat (0x20005FFF::u32) < unat (0x20004000::u32) + unat (0x2000::u32)"
  by (rule napot_exact) (simp_all add: region_ok_def IC_MIN_REGION_def)

text \<open>
  The gate does not ask for that alignment.  It accepts the region of \<^verbatim>\<open>0x2000\<close> bytes at \<^verbatim>\<open>0x1000\<close>,
  whose address register then also matches addresses below and beyond the region.
\<close>

theorem napot_overgrants:
  "region_ok 0x1000 0x2000 \<and>
   napot_match (NAPOT 0x1000 0x2000) 0x0 \<and> \<not> in_region 0x1000 0x2000 0x0 \<and>
   napot_match (NAPOT 0x1000 0x2000) 0x3FFC \<and> \<not> in_region 0x1000 0x2000 0x3FFC"
  by (simp add: region_ok_def IC_MIN_REGION_def napot_match_def NAPOT_def in_region_def)

end
