(* ===== verification/Compartment.thy ===== *)
theory Compartment
  imports Pmp
begin

text \<open>
  The compartment table of \<^verbatim>\<open>core/compartment.c\<close> and the two ways out of a compartment in
  \<^verbatim>\<open>core/trap.S\<close>.  The state is the table, the PMP registers (by CSR number), and the three
  variables; \<^verbatim>\<open>cur_tcb\<close>, a pointer into the table, is the index of the entry it points into.
\<close>

subsection \<open>The table\<close>

definition COMP_COUNT :: u32 where "COMP_COUNT = 4"

record compartment =
  c_spec :: ic_compartment_spec
  c_entry :: u32
  c_armed :: u32
  c_evicted :: u32
  c_tcb :: "u32 list"

record comp_state =
  comps :: "compartment list"
  csrs :: "u32 \<Rightarrow> u32"
  cur_tcb :: "nat option"
  cur_comp :: u32
  g_cfgw :: u32

definition csr_set :: "u32 \<Rightarrow> u32 \<Rightarrow> comp_state \<Rightarrow> comp_state" where
  "csr_set csr v st = st\<lparr>csrs := (csrs st)(csr := v)\<rparr>"

definition compartment_set :: "u32 \<Rightarrow> ic_compartment_spec \<Rightarrow> u32 \<Rightarrow> comp_state \<Rightarrow> comp_state" where
  "compartment_set i spec entry st =
     (if i \<ge> COMP_COUNT then st
      else st\<lparr>comps := (comps st)[unat i := \<lparr>c_spec = spec, c_entry = entry, c_armed = 0,
                                            c_evicted = 0, c_tcb = replicate 32 0\<rparr>]\<rparr>)"

definition arm_cfgw :: u32 where
  "arm_cfgw = 0x1B OR push_bit 8 0x1D OR push_bit 16 0x00 OR push_bit 24 0x18"

definition compartment_arm :: "u32 \<Rightarrow> comp_state \<Rightarrow> comp_state" where
  "compartment_arm i st =
     (if i \<ge> COMP_COUNT \<or> c_armed (comps st ! unat i) \<noteq> 0 then st
      else
        (let sp = c_spec (comps st ! unat i);
             st = csr_set 0x3a0 0 st;
             st = csr_set 0x3b0 (NAPOT (sram_base sp) (sram_size sp)) st;
             st = csr_set 0x3b1 (NAPOT (text_base sp) (text_size sp)) st;
             st = csr_set 0x3b2 0 st;
             st = csr_set 0x3b3 PMP_DENY st;
             st = csr_set 0x3a0 arm_cfgw st;
             st = st\<lparr>g_cfgw := arm_cfgw, comps := map (\<lambda>c. c\<lparr>c_armed := 0\<rparr>) (comps st)\<rparr>
         in st\<lparr>comps := (comps st)[unat i := (comps st ! unat i)\<lparr>c_armed := 1\<rparr>]\<rparr>))"

definition compartment_evict :: "u32 \<Rightarrow> comp_state \<Rightarrow> comp_state" where
  "compartment_evict i st =
     (if i \<ge> COMP_COUNT then st
      else st\<lparr>comps := (comps st)[unat i := (comps st ! unat i)\<lparr>c_evicted := 1, c_armed := 0\<rparr>]\<rparr>)"

definition compartment_evicted :: "u32 \<Rightarrow> comp_state \<Rightarrow> u32" where
  "compartment_evicted i st = (if i < COMP_COUNT then c_evicted (comps st ! unat i) else 1)"

subsection \<open>Entering\<close>

text \<open>
  The loads of the entry sequence: register, byte offset in the TCB.  Every load is relative to
  \<^verbatim>\<open>t0\<close> (\<^verbatim>\<open>x5\<close>), which is loaded last.
\<close>

definition restore_seq :: "(nat \<times> nat) list" where
  "restore_seq =
     [(1, 4), (3, 12), (4, 16), (6, 24), (7, 28), (2, 8), (8, 32), (9, 36), (10, 40), (11, 44),
      (12, 48), (13, 52), (14, 56), (15, 60), (16, 64), (17, 68), (18, 72), (19, 76), (20, 80),
      (21, 84), (22, 88), (23, 92), (24, 96), (25, 100), (26, 104), (27, 108), (28, 112), (29, 116),
      (30, 120), (31, 124), (5, 20)]"

definition restore_regs :: "u32 list \<Rightarrow> (nat \<Rightarrow> u32) \<Rightarrow> nat \<Rightarrow> u32" where
  "restore_regs tcb regs = fold (\<lambda>(r, off) f. f(r := tcb ! (off div 4))) restore_seq regs"

record cpu =
  cpu_pc :: u32
  cpu_regs :: "nat \<Rightarrow> u32"
  cpu_mstatus :: u32

text \<open>\<open>Parks\<close>: the core waits for an interrupt for ever.  \<open>BadIndex\<close>: an access past the table.\<close>

datatype enter_result = Parks | BadIndex | Enters cpu comp_state

definition compartment_enter :: "u32 \<Rightarrow> (nat \<Rightarrow> u32) \<Rightarrow> u32 \<Rightarrow> comp_state \<Rightarrow> enter_result" where
  "compartment_enter i regs mstatus st =
     (if length (comps st) \<le> unat i then BadIndex
      else if c_evicted (comps st ! unat i) \<noteq> 0 then Parks
      else
        (let st = compartment_arm i st;
             st = st\<lparr>cur_comp := i, cur_tcb := Some (unat i)\<rparr>;
             c = comps st ! unat i
         in Enters \<lparr>cpu_pc = text_base (c_spec c) + c_entry c,
                    cpu_regs = restore_regs (c_tcb c) regs,
                    cpu_mstatus = (mstatus AND NOT 0x21800) OR 0x80\<rparr> st))"

subsection \<open>Leaving\<close>

text \<open>
  The trap handler as the instructions it runs: stores and loads relative to the scratch frame
  (\<^verbatim>\<open>sp\<close>) and stores relative to the TCB (\<^verbatim>\<open>t0\<close>), immediates, and the read of \<^verbatim>\<open>mscratch\<close>, which
  holds the interrupted \<^verbatim>\<open>sp\<close> after the swap at the entry.
\<close>

datatype rv = SwSp nat nat | LwSp nat nat | SwTcb nat nat | Imm nat u32 | Scratch nat

record trap_state =
  t_regs :: "nat \<Rightarrow> u32"
  t_frame :: "nat \<Rightarrow> u32"
  t_tcb :: "u32 list"

fun rv_exec :: "u32 \<Rightarrow> rv \<Rightarrow> trap_state \<Rightarrow> trap_state" where
  "rv_exec mscratch (SwSp r off) t = t\<lparr>t_frame := (t_frame t)(off := t_regs t r)\<rparr>"
| "rv_exec mscratch (LwSp r off) t = t\<lparr>t_regs := (t_regs t)(r := t_frame t off)\<rparr>"
| "rv_exec mscratch (SwTcb r off) t = t\<lparr>t_tcb := (t_tcb t)[off div 4 := t_regs t r]\<rparr>"
| "rv_exec mscratch (Imm r v) t = t\<lparr>t_regs := (t_regs t)(r := v)\<rparr>"
| "rv_exec mscratch (Scratch r) t = t\<lparr>t_regs := (t_regs t)(r := mscratch)\<rparr>"

definition rv_run :: "u32 \<Rightarrow> rv list \<Rightarrow> trap_state \<Rightarrow> trap_state" where
  "rv_run mscratch is t = fold (rv_exec mscratch) is t"

definition trap_entry_seq :: "u32 \<Rightarrow> rv list" where
  "trap_entry_seq mcause =
     [SwSp 1 0, SwSp 5 4, SwSp 6 8, SwSp 7 12, SwSp 10 16, SwSp 11 20, SwSp 28 24, SwSp 29 28,
      SwSp 30 32, SwSp 31 36, Imm 5 mcause, SwSp 5 40, Imm 6 8]"

definition ecall_seq :: "u32 \<Rightarrow> rv list" where
  "ecall_seq tcb =
     [Imm 5 tcb, SwTcb 1 4, SwTcb 3 12, SwTcb 4 16, LwSp 6 4, SwTcb 6 20, LwSp 6 8, SwTcb 6 24,
      SwTcb 7 28, SwTcb 8 32, SwTcb 9 36, SwTcb 10 40, SwTcb 11 44, SwTcb 12 48, SwTcb 13 52,
      SwTcb 14 56, SwTcb 15 60, SwTcb 16 64, SwTcb 17 68, SwTcb 18 72, SwTcb 19 76, SwTcb 20 80,
      SwTcb 21 84, SwTcb 22 88, SwTcb 23 92, SwTcb 24 96, SwTcb 25 100, SwTcb 26 104, SwTcb 27 108,
      SwTcb 28 112, SwTcb 29 116, SwTcb 30 120, SwTcb 31 124, Scratch 6, SwTcb 6 8]"

text \<open>The ring bookkeeping leaves arbitrary values in \<^verbatim>\<open>t0\<close>, \<^verbatim>\<open>t2\<close>..\<^verbatim>\<open>t6\<close>; then the victim's file is saved.\<close>

definition evict_seq :: "u32 \<Rightarrow> u32 \<Rightarrow> (nat \<Rightarrow> u32) \<Rightarrow> rv list" where
  "evict_seq mtval tcb junk =
     [Imm 5 mtval, SwSp 5 44, Imm 7 (junk 7), Imm 28 (junk 28), Imm 29 (junk 29), Imm 30 (junk 30),
      Imm 31 (junk 31), Imm 6 (junk 6), Imm 5 tcb,
      SwTcb 1 4, SwTcb 3 12, SwTcb 4 16, LwSp 6 4, SwTcb 6 20, LwSp 6 8, SwTcb 6 24, LwSp 6 12,
      SwTcb 6 28, SwTcb 8 32, SwTcb 9 36, LwSp 6 16, SwTcb 6 40, LwSp 6 20, SwTcb 6 44,
      SwTcb 12 48, SwTcb 13 52, SwTcb 14 56, SwTcb 15 60, SwTcb 16 64, SwTcb 17 68, SwTcb 18 72,
      SwTcb 19 76, SwTcb 20 80, SwTcb 21 84, SwTcb 22 88, SwTcb 23 92, SwTcb 24 96, SwTcb 25 100,
      SwTcb 26 104, SwTcb 27 108, LwSp 6 24, SwTcb 6 112, LwSp 6 28, SwTcb 6 116, LwSp 6 32,
      SwTcb 6 120, LwSp 6 36, SwTcb 6 124, Scratch 6, SwTcb 6 8]"

definition wipe_frame_seq :: "rv list" where
  "wipe_frame_seq = map (SwSp 0) [0, 4, 8, 12, 16, 20, 24, 28, 32, 36, 40, 44]"

definition wipe_regs_seq :: "nat list \<Rightarrow> rv list" where
  "wipe_regs_seq rs = map (\<lambda>r. Imm r 0) rs"

definition evict_wiped :: "nat list" where
  "evict_wiped = [1, 3, 4, 5, 6, 7, 8, 9, 12, 13, 14, 15, 16, 17, 18, 19, 20, 21, 22, 23, 24, 25, 26,
     27, 28, 29, 30, 31]"

definition ecall_wiped :: "nat list" where
  "ecall_wiped = [1, 3, 4, 5, 6, 7, 8, 9, 10, 11, 12, 13, 14, 15, 16, 17, 18, 19, 20, 21, 22, 23, 24,
     25, 26, 27, 28, 29, 30, 31]"

text \<open>An ecall: park, wipe, leave for \<^verbatim>\<open>supervisor_resume\<close> with \<^verbatim>\<open>sp\<close> and the three scratch registers reloaded.\<close>

definition trap_ecall :: "u32 \<Rightarrow> u32 \<Rightarrow> (nat \<Rightarrow> u32) \<Rightarrow> trap_state \<Rightarrow> trap_state" where
  "trap_ecall sp0 tcb m t =
     rv_run (t_regs t 2)
       (trap_entry_seq 8 @ ecall_seq tcb @ [Imm 5 sp0] @ wipe_regs_seq ecall_wiped
         @ [Imm 2 (m 2), Imm 5 (m 5), Imm 6 (m 6), Imm 7 (m 7)]) t"

text \<open>A fault: save the frame as evidence, pass cause and value in \<^verbatim>\<open>a0\<close>, \<^verbatim>\<open>a1\<close>, wipe everything else.\<close>

definition trap_fault :: "u32 \<Rightarrow> u32 \<Rightarrow> u32 \<Rightarrow> u32 \<Rightarrow> (nat \<Rightarrow> u32) \<Rightarrow> (nat \<Rightarrow> u32) \<Rightarrow> trap_state \<Rightarrow> trap_state" where
  "trap_fault mcause mtval sp0 tcb junk m t =
     rv_run (t_regs t 2)
       (trap_entry_seq mcause @ evict_seq mtval tcb junk @ [LwSp 10 40, LwSp 11 44]
         @ wipe_frame_seq @ [Imm 5 sp0] @ wipe_regs_seq evict_wiped
         @ [Imm 2 (m 2), Imm 5 (m 5), Imm 6 (m 6), Imm 7 (m 7), Imm 5 0, Imm 6 0, Imm 7 0]) t"

text \<open>
  A fault of machine mode itself: the ring is written (which leaves arbitrary values in \<^verbatim>\<open>t0\<close> to \<^verbatim>\<open>t6\<close>),
  the faulting instruction is skipped by its length, and every clobbered register is reloaded.
\<close>

definition skip_seq :: "u32 \<Rightarrow> (nat \<Rightarrow> u32) \<Rightarrow> rv list" where
  "skip_seq mtval junk =
     [Imm 5 mtval, SwSp 5 44, Imm 7 (junk 7), Imm 28 (junk 28), Imm 29 (junk 29), Imm 30 (junk 30),
      Imm 31 (junk 31), Imm 6 (junk 6),
      LwSp 1 0, LwSp 5 4, LwSp 6 8, LwSp 7 12, LwSp 10 16, LwSp 11 20, LwSp 28 24, LwSp 29 28,
      LwSp 30 32, LwSp 31 36]"

definition skip_pc :: "u32 \<Rightarrow> u16 \<Rightarrow> u32" where
  "skip_pc mepc insn = (if insn AND 3 \<noteq> 3 then mepc + 2 else mepc + 2 + 2)"

definition trap_skip :: "u32 \<Rightarrow> u32 \<Rightarrow> (nat \<Rightarrow> u32) \<Rightarrow> trap_state \<Rightarrow> trap_state" where
  "trap_skip mcause mtval junk t =
     rv_run (t_regs t 2) (trap_entry_seq mcause @ skip_seq mtval junk) t"

subsection \<open>The saved frame\<close>

lemma reg_cases:
  "1 \<le> k \<Longrightarrow> k < (32::nat) \<Longrightarrow> k \<in> set [1, 2, 3, 4, 5, 6, 7, 8, 9, 10, 11, 12, 13, 14, 15, 16, 17, 18, 19,
     20, 21, 22, 23, 24, 25, 26, 27, 28, 29, 30, 31]"
  by simp presburger

lemma restore_regs_all:
  assumes "1 \<le> k" "k < 32"
  shows "restore_regs tcb regs k = tcb ! k"
  using reg_cases [OF assms]
  by (simp only: set_simps insert_iff empty_iff) (elim disjE; simp add: restore_regs_def restore_seq_def)

lemma list_eq_32:
  assumes "length xs = 32" "\<And>k. k < 32 \<Longrightarrow> xs ! k = f k"
  shows "xs = map f [0..<32]"
  using assms by (intro nth_equalityI) auto

lemmas trap_defs = rv_run_def trap_entry_seq_def ecall_seq_def evict_seq_def wipe_frame_seq_def
  wipe_regs_seq_def ecall_wiped_def evict_wiped_def

definition saved :: "(nat \<Rightarrow> u32) \<Rightarrow> u32 list \<Rightarrow> u32 list" where
  "saved r tcb = tcb
      [1 := r 1, 3 := r 3, 4 := r 4, 5 := r 5, 6 := r 6, 7 :=
       r 7, 8 := r 8, 9 := r 9, 10 := r 10, 11 := r 11, 12 :=
       r 12, 13 := r 13, 14 := r 14, 15 := r 15, 16 := r 16, 17
       := r 17, 18 := r 18, 19 := r 19, 20 := r 20, 21 := r 21,
       22 := r 22, 23 := r 23, 24 := r 24, 25 := r 25, 26 := r 26, 27 := r 27, 28 := r 28, 29 := r 29, 30 := r 30, 31 := r 31, 2 := r 2]"

lemma saved_nth:
  assumes "length tcb = 32" "1 \<le> k" "k < 32"
  shows "saved r tcb ! k = r k"
  using reg_cases [OF assms(2,3)] assms(1)
  by (simp only: set_simps insert_iff empty_iff) (elim disjE; simp add: saved_def)

lemma length_saved [simp]: "length (saved r tcb) = length tcb"
  by (simp add: saved_def)

lemma trap_ecall_tcb: "t_tcb (trap_ecall sp0 tcb m t) = saved (t_regs t) (t_tcb t)"
  by (simp add: trap_ecall_def trap_defs saved_def)

lemma trap_fault_tcb: "t_tcb (trap_fault mcause mtval sp0 tcb junk m t) = saved (t_regs t) (t_tcb t)"
  by (simp add: trap_fault_def trap_defs saved_def)

lemma trap_ecall_regs:
  "t_regs (trap_ecall sp0 tcb m t) = (fold (\<lambda>r f. f(r := 0)) ecall_wiped
     ((t_regs t)(5 := sp0, 6 := t_regs t 2)))(2 := m 2, 5 := m 5, 6 := m 6, 7 := m 7)"
  by (simp add: trap_ecall_def trap_defs)

lemma trap_fault_regs:
  "t_regs (trap_fault mcause mtval sp0 tcb junk m t) = (fold (\<lambda>r f. f(r := 0)) evict_wiped
     ((t_regs t)(10 := mcause, 11 := mtval)))(2 := m 2, 5 := 0, 6 := 0, 7 := 0)"
  by (simp add: trap_fault_def trap_defs fun_eq_iff)

lemma trap_skip_keeps: "t_regs (trap_skip mcause mtval junk t) = t_regs t" "t_tcb (trap_skip mcause mtval junk t) = t_tcb t"
  by (simp_all add: trap_skip_def skip_seq_def trap_defs fun_eq_iff)

lemma trap_fault_frame:
  "t_regs t 0 = 0 \<Longrightarrow> k \<in> {0, 4, 8, 12, 16, 20, 24, 28, 32, 36, 40, 44} \<Longrightarrow>
    t_frame (trap_fault mcause mtval sp0 tcb junk m t) k = 0"
  by (simp only: insert_iff empty_iff) (elim disjE; simp add: trap_fault_def trap_defs)

subsection \<open>The table invariant\<close>

text \<open>The PMP registers describe one specification: its two regions, and a filler that denies the rest.\<close>

definition pmp_holds :: "(u32 \<Rightarrow> u32) \<Rightarrow> ic_compartment_spec \<Rightarrow> bool" where
  "pmp_holds f sp \<longleftrightarrow>
     f 0x3a0 = arm_cfgw \<and> f 0x3b0 = NAPOT (sram_base sp) (sram_size sp) \<and>
     f 0x3b1 = NAPOT (text_base sp) (text_size sp) \<and> f 0x3b2 = 0 \<and> f 0x3b3 = PMP_DENY"

text \<open>An armed entry is the one whose regions the registers hold, and it is not evicted.\<close>

definition comp_wf :: "comp_state \<Rightarrow> bool" where
  "comp_wf st \<longleftrightarrow>
     length (comps st) = 4 \<and> (\<forall>c \<in> set (comps st). length (c_tcb c) = 32) \<and>
     (\<forall>i < 4. c_armed (comps st ! i) \<noteq> 0 \<longrightarrow> pmp_holds (csrs st) (c_spec (comps st ! i)))"

datatype comp_op = CSet u32 ic_compartment_spec u32 | CArm u32 | CEvict u32

fun comp_step :: "comp_op \<Rightarrow> comp_state \<Rightarrow> (unit \<times> comp_state) option" where
  "comp_step (CSet i sp entry) st = Some ((), compartment_set i sp entry st)"
| "comp_step (CArm i) st = Some ((), compartment_arm i st)"
| "comp_step (CEvict i) st = Some ((), compartment_evict i st)"

lemma comp_index: "COMP_COUNT \<le> i \<longleftrightarrow> \<not> unat i < 4" "i < COMP_COUNT \<longleftrightarrow> unat i < 4"
  by (simp_all add: COMP_COUNT_def word_less_nat_alt word_le_nat_alt not_less)

lemma compartment_set_wf: "comp_wf st \<Longrightarrow> comp_wf (compartment_set i sp entry st)"
  by (auto simp: comp_wf_def compartment_set_def comp_index nth_list_update
      dest!: set_update_subset_insert [THEN subsetD])

lemma compartment_evict_wf: "comp_wf st \<Longrightarrow> comp_wf (compartment_evict i st)"
  by (auto simp: comp_wf_def compartment_evict_def comp_index nth_list_update
      dest!: set_update_subset_insert [THEN subsetD])

lemma compartment_arm_armed:
  assumes "comp_wf st" "unat i < 4"
  shows "pmp_holds (csrs (compartment_arm i st)) (c_spec (comps st ! unat i))"
  using assms
  by (auto simp: comp_wf_def compartment_arm_def comp_index Let_def csr_set_def pmp_holds_def)

lemma compartment_arm_table:
  assumes "comp_wf st" "unat i < 4"
  shows "length (comps (compartment_arm i st)) = 4"
    "j < 4 \<Longrightarrow> c_spec (comps (compartment_arm i st) ! j) = c_spec (comps st ! j)"
    "j < 4 \<Longrightarrow> c_entry (comps (compartment_arm i st) ! j) = c_entry (comps st ! j)"
    "j < 4 \<Longrightarrow> c_tcb (comps (compartment_arm i st) ! j) = c_tcb (comps st ! j)"
    "j < 4 \<Longrightarrow> c_evicted (comps (compartment_arm i st) ! j) = c_evicted (comps st ! j)"
    "j < 4 \<Longrightarrow> j \<noteq> unat i \<Longrightarrow> c_armed (comps st ! unat i) = 0 \<Longrightarrow>
       c_armed (comps (compartment_arm i st) ! j) = 0"
  using assms
  by (auto simp: comp_wf_def compartment_arm_def comp_index Let_def csr_set_def nth_list_update)

lemma compartment_arm_wf:
  assumes wf: "comp_wf st"
  shows "comp_wf (compartment_arm i st)"
proof (cases "unat i < 4 \<and> c_armed (comps st ! unat i) = 0")
  case False
  then show ?thesis using wf by (auto simp: compartment_arm_def comp_index)
next
  case True
  note t = compartment_arm_table [OF wf, of i]
  have "pmp_holds (csrs (compartment_arm i st)) (c_spec (comps (compartment_arm i st) ! j))"
    if "j < 4" "c_armed (comps (compartment_arm i st) ! j) \<noteq> 0" for j
    using that True t compartment_arm_armed [OF wf, of i] by (cases "j = unat i") auto
  moreover have "\<forall>c \<in> set (comps (compartment_arm i st)). length (c_tcb c) = 32"
  proof
    fix c assume "c \<in> set (comps (compartment_arm i st))"
    then obtain j where j: "j < 4" "c = comps (compartment_arm i st) ! j"
      using t True by (auto simp: in_set_conv_nth)
    have "comps st ! j \<in> set (comps st)" using wf j(1) by (simp add: comp_wf_def)
    then show "length (c_tcb c) = 32" using wf j t(4) True by (simp add: comp_wf_def)
  qed
  ultimately show ?thesis using t(1) [OF conjunct1 [OF True]] unfolding comp_wf_def by blast
qed

interpretation comp: machine comp_step comp_wf "\<lambda>_. True"
proof unfold_locales
  fix st op assume "comp_wf st"
  then show "\<exists>out st'. comp_step op st = Some (out, st') \<and> comp_wf st' \<and> True"
    by (cases op) (simp_all add: compartment_set_wf compartment_arm_wf compartment_evict_wf)
qed

lemma pmp_holds_allows:
  assumes pmp: "pmp_holds f sp" and ok: "ic_compartment_check (Some sp) = IC_OK"
    and al: "unat (text_base sp) mod unat (text_size sp) = 0" "unat (sram_base sp) mod unat (sram_size sp) = 0"
  shows "pmp_allows f acc x \<longleftrightarrow>
    (if in_region (sram_base sp) (sram_size sp) x then acc \<noteq> Exec
     else in_region (text_base sp) (text_size sp) x \<and> acc \<noteq> Write)"
proof -
  have r: "region_ok (text_base sp) (text_size sp)" "region_ok (sram_base sp) (sram_size sp)"
    using ok by (auto simp: ic_compartment_check_def split: if_splits)
  have big: "8 \<le> text_size sp" "8 \<le> sram_size sp"
    using r by (simp_all add: region_ok_def IC_MIN_REGION_def word_le_nat_alt)
  have m: "napot_match (NAPOT (sram_base sp) (sram_size sp)) x \<longleftrightarrow> in_region (sram_base sp) (sram_size sp) x"
    "napot_match (NAPOT (text_base sp) (text_size sp)) x \<longleftrightarrow> in_region (text_base sp) (text_size sp) x"
    using r big al by (simp_all add: napot_region region_ok_def)
  have "pmp_allows f acc x = pmp_decide [(0x1B, f 0x3b0), (0x1D, f 0x3b1), (0, f 0x3b2), (0x18, f 0x3b3)] acc x"
    using pmp by (simp add: pmp_allows_def pmp_holds_def arm_cfgw_def upt_rec)
  then show ?thesis
    using pmp m by (cases acc) (simp_all add: pmp_holds_def access_bit_def bit_iff_odd)
qed

subsection \<open>Isolation of a compartment\<close>

definition comp_init :: comp_state where
  "comp_init =
     \<lparr>comps = replicate 4 \<lparr>c_spec = \<lparr>text_base = 0, text_size = 0, sram_base = 0, sram_size = 0\<rparr>,
                           c_entry = 0, c_armed = 0, c_evicted = 0, c_tcb = replicate 32 0\<rparr>,
      csrs = (\<lambda>_. 0), cur_tcb = None, cur_comp = 0, g_cfgw = 0\<rparr>"

lemma comp_init_wf: "comp_wf comp_init"
  by (auto simp: comp_wf_def comp_init_def)

lemma compartment_enter_cases:
  assumes wf: "comp_wf st" and i: "unat i < 4" and live: "c_evicted (comps st ! unat i) = 0"
  shows "\<exists>cpu st'. compartment_enter i regs ms st = Enters cpu st' \<and> comp_wf st' \<and>
    pmp_holds (csrs st') (c_spec (comps st ! unat i)) \<and> cur_comp st' = i \<and> cur_tcb st' = Some (unat i) \<and>
    cpu_pc cpu = text_base (c_spec (comps st ! unat i)) + c_entry (comps st ! unat i) \<and>
    cpu_regs cpu = restore_regs (c_tcb (comps st ! unat i)) regs"
proof -
  let ?st = "(compartment_arm i st)\<lparr>cur_comp := i, cur_tcb := Some (unat i)\<rparr>"
  have len: "length (comps st) = 4" using wf by (simp add: comp_wf_def)
  have "comp_wf ?st" using compartment_arm_wf [OF wf, of i] by (simp add: comp_wf_def)
  then show ?thesis
    using i live len compartment_arm_armed [OF wf i] compartment_arm_table [OF wf i]
    by (simp add: compartment_enter_def Let_def)
qed

text \<open>
  C27: isolation.  After any sequence of instantiations, armings and evictions, entering a live
  compartment whose regions pass the gate and are aligned to their size leaves user mode
  with exactly its rights: reads and writes in its SRAM, reads and execution in its text,
  nothing else in the address space.
\<close>

theorem enter_grants_exactly:
  assumes "run_steps comp_step ops comp_init = Some (outs, st)" and "unat i < 4"
    and "c_evicted (comps st ! unat i) = 0"
    and "c_spec (comps st ! unat i) = sp" "ic_compartment_check (Some sp) = IC_OK"
    and "unat (text_base sp) mod unat (text_size sp) = 0" "unat (sram_base sp) mod unat (sram_size sp) = 0"
  shows "\<exists>cpu st'. compartment_enter i regs ms st = Enters cpu st' \<and>
    (\<forall>x. pmp_allows (csrs st') acc x \<longleftrightarrow>
      (if in_region (sram_base sp) (sram_size sp) x then acc \<noteq> Exec
       else in_region (text_base sp) (text_size sp) x \<and> acc \<noteq> Write))"
proof -
  have wf: "comp_wf st" using comp.run_inv [OF comp_init_wf assms(1)] .
  from compartment_enter_cases [OF wf assms(2,3)] obtain cpu st' where
    e: "compartment_enter i regs ms st = Enters cpu st'" "pmp_holds (csrs st') sp"
    using assms(4) by blast
  with pmp_holds_allows [OF e(2) assms(5-7)] show ?thesis by auto
qed

definition demo_spec :: ic_compartment_spec where
  "demo_spec = \<lparr>text_base = 0x08004000, text_size = 0x2000, sram_base = 0x20004000, sram_size = 0x2000\<rparr>"

theorem enter_grants_exactly_witness:
  "\<exists>cpu st'. compartment_enter 0 (\<lambda>_. 0) 0 (compartment_set 0 demo_spec 0 comp_init) = Enters cpu st' \<and>
    (\<forall>x. pmp_allows (csrs st') Write x \<longleftrightarrow>
      (if in_region (sram_base demo_spec) (sram_size demo_spec) x then Write \<noteq> Exec
       else in_region (text_base demo_spec) (text_size demo_spec) x \<and> Write \<noteq> Write))"
  by (rule enter_grants_exactly [where ops = "[CSet 0 demo_spec 0]" and outs = "[()]"])
    (simp_all add: compartment_set_def COMP_COUNT_def comp_init_def demo_spec_def
      ic_compartment_check_def region_ok_def IC_MIN_REGION_def)

lemma evicted_keeps:
  "run_steps comp_step ops st = Some (outs, st') \<Longrightarrow> comp_wf st \<Longrightarrow> unat i < 4 \<Longrightarrow>
    c_evicted (comps st ! unat i) \<noteq> 0 \<Longrightarrow> \<forall>op \<in> set ops. \<forall>sp e. op \<noteq> CSet i sp e \<Longrightarrow>
    c_evicted (comps st' ! unat i) \<noteq> 0"
proof (induction ops arbitrary: st outs)
  case Nil
  then show ?case by simp
next
  case (Cons op ops)
  obtain st1 where s1: "comp_step op st = Some ((), st1)" "comp_wf st1"
    using comp.step_ok [OF Cons.prems(2), of op] by auto
  have len: "length (comps st) = 4" using Cons.prems(2) by (simp add: comp_wf_def)
  have "c_evicted (comps st1 ! unat i) \<noteq> 0"
  proof (cases op)
    case (CSet j sp e)
    with Cons.prems(5) have "unat j \<noteq> unat i" by (auto simp: word_unat_eq_iff)
    with CSet s1(1) Cons.prems(4) show ?thesis by (auto simp: compartment_set_def split: if_splits)
  next
    case (CArm j)
    then show ?thesis
      using s1(1) Cons.prems(2-4) compartment_arm_table(5) [OF Cons.prems(2), of j "unat i"]
      by (cases "unat j < 4") (auto simp: compartment_arm_def comp_index)
  next
    case (CEvict j)
    with s1(1) Cons.prems(3,4) len show ?thesis
      by (auto simp: compartment_evict_def comp_index nth_list_update split: if_splits)
  qed
  with Cons s1 show ?case by (auto split: option.splits prod.splits)
qed

text \<open>
  Eviction ends a lifetime.  Whatever the later operations, short of a new instantiation of the
  same entry, entering an evicted compartment never reaches user mode.
\<close>

theorem evicted_never_runs:
  assumes "comp_wf st" "unat i < 4"
    and "run_steps comp_step ops (compartment_evict i st) = Some (outs, st')"
    and "\<forall>op \<in> set ops. \<forall>sp e. op \<noteq> CSet i sp e"
  shows "compartment_enter i regs ms st' = Parks \<and> compartment_evicted i st' \<noteq> 0"
proof -
  have wf: "comp_wf (compartment_evict i st)" by (rule compartment_evict_wf [OF assms(1)])
  have "c_evicted (comps (compartment_evict i st) ! unat i) \<noteq> 0"
    using assms(1,2) by (simp add: compartment_evict_def comp_index comp_wf_def)
  from evicted_keeps [OF assms(3) wf assms(2) this assms(4)]
  have ev: "c_evicted (comps st' ! unat i) \<noteq> 0" .
  have "comp_wf st'" using comp.run_inv [OF wf assms(3)] .
  then show ?thesis
    using ev assms(2) by (simp add: compartment_enter_def compartment_evicted_def comp_index comp_wf_def)
qed

theorem evicted_never_runs_witness:
  "compartment_enter 1 (\<lambda>_. 0) 0 (compartment_arm 1 (compartment_evict 1 comp_init)) = Parks \<and>
   compartment_evicted 1 (compartment_arm 1 (compartment_evict 1 comp_init)) \<noteq> 0"
  by (rule evicted_never_runs [where st = comp_init and ops = "[CArm 1]" and outs = "[()]"])
    (simp_all add: comp_init_wf)


definition trap_example :: trap_state where
  "trap_example = \<lparr>t_regs = (\<lambda>k. of_nat k), t_frame = (\<lambda>_. 0), t_tcb = replicate 32 0\<rparr>"


text \<open>
  C29: a fault leaves nothing behind but the evidence: the victim's registers are in its TCB, the
  supervisor starts with cause and value in \<^verbatim>\<open>a0\<close> and \<^verbatim>\<open>a1\<close> and every other register zero (but its
  own stack pointer), and the scratch frame is wiped.
\<close>

theorem fault_wipes:
  assumes "length (t_tcb t) = 32" "t_regs t 0 = 0" "1 \<le> k" "k < 32"
    and "off \<in> {0, 4, 8, 12, 16, 20, 24, 28, 32, 36, 40, 44}"
  shows "t_tcb (trap_fault cause val sp0 p junk m t) ! k = t_regs t k \<and>
    t_regs (trap_fault cause val sp0 p junk m t) k =
      (if k = 2 then m 2 else if k = 10 then cause else if k = 11 then val else 0) \<and>
    t_frame (trap_fault cause val sp0 p junk m t) off = 0"
proof -
  have "t_regs (trap_fault cause val sp0 p junk m t) k =
      (if k = 2 then m 2 else if k = 10 then cause else if k = 11 then val else 0)"
    using reg_cases [OF assms(3,4)] by (auto simp: trap_fault_regs evict_wiped_def)
  then show ?thesis
    using saved_nth [OF assms(1,3,4)] trap_fault_frame [OF assms(2,5)] by (simp add: trap_fault_tcb)
qed

theorem fault_wipes_witness:
  "t_tcb (trap_fault 5 0x80000000 9 8 (\<lambda>_. 3) (\<lambda>_. 7) trap_example) ! 12 = t_regs trap_example 12 \<and>
    t_regs (trap_fault 5 0x80000000 9 8 (\<lambda>_. 3) (\<lambda>_. 7) trap_example) 12 =
      (if (12::nat) = 2 then 7 else if (12::nat) = 10 then 5 else if (12::nat) = 11 then 0x80000000 else 0) \<and>
    t_frame (trap_fault 5 0x80000000 9 8 (\<lambda>_. 3) (\<lambda>_. 7) trap_example) 16 = 0"
  by (rule fault_wipes) (simp_all add: trap_example_def)

end
