(* ===== verification/Policies.thy ===== *)
theory Policies
  imports Ebpf Loader
begin

text \<open>
  The assembler macros of \<^verbatim>\<open>core/ebpf_asm.h\<close> and the eBPF programs the repository ships:
  the MAVLink filter, the grid screening policy, the rate limiter and the minimal module.
\<close>

subsection \<open>Assembler\<close>

definition EBPF_ENC :: "u8 \<Rightarrow> u8 \<Rightarrow> u8 \<Rightarrow> u16 \<Rightarrow> u32 \<Rightarrow> u64" where
  "EBPF_ENC op d s o' i =
     ucast op
     OR push_bit 8 (ucast (((d AND 0xf) OR push_bit 4 (s AND 0xf)) :: u8))
     OR push_bit 16 (ucast o')
     OR push_bit 32 (ucast i)"

definition MOV64I :: "u8 \<Rightarrow> u32 \<Rightarrow> u64" where "MOV64I d i = EBPF_ENC 0xb7 d 0 0 i"
definition SLL64I :: "u8 \<Rightarrow> u32 \<Rightarrow> u64" where "SLL64I d i = EBPF_ENC 0x67 d 0 0 i"
definition RSH64I :: "u8 \<Rightarrow> u32 \<Rightarrow> u64" where "RSH64I d i = EBPF_ENC 0x77 d 0 0 i"
definition ADD64I :: "u8 \<Rightarrow> u32 \<Rightarrow> u64" where "ADD64I d i = EBPF_ENC 0x07 d 0 0 i"
definition SUB64I :: "u8 \<Rightarrow> u32 \<Rightarrow> u64" where "SUB64I d i = EBPF_ENC 0x17 d 0 0 i"
definition AND64I :: "u8 \<Rightarrow> u32 \<Rightarrow> u64" where "AND64I d i = EBPF_ENC 0x57 d 0 0 i"

definition ADD64 :: "u8 \<Rightarrow> u8 \<Rightarrow> u64" where "ADD64 d s = EBPF_ENC 0x0f d s 0 0"
definition OR64 :: "u8 \<Rightarrow> u8 \<Rightarrow> u64" where "OR64 d s = EBPF_ENC 0x4f d s 0 0"
definition DIV64 :: "u8 \<Rightarrow> u8 \<Rightarrow> u64" where "DIV64 d s = EBPF_ENC 0x3f d s 0 0"
definition MOV64 :: "u8 \<Rightarrow> u8 \<Rightarrow> u64" where "MOV64 d s = EBPF_ENC 0xbf d s 0 0"

definition JEQ64I :: "u8 \<Rightarrow> u32 \<Rightarrow> u16 \<Rightarrow> u64" where "JEQ64I d i o' = EBPF_ENC 0x15 d 0 o' i"
definition JNE64I :: "u8 \<Rightarrow> u32 \<Rightarrow> u16 \<Rightarrow> u64" where "JNE64I d i o' = EBPF_ENC 0x55 d 0 o' i"
definition JGT64I :: "u8 \<Rightarrow> u32 \<Rightarrow> u16 \<Rightarrow> u64" where "JGT64I d i o' = EBPF_ENC 0x25 d 0 o' i"

definition JEQ64 :: "u8 \<Rightarrow> u8 \<Rightarrow> u16 \<Rightarrow> u64" where "JEQ64 d s o' = EBPF_ENC 0x1d d s o' 0"

definition CALL :: "u32 \<Rightarrow> u64" where "CALL h = EBPF_ENC 0x85 0 0 0 h"

definition LDXB :: "u8 \<Rightarrow> u8 \<Rightarrow> u16 \<Rightarrow> u64" where "LDXB d s o' = EBPF_ENC 0x71 d s o' 0"
definition LDXH :: "u8 \<Rightarrow> u8 \<Rightarrow> u16 \<Rightarrow> u64" where "LDXH d s o' = EBPF_ENC 0x69 d s o' 0"
definition LDXW :: "u8 \<Rightarrow> u8 \<Rightarrow> u16 \<Rightarrow> u64" where "LDXW d s o' = EBPF_ENC 0x61 d s o' 0"

definition STW :: "u8 \<Rightarrow> u16 \<Rightarrow> u32 \<Rightarrow> u64" where "STW d o' i = EBPF_ENC 0x62 d 0 o' i"
definition EXIT :: u64 where "EXIT = EBPF_ENC 0x95 0 0 0 0"

lemmas asm_defs = MOV64I_def SLL64I_def RSH64I_def ADD64I_def SUB64I_def AND64I_def ADD64_def
  OR64_def DIV64_def MOV64_def JEQ64I_def JNE64I_def JGT64I_def JEQ64_def CALL_def LDXB_def
  LDXH_def LDXW_def STW_def EXIT_def

subsection \<open>Shipped programs\<close>

definition POLICY_MAVLINK :: "u64 list" where
  "POLICY_MAVLINK =
    [LDXB 2 1 0,
     MOV64I 3 0xFD,
     JNE64I 2 0xFD 19,
     LDXH 4 1 7,
     LDXB 5 1 9,
     SLL64I 5 16,
     OR64 4 5,
     JEQ64I 4 0 4,
     JEQ64I 4 33 7,
     JEQ64I 4 32 2,
     MOV64I 0 2,
     EXIT,
     LDXB 9 1 1,
     JGT64I 9 240 10,
     MOV64I 0 1,
     EXIT,
     LDXB 9 1 1,
     JGT64I 9 240 6,
     LDXW 6 1 10,
     JGT64I 6 900000000 6,
     MOV64I 0 1,
     EXIT,
     MOV64I 0 0,
     EXIT,
     MOV64I 0 3,
     EXIT,
     MOV64I 0 4,
     EXIT]"

definition POLICY_MAVLINK_CNT :: u32 where
  "POLICY_MAVLINK_CNT = 28"

definition POLICY_CONFLICT :: "u64 list" where
  "POLICY_CONFLICT =
    [LDXH 2 1 7,
     LDXB 3 1 9,
     SLL64I 3 16,
     OR64 2 3,
     MOV64I 3 33,
     JNE64I 2 33 24,
     LDXW 4 1 10,
     LDXW 5 1 14,
     RSH64I 4 26,
     AND64I 4 7,
     RSH64I 5 26,
     AND64I 5 7,
     SLL64I 4 3,
     OR64 4 5,
     MOV64 1 4,
     CALL 1,
     MOV64 6 0,
     ADD64I 6 1,
     MOV64 1 4,
     MOV64 2 6,
     CALL 2,
     JGT64I 6 3 10,
     MOV64 1 4,
     SUB64I 1 1,
     CALL 1,
     JGT64I 0 3 6,
     MOV64 1 4,
     ADD64I 1 1,
     CALL 1,
     JGT64I 0 3 2,
     MOV64I 0 1,
     EXIT,
     MOV64I 0 5,
     EXIT]"

definition POLICY_CONFLICT_CNT :: u32 where
  "POLICY_CONFLICT_CNT = 34"

definition RATE_LIMIT :: "u64 list" where
  "RATE_LIMIT =
    [LDXB 2 1 7,
     LDXB 3 1 8,
     SLL64I 3 8,
     OR64 2 3,
     LDXB 3 1 9,
     SLL64I 3 16,
     OR64 2 3,
     AND64I 2 63,
     MOV64 1 2,
     CALL 1,
     ADD64I 0 1,
     MOV64 6 0,
     MOV64 1 2,
     MOV64 2 6,
     CALL 2,
     JGT64I 6 3 2,
     MOV64I 0 1,
     EXIT,
     MOV64I 0 5,
     EXIT]"

definition RATE_LIMIT_CNT :: u32 where
  "RATE_LIMIT_CNT = 20"

definition pass_all_ins :: "u64 list" where
  "pass_all_ins =
    [LDXB 0 1 0,
     MOV64I 1 0xFD,
     JEQ64 0 1 2,
     MOV64I 0 0,
     EXIT,
     MOV64I 0 1,
     EXIT]"

end
