(* ===== verification/Sha256.thy ===== *)
theory Sha256
  imports Prelude
begin

text \<open>
  SHA-256 as \<^verbatim>\<open>core/sha256.c\<close> computes it, and the padding scheme of FIPS 180-4 that it refines.
  The block loop counts in 32 bits and is a partial function: \<^verbatim>\<open>i + 64 <= len\<close> wraps for
  lengths in the last 64 bytes of the address space, and the C loop then never ends.
\<close>

subsection \<open>The compression function\<close>

definition K :: "u32 list" where
  "K = [1116352408, 1899447441, 3049323471, 3921009573, 961987163, 1508970993, 2453635748, 2870763221,
    3624381080, 310598401, 607225278, 1426881987, 1925078388, 2162078206, 2614888103, 3248222580,
    3835390401, 4022224774, 264347078, 604807628, 770255983, 1249150122, 1555081692, 1996064986,
    2554220882, 2821834349, 2952996808, 3210313671, 3336571891, 3584528711, 113926993, 338241895,
    666307205, 773529912, 1294757372, 1396182291, 1695183700, 1986661051, 2177026350, 2456956037,
    2730485921, 2820302411, 3259730800, 3345764771, 3516065817, 3600352804, 4094571909, 275423344,
    430227734, 506948616, 659060556, 883997877, 958139571, 1322822218, 1537002063, 1747873779,
    1955562222, 2024104815, 2227730452, 2361852424, 2428436474, 2756734187, 3204031479, 3329325298]"

definition ROR :: "u32 \<Rightarrow> nat \<Rightarrow> u32" where
  "ROR x n = drop_bit n x OR push_bit (32 - n) x"

text \<open>The sixteen big-endian words of a block, and the extension to sixty-four.\<close>

definition be_word :: "u8 list \<Rightarrow> nat \<Rightarrow> u32" where
  "be_word p i =
     push_bit 24 (ucast (p ! (4 * i))) OR push_bit 16 (ucast (p ! (4 * i + 1)))
     OR push_bit 8 (ucast (p ! (4 * i + 2))) OR ucast (p ! (4 * i + 3))"

definition next_w :: "u32 list \<Rightarrow> nat \<Rightarrow> u32" where
  "next_w w i =
     (let s0 = ROR (w ! (i - 15)) 7 XOR ROR (w ! (i - 15)) 18 XOR drop_bit 3 (w ! (i - 15));
          s1 = ROR (w ! (i - 2)) 17 XOR ROR (w ! (i - 2)) 19 XOR drop_bit 10 (w ! (i - 2))
      in w ! (i - 16) + s0 + w ! (i - 7) + s1)"

definition schedule :: "u8 list \<Rightarrow> u32 list" where
  "schedule p = foldl (\<lambda>w i. w @ [next_w w i]) (map (be_word p) [0..<16]) [16..<64]"

type_synonym vars = "u32 \<times> u32 \<times> u32 \<times> u32 \<times> u32 \<times> u32 \<times> u32 \<times> u32"

fun sha_round :: "u32 list \<Rightarrow> vars \<Rightarrow> nat \<Rightarrow> vars" where
  "sha_round w (a, b, c, d, e, f, g, hh) i =
     (let S1 = ROR e 6 XOR ROR e 11 XOR ROR e 25;
          ch = (e AND f) XOR (NOT e AND g);
          t1 = hh + S1 + ch + K ! i + w ! i;
          S0 = ROR a 2 XOR ROR a 13 XOR ROR a 22;
          maj = (a AND b) XOR (a AND c) XOR (b AND c);
          t2 = S0 + maj
      in (t1 + t2, a, b, c, d + t1, e, f, g))"

fun add_vars :: "vars \<Rightarrow> vars \<Rightarrow> vars" where
  "add_vars (a, b, c, d, e, f, g, hh) (a', b', c', d', e', f', g', hh') =
     (a + a', b + b', c + c', d + d', e + e', f + f', g + g', hh + hh')"

definition sha256_block :: "vars \<Rightarrow> u8 list \<Rightarrow> vars" where
  "sha256_block h p = (let w = schedule p in add_vars h (foldl (sha_round w) h [0..<64]))"

subsection \<open>The message loop\<close>

definition H0 :: vars where
  "H0 = (0x6a09e667, 0xbb67ae85, 0x3c6ef372, 0xa54ff53a, 0x510e527f, 0x9b05688c, 0x1f83d9ab, 0x5be0cd19)"

partial_function (option) sha_blocks ::
    "u8 list \<Rightarrow> u32 \<Rightarrow> vars \<Rightarrow> u32 \<Rightarrow> (vars \<times> u32) option" where
  "sha_blocks data len h i =
     (if i + 64 \<le> len
      then sha_blocks data len (sha256_block h (take 64 (drop (unat i) data))) (i + 64)
      else Some (h, i))"

declare sha_blocks.simps [code]

text \<open>The last one or two blocks: the rest of the data, \<^verbatim>\<open>0x80\<close>, zeros, the bit length.\<close>

definition sha_tail :: "u8 list \<Rightarrow> u32 \<Rightarrow> u32 \<Rightarrow> u8 list" where
  "sha_tail data len i =
     (let r = unat (len - i);
          bitlen = (ucast len :: u64) * 8;
          zlen = (if r + 1 \<le> 56 then 64 else 128);
          t0 = take r (drop (unat i) data) @ 0x80 # replicate (zlen - (r + 1)) 0
      in foldl (\<lambda>t k. t[zlen - 1 - k := ucast (drop_bit (8 * k) bitlen)]) t0 [0..<8])"

definition be_bytes :: "u32 \<Rightarrow> u8 list" where
  "be_bytes h = [ucast (drop_bit 24 h), ucast (drop_bit 16 h), ucast (drop_bit 8 h), ucast h]"

fun digest_bytes :: "vars \<Rightarrow> u8 list" where
  "digest_bytes (a, b, c, d, e, f, g, hh) = concat (map be_bytes [a, b, c, d, e, f, g, hh])"

definition sha256 :: "u8 list \<Rightarrow> u32 \<Rightarrow> u8 list option" where
  "sha256 data len =
     (case sha_blocks data len H0 0 of
        None \<Rightarrow> None
      | Some (h, i) \<Rightarrow>
          (let t = sha_tail data len i;
               h1 = sha256_block h (take 64 t);
               h2 = (if length t = 128 then sha256_block h1 (drop 64 t) else h1)
           in Some (digest_bytes h2)))"

subsection \<open>The padding of FIPS 180-4\<close>

text \<open>
  The message, a one bit, the least number of zero bits that makes the total a multiple of 512,
  and the length in bits as a 64-bit big-endian number.
\<close>

definition be64 :: "u64 \<Rightarrow> u8 list" where
  "be64 x = map (\<lambda>k. ucast (drop_bit (8 * (7 - k)) x)) [0..<8]"

definition zero_bytes :: "nat \<Rightarrow> nat" where
  "zero_bytes n = (119 - n mod 64) mod 64"

definition sha_pad :: "u8 list \<Rightarrow> u8 list" where
  "sha_pad msg = msg @ 0x80 # replicate (zero_bytes (length msg)) 0
     @ be64 (word_of_nat (8 * length msg))"

function chunks :: "u8 list \<Rightarrow> u8 list list" where
  "chunks xs = (if xs = [] then [] else take 64 xs # chunks (drop 64 xs))"
  by pat_completeness auto
termination by (relation "measure length") auto

declare chunks.simps [simp del]

definition sha_spec :: "u8 list \<Rightarrow> u8 list" where
  "sha_spec msg = digest_bytes (foldl sha256_block H0 (chunks (sha_pad msg)))"

lemma chunks_step: "64 \<le> length xs \<Longrightarrow> chunks (xs @ ys) = take 64 xs # chunks (drop 64 xs @ ys)"
  by (subst chunks.simps) auto

lemma chunks_64: "length t = 64 \<Longrightarrow> chunks t = [t]"
  by (subst chunks.simps, subst chunks.simps) auto

lemma chunks_128: "length t = 128 \<Longrightarrow> chunks t = [take 64 t, drop 64 t]"
  by (subst chunks.simps) (auto simp: chunks_64)

subsection \<open>Refinement\<close>

lemma next_index:
  assumes "unat len < 2 ^ 32 - 64" "(i::u32) \<le> len"
  shows "unat (i + 64) = unat i + 64"
proof -
  have "unat i + 64 < 2 ^ 32" using assms by (simp add: word_le_nat_alt)
  then show ?thesis by (simp add: unat_word_ariths)
qed

lemma sha_blocks_eq:
  assumes len: "unat len < 2 ^ 32 - 64" "unat len \<le> length data"
    and "i \<le> len" "unat i mod 64 = 0"
  shows "\<exists>h' i'. sha_blocks data len h i = Some (h', i') \<and> i' \<le> len \<and> unat i' mod 64 = 0 \<and>
    unat len - unat i' < 64 \<and>
    (\<forall>ys. foldl sha256_block h (chunks (drop (unat i) (take (unat len) data) @ ys)) =
       foldl sha256_block h' (chunks (drop (unat i') (take (unat len) data) @ ys)))"
  using assms(3,4)
proof (induction "unat len - unat i" arbitrary: i h rule: less_induct)
  case less
  note next_i = next_index [OF len(1) less.prems(1)]
  let ?msg = "take (unat len) data"
  show ?case
  proof (cases "i + 64 \<le> len")
    case True
    let ?h = "sha256_block h (take 64 (drop (unat i) data))"
    have le: "unat i + 64 \<le> unat len" using True next_i by (simp add: word_le_nat_alt)
    have "sha_blocks data len h i = sha_blocks data len ?h (i + 64)"
      using True by (simp add: sha_blocks.simps [of data len h i])
    moreover have "foldl sha256_block h (chunks (drop (unat i) ?msg @ ys)) =
        foldl sha256_block ?h (chunks (drop (unat (i + 64)) ?msg @ ys))" for ys
      using le len(2) by (simp add: chunks_step next_i take_drop min_def add.commute)
    moreover have "unat len - unat (i + 64) < unat len - unat i" using le next_i by simp
    moreover have "unat (i + 64) mod 64 = 0" using less.prems(2) next_i by simp
    ultimately show ?thesis using less.hyps [of "i + 64" ?h] True by simp
  next
    case False
    then have "unat len - unat i < 64" using next_i by (simp add: word_le_nat_alt)
    with False less.prems show ?thesis by (simp add: sha_blocks.simps [of data len h i])
  qed
qed

lemma write_be64:
  assumes "length xs = 8"
  shows "foldl (\<lambda>t k. t[length zs + 8 - 1 - k := ucast (drop_bit (8 * k) x)]) (zs @ xs) [0..<8] =
    zs @ be64 x"
proof -
  obtain a b c d e f g h where xs: "xs = [a, b, c, d, e, f, g, h]"
    using assms by (auto simp: length_Suc_conv eval_nat_numeral)
  have upt: "[0..<8] = [0, 1, 2, 3, 4, 5, 6, 7::nat]" by (simp add: upt_rec)
  show ?thesis
    unfolding upt by (simp add: be64_def upt xs list_update_append)
qed

lemma mod_64_rest:
  fixes i n :: nat
  assumes "i \<le> n" "i mod 64 = 0" "n - i < 64"
  shows "n mod 64 = n - i"
proof -
  have "n = (n - i) + i" using assms(1) by simp
  then have "n mod 64 = (n - i) mod 64" using assms(2) by (metis add.right_neutral mod_add_right_eq)
  with assms(3) show ?thesis by simp
qed

lemma zero_bytes_split:
  fixes r :: nat
  assumes "r < 64"
  shows "(119 - r) mod 64 + 8 = (if r + 1 \<le> 56 then 64 else 128) - (r + 1)"
proof (cases "r \<le> 55")
  case True
  then have "119 - r = 64 + (55 - r)" by simp
  then have "(119 - r) mod 64 = (55 - r) mod 64" by (metis mod_add_self1)
  with True show ?thesis by simp
qed (use assms in simp)

lemma sha_tail_eq:
  assumes "i \<le> len" "unat i mod 64 = 0" "unat len - unat i < 64" "unat len \<le> length data"
  shows "sha_tail data len i =
    drop (unat i) (take (unat len) data) @ 0x80 # replicate (zero_bytes (unat len)) 0
      @ be64 (word_of_nat (8 * unat len)) \<and>
    length (sha_tail data len i) \<in> {64, 128}"
proof -
  let ?r = "unat len - unat i" and ?msg = "take (unat len) data"
  let ?z = "if ?r + 1 \<le> 56 then 64 else 128 :: nat"
  have r: "unat (len - i) = ?r" using assms(1) by (simp add: unat_sub)
  have "unat i \<le> unat len" using assms(1) by (simp add: word_le_nat_alt)
  then have "unat len mod 64 = ?r"
    using assms(2,3) by (rule mod_64_rest)
  then have z: "zero_bytes (unat len) + 8 = ?z - (?r + 1)"
    using zero_bytes_split [OF assms(3)] by (simp add: zero_bytes_def)
  let ?zs = "take ?r (drop (unat i) data) @ 0x80 # replicate (zero_bytes (unat len)) 0"
  have t0: "take ?r (drop (unat i) data) @ 0x80 # replicate (?z - (?r + 1)) 0 = ?zs @ replicate 8 0"
    unfolding z [symmetric] by (simp add: replicate_add)
  have zs: "length ?zs + 8 = ?z"
    using z assms(3,4) by (auto split: if_splits)
  have bits: "(ucast len :: u64) * 8 = word_of_nat (8 * unat len)"
    by (simp add: mult.commute)
  have "sha_tail data len i =
      foldl (\<lambda>t k. t[?z - 1 - k := ucast (drop_bit (8 * k) ((ucast len :: u64) * 8))])
        (?zs @ replicate 8 0) [0..<8]"
    unfolding sha_tail_def Let_def r t0 ..
  also have "\<dots> = ?zs @ be64 (word_of_nat (8 * unat len))"
    unfolding zs [symmetric] bits by (rule write_be64) simp
  finally have tail: "sha_tail data len i = ?zs @ be64 (word_of_nat (8 * unat len))" .
  have "length (sha_tail data len i) = length ?zs + 8"
    unfolding tail by (simp add: be64_def)
  with zs have "length (sha_tail data len i) \<in> {64, 128}" by (simp split: if_splits)
  with tail show ?thesis by (simp add: drop_take)
qed

lemma length_sha_spec: "length (sha_spec msg) = 32"
proof -
  have "length (digest_bytes v) = 32" for v
    by (cases v rule: digest_bytes.cases) (simp add: be_bytes_def)
  then show ?thesis by (simp add: sha_spec_def)
qed

lemma sha256_eq:
  assumes "unat len < 2 ^ 32 - 64" "unat len \<le> length data"
  shows "sha256 data len = Some (sha_spec (take (unat len) data))"
proof -
  let ?msg = "take (unat len) data"
  obtain h i where blocks: "sha_blocks data len H0 0 = Some (h, i)"
    and i: "i \<le> len" "unat i mod 64 = 0" "unat len - unat i < 64"
    and fold: "\<And>ys. foldl sha256_block H0 (chunks (?msg @ ys)) =
       foldl sha256_block h (chunks (drop (unat i) ?msg @ ys))"
    using sha_blocks_eq [OF assms, of 0 H0] by auto
  let ?t = "sha_tail data len i"
  note tail = sha_tail_eq [OF i assms(2)]
  have len: "length ?msg = unat len" using assms(2) by simp
  have "foldl sha256_block H0 (chunks (sha_pad ?msg)) = foldl sha256_block h (chunks ?t)"
    using tail fold unfolding sha_pad_def len by simp
  moreover have "foldl sha256_block h (chunks ?t) =
      (let h1 = sha256_block h (take 64 ?t)
       in if length ?t = 128 then sha256_block h1 (drop 64 ?t) else h1)"
    using tail by (auto simp: chunks_64 chunks_128)
  ultimately show ?thesis by (simp add: sha256_def blocks sha_spec_def Let_def)
qed

text \<open>
  C13: for every message that fits below the last 64 bytes of the address space, \<^verbatim>\<open>sha256\<close>
  terminates and computes the FIPS 180-4 construction: the compression function folded over
  the 64-byte chunks of the padded message.  The digest has 32 bytes.
\<close>

theorem sha256_refines:
  assumes "unat len < 2 ^ 32 - 64" "unat len \<le> length data"
  shows "sha256 data len = Some (sha_spec (take (unat len) data)) \<and>
    length (sha_spec (take (unat len) data)) = 32"
  using sha256_eq [OF assms] by (simp add: length_sha_spec)

theorem sha256_refines_witness:
  "sha256 [0x61, 0x62, 0x63] 3 = Some (sha_spec (take (unat (3::u32)) [0x61, 0x62, 0x63])) \<and>
   length (sha_spec (take (unat (3::u32)) [0x61, 0x62, 0x63])) = 32"
  by (rule sha256_refines) simp_all

end
