(* ===== verification/Boot.thy ===== *)
theory Boot
  imports Flash Compartment Policies Sha256
begin

text \<open>
  What the supervisor checks before it trusts anything: the shipped descriptions
  (\<^verbatim>\<open>descriptions/demo.h\<close>), the boot gate over them, and the digest gate of staged images
  (\<^verbatim>\<open>trusted_digests.h\<close>, \<open>trust_check\<close>), all used by \<^verbatim>\<open>modules/supervisor.c\<close>.
\<close>

subsection \<open>Shipped descriptions\<close>

fun ic_comp_monitor :: "target \<Rightarrow> ic_compartment_spec" where
  "ic_comp_monitor Qemu =
     \<lparr>text_base = 0x80100000, text_size = 0x2000, sram_base = 0x80200000, sram_size = 0x2000\<rparr>"
| "ic_comp_monitor Board =
     \<lparr>text_base = 0x8004000, text_size = 0x2000, sram_base = 0x20004000, sram_size = 0x2000\<rparr>"

fun ic_comp_attacker :: "target \<Rightarrow> ic_compartment_spec" where
  "ic_comp_attacker Qemu =
     \<lparr>text_base = 0x80102000, text_size = 0x2000, sram_base = 0x80208000, sram_size = 0x2000\<rparr>"
| "ic_comp_attacker Board =
     \<lparr>text_base = 0x8006000, text_size = 0x2000, sram_base = 0x20008000, sram_size = 0x2000\<rparr>"

fun ic_comp_native :: "target \<Rightarrow> ic_compartment_spec" where
  "ic_comp_native Qemu =
     \<lparr>text_base = 0x80210000, text_size = 0x1000, sram_base = 0x80211000, sram_size = 0x1000\<rparr>"
| "ic_comp_native Board =
     \<lparr>text_base = 0x2000A000, text_size = 0x1000, sram_base = 0x2000B000, sram_size = 0x1000\<rparr>"

fun ic_module_monitor :: "target \<Rightarrow> ic_module_desc" where
  "ic_module_monitor Qemu =
     \<lparr>d_magic = IC_MODULE_MAGIC, d_contract_ver = 1, d_kind = IC_MODULE_EBPF, d_text_base = 0x80100000,
      d_text_size = 0x2000, d_sram_base = 0x80200000, d_sram_size = 0x2000, d_entry_offset = 0,
      d_reserved = 0\<rparr>"
| "ic_module_monitor Board =
     \<lparr>d_magic = IC_MODULE_MAGIC, d_contract_ver = 1, d_kind = IC_MODULE_EBPF, d_text_base = 0x8004000,
      d_text_size = 0x2000, d_sram_base = 0x20004000, d_sram_size = 0x2000, d_entry_offset = 0,
      d_reserved = 0\<rparr>"

fun ic_module_attacker :: "target \<Rightarrow> ic_module_desc" where
  "ic_module_attacker Qemu =
     \<lparr>d_magic = IC_MODULE_MAGIC, d_contract_ver = 1, d_kind = IC_MODULE_NATIVE, d_text_base = 0x80102000,
      d_text_size = 0x2000, d_sram_base = 0x80208000, d_sram_size = 0x2000, d_entry_offset = 0,
      d_reserved = 0\<rparr>"
| "ic_module_attacker Board =
     \<lparr>d_magic = IC_MODULE_MAGIC, d_contract_ver = 1, d_kind = IC_MODULE_NATIVE, d_text_base = 0x8006000,
      d_text_size = 0x2000, d_sram_base = 0x20008000, d_sram_size = 0x2000, d_entry_offset = 0,
      d_reserved = 0\<rparr>"

fun ic_module_nativedemo :: "target \<Rightarrow> ic_module_desc" where
  "ic_module_nativedemo Qemu =
     \<lparr>d_magic = IC_MODULE_MAGIC, d_contract_ver = 1, d_kind = IC_MODULE_NATIVE, d_text_base = 0x80210000,
      d_text_size = 0x1000, d_sram_base = 0x80211000, d_sram_size = 0x1000, d_entry_offset = 0,
      d_reserved = 0\<rparr>"
| "ic_module_nativedemo Board =
     \<lparr>d_magic = IC_MODULE_MAGIC, d_contract_ver = 1, d_kind = IC_MODULE_NATIVE, d_text_base = 0x2000A000,
      d_text_size = 0x1000, d_sram_base = 0x2000B000, d_sram_size = 0x1000, d_entry_offset = 0,
      d_reserved = 0\<rparr>"

text \<open>The two policies describe themselves; \<^verbatim>\<open>sizeof\<close> of an instruction array is 8 bytes a word.\<close>

definition ic_module_mavlink :: ic_module_desc where
  "ic_module_mavlink =
     \<lparr>d_magic = IC_MODULE_MAGIC, d_contract_ver = IC_CONTRACT_VERSION, d_kind = IC_MODULE_EBPF,
      d_text_base = 0, d_text_size = word_of_nat (8 * length POLICY_MAVLINK), d_sram_base = 0,
      d_sram_size = 0, d_entry_offset = 0, d_reserved = 0\<rparr>"

definition ic_module_screening :: ic_module_desc where
  "ic_module_screening =
     \<lparr>d_magic = IC_MODULE_MAGIC, d_contract_ver = IC_CONTRACT_VERSION, d_kind = IC_MODULE_EBPF,
      d_text_base = 0, d_text_size = word_of_nat (8 * length POLICY_CONFLICT), d_sram_base = 0,
      d_sram_size = 256, d_entry_offset = 0, d_reserved = 0\<rparr>"

subsection \<open>The boot gate\<close>

definition nat_spec :: "target \<Rightarrow> u32 \<Rightarrow> ic_compartment_spec" where
  "nat_spec t k =
     \<lparr>text_base = (if k \<noteq> 0 then NAT2_TEXT t else NAT_TEXT t), text_size = 0x1000,
      sram_base = (if k \<noteq> 0 then NAT2_SRAM t else NAT_SRAM t), sram_size = 0x1000\<rparr>"

definition spec_match :: "ic_compartment_spec \<Rightarrow> ic_compartment_spec \<Rightarrow> bool" where
  "spec_match a b \<longleftrightarrow>
     text_base a = text_base b \<and> text_size a = text_size b \<and>
     sram_base a = sram_base b \<and> sram_size a = sram_size b"

definition boot_gate :: "target \<Rightarrow> u32" where
  "boot_gate t =
     (let mon = \<lparr>text_base = MON_TEXT t, text_size = 8192, sram_base = MON_BOX t, sram_size = 8192\<rparr>;
          atk = \<lparr>text_base = ATK_TEXT t, text_size = 8192, sram_base = ATK_BOX t, sram_size = 8192\<rparr>
      in if ic_compartment_check (Some (ic_comp_monitor t)) \<noteq> IC_OK then 1
         else if ic_compartment_check (Some (ic_comp_attacker t)) \<noteq> IC_OK then 2
         else if ic_module_check (Some (ic_module_monitor t)) \<noteq> IC_OK then 3
         else if ic_module_check (Some (ic_module_attacker t)) \<noteq> IC_OK then 4
         else if ic_module_check (Some ic_module_mavlink) \<noteq> IC_OK then 5
         else if ic_module_check (Some ic_module_screening) \<noteq> IC_OK then 6
         else if \<not> spec_match (ic_comp_monitor t) mon then 7
         else if \<not> spec_match (ic_comp_attacker t) atk then 8
         else if ic_compartment_check (Some (ic_comp_native t)) \<noteq> IC_OK then 9
         else if ic_module_check (Some (ic_module_nativedemo t)) \<noteq> IC_OK then 10
         else if \<not> spec_match (ic_comp_native t) (nat_spec t 0) then 11
         else if ic_compartment_check (Some (nat_spec t 1)) \<noteq> IC_OK then 12
         else 0)"

subsection \<open>The digest gate\<close>

definition g_trusted :: "u8 list list" where
  "g_trusted =
    [[126, 180, 157, 49, 200, 40, 40, 44, 155, 101, 63, 24, 255, 210, 137, 133,
      250, 0, 199, 158, 65, 174, 249, 121, 135, 104, 10, 15, 37, 47, 99, 69],
     [119, 147, 255, 31, 14, 167, 6, 156, 178, 233, 76, 131, 106, 18, 3, 149,
      48, 57, 228, 124, 225, 141, 218, 84, 198, 126, 21, 9, 231, 73, 65, 84],
     [128, 198, 248, 197, 117, 241, 251, 107, 73, 131, 210, 226, 177, 186, 54, 213,
      160, 97, 165, 173, 47, 45, 240, 201, 241, 87, 22, 138, 128, 111, 16, 93],
     [83, 133, 73, 206, 74, 80, 125, 131, 144, 155, 2, 117, 250, 158, 10, 30,
      74, 201, 64, 48, 128, 167, 245, 78, 190, 162, 138, 96, 255, 253, 61, 2],
     [196, 247, 241, 106, 63, 43, 129, 14, 4, 141, 164, 85, 254, 191, 242, 207,
      239, 43, 207, 134, 202, 132, 232, 238, 63, 147, 248, 253, 40, 235, 195, 36],
     [233, 235, 96, 148, 237, 205, 51, 137, 192, 60, 87, 74, 1, 132, 155, 27,
      253, 175, 252, 76, 188, 192, 176, 235, 87, 240, 193, 151, 26, 62, 131, 6],
     [100, 192, 172, 107, 219, 34, 165, 181, 39, 197, 163, 230, 93, 208, 164, 231,
      13, 18, 4, 164, 176, 42, 109, 147, 66, 68, 80, 5, 120, 243, 0, 235],
     [221, 173, 21, 145, 92, 181, 189, 35, 243, 70, 160, 162, 189, 164, 47, 174,
      106, 190, 255, 72, 255, 228, 42, 226, 171, 226, 214, 238, 91, 211, 169, 220],
     [135, 70, 23, 171, 160, 255, 53, 200, 13, 154, 70, 161, 201, 136, 172, 207,
      244, 118, 233, 90, 14, 237, 222, 252, 10, 44, 94, 36, 7, 188, 71, 8],
     [162, 242, 206, 57, 8, 112, 73, 12, 12, 246, 49, 13, 193, 153, 145, 9,
      160, 248, 237, 4, 155, 200, 199, 99, 26, 144, 61, 180, 193, 100, 139, 27],
     [163, 169, 206, 84, 76, 56, 107, 19, 130, 135, 191, 100, 155, 158, 191, 246,
      71, 16, 145, 236, 24, 128, 195, 87, 201, 28, 157, 89, 94, 27, 9, 254],
     [77, 249, 71, 178, 145, 98, 61, 30, 71, 178, 28, 205, 41, 181, 32, 65,
      100, 160, 77, 230, 101, 82, 196, 189, 160, 196, 237, 143, 228, 208, 177, 120],
     [97, 241, 85, 128, 78, 235, 48, 182, 30, 109, 149, 61, 162, 141, 42, 79,
      176, 100, 95, 29, 40, 93, 71, 105, 11, 198, 245, 21, 177, 215, 128, 231],
     [53, 148, 91, 68, 9, 82, 92, 46, 35, 222, 227, 144, 17, 100, 18, 231,
      94, 141, 172, 130, 249, 165, 99, 206, 153, 187, 203, 22, 197, 143, 39, 215],
     [249, 173, 6, 150, 115, 250, 50, 153, 128, 9, 4, 33, 118, 223, 156, 109,
      198, 19, 133, 64, 187, 59, 235, 92, 171, 6, 118, 45, 97, 40, 14, 100],
     [180, 61, 179, 10, 12, 80, 131, 253, 178, 116, 50, 153, 64, 57, 230, 83,
      34, 1, 19, 11, 17, 90, 226, 242, 109, 185, 235, 77, 57, 142, 95, 106]]"

text \<open>
  \<open>None\<close>: \<^verbatim>\<open>sha256\<close> reads past the image, or never returns.  The digest to compare is what trails the
  body.
\<close>

definition trust_check :: "u8 list \<Rightarrow> u32 \<Rightarrow> bool option" where
  "trust_check img body =
     (let digest = take 32 (drop (unat body) img) in
      if length digest < 32 then None
      else
        (case sha256 img body of
           None \<Rightarrow> None
         | Some calc \<Rightarrow>
             if calc \<noteq> digest then Some False
             else Some (\<exists>d \<in> set g_trusted. d = digest)))"

text \<open>For every image that holds its digest the gate is the two comparisons.\<close>

lemma trust_check_eq:
  assumes "unat body + 32 \<le> length img" "unat body < 4294967232"
  shows "trust_check img body =
    Some (sha_spec (take (unat body) img) = take 32 (drop (unat body) img) \<and>
      take 32 (drop (unat body) img) \<in> set g_trusted)"
  using assms sha256_eq [of body img] by (simp add: trust_check_def Let_def)

subsection \<open>The gate opens\<close>

lemma boot_gate_clear: "boot_gate Qemu = 0" "boot_gate Board = 0"
  by (simp_all add: boot_gate_def ic_compartment_check_def region_ok_def IC_MIN_REGION_def ic_module_check_def
      IC_MODULE_MAGIC_def IC_CONTRACT_VERSION_def IC_MODULE_EBPF_def IC_MODULE_NATIVE_def check_ebpf_def
      check_native_def ic_module_mavlink_def ic_module_screening_def POLICY_MAVLINK_def
      POLICY_CONFLICT_def spec_match_def nat_spec_def)

text \<open>
  The boot gate opens on both targets: every shipped description is well formed and agrees with
  the memory map, so the code past the gate is reachable.
\<close>

theorem boot_gate_opens: "boot_gate Qemu = 0 \<and> boot_gate Board = 0"
  by (simp add: boot_gate_clear)

subsection \<open>The map keeps compartments apart\<close>

text \<open>The four specifications the schedule uses, and what the supervisor keeps in RAM.\<close>

definition shipped_specs :: "target \<Rightarrow> ic_compartment_spec list" where
  "shipped_specs t = [ic_comp_monitor t, ic_comp_attacker t, nat_spec t 0, nat_spec t 1]"

definition supervisor_ram :: "target \<Rightarrow> (u32 \<times> u32) list" where
  "supervisor_ram t = [(STATUS_BASE t, 4 * 106), (MAILBOX_BASE t, 2696), (PROG_AREA t, 0xA44)]"

definition spec_regions :: "ic_compartment_spec \<Rightarrow> (u32 \<times> u32) list" where
  "spec_regions s = [(text_base s, text_size s), (sram_base s, sram_size s)]"

definition apart :: "u32 \<times> u32 \<Rightarrow> u32 \<times> u32 \<Rightarrow> bool" where
  "apart p q \<longleftrightarrow>
     uint (fst p) + uint (snd p) \<le> uint (fst q) \<or> uint (fst q) + uint (snd q) \<le> uint (fst p)"

lemma apart_regions:
  assumes "apart p q" "in_region (fst p) (snd p) x"
  shows "\<not> in_region (fst q) (snd q) x"
proof -
  have "unat (fst p) + unat (snd p) \<le> unat (fst q) \<or> unat (fst q) + unat (snd q) \<le> unat (fst p)"
    using assms(1) unfolding apart_def by (simp only: uint_nat of_nat_add [symmetric] of_nat_le_iff)
  with assms(2) show ?thesis by (auto simp: in_region_def word_le_nat_alt)
qed

lemma shipped_apart:
  "i < 4 \<Longrightarrow> j < 4 \<Longrightarrow> i \<noteq> j \<Longrightarrow>
    \<forall>p \<in> set (spec_regions (shipped_specs t ! i)). \<forall>q \<in> set (spec_regions (shipped_specs t ! j)). apart p q"
  "i < 4 \<Longrightarrow> \<forall>p \<in> set (spec_regions (shipped_specs t ! i)). \<forall>q \<in> set (supervisor_ram t). apart p q"
proof -
  have "\<forall>t \<in> set [Qemu, Board]. \<forall>i \<in> set [0..<4]. \<forall>p \<in> set (spec_regions (shipped_specs t ! i)).
      (\<forall>j \<in> set [0..<4]. i = j \<or> (\<forall>q \<in> set (spec_regions (shipped_specs t ! j)). apart p q)) \<and>
      (\<forall>q \<in> set (supervisor_ram t). apart p q)"
    by code_simp
  moreover have "t \<in> set [Qemu, Board]" by (cases t) simp_all
  ultimately have all: "\<forall>i \<in> set [0..<4]. \<forall>p \<in> set (spec_regions (shipped_specs t ! i)).
      (\<forall>j \<in> set [0..<4]. i = j \<or> (\<forall>q \<in> set (spec_regions (shipped_specs t ! j)). apart p q)) \<and>
      (\<forall>q \<in> set (supervisor_ram t). apart p q)" by (rule bspec)
  then show "i < 4 \<Longrightarrow> j < 4 \<Longrightarrow> i \<noteq> j \<Longrightarrow>
      \<forall>p \<in> set (spec_regions (shipped_specs t ! i)). \<forall>q \<in> set (spec_regions (shipped_specs t ! j)). apart p q"
    "i < 4 \<Longrightarrow> \<forall>p \<in> set (spec_regions (shipped_specs t ! i)). \<forall>q \<in> set (supervisor_ram t). apart p q"
    by (metis atLeastLessThan_iff le0 set_upt)+
qed

lemma shipped_regular:
  assumes "i < 4"
  shows "ic_compartment_check (Some (shipped_specs t ! i)) = IC_OK"
    "unat (text_base (shipped_specs t ! i)) mod unat (text_size (shipped_specs t ! i)) = 0"
    "unat (sram_base (shipped_specs t ! i)) mod unat (sram_size (shipped_specs t ! i)) = 0"
proof -
  have "i = 0 \<or> i = 1 \<or> i = 2 \<or> i = 3" using assms by linarith
  then have "ic_compartment_check (Some (shipped_specs t ! i)) = IC_OK \<and>
    unat (text_base (shipped_specs t ! i)) mod unat (text_size (shipped_specs t ! i)) = 0 \<and>
    unat (sram_base (shipped_specs t ! i)) mod unat (sram_size (shipped_specs t ! i)) = 0"
    by (cases t; elim disjE; simp add: shipped_specs_def nat_spec_def ic_compartment_check_def
        region_ok_def IC_MIN_REGION_def)
  then show "ic_compartment_check (Some (shipped_specs t ! i)) = IC_OK"
    "unat (text_base (shipped_specs t ! i)) mod unat (text_size (shipped_specs t ! i)) = 0"
    "unat (sram_base (shipped_specs t ! i)) mod unat (sram_size (shipped_specs t ! i)) = 0"
    by auto
qed

lemma shipped_isolated:
  assumes "pmp_holds f (shipped_specs t ! i)" "i < 4" "pmp_allows f acc x"
  shows "(\<exists>p \<in> set (spec_regions (shipped_specs t ! i)). in_region (fst p) (snd p) x) \<and>
    (\<forall>q \<in> set (supervisor_ram t). \<not> in_region (fst q) (snd q) x) \<and>
    (\<forall>j. j < 4 \<and> j \<noteq> i \<longrightarrow> (\<forall>q \<in> set (spec_regions (shipped_specs t ! j)). \<not> in_region (fst q) (snd q) x))"
proof -
  let ?s = "shipped_specs t ! i"
  from pmp_holds_allows [OF assms(1) shipped_regular(1) [OF assms(2)] shipped_regular(2,3) [OF assms(2)]]
  have "in_region (sram_base ?s) (sram_size ?s) x \<or> in_region (text_base ?s) (text_size ?s) x"
    using assms(3) by (auto split: if_splits)
  then have "\<exists>p \<in> set (spec_regions ?s). in_region (fst p) (snd p) x"
    by (auto simp: spec_regions_def)
  then obtain p where p: "p \<in> set (spec_regions ?s)" "in_region (fst p) (snd p) x" by blast
  have out: "\<not> in_region (fst q) (snd q) x" if "apart p q" for q
    using apart_regions [OF that p(2)] .
  have "\<forall>q \<in> set (supervisor_ram t). \<not> in_region (fst q) (snd q) x"
    using shipped_apart(2) [OF assms(2), of t] p(1) out by blast
  moreover have "\<forall>j. j < 4 \<and> j \<noteq> i \<longrightarrow>
      (\<forall>q \<in> set (spec_regions (shipped_specs t ! j)). \<not> in_region (fst q) (snd q) x)"
    using shipped_apart(1) [OF assms(2), of _ t] p(1) out by (metis (no_types, lifting))
  ultimately show ?thesis using p by blast
qed


end
