(* ===== verification/Containment.thy ===== *)
theory Containment
  imports Boot
begin

text \<open>
  The containment sweep of \<^verbatim>\<open>qemu/pmp_audit.c\<close>: a probe in user mode, written in assembly, walks the pages of the
  address space and the edges of its windows, tries a load, a store and a fetch at each, and compares the
  outcome with the policy it computes from its own windows; a trap handler of its own resumes it after every
  fault.  The probe is the program \<open>probe\<close>, one entry per instruction; \<open>probe_step\<close> runs it against PMP registers.
\<close>

unbundle bit_operations_syntax

subsection \<open>Configurations\<close>

definition cfgs :: "target \<Rightarrow> ic_compartment_spec list" where
  "cfgs t =
     [\<lparr>text_base = MON_TEXT t, text_size = 8192, sram_base = MON_BOX t, sram_size = 8192\<rparr>,
      \<lparr>text_base = ATK_TEXT t, text_size = 8192, sram_base = ATK_BOX t, sram_size = 8192\<rparr>,
      \<lparr>text_base = NAT_TEXT t, text_size = 0x1000, sram_base = NAT_SRAM t, sram_size = 0x1000\<rparr>,
      \<lparr>text_base = NAT2_TEXT t, text_size = 0x1000, sram_base = NAT2_SRAM t, sram_size = 0x1000\<rparr>]"

fun cfg_list :: "target \<Rightarrow> nat list" where
  "cfg_list Qemu = [0, 1, 2, 3]"
| "cfg_list Board = [2, 3]"

fun NCFG :: "target \<Rightarrow> nat" where
  "NCFG Qemu = 4"
| "NCFG Board = 2"

definition EBREAK :: u32 where "EBREAK = 0x00100073"

definition E36_PSTART :: u32 where "E36_PSTART = 0"

definition E36_PEND :: u32 where "E36_PEND = 1048576"

definition E36_PAGES :: u32 where "E36_PAGES = E36_PEND - E36_PSTART"

record audit_res =
  r_mism :: u32
  r_pages :: u32
  r_page :: u32
  r_kind :: u32

subsection \<open>The trap handler\<close>

text \<open>
  The handler stores every register but \<^verbatim>\<open>sp\<close>, which goes through \<^verbatim>\<open>mscratch\<close>, in a frame of words, calls the
  dispatcher, and loads them back.
\<close>

definition audit_save_seq :: "(nat \<times> nat) list" where
  "audit_save_seq =
     [(1, 0), (3, 8), (4, 12), (5, 16), (6, 20), (7, 24), (8, 28), (9, 32), (10, 36), (11, 40), (12, 44), (13, 48),
      (14, 52), (15, 56), (16, 60), (17, 64), (18, 68), (19, 72), (20, 76), (21, 80), (22, 84), (23, 88), (24, 92),
      (25, 96), (26, 100), (27, 104), (28, 108), (29, 112), (30, 116), (31, 120)]"

definition audit_load_seq :: "(nat \<times> nat) list" where
  "audit_load_seq =
     [(1, 0), (3, 8), (4, 12), (5, 16), (6, 20), (7, 24), (8, 28), (9, 32), (10, 36), (11, 40), (12, 44), (13, 48),
      (14, 52), (15, 56), (16, 60), (17, 64), (18, 68), (19, 72), (20, 76), (21, 80), (22, 84), (23, 88), (24, 92),
      (25, 96), (26, 100), (27, 104), (28, 108), (29, 112), (30, 116), (31, 120)]"

definition audit_save :: "(nat \<Rightarrow> u32) \<Rightarrow> u32 \<Rightarrow> nat \<Rightarrow> u32" where
  "audit_save regs mepc =
     (fold (\<lambda>(r, off) f. f(off div 4 := regs r)) audit_save_seq (\<lambda>_. 0))(124 div 4 := mepc)"

definition audit_restore :: "(nat \<Rightarrow> u32) \<Rightarrow> (nat \<Rightarrow> u32) \<Rightarrow> nat \<Rightarrow> u32" where
  "audit_restore f regs = fold (\<lambda>(r, off) g. g(r := f (off div 4))) audit_load_seq regs"

definition F_RA :: nat where "F_RA = 0"
definition F_A0 :: nat where "F_A0 = 9"
definition F_A1 :: nat where "F_A1 = 10"
definition F_A2 :: nat where "F_A2 = 11"
definition F_A3 :: nat where "F_A3 = 12"
definition F_A4 :: nat where "F_A4 = 13"
definition F_T6 :: nat where "F_T6 = 30"
definition F_MEPC :: nat where "F_MEPC = 31"

datatype dispatch = Resumes u32 "nat \<Rightarrow> u32" | Stops audit_res | Spins

definition audit_dispatch :: "ic_compartment_spec \<Rightarrow> u32 \<Rightarrow> (nat \<Rightarrow> u32) \<Rightarrow> dispatch" where
  "audit_dispatch s mcause f =
     (if mcause = 8 \<or> mcause = 11 then
        (if f F_A0 = 0xE36D0E1
         then Stops \<lparr>r_mism = f F_A1, r_pages = f F_A2, r_page = f F_A3, r_kind = f F_A4\<rparr>
         else Resumes (f F_MEPC + 4)
                (f(F_A0 := sram_base s, F_A1 := sram_size s, F_A2 := text_base s, F_A3 := text_size s)))
      else if mcause = 1 \<or> mcause = 2 then Resumes (f F_RA) (f(F_T6 := 1))
      else if mcause = 3 then Resumes (f F_RA) (f(F_T6 := 0))
      else if mcause = 5 \<or> mcause = 7 then Resumes (f F_MEPC + 4) (f(F_T6 := 1))
      else Spins)"

subsection \<open>The probe\<close>

text \<open>
  Registers by number, branch targets by position.  Every instruction before \<^verbatim>\<open>pdone\<close> is one word, so the
  instruction at position \<open>k\<close> is at byte \<open>4 * k\<close>; the constant at \<^verbatim>\<open>pdone\<close> takes two words.
\<close>

datatype ins = Li nat u32 | Mv nat nat | Slli nat nat nat | Addi nat nat u32 | Add nat nat nat | Sub nat nat nat
  | Sltu nat nat nat | Or nat nat nat | Xori nat nat u32 | Andi nat nat u32 | Lbu nat nat | Sb nat nat
  | Lw nat nat | Sw nat nat u32 | J nat | Bne nat nat nat | Beq nat nat nat | Bltu nat nat nat
  | Bnez nat nat | Beqz nat nat | Auipc nat | Jr nat | Ecall

definition probe :: "ins list" where
  "probe =
     [Ecall, Li 8 0, Li 25 0, Li 26 0, Li 20 E36_PEND, Li 22 E36_PSTART, Mv 15 14,
      \<comment> \<open>ploop: 7\<close>
      Slli 5 22 12,
      Li 31 0, Lbu 6 5, J 11,
      \<comment> \<open>lchk: 11\<close>
      Sub 7 5 10, Sltu 28 7 11, Sub 7 5 12, Sltu 29 7 13, Or 28 28 29, Xori 29 31 1, Bne 28 29 19, J 23,
      \<comment> \<open>lbad: 19\<close>
      Addi 8 8 1, Bnez 25 23, Mv 25 22, Li 26 1,
      \<comment> \<open>lnext: 23\<close>
      Li 31 0, Sb 6 5, J 26,
      \<comment> \<open>schk: 26\<close>
      Sub 7 5 10, Sltu 28 7 11, Xori 29 31 1, Bne 28 29 31, J 35,
      \<comment> \<open>sbad: 31\<close>
      Addi 8 8 1, Bnez 25 35, Mv 25 22, Li 26 2,
      \<comment> \<open>snext: 35\<close>
      Beqz 15 48, Sub 7 5 12, Sltu 28 7 13, Auipc 1, Addi 1 1 12, Jr 5,
      \<comment> \<open>fcont: 41\<close>
      Xori 29 31 1, Bne 28 29 44, J 48,
      \<comment> \<open>fbad: 44\<close>
      Addi 8 8 1, Bnez 25 48, Mv 25 22, Li 26 3,
      \<comment> \<open>fnext: 48\<close>
      Addi 22 22 1, Addi 24 24 1, Bltu 22 20 7,
      \<comment> \<open>edges: 51\<close>
      Li 27 4096, Add 23 10 27,
      Addi 5 10 (-1), Sw 5 23 0, Sw 10 23 4,
      Add 5 10 11, Addi 5 5 (-1), Sw 5 23 8,
      Add 5 10 11, Sw 5 23 12,
      Addi 5 12 (-1), Sw 5 23 16, Sw 12 23 20,
      Add 5 12 13, Addi 5 5 (-1), Sw 5 23 24,
      Add 5 12 13, Sw 5 23 28, Li 9 0,
      \<comment> \<open>eloop: 70\<close>
      Slli 31 9 2, Add 5 23 31, Lw 5 5, Andi 6 9 1,
      Li 31 0, Lbu 7 5, J 77,
      \<comment> \<open>elchk: 77\<close>
      Sub 7 5 10, Sltu 28 7 11, Sub 7 5 12, Sltu 29 7 13, Or 28 28 29, Xori 29 31 1, Beq 28 29 85, Addi 8 8 1,
      \<comment> \<open>elok1: 85\<close>
      Beqz 6 103, Li 31 0, Sb 7 5, J 89,
      \<comment> \<open>eschk: 89\<close>
      Sub 7 5 10, Sltu 28 7 11, Xori 29 31 1, Beq 28 29 94, Addi 8 8 1,
      \<comment> \<open>elok2: 94\<close>
      Beqz 15 103, Sub 7 5 12, Sltu 28 7 13, Auipc 1, Addi 1 1 12, Jr 5,
      \<comment> \<open>efcont: 100\<close>
      Xori 29 31 1, Beq 28 29 103, Addi 8 8 1,
      \<comment> \<open>elnxt: 103\<close>
      Addi 9 9 1, Li 30 8, Bltu 9 30 70,
      \<comment> \<open>pdone: 106\<close>
      Li 10 0xE36D0E1, Mv 11 8, Mv 12 24, Mv 13 25, Mv 14 26, Ecall, J 112]"

definition probe_len :: u32 where
  "probe_len = 4 * (of_nat (length probe) + 1)"

text \<open>The probe runs, has reported, or is lost: the handler spins, or the core runs words that are not the probe's.\<close>

datatype pstate = Probe nat "nat \<Rightarrow> u32" "u32 \<Rightarrow> u8" | Reported audit_res "u32 \<Rightarrow> u8" | Lost

definition load_word :: "(u32 \<Rightarrow> u8) \<Rightarrow> u32 \<Rightarrow> u32" where
  "load_word m x = le32 (map (\<lambda>k. m (x + of_nat k)) [0..<4]) 0"

definition store_word :: "u32 \<Rightarrow> u32 \<Rightarrow> (u32 \<Rightarrow> u8) \<Rightarrow> u32 \<Rightarrow> u8" where
  "store_word x v m = m(x := ucast v, x + 1 := ucast (drop_bit 8 v), x + 2 := ucast (drop_bit 16 v), x + 3 := ucast (drop_bit 24 v))"

text \<open>A trap at \<open>mepc\<close>: \<open>at\<close> is the address of the probe.\<close>

definition audit_trap :: "ic_compartment_spec \<Rightarrow> u32 \<Rightarrow> u32 \<Rightarrow> u32 \<Rightarrow> (nat \<Rightarrow> u32) \<Rightarrow> (u32 \<Rightarrow> u8) \<Rightarrow> pstate" where
  "audit_trap s at mcause mepc r m =
     (case audit_dispatch s mcause (audit_save r mepc) of
        Stops oc \<Rightarrow> Reported oc m
      | Spins \<Rightarrow> Lost
      | Resumes pc f \<Rightarrow> Probe (unat (pc - at) div 4) (audit_restore f r) m)"

definition probe_exec :: "ic_compartment_spec \<Rightarrow> u32 \<Rightarrow> (u32 \<Rightarrow> u32) \<Rightarrow> ins \<Rightarrow> nat \<Rightarrow> (nat \<Rightarrow> u32) \<Rightarrow> (u32 \<Rightarrow> u8) \<Rightarrow> pstate" where
  "probe_exec s at pmp i pc r m =
     (let trap = (\<lambda>cause mepc. audit_trap s at cause mepc r m);
          here = at + 4 * of_nat pc;
          next = (\<lambda>r. Probe (pc + 1) r m) in
      case i of
        Li d v \<Rightarrow> next (r(d := v))
      | Mv d a \<Rightarrow> next (r(d := r a))
      | Slli d a k \<Rightarrow> next (r(d := push_bit k (r a)))
      | Addi d a v \<Rightarrow> next (r(d := r a + v))
      | Add d a b \<Rightarrow> next (r(d := r a + r b))
      | Sub d a b \<Rightarrow> next (r(d := r a - r b))
      | Sltu d a b \<Rightarrow> next (r(d := (if r a < r b then 1 else 0)))
      | Or d a b \<Rightarrow> next (r(d := r a OR r b))
      | Xori d a v \<Rightarrow> next (r(d := r a XOR v))
      | Andi d a v \<Rightarrow> next (r(d := r a AND v))
      | Lbu d a \<Rightarrow> (if pmp_allows pmp Read (r a) then next (r(d := ucast (m (r a)))) else trap 5 here)
      | Lw d a \<Rightarrow> (if pmp_allows pmp Read (r a) then next (r(d := load_word m (r a))) else trap 5 here)
      | Sb v a \<Rightarrow>
          (if pmp_allows pmp Write (r a) then Probe (pc + 1) r (m(r a := ucast (r v))) else trap 7 here)
      | Sw v a off \<Rightarrow>
          (if pmp_allows pmp Write (r a + off) then Probe (pc + 1) r (store_word (r a + off) (r v) m) else trap 7 here)
      | J k \<Rightarrow> Probe k r m
      | Bne a b k \<Rightarrow> Probe (if r a \<noteq> r b then k else pc + 1) r m
      | Beq a b k \<Rightarrow> Probe (if r a = r b then k else pc + 1) r m
      | Bltu a b k \<Rightarrow> Probe (if r a < r b then k else pc + 1) r m
      | Bnez a k \<Rightarrow> Probe (if r a \<noteq> 0 then k else pc + 1) r m
      | Beqz a k \<Rightarrow> Probe (if r a = 0 then k else pc + 1) r m
      | Auipc d \<Rightarrow> next (r(d := here))
      | Jr a \<Rightarrow>
          (if \<not> pmp_allows pmp Exec (r a) then trap 1 (r a)
           else if load_word m (r a) = EBREAK then trap 3 (r a)
           else Lost)
      | Ecall \<Rightarrow> trap 8 here)"

fun probe_step :: "ic_compartment_spec \<Rightarrow> u32 \<Rightarrow> (u32 \<Rightarrow> u32) \<Rightarrow> pstate \<Rightarrow> pstate" where
  "probe_step s at pmp (Probe pc r m) = (if pc < length probe then probe_exec s at pmp (probe ! pc) pc r m else Lost)"
| "probe_step s at pmp (Reported oc m) = Reported oc m"
| "probe_step s at pmp Lost = Lost"

primrec probe_run :: "nat \<Rightarrow> ic_compartment_spec \<Rightarrow> u32 \<Rightarrow> (u32 \<Rightarrow> u32) \<Rightarrow> pstate \<Rightarrow> pstate" where
  "probe_run 0 s at pmp p = p"
| "probe_run (Suc n) s at pmp p = probe_run n s at pmp (probe_step s at pmp p)"

lemma length_probe: "length probe = 113"
  by (simp add: probe_def)

lemma probe_run_numeral: "probe_run (numeral k) s at pmp p = probe_run (pred_numeral k) s at pmp (probe_step s at pmp p)"
  by (simp only: numeral_eq_Suc probe_run.simps)

lemma probe_run_add: "probe_run (m + n) s at pmp p = probe_run n s at pmp (probe_run m s at pmp p)"
  by (induction m arbitrary: p) simp_all

lemma audit_frame: "audit_save r mepc 31 = mepc" "audit_save r mepc 0 = r 1" "audit_save r mepc 9 = r 10"
  "audit_save r mepc 10 = r 11" "audit_save r mepc 11 = r 12" "audit_save r mepc 12 = r 13" "audit_save r mepc 13 = r 14"
  by (simp_all add: audit_save_def audit_save_seq_def)

lemma audit_saved: "audit_restore (audit_save r mepc) r = r"
  "audit_restore ((audit_save r mepc)(30 := v)) r = r(31 := v)"
  by (simp_all add: fun_eq_iff audit_restore_def audit_load_seq_def audit_save_def audit_save_seq_def)

text \<open>A denied load or store sets the flag in \<^verbatim>\<open>t6\<close> and goes on with the next instruction.\<close>

lemma audit_trap_denied:
  assumes "cause = 5 \<or> cause = 7" "pc < 113"
  shows "audit_trap s at cause (at + 4 * of_nat pc) r m = Probe (pc + 1) (r(31 := 1)) m"
proof -
  have "unat (4 * of_nat pc + 4 :: u32) div 4 = pc + 1"
    using assms(2) by (simp add: unat_word_ariths unat_of_nat)
  moreover have "at + 4 * of_nat pc + 4 - at = 4 * of_nat pc + 4" by (simp add: algebra_simps)
  ultimately show ?thesis
    using assms(1) by (auto simp: audit_trap_def audit_dispatch_def F_MEPC_def F_T6_def audit_frame audit_saved)
qed

text \<open>The probe's own policy: what its windows say of a load and of a store.\<close>

definition windows :: "(u32 \<Rightarrow> u32) \<Rightarrow> (nat \<Rightarrow> u32) \<Rightarrow> bool" where
  "windows pmp r \<longleftrightarrow>
     (\<forall>x. (pmp_allows pmp Read x \<longleftrightarrow> x - r 10 < r 11 \<or> x - r 12 < r 13) \<and> (pmp_allows pmp Write x \<longleftrightarrow> x - r 10 < r 11))"

lemma exec_access:
  assumes "pc < 113"
  shows "probe_exec s at pmp (Lbu d a) pc r m =
      Probe (pc + 1) (if pmp_allows pmp Read (r a) then r(d := ucast (m (r a))) else r(31 := 1)) m"
    "probe_exec s at pmp (Sb v a) pc r m =
      Probe (pc + 1) (if pmp_allows pmp Write (r a) then r else r(31 := 1))
        (if pmp_allows pmp Write (r a) then m(r a := ucast (r v)) else m)"
    "probe_exec s at pmp (Lw d a) pc r m =
      Probe (pc + 1) (if pmp_allows pmp Read (r a) then r(d := load_word m (r a)) else r(31 := 1)) m"
    "probe_exec s at pmp (Sw v a off) pc r m =
      Probe (pc + 1) (if pmp_allows pmp Write (r a + off) then r else r(31 := 1))
        (if pmp_allows pmp Write (r a + off) then store_word (r a + off) (r v) m else m)"
  using assms audit_trap_denied by (simp_all add: probe_exec_def Let_def)

lemma exec_plain:
  "probe_exec s at pmp (Li d v) pc r m = Probe (pc + 1) (r(d := v)) m"
  "probe_exec s at pmp (Mv d a) pc r m = Probe (pc + 1) (r(d := r a)) m"
  "probe_exec s at pmp (Slli d a k) pc r m = Probe (pc + 1) (r(d := push_bit k (r a))) m"
  "probe_exec s at pmp (Addi d a v) pc r m = Probe (pc + 1) (r(d := r a + v)) m"
  "probe_exec s at pmp (Add d a b) pc r m = Probe (pc + 1) (r(d := r a + r b)) m"
  "probe_exec s at pmp (Sub d a b) pc r m = Probe (pc + 1) (r(d := r a - r b)) m"
  "probe_exec s at pmp (Sltu d a b) pc r m = Probe (pc + 1) (r(d := (if r a < r b then 1 else 0))) m"
  "probe_exec s at pmp (Or d a b) pc r m = Probe (pc + 1) (r(d := r a OR r b)) m"
  "probe_exec s at pmp (Xori d a v) pc r m = Probe (pc + 1) (r(d := r a XOR v)) m"
  "probe_exec s at pmp (Andi d a v) pc r m = Probe (pc + 1) (r(d := r a AND v)) m"
  "probe_exec s at pmp (J k) pc r m = Probe k r m"
  "probe_exec s at pmp (Bne a b k) pc r m = Probe (if r a \<noteq> r b then k else pc + 1) r m"
  "probe_exec s at pmp (Beq a b k) pc r m = Probe (if r a = r b then k else pc + 1) r m"
  "probe_exec s at pmp (Bltu a b k) pc r m = Probe (if r a < r b then k else pc + 1) r m"
  "probe_exec s at pmp (Bnez a k) pc r m = Probe (if r a \<noteq> 0 then k else pc + 1) r m"
  "probe_exec s at pmp (Beqz a k) pc r m = Probe (if r a = 0 then k else pc + 1) r m"
  by (simp_all add: probe_exec_def)

lemma probe_fetch: "pc < 113 \<Longrightarrow> probe_step s at pmp (Probe pc r m) = probe_exec s at pmp (probe ! pc) pc r m"
  by (simp add: length_probe)

lemmas probe_go = probe_run_numeral probe_fetch exec_plain exec_access

definition keeps :: "(nat \<Rightarrow> u32) \<Rightarrow> (nat \<Rightarrow> u32) \<Rightarrow> bool" where
  "keeps r r' \<longleftrightarrow> (\<forall>k \<in> {8, 9, 10, 11, 12, 13, 15, 20, 22, 23, 24, 25, 26}. r' k = r k)"

lemma keeps_trans: "keeps r r' \<Longrightarrow> keeps r' r'' \<Longrightarrow> keeps r r''"
  by (simp add: keeps_def)

lemma windows_keeps: "windows pmp r \<Longrightarrow> keeps r r' \<Longrightarrow> windows pmp r'"
  by (simp add: windows_def keeps_def)

text \<open>The two checks of a page, and those of an edge, find what the windows say: no mismatch is counted.\<close>

lemma page_load:
  assumes w: "windows pmp r"
  shows "\<exists>r'. probe_run 12 s at pmp (Probe 7 r m) = Probe 23 r' m \<and> r' 5 = push_bit 12 (r 22) \<and> keeps r r'"
proof -
  let ?x = "push_bit 12 (r 22)"
  have al: "pmp_allows pmp Read ?x \<longleftrightarrow> ?x - r 10 < r 11 \<or> ?x - r 12 < r 13" using w by (simp add: windows_def)
  then show ?thesis
    by (cases "?x - r 10 < r 11"; cases "?x - r 12 < r 13") (simp_all add: probe_go probe_def keeps_def del: probe_step.simps)
qed

lemma page_store:
  assumes w: "windows pmp r" and nofetch: "r 15 = 0"
  shows "\<exists>r' m'. probe_run 9 s at pmp (Probe 23 r m) = Probe 48 r' m' \<and> keeps r r'"
proof -
  have al: "pmp_allows pmp Write (r 5) \<longleftrightarrow> r 5 - r 10 < r 11" using w by (simp add: windows_def)
  then show ?thesis
    using nofetch by (cases "r 5 - r 10 < r 11") (simp_all add: probe_go probe_def keeps_def del: probe_step.simps)
qed

lemma edge_load:
  assumes w: "windows pmp r"
  shows "\<exists>n r'. probe_run n s at pmp (Probe 70 r m) = Probe 85 r' m \<and> r' 6 = r 9 AND 1 \<and> keeps r r'"
proof -
  obtain r1 where r1: "probe_run 4 s at pmp (Probe 70 r m) = Probe 74 r1 m" "r1 6 = r 9 AND 1" "keeps r r1"
    by (cases "pmp_allows pmp Read (r 23 + push_bit 2 (r 9))")
      (simp_all add: probe_go probe_def keeps_def del: probe_step.simps)
  have "pmp_allows pmp Read (r1 5) \<longleftrightarrow> r1 5 - r1 10 < r1 11 \<or> r1 5 - r1 12 < r1 13"
    using windows_keeps [OF w r1(3)] by (simp add: windows_def)
  then have "\<exists>r'. probe_run 10 s at pmp (Probe 74 r1 m) = Probe 85 r' m \<and> r' 6 = r1 6 \<and> keeps r1 r'"
    by (cases "r1 5 - r1 10 < r1 11"; cases "r1 5 - r1 12 < r1 13")
      (simp_all add: probe_go probe_def keeps_def del: probe_step.simps)
  then obtain r2 where "probe_run 10 s at pmp (Probe 74 r1 m) = Probe 85 r2 m" "r2 6 = r1 6" "keeps r1 r2" by blast
  with r1 keeps_trans probe_run_add [of 4 10 s at pmp "Probe 70 r m"] show ?thesis
    by (intro exI [of _ "4 + 10"] exI [of _ r2]) auto
qed

lemma edge_store:
  assumes w: "windows pmp r" and nofetch: "r 15 = 0"
  shows "\<exists>n r' m'. probe_run n s at pmp (Probe 85 r m) = Probe 103 r' m' \<and> keeps r r'"
proof (cases "r 6 = 0")
  case True
  then have "probe_run 1 s at pmp (Probe 85 r m) = Probe 103 r m"
    by (simp add: probe_go probe_def del: probe_step.simps)
  moreover have "keeps r r" by (simp add: keeps_def)
  ultimately show ?thesis by blast
next
  case False
  have al: "pmp_allows pmp Write (r 5) \<longleftrightarrow> r 5 - r 10 < r 11" using w by (simp add: windows_def)
  have "\<exists>r' m'. probe_run 9 s at pmp (Probe 85 r m) = Probe 103 r' m' \<and> keeps r r'"
    using nofetch False al
    by (cases "r 5 - r 10 < r 11") (simp_all add: probe_go probe_def keeps_def del: probe_step.simps)
  then show ?thesis by blast
qed

text \<open>The two loops.\<close>

lemma edge_turn:
  assumes "windows pmp r" "r 15 = 0" "unat (r 9) < 8"
  shows "\<exists>n r' m'. probe_run n s at pmp (Probe 70 r m) = Probe (if unat (r 9) < 7 then 70 else 106) r' m' \<and>
    r' 9 = r 9 + 1 \<and> (\<forall>k \<in> {8, 10, 11, 12, 13, 15, 24, 25, 26}. r' k = r k)"
proof -
  from edge_load [OF assms(1)] obtain n1 r1 where
    1: "probe_run n1 s at pmp (Probe 70 r m) = Probe 85 r1 m" "keeps r r1" by blast
  have "r1 15 = 0" using 1(2) assms(2) by (simp add: keeps_def)
  from edge_store [OF windows_keeps [OF assms(1) 1(2)] this] obtain n2 r2 m2 where
    2: "probe_run n2 s at pmp (Probe 85 r1 m) = Probe 103 r2 m2" "keeps r1 r2" by blast
  have k: "keeps r r2" using 1(2) 2(2) by (rule keeps_trans)
  have "r 9 + 1 < 8 \<longleftrightarrow> unat (r 9) < 7" using assms(3) by (simp add: word_less_nat_alt unat_word_ariths)
  moreover have "r2 9 = r 9" using k by (simp add: keeps_def)
  ultimately have "\<exists>r'. probe_run 3 s at pmp (Probe 103 r2 m2) = Probe (if unat (r 9) < 7 then 70 else 106) r' m2 \<and>
    r' 9 = r 9 + 1 \<and> (\<forall>k \<in> {8, 10, 11, 12, 13, 15, 24, 25, 26}. r' k = r2 k)"
    by (simp add: probe_go probe_def del: probe_step.simps)
  then obtain r' where 3: "probe_run 3 s at pmp (Probe 103 r2 m2) = Probe (if unat (r 9) < 7 then 70 else 106) r' m2"
    "r' 9 = r 9 + 1" "\<forall>k \<in> {8, 10, 11, 12, 13, 15, 24, 25, 26}. r' k = r2 k" by blast
  have "probe_run (n1 + n2 + 3) s at pmp (Probe 70 r m) = Probe (if unat (r 9) < 7 then 70 else 106) r' m2"
    by (simp only: probe_run_add 1 2 3)
  moreover have "\<forall>k \<in> {8, 10, 11, 12, 13, 15, 24, 25, 26}. r' k = r k" using 3(3) k by (simp add: keeps_def)
  ultimately show ?thesis using 3(2) by blast
qed

lemma edge_loop:
  assumes "windows pmp r" "r 15 = 0" "unat (r 9) < 8"
  shows "\<exists>n r' m'. probe_run n s at pmp (Probe 70 r m) = Probe 106 r' m' \<and> (\<forall>k \<in> {8, 24, 25, 26}. r' k = r k)"
  using assms
proof (induction "7 - unat (r 9)" arbitrary: r m)
  case (0 r m)
  from edge_turn [OF 0(2-4)] 0(1) show ?case by fastforce
next
  case (Suc k r m)
  have more: "unat (r 9) < 7" using Suc(2) by linarith
  from edge_turn [OF Suc(3-5), unfolded if_P [OF more]] obtain n1 r1 m1 where
    1: "probe_run n1 s at pmp (Probe 70 r m) = Probe 70 r1 m1" "r1 9 = r 9 + 1"
      "\<forall>k \<in> {8, 10, 11, 12, 13, 15, 24, 25, 26}. r1 k = r k" by blast
  have n: "unat (r1 9) = unat (r 9) + 1" using 1(2) Suc(5) by (simp add: unat_word_ariths)
  have "windows pmp r1" "r1 15 = 0" using Suc(3,4) 1(3) by (simp_all add: windows_def)
  moreover have "k = 7 - unat (r1 9)" "unat (r1 9) < 8" using n Suc(2) by linarith+
  ultimately obtain n2 r2 m2 where 2: "probe_run n2 s at pmp (Probe 70 r1 m1) = Probe 106 r2 m2"
    "\<forall>k \<in> {8, 24, 25, 26}. r2 k = r1 k" using Suc(1) by blast
  have "probe_run (n1 + n2) s at pmp (Probe 70 r m) = Probe 106 r2 m2" by (simp only: probe_run_add 1 2)
  moreover have "\<forall>k \<in> {8, 24, 25, 26}. r2 k = r k" using 1(3) 2(2) by simp
  ultimately show ?case by blast
qed

lemma page_turn:
  assumes w: "windows pmp r" and "r 15 = 0"
  shows "\<exists>n r' m'. probe_run n s at pmp (Probe 7 r m) = Probe (if r 22 + 1 < r 20 then 7 else 51) r' m' \<and>
    r' 22 = r 22 + 1 \<and> r' 24 = r 24 + 1 \<and> (\<forall>k \<in> {8, 10, 11, 12, 13, 15, 20, 25, 26}. r' k = r k)"
proof -
  from page_load [OF w] obtain r1 where
    1: "probe_run 12 s at pmp (Probe 7 r m) = Probe 23 r1 m" "keeps r r1" by blast
  have "r1 15 = 0" using 1(2) assms(2) by (simp add: keeps_def)
  from page_store [OF windows_keeps [OF w 1(2)] this] obtain r2 m2 where
    2: "probe_run 9 s at pmp (Probe 23 r1 m) = Probe 48 r2 m2" "keeps r1 r2" by blast
  have k: "keeps r r2" using 1(2) 2(2) by (rule keeps_trans)
  then have "r2 22 = r 22" "r2 20 = r 20" "r2 24 = r 24" by (simp_all add: keeps_def)
  then have "\<exists>r'. probe_run 3 s at pmp (Probe 48 r2 m2) = Probe (if r 22 + 1 < r 20 then 7 else 51) r' m2 \<and>
    r' 22 = r 22 + 1 \<and> r' 24 = r 24 + 1 \<and> (\<forall>k \<in> {8, 10, 11, 12, 13, 15, 20, 25, 26}. r' k = r2 k)"
    by (simp add: probe_go probe_def del: probe_step.simps)
  then obtain r' where 3: "probe_run 3 s at pmp (Probe 48 r2 m2) = Probe (if r 22 + 1 < r 20 then 7 else 51) r' m2"
    "r' 22 = r 22 + 1" "r' 24 = r 24 + 1" "\<forall>k \<in> {8, 10, 11, 12, 13, 15, 20, 25, 26}. r' k = r2 k" by blast
  have "probe_run (12 + 9 + 3) s at pmp (Probe 7 r m) = Probe (if r 22 + 1 < r 20 then 7 else 51) r' m2"
    by (simp only: probe_run_add 1 2 3)
  moreover have "\<forall>k \<in> {8, 10, 11, 12, 13, 15, 20, 25, 26}. r' k = r k" using 3(4) k by (simp add: keeps_def)
  ultimately show ?thesis using 3(2,3) by blast
qed

lemma page_loop:
  assumes "windows pmp r" "r 15 = 0" "r 22 < r 20"
  shows "\<exists>n r' m'. probe_run n s at pmp (Probe 7 r m) = Probe 51 r' m' \<and> r' 24 = r 24 + (r 20 - r 22) \<and>
    (\<forall>k \<in> {8, 10, 11, 12, 13, 15, 25, 26}. r' k = r k)"
  using assms
proof (induction "unat (r 20) - unat (r 22)" arbitrary: r m rule: less_induct)
  case (less r m)
  from page_turn [OF less(2,3)] obtain n1 r1 m1 where
    1: "probe_run n1 s at pmp (Probe 7 r m) = Probe (if r 22 + 1 < r 20 then 7 else 51) r1 m1"
      "r1 22 = r 22 + 1" "r1 24 = r 24 + 1" "\<forall>k \<in> {8, 10, 11, 12, 13, 15, 20, 25, 26}. r1 k = r k" by blast
  have u: "unat (r 22 + 1) = unat (r 22) + 1" 
  proof -
    have "unat (r 20) < 2 ^ 32" using unsigned_less [of "r 20"] by simp
    then show ?thesis using less(4) by (simp add: word_less_nat_alt unat_word_ariths)
  qed
  show ?case
  proof (cases "r 22 + 1 < r 20")
    case False
    then have "unat (r 22) + 1 = unat (r 20)" using less(4) u by (simp add: word_less_nat_alt)
    then have "r 20 = r 22 + 1" by (simp only: word_unat_eq_iff u)
    then have "r 20 - r 22 = 1" by simp
    moreover have "probe_run n1 s at pmp (Probe 7 r m) = Probe 51 r1 m1" using 1(1) False by simp
    moreover have "\<forall>k \<in> {8, 10, 11, 12, 13, 15, 25, 26}. r1 k = r k" using 1(4) by simp
    ultimately show ?thesis using 1(3) by auto
  next
    case True
    have "windows pmp r1" "r1 15 = 0" "r1 22 < r1 20" using less(2,3) 1 True by (simp_all add: windows_def)
    moreover have "unat (r1 20) - unat (r1 22) < unat (r 20) - unat (r 22)"
      using 1 u less(4) by (simp add: word_less_nat_alt)
    ultimately obtain n2 r2 m2 where 2: "probe_run n2 s at pmp (Probe 7 r1 m1) = Probe 51 r2 m2"
      "r2 24 = r1 24 + (r1 20 - r1 22)" "\<forall>k \<in> {8, 10, 11, 12, 13, 15, 25, 26}. r2 k = r1 k"
      using less(1) by blast
    have "probe_run (n1 + n2) s at pmp (Probe 7 r m) = Probe 51 r2 m2" using 1(1) 2(1) True by (simp add: probe_run_add)
    moreover have "r2 24 = r 24 + (r 20 - r 22)" using 1 2(2) by simp
    moreover have "\<forall>k \<in> {8, 10, 11, 12, 13, 15, 25, 26}. r2 k = r k" using 1(4) 2(3) by simp
    ultimately show ?thesis by blast
  qed
qed

lemma edge_table_step:
  assumes "pc \<in> {51, 52, 53, 54, 55, 56, 57, 58, 59, 60, 61, 62, 63, 64, 65, 66, 67, 68}"
  shows "\<exists>r' m'. probe_step s at pmp (Probe pc r m) = Probe (pc + 1) r' m' \<and>
    (\<forall>k \<in> {8, 10, 11, 12, 13, 15, 24, 25, 26}. r' k = r k)"
  using assms by (elim insertE emptyE; simp add: probe_fetch exec_plain exec_access probe_def del: probe_step.simps)

lemma edge_table_steps:
  "pc + n = 69 \<Longrightarrow> 51 \<le> pc \<Longrightarrow> \<exists>r' m'. probe_run n s at pmp (Probe pc r m) = Probe 69 r' m' \<and>
    (\<forall>k \<in> {8, 10, 11, 12, 13, 15, 24, 25, 26}. r' k = r k)"
proof (induction n arbitrary: pc r m)
  case 0
  then show ?case by simp
next
  case (Suc n)
  have "pc \<in> {51, 52, 53, 54, 55, 56, 57, 58, 59, 60, 61, 62, 63, 64, 65, 66, 67, 68}"
    using Suc.prems by simp presburger
  from edge_table_step [OF this, of s at pmp r m] obtain r1 m1 where
    1: "probe_step s at pmp (Probe pc r m) = Probe (pc + 1) r1 m1"
      "\<forall>k \<in> {8, 10, 11, 12, 13, 15, 24, 25, 26}. r1 k = r k" by blast
  have "pc + 1 + n = 69" "51 \<le> pc + 1" using Suc.prems by simp_all
  from Suc.IH [OF this, of r1 m1] obtain r2 m2 where
    2: "probe_run n s at pmp (Probe (pc + 1) r1 m1) = Probe 69 r2 m2"
      "\<forall>k \<in> {8, 10, 11, 12, 13, 15, 24, 25, 26}. r2 k = r1 k" by blast
  have "probe_run (Suc n) s at pmp (Probe pc r m) = Probe 69 r2 m2" by (simp only: probe_run.simps 1 2)
  then show ?case using 1(2) 2(2) by simp
qed

lemma edge_table:
  "\<exists>r' m'. probe_run 19 s at pmp (Probe 51 r m) = Probe 70 r' m' \<and> r' 9 = 0 \<and>
    (\<forall>k \<in> {8, 10, 11, 12, 13, 15, 24, 25, 26}. r' k = r k)"
proof -
  have "\<exists>r' m'. probe_run 18 s at pmp (Probe 51 r m) = Probe 69 r' m' \<and>
      (\<forall>k \<in> {8, 10, 11, 12, 13, 15, 24, 25, 26}. r' k = r k)"
    using edge_table_steps [of 51 18 s at pmp r m] by simp
  then obtain r1 m1 where
    1: "probe_run 18 s at pmp (Probe 51 r m) = Probe 69 r1 m1"
      "\<forall>k \<in> {8, 10, 11, 12, 13, 15, 24, 25, 26}. r1 k = r k" by blast
  have "probe_run (18 + 1) s at pmp (Probe 51 r m) = Probe 70 (r1(9 := 0)) m1"
    by (simp only: probe_run_add 1) (simp add: probe_fetch exec_plain exec_access probe_def del: probe_step.simps)
  then show ?thesis using 1(2) by simp
qed

text \<open>From the word after the bootstrap to the report: every page is visited and no mismatch is counted.\<close>

lemma probe_reports:
  assumes w: "windows pmp r" and z: "r 14 = 0" "r 24 = 0"
  shows "\<exists>n m'. probe_run n s at pmp (Probe 1 r m) = Reported \<lparr>r_mism = 0, r_pages = E36_PAGES, r_page = 0, r_kind = 0\<rparr> m'"
proof -
  obtain r1 where 1: "probe_run 6 s at pmp (Probe 1 r m) = Probe 7 r1 m" "r1 8 = 0" "r1 25 = 0" "r1 26 = 0"
    "r1 20 = E36_PEND" "r1 22 = E36_PSTART" "r1 15 = 0" "r1 24 = 0" "\<forall>k \<in> {10, 11, 12, 13}. r1 k = r k"
    using z by (simp add: probe_go probe_def del: probe_step.simps)
  have w1: "windows pmp r1" using w 1(9) by (simp add: windows_def)
  have "r1 22 < r1 20" using 1 by (simp add: E36_PSTART_def E36_PEND_def)
  from page_loop [OF w1 1(7) this] obtain n2 r2 m2 where
    2: "probe_run n2 s at pmp (Probe 7 r1 m) = Probe 51 r2 m2" "r2 24 = r1 24 + (r1 20 - r1 22)"
      "\<forall>k \<in> {8, 10, 11, 12, 13, 15, 25, 26}. r2 k = r1 k" by blast
  from edge_table obtain r3 m3 where
    3: "probe_run 19 s at pmp (Probe 51 r2 m2) = Probe 70 r3 m3" "r3 9 = 0"
      "\<forall>k \<in> {8, 10, 11, 12, 13, 15, 24, 25, 26}. r3 k = r2 k" by blast
  have w3: "windows pmp r3" using w1 2(3) 3(3) by (simp add: windows_def)
  have "r3 15 = 0" "unat (r3 9) < 8" using 1(7) 2(3) 3(2,3) by simp_all
  from edge_loop [OF w3 this] obtain n4 r4 m4 where
    4: "probe_run n4 s at pmp (Probe 70 r3 m3) = Probe 106 r4 m4" "\<forall>k \<in> {8, 24, 25, 26}. r4 k = r3 k" by blast
  have v: "r4 8 = 0" "r4 24 = E36_PAGES" "r4 25 = 0" "r4 26 = 0"
    using 1 2(2,3) 3(3) 4(2) by (simp_all add: E36_PAGES_def)
  have "probe_run 6 s at pmp (Probe 106 r4 m4) = Reported \<lparr>r_mism = 0, r_pages = E36_PAGES, r_page = 0, r_kind = 0\<rparr> m4"
    using v by (simp add: probe_go probe_def probe_exec_def audit_trap_def audit_dispatch_def audit_frame
        F_A0_def F_A1_def F_A2_def F_A3_def F_A4_def del: probe_step.simps)
  then have "probe_run (6 + n2 + 19 + n4 + 6) s at pmp (Probe 1 r m) =
      Reported \<lparr>r_mism = 0, r_pages = E36_PAGES, r_page = 0, r_kind = 0\<rparr> m4"
    by (simp only: probe_run_add 1 2 3 4)
  then show ?thesis by blast
qed

subsection \<open>The encoding check\<close>

function napot_tail :: "u32 \<Rightarrow> nat \<Rightarrow> nat" where
  "napot_tail enc k = (if k < 30 \<and> drop_bit k enc AND 1 \<noteq> 0 then napot_tail enc (k + 1) else k)"
  by auto
termination by (relation "measure (\<lambda>(enc, k). 30 - k)") auto

declare napot_tail.simps [simp del]

definition napot_decode :: "u32 \<Rightarrow> (u32 \<times> u32) option" where
  "napot_decode enc =
     (if enc = 0xFFFFFFFF then Some (0, 0)
      else if enc = 0 then None
      else
        (let k = napot_tail enc 0 in
         if k = 0 then Some (push_bit 2 enc, 4)
         else if k > 19 then None
         else if drop_bit k enc AND 1 \<noteq> 0 then None
         else Some (push_bit 2 (enc AND NOT (push_bit (k + 1) 1 - 1)), push_bit (k + 3) 1)))"

definition lemma_windows :: "target \<Rightarrow> u32" where
  "lemma_windows t =
     fold (\<lambda>c bad.
       (let s = cfgs t ! c;
            bad = (if napot_decode (NAPOT (text_base s) (text_size s)) \<noteq> Some (text_base s, text_size s)
                   then bad OR push_bit (c * 2) 1 else bad)
        in if napot_decode (NAPOT (sram_base s) (sram_size s)) \<noteq> Some (sram_base s, sram_size s)
           then bad OR push_bit (c * 2 + 1) 1 else bad))
       (cfg_list t) 0"

definition audit_lemma :: "target \<Rightarrow> u32" where
  "audit_lemma t =
     (let bad = lemma_windows t;
          bad = fold (\<lambda>n bad. if napot_decode (NAPOT 0x80000000 (push_bit n 1)) \<noteq> Some (0x80000000, push_bit n 1)
                              then bad OR 0x10000 else bad) [10..<21] bad
      in if napot_decode PMP_DENY \<noteq> Some (0, 0) then bad OR 0x20000 else bad)"

subsection \<open>Stages\<close>

text \<open>
  A stage fills the text window with \<^verbatim>\<open>ebreak\<close>, copies the probe (whose machine words are \<open>code\<close>) to its end, and
  enters it as compartment 2.
\<close>

definition probe_at :: "ic_compartment_spec \<Rightarrow> u32" where
  "probe_at s = text_base s + text_size s - probe_len"

definition stage_text :: "ic_compartment_spec \<Rightarrow> (u32 \<Rightarrow> u8) \<Rightarrow> (u32 \<Rightarrow> u8) \<Rightarrow> u32 \<Rightarrow> u8" where
  "stage_text s code m x =
     (if x - text_base s < text_size s - probe_len then ucast (drop_bit (8 * unat ((x - text_base s) AND 3)) EBREAK)
      else if x - probe_at s < probe_len then code (x - probe_at s)
      else m x)"

definition stage_setup :: "ic_compartment_spec \<Rightarrow> (nat \<Rightarrow> u32) \<Rightarrow> u32 \<Rightarrow> comp_state \<Rightarrow> enter_result" where
  "stage_setup s regs ms tab =
     (let tab = compartment_set 2 s (probe_at s - text_base s) tab;
          tab = compartment_arm 2 tab
      in compartment_enter 2 regs ms tab)"

definition stage_run :: "nat \<Rightarrow> ic_compartment_spec \<Rightarrow> (u32 \<Rightarrow> u8) \<Rightarrow> (nat \<Rightarrow> u32) \<Rightarrow> u32 \<Rightarrow> comp_state \<Rightarrow> (u32 \<Rightarrow> u8)
    \<Rightarrow> (audit_res \<times> comp_state \<times> (u32 \<Rightarrow> u8)) option" where
  "stage_run n s code regs ms tab m =
     (case stage_setup s regs ms tab of
        Enters cpu tab \<Rightarrow>
          (case probe_run n s (probe_at s) (csrs tab)
                  (Probe (unat (cpu_pc cpu - probe_at s) div 4) (cpu_regs cpu) (stage_text s code m)) of
             Reported oc m \<Rightarrow> Some (oc, tab, m)
           | _ \<Rightarrow> None)
      | _ \<Rightarrow> None)"

fun audit_next :: "nat \<Rightarrow> (u32 \<Rightarrow> u8) \<Rightarrow> (nat \<Rightarrow> u32) \<Rightarrow> u32 \<Rightarrow> ic_compartment_spec list \<Rightarrow> comp_state \<Rightarrow> (u32 \<Rightarrow> u8)
    \<Rightarrow> audit_res list option" where
  "audit_next n code regs ms [] tab m = Some []"
| "audit_next n code regs ms (s # ss) tab m =
     (case stage_run n s code regs ms tab m of
        None \<Rightarrow> None
      | Some (oc, tab, m) \<Rightarrow> map_option ((#) oc) (audit_next n code regs ms ss tab m))"

definition finish :: "u32 \<Rightarrow> audit_res list \<Rightarrow> u32" where
  "finish lemma_bad res =
     fold (\<lambda>c bad. if r_mism (res ! c) \<noteq> 0 \<or> r_pages (res ! c) \<noteq> E36_PAGES then bad OR push_bit c 1 else bad)
       [0..<length res] lemma_bad"

text \<open>The board leaves the outcome in memory; the emulator exits with the code.\<close>

definition audit_words :: "u32 \<Rightarrow> audit_res list \<Rightarrow> u32 \<Rightarrow> u32 \<Rightarrow> u32 list" where
  "audit_words lemma_bad res pmpcfg0 cfgw =
     [0xE36D0001, lemma_bad] @ concat (map (\<lambda>r. [r_mism r, r_pages r, r_page r, r_kind r]) res) @ [pmpcfg0, cfgw]"

definition audit_boot :: "nat \<Rightarrow> target \<Rightarrow> (u32 \<Rightarrow> u8) \<Rightarrow> (nat \<Rightarrow> u32) \<Rightarrow> u32 \<Rightarrow> comp_state \<Rightarrow> (u32 \<Rightarrow> u8)
    \<Rightarrow> (u32 \<times> audit_res list) option" where
  "audit_boot n t code regs ms tab m =
     (let lemma_bad = audit_lemma t in
      map_option (\<lambda>res. (finish lemma_bad res, res))
        (audit_next n code regs ms (map (\<lambda>c. cfgs t ! c) (cfg_list t)) tab m))"

subsection \<open>The audit passes\<close>

lemma in_region_sub:
  assumes "unat b + unat s \<le> 2 ^ 32"
  shows "in_region b s (x::u32) \<longleftrightarrow> x - b < s"
proof (cases "b \<le> x")
  case True
  then have "unat (x - b) = unat x - unat b" by (rule unat_sub)
  then show ?thesis using True by (auto simp: in_region_def word_less_nat_alt word_le_nat_alt)
next
  case False
  then have less: "unat x < unat b" by (simp add: word_le_nat_alt)
  then have "unat (x - b) = unat x + 2 ^ 32 - unat b" by (simp add: unat_sub_if')
  then have "unat s \<le> unat (x - b)" using assms less by simp
  then show ?thesis using False by (simp add: in_region_def word_less_nat_alt not_less)
qed

definition cfg_fine :: "ic_compartment_spec \<Rightarrow> bool" where
  "cfg_fine s \<longleftrightarrow>
     ic_compartment_check (Some s) = IC_OK \<and>
     unat (text_base s) mod unat (text_size s) = 0 \<and> unat (sram_base s) mod unat (sram_size s) = 0 \<and>
     unat (text_base s) + unat (text_size s) \<le> 2 ^ 32 \<and> unat (sram_base s) + unat (sram_size s) \<le> 2 ^ 32"

lemma length_cfgs: "length (cfgs t) = 4"
  by (simp add: cfgs_def)

lemma cfgs_fine: "s \<in> set (cfgs t) \<Longrightarrow> cfg_fine s"
  by (cases t) (auto simp: cfgs_def cfg_fine_def ic_compartment_check_def region_ok_def IC_MIN_REGION_def)

lemma and_one_bit: "drop_bit k (w::u32) AND 1 \<noteq> 0 \<longleftrightarrow> bit w k"
  by (simp add: bit_iff_odd_drop_bit and_one_eq odd_iff_mod_2_eq_one)

lemma napot_tail_ones:
  assumes "\<forall>j < n. bit enc j" "\<not> bit enc n" "n < 30"
  shows "k \<le> n \<Longrightarrow> napot_tail enc k = n"
proof (induction "n - k" arbitrary: k)
  case 0
  then have "k = n" by simp
  then show ?case using assms(2) by (simp add: napot_tail.simps [of _ n] and_one_bit)
next
  case (Suc d)
  then have "k < n" "bit enc k" using assms(1) by simp_all
  moreover have "napot_tail enc (k + 1) = n" using Suc \<open>k < n\<close> by (intro Suc(1)) simp_all
  ultimately show ?case using assms(3) by (simp add: napot_tail.simps [of _ k] and_one_bit)
qed

text \<open>The decoder inverts the encoder on aligned windows of 16 bytes to 4 MiB; a window of 8 bytes it takes for 4.\<close>

lemma napot_decoded:
  assumes n: "4 \<le> n" "n \<le> 22" and s: "unat s = 2 ^ n" and al: "unat b mod unat s = 0"
  shows "napot_decode (NAPOT b s) = Some (b, s)"
proof -
  have n3: "3 \<le> n" "n < 32" using n by simp_all
  have s2: "s = 2 ^ n" using s n3 by (simp add: word_unat_eq_iff unat_pow2)
  have "drop_bit 3 (2 ^ n :: u32) = 2 ^ (n - 3)" by (rule bit_word_eqI) (use n in \<open>auto simp: bit_simps\<close>)
  then have enc: "NAPOT b s = drop_bit 2 b OR mask (n - 3)" by (simp add: NAPOT_def s2 mask_eq_exp_minus_1)
  have low: "\<not> bit b k" if "k < n" for k
  proof -
    have "take_bit n (unat b) = 0" using al s by (simp add: take_bit_eq_mod)
    then have "\<not> bit (take_bit n (unat b)) k" by simp
    then show ?thesis using that n by (simp add: bit_take_bit_iff bit_unsigned_iff)
  qed
  have ones: "\<forall>j < n - 3. bit (NAPOT b s) j" using n by (auto simp: enc bit_simps)
  have "Suc (Suc (n - 3)) = n - 1" using n by simp
  then have zero: "\<not> bit (NAPOT b s) (n - 3)" using n low [of "n - 1"] by (simp add: enc bit_simps)
  have tail: "napot_tail (NAPOT b s) 0 = n - 3" using napot_tail_ones [OF ones zero, of 0] n by simp
  have "bit (- 1 :: u32) (n - 3)" using n by simp
  moreover have "(- 1 :: u32) = 0xFFFFFFFF" by code_simp
  ultimately have "NAPOT b s \<noteq> 0xFFFFFFFF" using zero by metis
  moreover have "NAPOT b s \<noteq> 0" using ones n by (auto dest: spec [of _ 0])
  moreover have "push_bit 2 (NAPOT b s AND NOT (push_bit (n - 3 + 1) 1 - 1)) = b"
  proof (rule bit_word_eqI)
    fix k assume "k < LENGTH(32)"
    have "n - 3 + 1 = n - 2" using n by simp
    then have m: "push_bit (n - 3 + 1) 1 - 1 = (mask (n - 2) :: u32)"
      by (simp only: mask_eq_exp_minus_1 push_bit_eq_mult) simp
    show "bit (push_bit 2 (NAPOT b s AND NOT (push_bit (n - 3 + 1) 1 - 1))) k = bit b k"
    proof (cases "k < 2")
      case True
      then show ?thesis using n low [of k] by (simp add: bit_simps)
    next
      case False
      then obtain j where j: "k = j + 2" by (metis add.commute le_Suc_ex not_less)
      moreover have "\<not> bit b (Suc (Suc j))" if "j < n - 2" using low [of "Suc (Suc j)"] that by linarith
      ultimately show ?thesis using n \<open>k < LENGTH(32)\<close> unfolding m by (auto simp: enc bit_simps)
    qed
  qed
  moreover have "push_bit (n - 3 + 3) 1 = s" using n by (simp add: s2 push_bit_eq_mult)
  ultimately show ?thesis using n tail zero by (simp add: napot_decode_def Let_def and_one_bit)
qed

lemma fold_skip: "\<forall>x \<in> set xs. f x a = a \<Longrightarrow> fold f xs a = a"
  by (induction xs) simp_all

lemma cfgs_decoded:
  assumes "s \<in> set (cfgs t)"
  shows "napot_decode (NAPOT (text_base s) (text_size s)) = Some (text_base s, text_size s)"
    "napot_decode (NAPOT (sram_base s) (sram_size s)) = Some (sram_base s, sram_size s)"
proof -
  have "unat (text_size s) = 2 ^ 13 \<and> unat (sram_size s) = 2 ^ 13 \<or> unat (text_size s) = 2 ^ 12 \<and> unat (sram_size s) = 2 ^ 12"
    using assms by (auto simp: cfgs_def)
  with cfgs_fine [OF assms] show "napot_decode (NAPOT (text_base s) (text_size s)) = Some (text_base s, text_size s)"
    "napot_decode (NAPOT (sram_base s) (sram_size s)) = Some (sram_base s, sram_size s)"
    using napot_decoded [of 12] napot_decoded [of 13] by (auto simp: cfg_fine_def)
qed

lemma audit_lemma_holds: "audit_lemma t = 0"
proof -
  have "c < 4" if "c \<in> set (cfg_list t)" for c using that by (cases t) auto
  then have "cfgs t ! c \<in> set (cfgs t)" if "c \<in> set (cfg_list t)" for c using that by (simp add: length_cfgs)
  then have w: "lemma_windows t = 0"
    unfolding lemma_windows_def by (intro fold_skip) (simp add: cfgs_decoded(1) [of _ t] cfgs_decoded(2) [of _ t] Let_def)
  have dec: "napot_decode (NAPOT 0x80000000 (push_bit n 1)) = Some (0x80000000, push_bit n 1)" if "n \<in> set [10..<21]" for n
  proof -
    have n: "4 \<le> n" "n \<le> 22" "n \<le> 31" using that by auto
    have "push_bit n 1 = (2 ^ n :: u32)" by (simp add: push_bit_eq_mult)
    moreover have "(2::nat) ^ n dvd 2 ^ 31" using n(3) by (rule le_imp_power_dvd)
    ultimately show ?thesis using n unat_pow2 [of n] by (intro napot_decoded [of n]) (simp_all add: dvd_eq_mod_eq_0)
  qed
  then have "fold (\<lambda>n bad. if napot_decode (NAPOT 0x80000000 (push_bit n 1)) \<noteq> Some (0x80000000, push_bit n 1)
      then bad OR 0x10000 else bad) [10..<21] 0 = (0::u32)"
    by (intro fold_skip) simp
  then show ?thesis by (simp add: audit_lemma_def w napot_decode_def PMP_DENY_def Let_def)
qed

text \<open>The bootstrap call hands the probe its windows.\<close>

lemma probe_boots:
  assumes z: "r 10 = 0" "r 14 = 0" "r 24 = 0" and fine: "\<forall>x. (pmp_allows pmp Read x \<longleftrightarrow> x - sram_base s < sram_size s \<or> x - text_base s < text_size s) \<and>
      (pmp_allows pmp Write x \<longleftrightarrow> x - sram_base s < sram_size s)"
  shows "\<exists>n m'. probe_run n s at pmp (Probe 0 r m) = Reported \<lparr>r_mism = 0, r_pages = E36_PAGES, r_page = 0, r_kind = 0\<rparr> m'"
proof -
  let ?f = "audit_save r at"
  let ?r = "audit_restore (?f(F_A0 := sram_base s, F_A1 := sram_size s, F_A2 := text_base s, F_A3 := text_size s)) r"
  have r: "?r 10 = sram_base s" "?r 11 = sram_size s" "?r 12 = text_base s" "?r 13 = text_size s" "?r 14 = 0" "?r 24 = 0"
    using z by (simp_all add: audit_restore_def audit_load_seq_def audit_save_def audit_save_seq_def
        F_A0_def F_A1_def F_A2_def F_A3_def)
  have "probe_step s at pmp (Probe 0 r m) = Probe 1 ?r m"
    using z by (simp add: probe_fetch probe_def probe_exec_def audit_trap_def audit_dispatch_def audit_frame
        F_A0_def F_MEPC_def del: probe_step.simps)
  moreover have "windows pmp ?r" using fine r by (simp add: windows_def)
  then obtain n m' where "probe_run n s at pmp (Probe 1 ?r m) = Reported \<lparr>r_mism = 0, r_pages = E36_PAGES, r_page = 0, r_kind = 0\<rparr> m'"
    using probe_reports r(5,6) by blast
  ultimately have "probe_run (Suc n) s at pmp (Probe 0 r m) = Reported \<lparr>r_mism = 0, r_pages = E36_PAGES, r_page = 0, r_kind = 0\<rparr> m'"
    by simp
  then show ?thesis by blast
qed

lemma probe_run_reported: "probe_run n s at pmp (Reported oc m) = Reported oc m"
  by (induction n) simp_all

lemma probe_run_more:
  "probe_run n s at pmp p = Reported oc m \<Longrightarrow> n \<le> n' \<Longrightarrow> probe_run n' s at pmp p = Reported oc m"
  by (metis le_Suc_ex probe_run_add probe_run_reported)

lemma armed_windows:
  assumes "cfg_fine s" "pmp_holds f s"
  shows "(pmp_allows f Read x \<longleftrightarrow> x - sram_base s < sram_size s \<or> x - text_base s < text_size s) \<and>
      (pmp_allows f Write x \<longleftrightarrow> x - sram_base s < sram_size s)"
proof -
  have c: "ic_compartment_check (Some s) = IC_OK" "unat (text_base s) mod unat (text_size s) = 0"
    "unat (sram_base s) mod unat (sram_size s) = 0" "unat (text_base s) + unat (text_size s) \<le> 2 ^ 32"
    "unat (sram_base s) + unat (sram_size s) \<le> 2 ^ 32" using assms(1) by (simp_all add: cfg_fine_def)
  note in_region_sub [OF c(4), of x] in_region_sub [OF c(5), of x]
  then show ?thesis using pmp_holds_allows [OF assms(2) c(1-3)] by simp
qed

lemma stage_enters:
  assumes wf: "comp_wf tab"
  shows "\<exists>cpu tab'. stage_setup s regs ms tab = Enters cpu tab' \<and> comp_wf tab' \<and> pmp_holds (csrs tab') s \<and>
    cpu_pc cpu = probe_at s \<and> (\<forall>k \<in> {1..<32}. cpu_regs cpu k = 0)"
proof -
  let ?t = "compartment_arm 2 (compartment_set 2 s (probe_at s - text_base s) tab)"
  have w1: "comp_wf (compartment_set 2 s (probe_at s - text_base s) tab)" using wf by (rule compartment_set_wf)
  then have w2: "comp_wf ?t" by (rule compartment_arm_wf)
  have len: "length (comps tab) = 4" using wf by (simp add: comp_wf_def)
  have "comps (compartment_set 2 s (probe_at s - text_base s) tab) ! 2 =
      \<lparr>c_spec = s, c_entry = probe_at s - text_base s, c_armed = 0, c_evicted = 0, c_tcb = replicate 32 0\<rparr>"
    using len by (simp add: compartment_set_def COMP_COUNT_def)
  then have e: "c_spec (comps ?t ! 2) = s" "c_entry (comps ?t ! 2) = probe_at s - text_base s"
    "c_evicted (comps ?t ! 2) = 0" "c_tcb (comps ?t ! 2) = replicate 32 0"
    using compartment_arm_table(2-5) [OF w1, of 2 2] by simp_all
  have "\<forall>k \<in> {1..<32}. restore_regs (replicate 32 0) regs k = 0"
    by (simp add: restore_regs_all)
  with compartment_enter_cases [OF w2, of 2 regs ms] e show ?thesis by (auto simp: stage_setup_def Let_def)
qed

definition all_pages :: audit_res where
  "all_pages = \<lparr>r_mism = 0, r_pages = E36_PAGES, r_page = 0, r_kind = 0\<rparr>"

lemma stage_passes:
  assumes wf: "comp_wf tab" and fine: "cfg_fine s"
  shows "\<exists>n tab' m'. comp_wf tab' \<and> (\<forall>n' \<ge> n. stage_run n' s code regs ms tab m = Some (all_pages, tab', m'))"
proof -
  obtain cpu tab' where e: "stage_setup s regs ms tab = Enters cpu tab'" "comp_wf tab'" "pmp_holds (csrs tab') s"
    "cpu_pc cpu = probe_at s" "\<forall>k \<in> {1..<32}. cpu_regs cpu k = 0"
    using stage_enters [OF wf, of s regs ms] by blast
  have "cpu_regs cpu 10 = 0" "cpu_regs cpu 14 = 0" "cpu_regs cpu 24 = 0" using e(5) by simp_all
  from probe_boots [OF this allI [OF armed_windows [OF fine e(3)]]] obtain n m' where
    "probe_run n s (probe_at s) (csrs tab') (Probe 0 (cpu_regs cpu) (stage_text s code m)) = Reported all_pages m'"
    unfolding all_pages_def by blast
  then have run: "probe_run n' s (probe_at s) (csrs tab') (Probe 0 (cpu_regs cpu) (stage_text s code m)) = Reported all_pages m'"
    if "n \<le> n'" for n' using that by (rule probe_run_more)
  have "unat (cpu_pc cpu - probe_at s) div 4 = 0" by (simp add: e(4))
  then have "stage_run n' s code regs ms tab m = Some (all_pages, tab', m')" if "n \<le> n'" for n'
    using run [OF that] by (simp only: stage_run_def e(1) enter_result.case pstate.case)
  with e(2) show ?thesis by blast
qed

lemma audit_next_passes:
  assumes "comp_wf tab" "\<forall>s \<in> set ss. cfg_fine s"
  shows "\<exists>n. \<forall>n' \<ge> n. audit_next n' code regs ms ss tab m = Some (replicate (length ss) all_pages)"
  using assms
proof (induction ss arbitrary: tab m)
  case Nil
  then show ?case by simp
next
  case (Cons s ss)
  from stage_passes [of tab s code regs ms m] Cons.prems obtain n1 tab1 m1 where
    1: "comp_wf tab1" "\<forall>n' \<ge> n1. stage_run n' s code regs ms tab m = Some (all_pages, tab1, m1)" by auto
  from Cons.IH [OF 1(1), of m1] Cons.prems obtain n2 where
    2: "\<forall>n' \<ge> n2. audit_next n' code regs ms ss tab1 m1 = Some (replicate (length ss) all_pages)" by auto
  have "audit_next n' code regs ms (s # ss) tab m = Some (replicate (length (s # ss)) all_pages)" if "max n1 n2 \<le> n'" for n'
    using that 1(2) 2 by simp
  then show ?case by blast
qed




definition native_armed :: "u32 \<Rightarrow> u32" where
  "native_armed x =
     (if x = 0x3a0 then arm_cfgw else if x = 0x3b0 then NAPOT 0x2000B000 0x1000
      else if x = 0x3b1 then NAPOT 0x2000A000 0x1000 else if x = 0x3b3 then PMP_DENY else 0)"


end
