(* ===== verification/Monitor.thy ===== *)
theory Monitor
  imports Soundness Policies Platform
begin

text \<open>
  The monitor compartment, \<^verbatim>\<open>modules/monitor.c\<close>.  Its SRAM box is a record with one field per slot
  of \<^verbatim>\<open>core/platform.h\<close>; \<open>monitor_main\<close> is one activation, from the entry to the \<^verbatim>\<open>ecall\<close>, in the
  mode the supervisor left in \<^verbatim>\<open>MON_MODE\<close>.
\<close>

subsection \<open>The box\<close>

definition MON_MODE :: nat where "MON_MODE = 0x20"
definition MON_OFF :: nat where "MON_OFF = 0x40"
definition MON_SIZES :: nat where "MON_SIZES = 0x60"
definition MON_INPUT :: nat where "MON_INPUT = 0x80"
definition MON_CONFN :: nat where "MON_CONFN = 0x180"
definition MON_SOFF :: nat where "MON_SOFF = 0x184"
definition MON_SSIZES :: nat where "MON_SSIZES = 0x290"
definition MON_VERDICTS :: nat where "MON_VERDICTS = 0x400"
definition MON_INSNS :: nat where "MON_INSNS = 0x430"
definition MON_SCREEN_VERD :: nat where "MON_SCREEN_VERD = 0x460"
definition MON_SCREEN_INSNS :: nat where "MON_SCREEN_INSNS = 0x560"
definition MON_NATIVE_VERD :: nat where "MON_NATIVE_VERD = 0x680"
definition DIAG_RUNS :: nat where "DIAG_RUNS = 0x700"
definition DIAG_ALRT :: nat where "DIAG_ALRT = 0x704"
definition MON_MAP :: nat where "MON_MAP = 0x800"
definition MON_DATA :: nat where "MON_DATA = 0xA00"
definition MON_PROG_CNT :: nat where "MON_PROG_CNT = 0x15FC"
definition MON_PROG :: nat where "MON_PROG = 0x1600"
definition MON_PROG_B :: nat where "MON_PROG_B = 0x1800"
definition MON_PROG_B_CNT :: nat where "MON_PROG_B_CNT = 0x1A00"
definition MON_PROG_FAULT :: nat where "MON_PROG_FAULT = 0x15F8"

lemmas mon_offsets = MON_MODE_def MON_OFF_def MON_SIZES_def MON_INPUT_def MON_CONFN_def MON_SOFF_def
  MON_SSIZES_def MON_VERDICTS_def MON_INSNS_def MON_SCREEN_VERD_def MON_SCREEN_INSNS_def
  MON_NATIVE_VERD_def DIAG_RUNS_def DIAG_ALRT_def MON_MAP_def MON_DATA_def MON_PROG_CNT_def
  MON_PROG_def MON_PROG_B_def MON_PROG_B_CNT_def MON_PROG_FAULT_def

text \<open>The slots with their sizes in bytes, as the monitor and the supervisor index them.\<close>

definition mon_slots :: "(nat \<times> nat) list" where
  "mon_slots =
     [(MON_MODE, 4), (MON_OFF, 6 * 4), (MON_SIZES, 6 * 4), (MON_INPUT, 256), (MON_CONFN, 4),
      (MON_SOFF, 64 * 4), (MON_SSIZES, 64 * 4), (MON_VERDICTS, 6 * 4), (MON_INSNS, 6 * 4),
      (MON_SCREEN_VERD, 64 * 4), (MON_SCREEN_INSNS, 64 * 4), (MON_NATIVE_VERD, 6 * 4),
      (DIAG_RUNS, 4), (DIAG_ALRT, 4), (MON_MAP, 64 * 4), (MON_DATA, 64 * 42),
      (MON_PROG_FAULT, 4), (MON_PROG_CNT, 4), (MON_PROG, 64 * 8), (MON_PROG_B, 64 * 8),
      (MON_PROG_B_CNT, 4)]"

record mon_box =
  mon_mode :: u32
  mon_off :: "u32 list"
  mon_sizes :: "u32 list"
  mon_input :: "u8 list"
  mon_confn :: u32
  mon_soff :: "u32 list"
  mon_ssizes :: "u32 list"
  mon_verdicts :: "u32 list"
  mon_insns :: "u32 list"
  mon_screen_verd :: "u32 list"
  mon_screen_insns :: "u32 list"
  mon_native_verd :: "u32 list"
  diag_runs :: u32
  diag_alrt :: u32
  mon_map :: "u32 list"
  mon_data :: "u8 list"
  mon_prog_fault :: u32
  mon_prog_cnt :: u32
  mon_prog :: "u64 list"
  mon_prog_b :: "u64 list"
  mon_prog_b_cnt :: u32

definition box_wf :: "mon_box \<Rightarrow> bool" where
  "box_wf b \<longleftrightarrow>
     length (mon_off b) = 6 \<and> length (mon_sizes b) = 6 \<and> length (mon_input b) = 256 \<and>
     length (mon_soff b) = 64 \<and> length (mon_ssizes b) = 64 \<and>
     length (mon_verdicts b) = 6 \<and> length (mon_insns b) = 6 \<and>
     length (mon_screen_verd b) = 64 \<and> length (mon_screen_insns b) = 64 \<and>
     length (mon_native_verd b) = 6 \<and> length (mon_map b) = 64 \<and> length (mon_data b) = 2688 \<and>
     length (mon_prog b) = 64 \<and> length (mon_prog_b b) = 64"

subsection \<open>The native filter\<close>

text \<open>The verdict on the packet at \<^verbatim>\<open>p\<close>; it reads up to 14 bytes.\<close>

definition native_verdict :: "u8 list \<Rightarrow> u32" where
  "native_verdict p =
     (if p ! 0 \<noteq> 0xFD then 0
      else
        (let msgid = (ucast (p ! 7) :: u32) OR push_bit 8 (ucast (p ! 8)) OR push_bit 16 (ucast (p ! 9));
             len = (ucast (p ! 1) :: u32)
         in if msgid \<noteq> 0 \<and> msgid \<noteq> 32 \<and> msgid \<noteq> 33 then 2
            else if len > 240 then 3
            else if msgid = 33 then
              (let lat = (ucast (p ! 10) :: u32) OR push_bit 8 (ucast (p ! 11))
                     OR push_bit 16 (ucast (p ! 12)) OR push_bit 24 (ucast (p ! 13))
               in if lat > 900000000 then 4 else 1)
            else 1))"

text \<open>\<open>None\<close>: a read past the input window.\<close>

fun native_loop :: "nat list \<Rightarrow> mon_box \<Rightarrow> mon_box option" where
  "native_loop [] b = Some b"
| "native_loop (i # is) b =
     (let p = drop (unat (mon_off b ! i)) (mon_input b) in
      if length p < 14 then None
      else native_loop is (b\<lparr>mon_native_verd := (mon_native_verd b)[i := native_verdict p]\<rparr>))"

definition native_filter :: "mon_box \<Rightarrow> mon_box option" where
  "native_filter b = native_loop [0..<6] b"

subsection \<open>The two eBPF modes\<close>

text \<open>The local \<^verbatim>\<open>prog\<close>; a context is an address, the bytes from there on, and the size claimed.\<close>

definition mon_run_prog :: "u64 list \<Rightarrow> u32 \<Rightarrow> u32 \<Rightarrow> u32 \<Rightarrow> u8 list \<Rightarrow> u32 \<Rightarrow> ebpf_prog" where
  "mon_run_prog ins cnt cells addr bytes sz =
     \<lparr>p_ins = ins, p_insn_cnt = cnt, p_ctx = ucast addr, p_ctx_bytes = bytes, p_ctx_size = sz,
      p_max_steps = 1000000, p_map_cells = cells\<rparr>"

definition screen_prog :: "target \<Rightarrow> mon_box \<Rightarrow> nat \<Rightarrow> ebpf_prog" where
  "screen_prog t b i =
     mon_run_prog POLICY_CONFLICT POLICY_CONFLICT_CNT MAP_CELLS
       (MON_BOX t + word_of_nat MON_DATA + mon_soff b ! i)
       (drop (unat (mon_soff b ! i)) (mon_data b)) (mon_ssizes b ! i)"

definition packet_prog :: "target \<Rightarrow> mon_box \<Rightarrow> nat \<Rightarrow> ebpf_prog" where
  "packet_prog t b i =
     mon_run_prog (if mon_prog_cnt b \<noteq> 0 then mon_prog b else POLICY_MAVLINK)
       (if mon_prog_cnt b \<noteq> 0 then mon_prog_cnt b else POLICY_MAVLINK_CNT) 0
       (MON_BOX t + word_of_nat MON_INPUT + mon_off b ! i)
       (drop (unat (mon_off b ! i)) (mon_input b)) (mon_sizes b ! i)"

text \<open>
  The result of an activation: \<open>None\<close> when it does not return, \<open>Inl\<close> an undefined behaviour,
  \<open>Inr\<close> the box at the \<^verbatim>\<open>ecall\<close>.
\<close>

type_synonym mon_result = "(ub + mon_box) option"

text \<open>The loop over the swarm: the loop variable's values, the alert count \<^verbatim>\<open>al\<close>, the box.\<close>

fun screen_loop :: "target \<Rightarrow> nat list \<Rightarrow> u32 \<Rightarrow> mon_box \<Rightarrow> (ub + (u32 \<times> mon_box)) option" where
  "screen_loop t [] al b = Some (Inr (al, b))"
| "screen_loop t (i # is) al b =
     (if 64 \<le> i then Some (Inl UB_MEMORY)
      else
        (case ebpf_run (screen_prog t b i) (Some (mon_map b)) of
           None \<Rightarrow> None
         | Some (Undef u) \<Rightarrow> Some (Inl u)
         | Some (Ret c r m) \<Rightarrow>
             screen_loop t is (if r_retval r = 5 then al + 1 else al)
               (b\<lparr>mon_map := the m,
                  mon_screen_verd := (mon_screen_verd b)[i := ucast (r_retval r)],
                  mon_screen_insns := (mon_screen_insns b)[i := r_insns r]\<rparr>)))"

fun packet_loop :: "target \<Rightarrow> nat list \<Rightarrow> u32 \<Rightarrow> mon_box \<Rightarrow> (ub + (u32 \<times> mon_box)) option" where
  "packet_loop t [] pf b = Some (Inr (pf, b))"
| "packet_loop t (i # is) pf b =
     (case ebpf_run (packet_prog t b i) None of
        None \<Rightarrow> None
      | Some (Undef u) \<Rightarrow> Some (Inl u)
      | Some (Ret c r m) \<Rightarrow>
          packet_loop t is (if r_fault r \<noteq> EBPF_OK then ucast (fault_code (r_fault r)) else pf)
            (b\<lparr>mon_verdicts := (mon_verdicts b)[i := ucast (r_retval r)],
               mon_insns := (mon_insns b)[i := r_insns r]\<rparr>))"

definition monitor_main :: "target \<Rightarrow> mon_box \<Rightarrow> mon_result" where
  "monitor_main t b =
     (if mon_mode b = 2 then
        (case native_filter b of None \<Rightarrow> Some (Inl UB_MEMORY) | Some b \<Rightarrow> Some (Inr b))
      else if mon_mode b = 1 then
        (case screen_loop t [0..<nat (sint (mon_confn b))] 0 (b\<lparr>mon_map := replicate 64 0\<rparr>) of
           None \<Rightarrow> None
         | Some (Inl u) \<Rightarrow> Some (Inl u)
         | Some (Inr (al, b)) \<Rightarrow> Some (Inr (b\<lparr>diag_runs := diag_runs b + 1, diag_alrt := al\<rparr>)))
      else
        (case packet_loop t [0..<6] 0 b of
           None \<Rightarrow> None
         | Some (Inl u) \<Rightarrow> Some (Inl u)
         | Some (Inr (pf, b)) \<Rightarrow> Some (Inr (b\<lparr>mon_prog_fault := pf\<rparr>))))"

end
