(* ===== verification/Frame.thy ===== *)
theory Frame
  imports Prelude
begin

text \<open>
  The console link: the frame machine of \<^verbatim>\<open>core/frame.c\<close> and the sending and polling routines of
  \<^verbatim>\<open>core/uart.c\<close> around it.  A payload buffer is a list; a write past its end is \<open>None\<close>.  What
  the hardware supplies is an argument: the bytes that arrive, and the readings of the timer and
  of the transmitter's ready flag, in the order in which the code takes them.
\<close>

subsection \<open>The receiver\<close>

record uart_frame_rx =
  rx_phase :: u32
  rx_type :: u32
  rx_len :: u32
  rx_idx :: u32
  rx_sum :: u32
  rx_tick :: u32

definition rx_init :: uart_frame_rx where
  "rx_init = \<lparr>rx_phase = 0, rx_type = 0, rx_len = 0, rx_idx = 0, rx_sum = 0, rx_tick = 0\<rparr>"

definition uart_frame_step ::
    "u8 \<Rightarrow> u8 list \<Rightarrow> u32 \<Rightarrow> uart_frame_rx \<Rightarrow> (u32 \<times> u8 list \<times> uart_frame_rx) option" where
  "uart_frame_step byte dst cap st =
     (if rx_phase st = 0 then Some (0, dst, st\<lparr>rx_phase := (if byte = 0x7E then 1 else 0)\<rparr>)
      else if rx_phase st = 1 then Some (0, dst, st\<lparr>rx_phase := (if byte = 0x7E then 2 else 0)\<rparr>)
      else if rx_phase st = 2 then
        Some (0, dst, st\<lparr>rx_type := ucast byte, rx_sum := ucast byte, rx_phase := 3\<rparr>)
      else if rx_phase st = 3 then
        Some (0, dst, st\<lparr>rx_sum := rx_sum st + ucast byte, rx_len := ucast byte, rx_phase := 4\<rparr>)
      else if rx_phase st = 4 then
        (let st = st\<lparr>rx_sum := rx_sum st + ucast byte,
                     rx_len := rx_len st OR push_bit 8 (ucast byte)\<rparr> in
         if rx_len st > cap then Some (0, dst, st\<lparr>rx_phase := 0\<rparr>)
         else Some (0, dst, st\<lparr>rx_idx := 0, rx_phase := (if rx_len st \<noteq> 0 then 5 else 6)\<rparr>))
      else if rx_phase st = 5 then
        (if unat (rx_idx st) < length dst then
           (let dst = dst[unat (rx_idx st) := byte];
                st = st\<lparr>rx_idx := rx_idx st + 1, rx_sum := rx_sum st + ucast byte\<rparr> in
            Some (0, dst, st\<lparr>rx_phase := (if rx_idx st = rx_len st then 6 else 5)\<rparr>))
         else None)
      else
        Some (if (rx_sum st + ucast byte) AND 0xFF = 0 then rx_len st else 0, dst,
              st\<lparr>rx_phase := 0\<rparr>))"

text \<open>The assembler and its buffer as one state, fed a byte at a time.\<close>

definition rx_step :: "u32 \<Rightarrow> u8 \<Rightarrow> u8 list \<times> uart_frame_rx \<Rightarrow> (u32 \<times> u8 list \<times> uart_frame_rx) option" where
  "rx_step cap b s = uart_frame_step b (fst s) cap (snd s)"

definition feed :: "u32 \<Rightarrow> u8 list \<Rightarrow> u8 list \<Rightarrow> uart_frame_rx \<Rightarrow>
    (u32 list \<times> u8 list \<times> uart_frame_rx) option" where
  "feed cap bs dst st = run_steps (rx_step cap) bs (dst, st)"

lemma feed_simps [simp]:
  "feed cap [] dst st = Some ([], dst, st)"
  "feed cap (b # bs) dst st =
     (case uart_frame_step b dst cap st of
        None \<Rightarrow> None
      | Some (n, dst, st) \<Rightarrow>
          (case feed cap bs dst st of
             None \<Rightarrow> None
           | Some (ns, dst, st) \<Rightarrow> Some (n # ns, dst, st)))"
  by (auto simp: feed_def rx_step_def split: option.splits prod.splits)

definition UART_FRAME_MAX :: u32 where "UART_FRAME_MAX = 520"
definition UART_FRAME_TIMEOUT :: u32 where "UART_FRAME_TIMEOUT = 200000"
definition UART_WINDOW :: u32 where "UART_WINDOW = 1000000"

text \<open>
  \<^verbatim>\<open>uart_poll_frame\<close>.  \<open>now\<close> is the tick read at entry; an arrival is a byte with the tick read
  when it was taken and the one read again if it completes a frame.  The end of the list is the
  receiver running empty.
\<close>

fun poll_loop :: "(u8 \<times> u32 \<times> u32) list \<Rightarrow> u8 list \<Rightarrow> u32 \<Rightarrow> uart_frame_rx \<Rightarrow>
    (u32 \<times> u8 list \<times> uart_frame_rx \<times> (u8 \<times> u32 \<times> u32) list) option" where
  "poll_loop [] dst cap st = Some (0, dst, st, [])"
| "poll_loop ((c, t1, t2) # rest) dst cap st =
     (case uart_frame_step c dst cap (st\<lparr>rx_tick := t1\<rparr>) of
        None \<Rightarrow> None
      | Some (n, dst, st) \<Rightarrow>
          if n \<noteq> 0 then Some (n, dst, st\<lparr>rx_tick := t2\<rparr>, rest)
          else poll_loop rest dst cap st)"

definition uart_poll_frame :: "u32 \<Rightarrow> (u8 \<times> u32 \<times> u32) list \<Rightarrow> u8 list \<Rightarrow> u32 \<Rightarrow> uart_frame_rx \<Rightarrow>
    (u32 \<times> u8 list \<times> uart_frame_rx \<times> (u8 \<times> u32 \<times> u32) list) option" where
  "uart_poll_frame now arrivals dst cap st =
     (let st = (if rx_phase st \<noteq> 0 \<and> now - rx_tick st > UART_FRAME_TIMEOUT
                then st\<lparr>rx_phase := 0, rx_idx := 0, rx_len := 0\<rparr> else st)
      in poll_loop arrivals dst cap st)"

text \<open>
  \<^verbatim>\<open>uart_recv\<close>: one poll per turn, a tick and what \<^verbatim>\<open>uart_getc\<close> returned.  \<open>RPending\<close>: the polls
  given do not decide the call.
\<close>

datatype recv_result = RDone u32 "u8 list" uart_frame_rx | RPending | RMemory

fun recv_loop :: "u32 \<Rightarrow> (u32 \<times> u8 option) list \<Rightarrow> u8 list \<Rightarrow> u32 \<Rightarrow> uart_frame_rx \<Rightarrow> recv_result" where
  "recv_loop t0 [] dst cap st = RPending"
| "recv_loop t0 ((now, c) # polls) dst cap st =
     (if now - t0 > UART_WINDOW then RDone 0 dst st
      else
        (case c of
           None \<Rightarrow> recv_loop t0 polls dst cap st
         | Some b \<Rightarrow>
             (case uart_frame_step b dst cap st of
                None \<Rightarrow> RMemory
              | Some (n, dst, st) \<Rightarrow>
                  if n \<noteq> 0 \<and> rx_type st = 1 then RDone (rx_len st) dst st
                  else recv_loop t0 polls dst cap st)))"

definition uart_recv :: "u32 \<Rightarrow> (u32 \<times> u8 option) list \<Rightarrow> u8 list \<Rightarrow> u32 \<Rightarrow> recv_result" where
  "uart_recv t0 polls dst cap = recv_loop t0 polls dst cap rx_init"

subsection \<open>The sender\<close>

definition frame_header :: "u8 \<Rightarrow> u32 \<Rightarrow> u8 list" where
  "frame_header ty len = [0x7E, 0x7E, ty, ucast (len AND 0xFF), ucast (drop_bit 8 len)]"

definition header_sum :: "u8 \<Rightarrow> u32 \<Rightarrow> u32" where
  "header_sum ty len = ucast ty + (len AND 0xFF) + drop_bit 8 len"

definition add_byte :: "u32 \<Rightarrow> u8 \<Rightarrow> u32" where
  "add_byte s b = s + ucast b"

definition checksum_byte :: "u32 \<Rightarrow> u8" where
  "checksum_byte s = ucast ((- s) AND 0xFF)"

text \<open>The bytes \<^verbatim>\<open>uart_send_frame\<close> hands to \<^verbatim>\<open>uart_putc\<close>.\<close>

definition uart_send_frame :: "u8 \<Rightarrow> u8 list \<Rightarrow> u32 \<Rightarrow> u8 list" where
  "uart_send_frame ty payload len =
     frame_header ty len @ take (unat len) payload
       @ [checksum_byte (foldl add_byte (header_sum ty len) (take (unat len) payload))]"

text \<open>
  The bounded variant.  A poll of the transmitter is its ready flag and the tick that is read when
  it is not ready.  \<open>None\<close>: the polls given do not decide the call.
\<close>

fun putc_bounded :: "u8 \<Rightarrow> u32 \<Rightarrow> u32 \<Rightarrow> (bool \<times> u32) list \<Rightarrow> u8 list \<Rightarrow>
    (bool \<times> (bool \<times> u32) list \<times> u8 list) option" where
  "putc_bounded c t0 budget [] out = None"
| "putc_bounded c t0 budget ((ready, now) # polls) out =
     (if ready then Some (True, polls, out @ [c])
      else if now - t0 > budget then Some (False, polls, out)
      else putc_bounded c t0 budget polls out)"

fun puts_bounded :: "u8 list \<Rightarrow> u32 \<Rightarrow> u32 \<Rightarrow> (bool \<times> u32) list \<Rightarrow> u8 list \<Rightarrow>
    (bool \<times> (bool \<times> u32) list \<times> u8 list) option" where
  "puts_bounded [] t0 budget polls out = Some (True, polls, out)"
| "puts_bounded (c # cs) t0 budget polls out =
     (case putc_bounded c t0 budget polls out of
        None \<Rightarrow> None
      | Some (sent, polls, out) \<Rightarrow>
          if sent then puts_bounded cs t0 budget polls out else Some (False, polls, out))"

definition uart_send_frame_limited :: "u8 \<Rightarrow> u8 list \<Rightarrow> u32 \<Rightarrow> u32 \<Rightarrow> u32 \<Rightarrow> (bool \<times> u32) list \<Rightarrow>
    (bool \<times> (bool \<times> u32) list \<times> u8 list) option" where
  "uart_send_frame_limited ty payload len budget t0 polls =
     (case puts_bounded (frame_header ty len) t0 budget polls [] of
        None \<Rightarrow> None
      | Some (False, polls, out) \<Rightarrow> Some (False, polls, out)
      | Some (True, polls, out) \<Rightarrow>
          (case puts_bounded (take (unat len) payload) t0 budget polls out of
             None \<Rightarrow> None
           | Some (False, polls, out) \<Rightarrow> Some (False, polls, out)
           | Some (True, polls, out) \<Rightarrow>
               putc_bounded (checksum_byte (foldl add_byte (header_sum ty len) (take (unat len) payload)))
                 t0 budget polls out))"

subsection \<open>Bounds\<close>

text \<open>The assembler's invariant: a payload byte is only expected inside the announced length.\<close>

definition rx_wf :: "u32 \<Rightarrow> uart_frame_rx \<Rightarrow> bool" where
  "rx_wf cap st \<longleftrightarrow>
     rx_phase st \<le> 6 \<and>
     (rx_phase st = 4 \<longrightarrow> rx_len st \<le> 0xFF) \<and>
     (rx_phase st = 5 \<longrightarrow> rx_idx st < rx_len st \<and> rx_len st \<le> cap) \<and>
     (rx_phase st = 6 \<longrightarrow> rx_len st \<le> cap)"

lemma rx_wf_init: "rx_wf cap rx_init"
  by (simp add: rx_wf_def rx_init_def)

lemma phase_cases:
  "(x::u32) \<le> 6 \<Longrightarrow> x = 0 \<or> x = 1 \<or> x = 2 \<or> x = 3 \<or> x = 4 \<or> x = 5 \<or> x = 6"
  by (simp add: word_le_nat_alt word_unat_eq_iff) arith

lemma ucast_byte_le: "(ucast (b::u8) :: u32) \<le> 0xFF"
proof -
  have "unat b < 256" using unsigned_less [of b] by simp
  then show ?thesis by (simp add: word_le_nat_alt unat_ucast_up)
qed

lemma uart_frame_step_safe:
  assumes "rx_wf cap st" "unat cap \<le> length dst"
  shows "\<exists>n dst' st'. uart_frame_step b dst cap st = Some (n, dst', st') \<and> rx_wf cap st' \<and>
    length dst' = length dst \<and> n \<le> cap"
proof -
  have "rx_phase st \<le> 6" using assms(1) by (simp add: rx_wf_def)
  then consider "rx_phase st = 0 \<or> rx_phase st = 1 \<or> rx_phase st = 2 \<or> rx_phase st = 3"
    | "rx_phase st = 4" | "rx_phase st = 5" | "rx_phase st = 6"
    using phase_cases by blast
  then show ?thesis
  proof cases
    case 1
    then show ?thesis by (auto simp: uart_frame_step_def rx_wf_def ucast_byte_le)
  next
    case 2
    then show ?thesis
      by (auto simp: uart_frame_step_def rx_wf_def Let_def word_gt_0 not_less)
  next
    case 3
    then have lt: "rx_idx st < rx_len st" "rx_len st \<le> cap" using assms(1) by (auto simp: rx_wf_def)
    then have "unat (rx_idx st) < length dst"
      using assms(2) by (simp add: word_less_nat_alt word_le_nat_alt)
    with 3 lt inc_le [OF lt(1)] show ?thesis
      by (auto simp: uart_frame_step_def rx_wf_def Let_def order_le_less word_gt_0)
  next
    case 4
    then show ?thesis using assms(1) by (auto simp: uart_frame_step_def rx_wf_def)
  qed
qed

text \<open>What an assembler state still needs before it hunts for a sync pair again.\<close>

definition hunting :: "u8 list \<times> uart_frame_rx \<Rightarrow> bool" where
  "hunting s \<longleftrightarrow> rx_phase (snd s) = 0 \<or> rx_phase (snd s) = 1"

definition bytes_left :: "u32 \<Rightarrow> u8 list \<times> uart_frame_rx \<Rightarrow> nat" where
  "bytes_left cap s =
     (let st = snd s in
      if rx_phase st = 2 then unat cap + 4
      else if rx_phase st = 3 then unat cap + 3
      else if rx_phase st = 4 then unat cap + 2
      else if rx_phase st = 5 then unat (rx_len st) - unat (rx_idx st) + 1
      else 1)"

lemma rx_step_drains:
  assumes "rx_wf cap (snd s)" "unat cap \<le> length (fst s)" "\<not> hunting s"
    and "rx_step cap b s = Some (n, s')"
  shows "hunting s' \<or> bytes_left cap s' < bytes_left cap s"
proof -
  obtain dst st where s: "s = (dst, st)" by (cases s)
  have "rx_phase st \<le> 6" using assms(1) by (simp add: rx_wf_def s)
  then consider "rx_phase st = 2 \<or> rx_phase st = 3" | "rx_phase st = 4" | "rx_phase st = 5"
    | "rx_phase st = 6"
    using phase_cases [of "rx_phase st"] assms(3) by (auto simp: hunting_def s)
  then show ?thesis
  proof cases
    case 1
    with assms(4) show ?thesis
      by (auto simp: s rx_step_def uart_frame_step_def hunting_def bytes_left_def)
  next
    case 2
    then show ?thesis
      using assms(4)
      by (auto simp: s rx_step_def uart_frame_step_def hunting_def bytes_left_def Let_def not_less
          word_le_nat_alt split: if_splits)
  next
    case 3
    have lt: "rx_idx st < rx_len st" using assms(1) 3 by (simp add: rx_wf_def s)
    then have "rx_idx st + 1 \<le> rx_len st" by (rule inc_le)
    have "unat (rx_idx st) < unat (rx_len st)" using lt by (simp add: word_less_nat_alt)
    moreover have "unat (rx_len st) < 2 ^ 32" using unsigned_less [of "rx_len st"] by simp
    ultimately have "unat (rx_idx st + 1) = unat (rx_idx st) + 1" by (simp add: unat_word_ariths)
    with 3 assms(4) \<open>unat (rx_idx st) < unat (rx_len st)\<close> show ?thesis
      by (auto simp: s rx_step_def uart_frame_step_def hunting_def bytes_left_def Let_def
          split: if_splits)
  next
    case 4
    with assms(4) show ?thesis by (auto simp: s rx_step_def uart_frame_step_def hunting_def)
  qed
qed

interpretation rx: draining_machine "rx_step cap"
  "\<lambda>s. rx_wf cap (snd s) \<and> n = length (fst s) \<and> unat cap \<le> n" "\<lambda>ret. ret \<le> cap"
  hunting "bytes_left cap" for cap n
proof unfold_locales
  fix s :: "u8 list \<times> uart_frame_rx" and i assume "rx_wf cap (snd s) \<and> n = length (fst s) \<and> unat cap \<le> n"
  then show "\<exists>out s'. rx_step cap i s = Some (out, s') \<and>
      (rx_wf cap (snd s') \<and> n = length (fst s') \<and> unat cap \<le> n) \<and> out \<le> cap"
    using uart_frame_step_safe [of cap "snd s" "fst s" i] by (auto simp: rx_step_def)
next
  fix s :: "u8 list \<times> uart_frame_rx" and i out s' assume "rx_wf cap (snd s) \<and> n = length (fst s) \<and> unat cap \<le> n" "\<not> hunting s"
    "rx_step cap i s = Some (out, s')"
  then show "hunting s' \<or> bytes_left cap s' < bytes_left cap s"
    using rx_step_drains by blast
qed

lemma feed_append:
  "feed cap (xs @ ys) dst st =
     (case feed cap xs dst st of
        None \<Rightarrow> None
      | Some (ns, dst, st) \<Rightarrow>
          (case feed cap ys dst st of None \<Rightarrow> None | Some (ms, dst, st) \<Rightarrow> Some (ns @ ms, dst, st)))"
  by (auto simp: feed_def run_steps_append split: option.splits prod.splits)

text \<open>
  C36: whatever bytes arrive, the assembler never writes outside its buffer: fed from a
  well-formed state with a buffer of at least \<open>cap\<close> bytes it always steps, stays well formed, and
  every payload length it reports is at most \<open>cap\<close>.
\<close>

theorem feed_safe:
  assumes "rx_wf cap st" "unat cap \<le> length dst"
  shows "\<exists>ns dst' st'. feed cap bs dst st = Some (ns, dst', st') \<and> rx_wf cap st' \<and>
    length dst' = length dst \<and> length ns = length bs \<and> (\<forall>n \<in> set ns. n \<le> cap)"
  using rx.run_ok [of cap "(dst, st)" "length dst" bs] assms by (auto simp: feed_def)

theorem feed_safe_witness:
  "\<exists>ns dst' st'. feed 2 [0x7E, 0x7E, 1, 9, 9] [0, 0] rx_init = Some (ns, dst', st') \<and> rx_wf 2 st' \<and>
    length dst' = length [0::u8, 0] \<and> length ns = length [0x7E, 0x7E, 1, 9, 9::u8] \<and>
    (\<forall>n \<in> set ns. n \<le> 2)"
  by (rule feed_safe) (simp_all add: rx_wf_init)

text \<open>
  C37: resynchronisation is bounded by the cap: from any well-formed state and for any bytes, within
  \<open>cap + 4\<close> bytes there is a moment at which the assembler hunts for a sync pair.
\<close>

theorem frame_resync:
  assumes "rx_wf cap st" "unat cap \<le> length dst" "unat cap + 4 \<le> length bs"
  shows "\<exists>k \<le> unat cap + 4. \<exists>ns dst' st'. feed cap (take k bs) dst st = Some (ns, dst', st') \<and>
    (rx_phase st' = 0 \<or> rx_phase st' = 1)"
proof -
  have "unat (rx_len st) \<le> unat cap" if "rx_phase st = 5"
    using assms(1) that by (simp add: rx_wf_def word_le_nat_alt)
  then have "bytes_left cap (dst, st) \<le> length (take (unat cap + 4) bs)"
    using assms(3) by (auto simp: bytes_left_def Let_def min_def)
  then obtain k ns s where k: "k \<le> length (take (unat cap + 4) bs)"
    and run: "run_steps (rx_step cap) (take k (take (unat cap + 4) bs)) (dst, st) = Some (ns, s)"
    and idle: "hunting s \<or> bytes_left cap s = 0"
    using rx.reaches_idle [of cap "(dst, st)" "length dst" "take (unat cap + 4) bs"] assms by auto
  have "k \<le> unat cap + 4" using k by simp
  moreover from this run have "feed cap (take k bs) dst st = Some (ns, fst s, snd s)"
    by (simp add: feed_def min_def)
  moreover have "hunting s" using idle by (simp add: bytes_left_def Let_def split: if_splits)
  ultimately show ?thesis unfolding hunting_def by blast
qed

theorem frame_resync_witness:
  "\<exists>k \<le> unat (2::u32) + 4. \<exists>ns dst' st'.
    feed 2 (take k [9, 9, 9, 9, 9, 9]) [0, 0] (rx_init\<lparr>rx_phase := 2\<rparr>) = Some (ns, dst', st') \<and>
    (rx_phase st' = 0 \<or> rx_phase st' = 1)"
  by (rule frame_resync) (simp_all add: rx_wf_def rx_init_def)

subsection \<open>Round trip\<close>

lemma feed_payload:
  assumes "rx_phase st = 5" "bs \<noteq> []" "unat (rx_idx st) + length bs = unat (rx_len st)"
    and "unat (rx_len st) \<le> length dst"
  shows "feed cap bs dst st =
    Some (replicate (length bs) 0, blit (unat (rx_idx st)) bs dst,
      st\<lparr>rx_phase := 6, rx_idx := rx_len st, rx_sum := foldl add_byte (rx_sum st) bs\<rparr>)"
  using assms
proof (induction bs arbitrary: dst st)
  case Nil
  then show ?case by simp
next
  case (Cons b bs)
  let ?i = "unat (rx_idx st)"
  have "?i + 1 \<le> unat (rx_len st)" using Cons.prems(3) by simp
  moreover have "unat (rx_len st) < 2 ^ 32" using unsigned_less [of "rx_len st"] by simp
  ultimately have suc: "unat (rx_idx st + 1) = ?i + 1" by (simp add: unat_word_ariths)
  have lt: "?i < length dst" using Cons.prems by simp
  let ?st = "st\<lparr>rx_idx := rx_idx st + 1, rx_sum := add_byte (rx_sum st) b,
    rx_phase := (if bs = [] then 6 else 5)\<rparr>"
  have "rx_idx st + 1 = rx_len st \<longleftrightarrow> bs = []"
    using Cons.prems(3) suc by (cases bs) (simp_all add: word_unat_eq_iff)
  then have step: "uart_frame_step b dst cap st = Some (0, dst[?i := b], ?st)"
    using Cons.prems(1) lt by (simp add: uart_frame_step_def Let_def add_byte_def)
  show ?case
  proof (cases "bs = []")
    case True
    then have "rx_idx st + 1 = rx_len st" using \<open>(rx_idx st + 1 = rx_len st) = _\<close> by simp
    with True step lt blit_Cons [OF lt, of "[]" b] show ?thesis by simp
  next
    case False
    have "feed cap bs (dst[?i := b]) ?st =
      Some (replicate (length bs) 0, blit (unat (rx_idx ?st)) bs (dst[?i := b]),
        ?st\<lparr>rx_phase := 6, rx_idx := rx_len ?st, rx_sum := foldl add_byte (rx_sum ?st) bs\<rparr>)"
      by (rule Cons.IH) (use False Cons.prems suc in auto)
    then show ?thesis
      using step suc blit_Cons [OF lt, of bs b] False by simp
  qed
qed

text \<open>The length field survives the trip through two bytes.\<close>

lemma len_bytes:
  assumes "(len::u32) < 0x10000"
  shows "ucast (ucast (len AND 0xFF) :: u8) OR push_bit 8 (ucast (ucast (drop_bit 8 len) :: u8)) = len"
proof -
  have high: "16 \<le> k \<Longrightarrow> \<not> bit len k" for k
    using assms by (intro bit_below [where m = 16]) (simp_all add: word_less_nat_alt)
  have ff: "(0xFF::u32) = mask 8" by (simp add: mask_eq_exp_minus_1)
  have "bit (ucast (ucast (len AND 0xFF) :: u8) OR push_bit 8 (ucast (ucast (drop_bit 8 len) :: u8)) :: u32) n
      = bit len n" for n
    unfolding ff using high [of n] le_add_diff_inverse [of 8 n]
    by (cases "8 \<le> n"; cases "16 \<le> n") (auto simp: bit_or_iff bit_push_bit_iff bit_unsigned_iff bit_and_iff bit_mask_iff bit_drop_bit_eq
      simp del: mask_numeral dest: bit_imp_le_length)
  then show ?thesis by (simp add: bit_eq_iff)
qed

lemma low_byte: "(ucast (ucast (x::u32) :: u8) :: u32) = take_bit 8 x"
  by (rule bit_word_eqI) (auto simp: bit_unsigned_iff bit_take_bit_iff)

lemma and_ff: "(x::u32) AND 0xFF = take_bit 8 x"
  by (simp add: take_bit_eq_mask mask_eq_exp_minus_1)

lemma high_byte:
  assumes "(len::u32) < 0x10000"
  shows "(ucast (ucast (drop_bit 8 len) :: u8) :: u32) = drop_bit 8 len"
proof -
  have "\<not> bit len (8 + n)" if "\<not> n < 8" for n
    using assms that by (intro bit_below [where m = 16]) (simp_all add: word_less_nat_alt)
  then show ?thesis
    unfolding low_byte by (intro bit_word_eqI) (auto simp: bit_take_bit_iff bit_drop_bit_eq)
qed

lemma checksum_zero: "(s + ucast (checksum_byte s)) AND 0xFF = 0"
proof -
  have "(s + ucast (checksum_byte s)) AND 0xFF = take_bit 8 (s + take_bit 8 (- s))"
    by (simp only: checksum_byte_def and_ff low_byte take_bit_take_bit min.idem)
  also have "\<dots> = take_bit 8 (s + - s)"
    by transfer (simp add: take_bit_eq_mod mod_simps mod_mod_cancel)
  finally show ?thesis by simp
qed

lemma feed_header:
  assumes "rx_phase st = 0" "len < 0x10000" "len \<le> cap"
  shows "feed cap (frame_header ty len) dst st =
    Some ([0, 0, 0, 0, 0], dst, st\<lparr>rx_type := ucast ty, rx_len := len, rx_idx := 0,
      rx_sum := header_sum ty len, rx_phase := (if len \<noteq> 0 then 5 else 6)\<rparr>)"
proof -
  have sum: "ucast ty + ucast (ucast (len AND 0xFF) :: u8) + ucast (ucast (drop_bit 8 len) :: u8)
      = header_sum ty len"
    unfolding header_sum_def high_byte [OF assms(2)] unfolding low_byte and_ff by simp
  show ?thesis
    using assms len_bytes [OF assms(2)] sum
    by (simp add: frame_header_def uart_frame_step_def Let_def not_less)
qed

lemma uart_send_frame_feed:
  assumes "rx_phase st = 0" "unat len = length payload" "len < 0x10000" "len \<le> cap"
    and "unat cap \<le> length dst"
  shows "\<exists>st'. feed cap (uart_send_frame ty payload len) dst st =
      Some (replicate (5 + length payload) 0 @ [len], payload @ drop (length payload) dst, st') \<and>
    rx_phase st' = 0 \<and> rx_type st' = ucast ty \<and> rx_len st' = len"
proof -
  let ?sum = "foldl add_byte (header_sum ty len) payload"
  let ?st5 = "st\<lparr>rx_type := ucast ty, rx_len := len, rx_idx := 0,
      rx_sum := header_sum ty len, rx_phase := (if len \<noteq> 0 then 5 else 6)\<rparr>"
  let ?st6 = "?st5\<lparr>rx_phase := 6, rx_idx := len, rx_sum := ?sum\<rparr>"
  have le: "length payload \<le> length dst"
    using assms(2,4,5) by (simp add: word_le_nat_alt)
  have "feed cap payload dst ?st5 =
      Some (replicate (length payload) 0, payload @ drop (length payload) dst, ?st6)"
  proof (cases "payload = []")
    case True
    with assms(2) have "len = 0" by (simp add: unat_eq_0)
    with True show ?thesis by simp
  next
    case False
    with assms(2) have "len \<noteq> 0" by auto
    with False show ?thesis
      using feed_payload [of ?st5 payload dst cap] assms(2) le by (simp add: blit_def)
  qed
  moreover have "uart_frame_step (checksum_byte ?sum) d cap ?st6 = Some (len, d, ?st6\<lparr>rx_phase := 0\<rparr>)"
    for d
    using checksum_zero [of ?sum] by (simp add: uart_frame_step_def)
  ultimately have "feed cap (payload @ [checksum_byte ?sum]) dst ?st5 =
      Some (replicate (length payload) 0 @ [len], payload @ drop (length payload) dst, ?st6\<lparr>rx_phase := 0\<rparr>)"
    by (simp add: feed_append)
  then show ?thesis
    using feed_header [OF assms(1,3,4), of ty dst] assms(2)
    by (simp add: uart_send_frame_def feed_append replicate_add eval_nat_numeral)
qed

text \<open>
  C20: what one end sends the other end receives: from the sync-hunting state the assembler
  reports nothing until the last byte of a sent frame and then the payload length, with the
  payload at the start of the buffer, the rest of the buffer untouched, and the frame's type.
\<close>

theorem frame_roundtrip:
  assumes "rx_phase st = 0" "unat len = length payload" "len < 0x10000" "len \<le> cap"
    and "unat cap \<le> length dst"
  shows "\<exists>st'. feed cap (uart_send_frame ty payload len) dst st =
      Some (replicate (5 + length payload) 0 @ [len], payload @ drop (length payload) dst, st') \<and>
    rx_phase st' = 0 \<and> rx_type st' = ucast ty \<and> rx_len st' = len"
  by (rule uart_send_frame_feed) (rule assms)+

theorem frame_roundtrip_witness:
  "\<exists>st'. feed 4 (uart_send_frame 0xC [1, 2] 2) [0, 0, 0, 0] rx_init =
      Some (replicate (5 + length [1::u8, 2]) 0 @ [2], [1, 2] @ drop (length [1::u8, 2]) [0, 0, 0, 0], st') \<and>
    rx_phase st' = 0 \<and> rx_type st' = ucast (0xC::u8) \<and> rx_len st' = 2"
  by (rule frame_roundtrip) (simp_all add: rx_init_def)

subsection \<open>Corruption\<close>

lemma add_byte_update:
  "k < length p \<Longrightarrow> foldl add_byte s (p[k := b]) = foldl add_byte s p + (ucast b - ucast (p ! k))"
proof (induction p arbitrary: k s)
  case Nil
  then show ?case by simp
next
  case (Cons x p)
  have swap: "add_byte (u + v) a = add_byte u a + v" for u v :: u32 and a
    by (simp add: add_byte_def)
  have shift: "foldl add_byte (u + v) q = foldl add_byte u q + v" for u v :: u32 and q
    by (induction q arbitrary: u) (simp_all add: swap)
  show ?case
  proof (cases k)
    case 0
    have "add_byte s b = add_byte s x + (ucast b - ucast x)" by (simp add: add_byte_def)
    with 0 shift show ?thesis by simp
  next
    case (Suc j)
    with Cons show ?thesis by simp
  qed
qed

lemma low_byte_zero: "(x::u32) AND 0xFF = 0 \<longleftrightarrow> uint x mod 256 = 0"
proof -
  have "uint (take_bit 8 x) = uint x mod 256" by (simp only: unsigned_take_bit_eq) (simp add: take_bit_eq_mod)
  then show ?thesis unfolding and_ff by (simp add: word_uint_eq_iff)
qed

lemma uint_add_mod_256: "uint ((x::u32) + y) mod 256 = (uint x + uint y) mod 256"
  by (simp add: uint_word_ariths mod_mod_cancel)

lemma uint_sub_mod_256: "uint ((x::u32) - y) mod 256 = (uint x - uint y) mod 256"
  by (simp add: uint_word_ariths mod_mod_cancel)

lemma byte_diff_nonzero:
  assumes "(a::u8) \<noteq> b"
  shows "(s + (ucast b - ucast a) + ucast (checksum_byte s)) AND 0xFF \<noteq> 0"
proof
  let ?d = "(ucast b :: u32) - ucast a" and ?t = "s + ucast (checksum_byte s)"
  assume "(s + ?d + ucast (checksum_byte s)) AND 0xFF = 0"
  moreover have "s + ?d + ucast (checksum_byte s) = ?t + ?d" by simp
  ultimately have "(uint ?t + uint ?d) mod 256 = 0"
    by (simp only: low_byte_zero uint_add_mod_256)
  moreover have "uint ?t mod 256 = 0" using checksum_zero [of s] by (simp only: low_byte_zero)
  ultimately have "uint ?d mod 256 = 0" by (metis add_0 mod_add_left_eq)
  then have "256 dvd uint b - uint a"
    by (simp only: uint_sub_mod_256) (simp add: uint_ucast_up dvd_eq_mod_eq_0)
  then have "uint b mod 256 = uint a mod 256" by (simp only: mod_eq_dvd_iff)
  moreover have "0 \<le> uint b" "uint b < 256" "0 \<le> uint a" "uint a < 256"
    using unsigned_less [of b, where 'a = int] unsigned_less [of a, where 'a = int] by simp_all
  ultimately have "uint b = uint a" by simp
  with assms show False by (simp add: word_uint_eq_iff)
qed

text \<open>
  A frame one of whose payload bytes changed on the wire is dropped: the assembler reports
  nothing for it and is back to hunting for a sync pair.
\<close>

theorem frame_detects_corruption:
  assumes "rx_phase st = 0" "unat len = length payload" "len < 0x10000" "len \<le> cap"
    and "unat cap \<le> length dst" "k < length payload" "b \<noteq> payload ! k"
  shows "\<exists>dst' st'. feed cap ((uart_send_frame ty payload len)[5 + k := b]) dst st =
      Some (replicate (6 + length payload) 0, dst', st') \<and> rx_phase st' = 0"
proof -
  let ?sum = "foldl add_byte (header_sum ty len) payload" and ?p = "payload[k := b]"
  let ?st5 = "st\<lparr>rx_type := ucast ty, rx_len := len, rx_idx := 0,
      rx_sum := header_sum ty len, rx_phase := (if len \<noteq> 0 then 5 else 6)\<rparr>"
  let ?st6 = "?st5\<lparr>rx_phase := 6, rx_idx := len, rx_sum := foldl add_byte (header_sum ty len) ?p\<rparr>"
  have le: "length payload \<le> length dst"
    using assms(2,4,5) by (simp add: word_le_nat_alt)
  have wire: "(uart_send_frame ty payload len)[5 + k := b] =
      frame_header ty len @ ?p @ [checksum_byte ?sum]"
    using assms(2,6) by (simp add: uart_send_frame_def frame_header_def list_update_append)
  have "payload \<noteq> []" using assms(6) by auto
  with assms(2) have "len \<noteq> 0" by auto
  with \<open>payload \<noteq> []\<close> have "feed cap ?p dst ?st5 = Some (replicate (length payload) 0, blit 0 ?p dst, ?st6)"
    using feed_payload [of ?st5 ?p dst cap] assms(2) le by simp
  moreover have "uart_frame_step (checksum_byte ?sum) d cap ?st6 = Some (0, d, ?st6\<lparr>rx_phase := 0\<rparr>)"
    for d
    using byte_diff_nonzero [of "payload ! k" b ?sum] assms(6,7)
    by (simp add: uart_frame_step_def add_byte_update)
  moreover have "replicate (6 + n) (0::u32) = [0, 0, 0, 0, 0] @ replicate n 0 @ [0]" for n
    by (simp add: eval_nat_numeral replicate_append_same)
  ultimately show ?thesis
    unfolding wire using feed_header [OF assms(1,3,4), of ty dst] by (simp add: feed_append)
qed

theorem frame_detects_corruption_witness:
  "\<exists>dst' st'. feed 4 ((uart_send_frame 0xC [1, 2] 2)[5 + 1 := 7]) [0, 0, 0, 0] rx_init =
      Some (replicate (6 + length [1::u8, 2]) 0, dst', st') \<and> rx_phase st' = 0"
  by (rule frame_detects_corruption) (simp_all add: rx_init_def)

subsection \<open>The bounded sender\<close>

lemma putc_bounded_out:
  "putc_bounded c t0 budget polls out = Some (sent, rest, out') \<Longrightarrow>
     out' = (if sent then out @ [c] else out)"
  by (induction c t0 budget polls out rule: putc_bounded.induct) (auto split: if_splits)

lemma puts_bounded_out:
  "puts_bounded cs t0 budget polls out = Some (sent, rest, out') \<Longrightarrow>
     \<exists>k \<le> length cs. out' = out @ take k cs \<and> (sent \<longleftrightarrow> k = length cs)"
proof (induction cs arbitrary: polls out)
  case Nil
  then show ?case by auto
next
  case (Cons c cs)
  from Cons.prems obtain s1 polls1 out1 where
    first: "putc_bounded c t0 budget polls out = Some (s1, polls1, out1)"
    by (auto split: option.splits)
  show ?case
  proof (cases s1)
    case True
    with first Cons.prems have "puts_bounded cs t0 budget polls1 out1 = Some (sent, rest, out')"
      by simp
    from Cons.IH [OF this] obtain k where "k \<le> length cs" "out' = out1 @ take k cs"
      "sent \<longleftrightarrow> k = length cs" by blast
    with True putc_bounded_out [OF first] show ?thesis by (intro exI [of _ "Suc k"]) simp
  next
    case False
    with first Cons.prems putc_bounded_out [OF first] show ?thesis by (intro exI [of _ 0]) simp
  qed
qed

lemma puts_bounded_append:
  "puts_bounded (xs @ ys) t0 budget polls out =
     (case puts_bounded xs t0 budget polls out of
        None \<Rightarrow> None
      | Some (sent, polls, out) \<Rightarrow>
          if sent then puts_bounded ys t0 budget polls out else Some (False, polls, out))"
  by (induction xs arbitrary: polls out) (auto split: option.splits prod.splits)

text \<open>
  The bounded sender is honest: it puts a prefix of the frame on the wire, and it reports
  success exactly when that prefix is the whole frame.
\<close>

theorem send_limited_honest:
  assumes "uart_send_frame_limited ty payload len budget t0 polls = Some (sent, rest, out)"
  shows "\<exists>k. out = take k (uart_send_frame ty payload len) \<and>
    (sent \<longleftrightarrow> out = uart_send_frame ty payload len)"
proof -
  let ?h = "frame_header ty len" and ?p = "take (unat len) payload"
  let ?c = "checksum_byte (foldl add_byte (header_sum ty len) ?p)"
  define F where "F = ?h @ ?p @ [?c]"
  have "puts_bounded (?h @ ?p @ [?c]) t0 budget polls [] = Some (sent, rest, out)"
    using assms unfolding uart_send_frame_limited_def puts_bounded_append
    by (auto split: option.splits bool.splits)
  from puts_bounded_out [OF this] obtain k where "k \<le> length F" "out = take k F"
    "sent \<longleftrightarrow> k = length F"
    unfolding F_def by auto
  moreover have "uart_send_frame ty payload len = F" by (simp add: uart_send_frame_def F_def)
  ultimately show ?thesis by auto
qed

theorem send_limited_honest_witness:
  "\<exists>k. [0x7E] = take k (uart_send_frame 0xF [1] 1) \<and>
    (False \<longleftrightarrow> [0x7E] = uart_send_frame 0xF [1] 1)"
  by (rule send_limited_honest [where budget = 10 and ?t0.0 = 0 and polls = "[(True, 0), (False, 5), (False, 11)]"
        and rest = "[]"])
    (simp add: uart_send_frame_limited_def frame_header_def)

subsection \<open>Polling\<close>

lemma rx_wf_tick [simp]: "rx_wf cap (st\<lparr>rx_tick := t\<rparr>) = rx_wf cap st"
  by (simp add: rx_wf_def)

lemma poll_loop_safe:
  assumes "rx_wf cap st" "unat cap \<le> length dst"
  shows "\<exists>n dst' st' rest. poll_loop arrivals dst cap st = Some (n, dst', st', rest) \<and>
    rx_wf cap st' \<and> length dst' = length dst \<and> n \<le> cap \<and> (n = 0 \<longrightarrow> rest = [])"
  using assms
proof (induction arrivals dst cap st rule: poll_loop.induct)
  case (1 dst cap st)
  then show ?case by simp
next
  case (2 c t1 t2 rest dst cap st)
  obtain n dst1 st1 where step: "uart_frame_step c dst cap (st\<lparr>rx_tick := t1\<rparr>) = Some (n, dst1, st1)"
    "rx_wf cap st1" "length dst1 = length dst" "n \<le> cap"
    using uart_frame_step_safe [of cap "st\<lparr>rx_tick := t1\<rparr>" dst c] 2 by auto
  show ?case
  proof (cases "n = 0")
    case True
    with "2.IH" [OF step(1) refl refl] step "2.prems" show ?thesis by auto
  next
    case False
    with step show ?thesis by auto
  qed
qed

lemma uart_poll_frame_safe:
  assumes "rx_wf cap st" "unat cap \<le> length dst"
  shows "\<exists>n dst' st' rest. uart_poll_frame now arrivals dst cap st = Some (n, dst', st', rest) \<and>
    rx_wf cap st' \<and> length dst' = length dst \<and> n \<le> cap \<and> (n = 0 \<longrightarrow> rest = [])"
proof -
  have "rx_wf cap (if rx_phase st \<noteq> 0 \<and> now - rx_tick st > UART_FRAME_TIMEOUT
      then st\<lparr>rx_phase := 0, rx_idx := 0, rx_len := 0\<rparr> else st)"
    using assms(1) by (simp add: rx_wf_def)
  from poll_loop_safe [OF this assms(2)] show ?thesis by (simp add: uart_poll_frame_def)
qed

lemma recv_loop_bounded:
  assumes "rx_wf cap st" "unat cap \<le> length dst" "\<exists>p \<in> set polls. fst p - t0 > UART_WINDOW"
  shows "\<exists>n dst' st'. recv_loop t0 polls dst cap st = RDone n dst' st' \<and>
    length dst' = length dst \<and> n \<le> cap \<and> (n \<noteq> 0 \<longrightarrow> rx_type st' = 1)"
  using assms
proof (induction t0 polls dst cap st rule: recv_loop.induct)
  case (1 t0 dst cap st)
  then show ?case by simp
next
  case (2 t0 now c polls dst cap st)
  show ?case
  proof (cases "now - t0 > UART_WINDOW")
    case True
    with "2.prems" show ?thesis by simp
  next
    case late: False
    show ?thesis
    proof (cases c)
      case None
      with late 2 show ?thesis by auto
    next
      case (Some b)
      obtain n dst1 st1 where step: "uart_frame_step b dst cap st = Some (n, dst1, st1)"
        "rx_wf cap st1" "length dst1 = length dst" "n \<le> cap"
        using uart_frame_step_safe [of cap st dst b] "2.prems" by auto
      have "rx_len st1 \<le> cap" if "n \<noteq> 0"
        using step(1,4) that
        by (auto simp: uart_frame_step_def Let_def split: if_splits)
      with "2.IH"(2) [OF late Some step(1) refl refl] step "2.prems" late Some show ?thesis by auto
    qed
  qed
qed

text \<open>
  The boot window is bounded: as soon as one poll falls outside it the receiver has returned,
  without a write outside its buffer; a non-zero result is a program frame of at most \<open>cap\<close> bytes.
\<close>

theorem uart_recv_bounded:
  assumes "unat cap \<le> length dst" "\<exists>p \<in> set polls. fst p - t0 > UART_WINDOW"
  shows "\<exists>n dst' st'. uart_recv t0 polls dst cap = RDone n dst' st' \<and>
    length dst' = length dst \<and> n \<le> cap \<and> (n \<noteq> 0 \<longrightarrow> rx_type st' = 1)"
  using recv_loop_bounded [OF rx_wf_init assms] by (simp add: uart_recv_def)

theorem uart_recv_bounded_witness:
  "\<exists>n dst' st'. uart_recv 5 [(6, Some 0x7E), (1000006, None)] [0, 0] 2 = RDone n dst' st' \<and>
    length dst' = length [0::u8, 0] \<and> n \<le> 2 \<and> (n \<noteq> 0 \<longrightarrow> rx_type st' = 1)"
  by (rule uart_recv_bounded) (simp_all add: UART_WINDOW_def)

end
