(* ===== verification/Update.thy ===== *)
theory Update
  imports Sha256 Bytes
begin

text \<open>
  The reliable update transaction of \<^verbatim>\<open>core/update.c\<close>: BEGIN announces an image and its digest,
  DATA messages fill the pending area in order, COMMIT checks the digest and sets the magic word,
  ABORT gives up.  One call of \<^verbatim>\<open>update_process\<close> is one value of \<open>update_process\<close>; \<open>None\<close> is an
  access outside an object.
\<close>

subsection \<open>Data\<close>

definition UPDATE_MAX_IMAGE :: u16 where "UPDATE_MAX_IMAGE = 552"
definition UPDATE_MAX_CHUNK :: u8 where "UPDATE_MAX_CHUNK = 64"
definition UPDATE_OP_BEGIN :: u8 where "UPDATE_OP_BEGIN = 0x1"
definition UPDATE_OP_DATA :: u8 where "UPDATE_OP_DATA = 0x2"
definition UPDATE_OP_COMMIT :: u8 where "UPDATE_OP_COMMIT = 0x3"
definition UPDATE_OP_ABORT :: u8 where "UPDATE_OP_ABORT = 0x4"
definition UPDATE_ACK :: u8 where "UPDATE_ACK = 0x80"
definition UPDATE_NACK :: u8 where "UPDATE_NACK = 0x81"
definition UPDATE_REPLY_STAGED :: u8 where "UPDATE_REPLY_STAGED = 0x82"
definition UPDATE_ACCEPT :: u8 where "UPDATE_ACCEPT = 0x83"
definition UPDATE_REJECT :: u8 where "UPDATE_REJECT = 0x84"
definition UPDATE_ABORTED :: u8 where "UPDATE_ABORTED = 0x85"
definition UPDATE_ERR_FORMAT :: u8 where "UPDATE_ERR_FORMAT = 1"
definition UPDATE_ERR_CRC :: u8 where "UPDATE_ERR_CRC = 2"
definition UPDATE_ERR_SEQUENCE :: u8 where "UPDATE_ERR_SEQUENCE = 3"
definition UPDATE_ERR_BUSY :: u8 where "UPDATE_ERR_BUSY = 4"
definition UPDATE_ERR_HASH :: u8 where "UPDATE_ERR_HASH = 5"
definition UPDATE_ERR_STATE :: u8 where "UPDATE_ERR_STATE = 6"
definition UPDATE_ERR_ID :: u8 where "UPDATE_ERR_ID = 7"
definition UPDATE_PEND_MAGIC :: u32 where "UPDATE_PEND_MAGIC = 0x444E4550"
definition UPDATE_STATE_IDLE :: u8 where "UPDATE_STATE_IDLE = 0"
definition UPDATE_STATE_ACTIVE :: u8 where "UPDATE_STATE_ACTIVE = 1"
definition UPDATE_STATE_STAGED :: u8 where "UPDATE_STATE_STAGED = 2"
definition UPDATE_STATE_DONE :: u8 where "UPDATE_STATE_DONE = 3"

lemmas update_consts = UPDATE_MAX_IMAGE_def UPDATE_MAX_CHUNK_def UPDATE_OP_BEGIN_def UPDATE_OP_DATA_def
  UPDATE_OP_COMMIT_def UPDATE_OP_ABORT_def UPDATE_ACK_def UPDATE_NACK_def UPDATE_REPLY_STAGED_def
  UPDATE_ACCEPT_def UPDATE_REJECT_def UPDATE_ABORTED_def UPDATE_ERR_FORMAT_def UPDATE_ERR_CRC_def
  UPDATE_ERR_SEQUENCE_def UPDATE_ERR_BUSY_def UPDATE_ERR_HASH_def UPDATE_ERR_STATE_def
  UPDATE_ERR_ID_def UPDATE_PEND_MAGIC_def UPDATE_STATE_IDLE_def UPDATE_STATE_ACTIVE_def
  UPDATE_STATE_STAGED_def UPDATE_STATE_DONE_def

record update_rx =
  u_id :: u32
  u_total :: u16
  u_received :: u16
  u_next_seq :: u16
  u_sha :: "u8 list"
  u_state :: u8
  u_final :: u8

record update_reply =
  rep_id :: u32
  rep_next_seq :: u16
  rep_code :: u8
  rep_detail :: u8

text \<open>The transaction with the pending area and its magic word.\<close>

record update_world =
  w_rx :: update_rx
  w_pend :: "u8 list"
  w_magic :: u32

subsection \<open>Helpers\<close>

definition crc_bit :: "u16 \<Rightarrow> u16" where
  "crc_bit crc = (if crc AND 1 \<noteq> 0 then drop_bit 1 crc XOR 0xA001 else drop_bit 1 crc)"

definition crc_byte :: "u16 \<Rightarrow> u8 \<Rightarrow> u16" where
  "crc_byte crc b = (crc_bit ^^ 8) (crc XOR ucast b)"

definition update_crc16 :: "u8 list \<Rightarrow> u32 \<Rightarrow> u16" where
  "update_crc16 data len = foldl crc_byte 0xFFFF (take (unat len) data)"

definition crc_ok :: "u8 list \<Rightarrow> u32 \<Rightarrow> bool" where
  "crc_ok p n \<longleftrightarrow> update_crc16 p (n - 2) = le16 p (unat (n - 2))"

definition reply_set :: "update_rx \<Rightarrow> u8 \<Rightarrow> u8 \<Rightarrow> u32 \<Rightarrow> update_reply" where
  "reply_set rx code detail uid =
     \<lparr>rep_id = (if uid \<noteq> 0 then uid else u_id rx), rep_next_seq = u_next_seq rx,
      rep_code = code, rep_detail = detail\<rparr>"

definition update_reset :: update_rx where
  "update_reset =
     \<lparr>u_id = 0, u_total = 0, u_received = 0, u_next_seq = 0, u_sha = replicate 32 0,
      u_state = 0, u_final = 0\<rparr>"

subsection \<open>The four operations\<close>

type_synonym update_result = "((bool \<times> update_reply) \<times> update_world) option"

definition nack :: "update_world \<Rightarrow> u8 \<Rightarrow> u32 \<Rightarrow> update_result" where
  "nack w err uid = Some ((False, reply_set (w_rx w) UPDATE_NACK err uid), w)"

definition update_begin :: "update_world \<Rightarrow> u8 list \<Rightarrow> u32 \<Rightarrow> u32 \<Rightarrow> update_result" where
  "update_begin w p n uid =
     (let rx = w_rx w in
      if n \<noteq> 41 then nack w UPDATE_ERR_FORMAT uid
      else if \<not> crc_ok p n then nack w UPDATE_ERR_CRC uid
      else
        (let total = le16 p 5; sha = take 32 (drop 7 p) in
         if uid = 0 \<or> total < 48 \<or> total > UPDATE_MAX_IMAGE then nack w UPDATE_ERR_FORMAT uid
         else if (u_state rx = UPDATE_STATE_ACTIVE \<or> u_state rx = UPDATE_STATE_STAGED \<or>
                  u_state rx = UPDATE_STATE_DONE) \<and> u_id rx = uid then
           (if u_total rx \<noteq> total then nack w UPDATE_ERR_ID uid
            else if u_sha rx \<noteq> sha then nack w UPDATE_ERR_ID uid
            else if u_state rx = UPDATE_STATE_DONE
            then Some ((True, reply_set rx (u_final rx) 0 uid), w)
            else if u_state rx = UPDATE_STATE_STAGED
            then Some ((True, reply_set rx UPDATE_REPLY_STAGED 0 uid), w)
            else Some ((True, reply_set rx UPDATE_ACK 0 uid), w))
         else if u_state rx = UPDATE_STATE_ACTIVE \<or> u_state rx = UPDATE_STATE_STAGED \<or>
                 w_magic w = UPDATE_PEND_MAGIC
         then nack w UPDATE_ERR_BUSY uid
         else
           (let rx' = update_reset\<lparr>u_id := uid, u_total := total, u_sha := sha,
                                   u_state := UPDATE_STATE_ACTIVE\<rparr> in
            Some ((True, reply_set rx' UPDATE_ACK 0 uid), w\<lparr>w_rx := rx', w_magic := 0\<rparr>))))"

definition update_data :: "update_world \<Rightarrow> u8 list \<Rightarrow> u32 \<Rightarrow> u32 \<Rightarrow> update_result" where
  "update_data w p n uid =
     (let rx = w_rx w in
      if n < 12 then nack w UPDATE_ERR_FORMAT uid
      else
        (let seq = le16 p 5; off = le16 p 7; len = p ! 9;
             chunk = take (unat len) (drop 10 p) in
         if len = 0 \<or> len > UPDATE_MAX_CHUNK \<or> n \<noteq> 12 + ucast len \<or>
            (ucast off :: u32) + ucast len > ucast (u_total rx)
         then nack w UPDATE_ERR_FORMAT uid
         else if u_state rx \<noteq> UPDATE_STATE_ACTIVE then nack w UPDATE_ERR_STATE uid
         else if (ucast seq :: u32) + 1 = ucast (u_next_seq rx) \<and>
                 (ucast off :: u32) + ucast len = ucast (u_received rx) then
           (if length (w_pend w) < unat off + unat len then None
            else if take (unat len) (drop (unat off) (w_pend w)) \<noteq> chunk
            then nack w UPDATE_ERR_SEQUENCE uid
            else Some ((True, reply_set rx UPDATE_ACK 0 uid), w))
         else if seq \<noteq> u_next_seq rx \<or> off \<noteq> u_received rx
         then nack w UPDATE_ERR_SEQUENCE uid
         else if length (w_pend w) < unat off + unat len then None
         else
           (let rx' = rx\<lparr>u_received := u_received rx + ucast len,
                         u_next_seq := u_next_seq rx + 1\<rparr> in
            Some ((True, reply_set rx' UPDATE_ACK 0 uid),
                  w\<lparr>w_rx := rx', w_pend := blit (unat off) chunk (w_pend w)\<rparr>))))"

definition update_commit :: "update_world \<Rightarrow> u32 \<Rightarrow> u32 \<Rightarrow> update_result" where
  "update_commit w n uid =
     (let rx = w_rx w in
      if n \<noteq> 7 then nack w UPDATE_ERR_FORMAT uid
      else if u_state rx = UPDATE_STATE_DONE
      then Some ((True, reply_set rx (u_final rx) 0 uid), w)
      else if u_state rx = UPDATE_STATE_STAGED
      then Some ((True, reply_set rx UPDATE_REPLY_STAGED 0 uid), w)
      else if u_state rx \<noteq> UPDATE_STATE_ACTIVE then nack w UPDATE_ERR_STATE uid
      else if u_received rx \<noteq> u_total rx then nack w UPDATE_ERR_SEQUENCE uid
      else if length (w_pend w) < unat (u_total rx) then None
      else
        (case sha256 (w_pend w) (ucast (u_total rx)) of
           None \<Rightarrow> None
         | Some digest \<Rightarrow>
             if digest \<noteq> u_sha rx then
               (let w' = w\<lparr>w_rx := rx\<lparr>u_state := UPDATE_STATE_IDLE\<rparr>\<rparr> in
                nack w' UPDATE_ERR_HASH uid)
             else
               (let rx' = rx\<lparr>u_state := UPDATE_STATE_STAGED\<rparr> in
                Some ((True, reply_set rx' UPDATE_REPLY_STAGED 0 uid),
                      w\<lparr>w_rx := rx', w_magic := UPDATE_PEND_MAGIC\<rparr>))))"

definition update_abort :: "update_world \<Rightarrow> u32 \<Rightarrow> u32 \<Rightarrow> update_result" where
  "update_abort w n uid =
     (let rx = w_rx w in
      if n \<noteq> 7 then nack w UPDATE_ERR_FORMAT uid
      else if u_state rx = UPDATE_STATE_ACTIVE then
        (let rx' = rx\<lparr>u_state := UPDATE_STATE_IDLE, u_received := 0, u_next_seq := 0\<rparr> in
         Some ((True, reply_set rx' UPDATE_ABORTED 0 uid), w\<lparr>w_rx := rx', w_magic := 0\<rparr>))
      else nack w UPDATE_ERR_STATE uid)"

definition update_process :: "update_world \<Rightarrow> u8 list \<Rightarrow> u32 \<Rightarrow> update_result" where
  "update_process w p n =
     (if length p < unat n then None
      else
        (let rx = w_rx w; op = (if n \<noteq> 0 then p ! 0 else 0); uid = (if n \<ge> 5 then le32 p 1 else 0) in
         if n = 0 then nack w UPDATE_ERR_FORMAT 0
         else if op = UPDATE_OP_BEGIN then update_begin w p n uid
         else if n < 7 then nack w UPDATE_ERR_FORMAT uid
         else if \<not> crc_ok p n then nack w UPDATE_ERR_CRC uid
         else if u_state rx = UPDATE_STATE_IDLE \<or> uid \<noteq> u_id rx then nack w UPDATE_ERR_ID uid
         else if op = UPDATE_OP_DATA then update_data w p n uid
         else if op = UPDATE_OP_COMMIT then update_commit w n uid
         else if op = UPDATE_OP_ABORT then update_abort w n uid
         else nack w UPDATE_ERR_FORMAT uid))"

definition update_finish :: "update_rx \<Rightarrow> bool \<Rightarrow> update_rx" where
  "update_finish rx accepted =
     rx\<lparr>u_final := (if accepted then UPDATE_ACCEPT else UPDATE_REJECT), u_state := UPDATE_STATE_DONE\<rparr>"

subsection \<open>The transaction invariant\<close>

text \<open>
  Well-formedness: the pending area holds the largest image, and outside IDLE the transaction has
  an identity, a plausible total and at most that many bytes received.  A STAGED transaction
  is complete and verified, and only then is the magic word promised.
\<close>

definition update_wf :: "update_world \<Rightarrow> bool" where
  "update_wf w \<longleftrightarrow>
     552 \<le> length (w_pend w) \<and> length (u_sha (w_rx w)) = 32 \<and> u_state (w_rx w) \<le> 3 \<and>
     (u_state (w_rx w) \<noteq> UPDATE_STATE_IDLE \<longrightarrow>
        u_id (w_rx w) \<noteq> 0 \<and> 48 \<le> unat (u_total (w_rx w)) \<and> unat (u_total (w_rx w)) \<le> 552 \<and>
        unat (u_received (w_rx w)) \<le> unat (u_total (w_rx w)) \<and>
        unat (u_next_seq (w_rx w)) \<le> unat (u_received (w_rx w))) \<and>
     (u_state (w_rx w) = UPDATE_STATE_DONE \<longrightarrow>
        u_final (w_rx w) = UPDATE_ACCEPT \<or> u_final (w_rx w) = UPDATE_REJECT) \<and>
     (u_state (w_rx w) = UPDATE_STATE_STAGED \<longrightarrow>
        u_received (w_rx w) = u_total (w_rx w) \<and> w_magic w = UPDATE_PEND_MAGIC \<and>
        sha_spec (take (unat (u_total (w_rx w))) (w_pend w)) = u_sha (w_rx w))"

text \<open>A refusal is a NACK, and only a refusal is.\<close>

definition reply_ok :: "bool \<times> update_reply \<Rightarrow> bool" where
  "reply_ok out \<longleftrightarrow> (fst out \<longleftrightarrow> rep_code (snd out) \<noteq> UPDATE_NACK)"

definition step_fine :: "update_result \<Rightarrow> bool" where
  "step_fine r \<longleftrightarrow> (\<exists>out w. r = Some (out, w) \<and> update_wf w \<and> reply_ok out)"

lemma step_fine_Some [simp]: "step_fine (Some (out, w)) \<longleftrightarrow> update_wf w \<and> reply_ok out"
  by (auto simp: step_fine_def)

lemma step_fine_nack [simp]: "step_fine (nack w err uid) \<longleftrightarrow> update_wf w"
  by (simp add: nack_def reply_ok_def reply_set_def)

lemma reply_ok_set [simp]: "reply_ok (a, reply_set rx code d uid) \<longleftrightarrow> (a \<longleftrightarrow> code \<noteq> UPDATE_NACK)"
  by (simp add: reply_ok_def reply_set_def)

lemma positive_codes [simp]:
  "UPDATE_ACK \<noteq> UPDATE_NACK" "UPDATE_REPLY_STAGED \<noteq> UPDATE_NACK" "UPDATE_ABORTED \<noteq> UPDATE_NACK"
  "UPDATE_ACCEPT \<noteq> UPDATE_NACK" "UPDATE_REJECT \<noteq> UPDATE_NACK"
  by (simp_all add: update_consts)

lemma state_codes [simp]:
  "UPDATE_STATE_ACTIVE \<noteq> UPDATE_STATE_IDLE" "UPDATE_STATE_STAGED \<noteq> UPDATE_STATE_IDLE"
  "UPDATE_STATE_DONE \<noteq> UPDATE_STATE_IDLE" "UPDATE_STATE_STAGED \<noteq> UPDATE_STATE_ACTIVE"
  "UPDATE_STATE_DONE \<noteq> UPDATE_STATE_ACTIVE" "UPDATE_STATE_DONE \<noteq> UPDATE_STATE_STAGED"
  "UPDATE_STATE_IDLE \<noteq> UPDATE_STATE_ACTIVE" "UPDATE_STATE_IDLE \<noteq> UPDATE_STATE_STAGED"
  "UPDATE_STATE_IDLE \<noteq> UPDATE_STATE_DONE" "UPDATE_STATE_ACTIVE \<noteq> UPDATE_STATE_STAGED"
  "UPDATE_STATE_ACTIVE \<noteq> UPDATE_STATE_DONE" "UPDATE_STATE_STAGED \<noteq> UPDATE_STATE_DONE"
  by (simp_all add: update_consts)

lemma update_wf_fresh:
  assumes "update_wf w" "uid \<noteq> 0" "\<not> tot < 48" "\<not> tot > UPDATE_MAX_IMAGE" "length sha = 32"
  shows "update_wf (w\<lparr>w_rx := update_reset\<lparr>u_id := uid, u_total := tot, u_sha := sha,
    u_state := UPDATE_STATE_ACTIVE\<rparr>, w_magic := 0\<rparr>)"
  using assms
  by (simp add: update_wf_def update_reset_def update_consts word_le_nat_alt not_less)

lemma update_begin_fine:
  assumes wf: "update_wf w" and n: "unat n \<le> length p"
  shows "step_fine (update_begin w p n uid)"
proof -
  have sha: "length (take 32 (drop 7 p)) = 32" if "n = 41" using n that by simp
  have fin: "u_state (w_rx w) = UPDATE_STATE_DONE \<Longrightarrow> u_final (w_rx w) \<noteq> UPDATE_NACK"
    using wf by (auto simp: update_wf_def)
  show ?thesis
    unfolding update_begin_def Let_def
    using wf sha fin update_wf_fresh [OF wf, of uid "le16 p 5" "take 32 (drop 7 p)"]
    by (simp del: length_take)
qed

lemma update_data_bounds:
  assumes "\<not> (ucast off :: u32) + ucast (len::u8) > ucast (tot :: u16)"
  shows "unat (off::u16) + unat len \<le> unat tot"
proof -
  have "unat off < 2 ^ 16" "unat len < 2 ^ 8"
    using unsigned_less [of off] unsigned_less [of len] by simp_all
  then have "unat ((ucast off :: u32) + ucast len) = unat off + unat len"
    by (simp add: unat_word_ariths unat_ucast_up)
  with assms show ?thesis by (simp add: not_less word_le_nat_alt unat_ucast_up)
qed

lemma update_data_fine:
  assumes wf: "update_wf w" and n: "unat n \<le> length p"
  shows "step_fine (update_data w p n uid)"
proof (cases "n < 12 \<or> p ! 9 = 0 \<or> p ! 9 > UPDATE_MAX_CHUNK \<or> n \<noteq> 12 + ucast (p ! 9) \<or>
    (ucast (le16 p 7) :: u32) + ucast (p ! 9) > ucast (u_total (w_rx w)) \<or>
    u_state (w_rx w) \<noteq> UPDATE_STATE_ACTIVE")
  case True
  then show ?thesis
    using wf unfolding update_data_def Let_def by (simp only: if_split step_fine_nack) blast
next
  case False
  let ?len = "unat (p ! 9)" and ?off = "unat (le16 p 7)" and ?rx = "w_rx w"
  have le: "?off + ?len \<le> unat (u_total ?rx)" using False update_data_bounds by simp
  have total: "unat (u_total ?rx) \<le> 552" and pend: "552 \<le> length (w_pend w)"
    using wf False by (auto simp: update_wf_def update_consts)
  then have fits: "?off + ?len \<le> length (w_pend w)" using le by simp
  have "?len \<le> 64" using False by (simp add: update_consts not_less word_le_nat_alt)
  then have "unat n = 12 + ?len" using False by (simp add: unat_word_ariths unat_ucast_up)
  with n have chunk: "length (take ?len (drop 10 p)) = ?len" by simp
  have rcv: "unat (u_received ?rx + ucast (p ! 9)) = unat (u_received ?rx) + ?len"
    if "le16 p 7 = u_received ?rx"
    using le total that by (simp add: unat_word_ariths unat_ucast_up)
  have "0 < ?len" using False by (simp add: unat_gt_0)
  have seq: "unat (u_next_seq ?rx + 1) = unat (u_next_seq ?rx) + 1"
    using wf False total by (simp add: unat_word_ariths update_wf_def update_consts)
  have "update_wf (w\<lparr>w_rx := ?rx\<lparr>u_received := u_received ?rx + ucast (p ! 9),
      u_next_seq := u_next_seq ?rx + 1\<rparr>, w_pend := blit ?off (take ?len (drop 10 p)) (w_pend w)\<rparr>)"
    if "le16 p 7 = u_received ?rx"
    using wf False rcv [OF that] seq \<open>0 < ?len\<close> le that fits chunk
    by (simp add: update_wf_def update_consts del: length_take)
  moreover have "le16 p 7 = u_received ?rx \<Longrightarrow> \<not> length (w_pend w) < unat (u_received ?rx) + ?len"
    using fits by simp
  ultimately show ?thesis
    using False fits wf by (auto simp: update_data_def Let_def update_consts)
qed

lemma update_commit_fine:
  assumes wf: "update_wf w"
  shows "step_fine (update_commit w n uid)"
proof (cases "u_state (w_rx w) = UPDATE_STATE_ACTIVE \<and> u_received (w_rx w) = u_total (w_rx w)")
  case True
  let ?t = "u_total (w_rx w)"
  have le: "unat ?t \<le> 552" "unat ?t \<le> length (w_pend w)"
    using wf True by (auto simp: update_wf_def update_consts)
  have sha: "sha256 (w_pend w) (ucast ?t) = Some (sha_spec (take (unat ?t) (w_pend w)))"
    using sha256_eq [of "ucast ?t" "w_pend w"] le by (simp add: unat_ucast_up)
  show ?thesis
    using wf True le by (auto simp: update_commit_def Let_def sha update_wf_def update_consts)
next
  case False
  with wf show ?thesis
    by (auto simp: update_commit_def Let_def update_wf_def update_consts)
qed

lemma update_abort_fine: "update_wf w \<Longrightarrow> step_fine (update_abort w n uid)"
  by (auto simp: update_abort_def Let_def update_wf_def update_consts)

lemma update_process_fine:
  assumes "update_wf w" "unat n \<le> length p"
  shows "step_fine (update_process w p n)"
  using assms update_begin_fine [OF assms] update_data_fine [OF assms]
    update_commit_fine [OF assms(1)] update_abort_fine [OF assms(1)]
  by (simp add: update_process_def Let_def not_less)

definition update_step :: "u8 list \<Rightarrow> update_world \<Rightarrow> update_result" where
  "update_step msg w = update_process w msg (of_nat (length msg))"

interpretation update: machine update_step update_wf reply_ok
proof unfold_locales
  fix w msg assume wf: "update_wf w"
  have "unat (of_nat (length msg) :: u32) \<le> length (msg :: u8 list)"
    by (simp add: unsigned_of_nat take_bit_eq_mod)
  from update_process_fine [OF wf this]
  show "\<exists>out w'. update_step msg w = Some (out, w') \<and> update_wf w' \<and> reply_ok out"
    by (simp add: update_step_def step_fine_def)
qed

text \<open>
  C12: whatever messages arrive, the transaction machine never leaves its objects and only
  verified images are staged: after any sequence from the reset state, STAGED means that all
  announced bytes were received, that the SHA-256 of the pending area's first \<open>total\<close> bytes is
  the announced digest, and that the magic word is set; and a reply is a NACK exactly when the
  message was refused.
\<close>

theorem update_staged_verified:
  assumes "552 \<le> length pend"
  shows "\<exists>outs w. run_steps update_step msgs \<lparr>w_rx = update_reset, w_pend = pend, w_magic = magic\<rparr> =
      Some (outs, w) \<and>
    (\<forall>out \<in> set outs. fst out = (rep_code (snd out) \<noteq> UPDATE_NACK)) \<and>
    (u_state (w_rx w) = UPDATE_STATE_STAGED \<longrightarrow>
       u_received (w_rx w) = u_total (w_rx w) \<and>
       sha_spec (take (unat (u_total (w_rx w))) (w_pend w)) = u_sha (w_rx w) \<and>
       w_magic w = UPDATE_PEND_MAGIC)"
proof -
  have "update_wf \<lparr>w_rx = update_reset, w_pend = pend, w_magic = magic\<rparr>"
    using assms by (simp add: update_wf_def update_reset_def update_consts)
  from update.run_ok [OF this, of msgs] show ?thesis
    by (auto simp: reply_ok_def update_wf_def)
qed

theorem update_staged_verified_witness:
  "\<exists>outs w. run_steps update_step [[4, 1, 0]]
      \<lparr>w_rx = update_reset, w_pend = replicate 600 0, w_magic = 0\<rparr> = Some (outs, w) \<and>
    (\<forall>out \<in> set outs. fst out = (rep_code (snd out) \<noteq> UPDATE_NACK)) \<and>
    (u_state (w_rx w) = UPDATE_STATE_STAGED \<longrightarrow>
       u_received (w_rx w) = u_total (w_rx w) \<and>
       sha_spec (take (unat (u_total (w_rx w))) (w_pend w)) = u_sha (w_rx w) \<and>
       w_magic w = UPDATE_PEND_MAGIC)"
  by (rule update_staged_verified) simp

subsection \<open>Corruption\<close>

lemma xor_right_cancel: "a XOR k = b XOR k \<Longrightarrow> a = b" for a b k :: "'a::len word"
proof -
  assume "a XOR k = b XOR k"
  then have "(a XOR k) XOR k = (b XOR k) XOR k" by simp
  then show "a = b" by (simp add: xor.assoc)
qed

lemma crc_bit_inj:
  assumes eq: "crc_bit x = crc_bit y"
  shows "x = y"
proof -
  have top: "bit (crc_bit z) 15 \<longleftrightarrow> bit z 0" for z
  proof -
    have "\<not> bit z 16" using bit_imp_le_length [of z 16] by auto
    then show ?thesis
      by (simp add: crc_bit_def bit_xor_iff bit_drop_bit_eq and_one_eq bit_0 mod2_eq_if)
  qed
  have low: "bit x 0 = bit y 0" using top [of x] top [of y] eq by simp
  have "drop_bit 1 x = drop_bit 1 y"
    using eq low
    by (auto simp: crc_bit_def and_one_eq bit_0 mod2_eq_if split: if_splits dest: xor_right_cancel)
  then have "bit x (Suc m) = bit y (Suc m)" for m
    by (metis bit_drop_bit_eq plus_1_eq_Suc comp_apply)
  with low have "bit x m = bit y m" for m by (cases m) simp_all
  then show ?thesis by (simp add: bit_eq_iff)
qed

lemma crc_steps_inj: "(crc_bit ^^ k) x = (crc_bit ^^ k) y \<Longrightarrow> x = y"
  by (induction k) (auto dest: crc_bit_inj)

lemma crc_byte_inj:
  assumes "crc_byte c b = crc_byte c' b"
  shows "c = c'"
  by (metis assms crc_byte_def crc_steps_inj xor_right_cancel)

lemma crc_byte_inj_data:
  assumes "crc_byte c b = crc_byte c b'"
  shows "b = b'"
proof -
  have "c XOR ucast b = c XOR (ucast b' :: u16)"
    using assms crc_steps_inj [of 8] by (simp add: crc_byte_def)
  then have "(ucast b :: u16) = ucast b'" by (metis xor.commute xor_right_cancel)
  then have "uint (ucast b :: u16) = uint (ucast b' :: u16)" by simp
  then show ?thesis by (simp add: uint_ucast_up word_uint_eqI)
qed

lemma crc_fold_inj: "foldl crc_byte c xs = foldl crc_byte c' xs \<Longrightarrow> c = c'"
  by (induction xs arbitrary: c c') (auto dest: crc_byte_inj)

lemma crc_single_byte:
  assumes ok: "crc_ok p n" and n: "2 \<le> unat n" "unat n \<le> length p"
    and k: "k < unat n" and b: "b \<noteq> p ! k"
  shows "\<not> crc_ok (p[k := b]) n"
proof
  assume bad: "crc_ok (p[k := b]) n"
  let ?m = "unat (n - 2)"
  have m: "?m + 2 = unat n" using n unat_sub [of 2 n] by (simp add: word_le_nat_alt)
  show False
  proof (cases "k < ?m")
    case True
    define c where "c = foldl crc_byte 0xFFFF (take k p)"
    have split: "take ?m q = take k q @ q ! k # drop (Suc k) (take ?m q)" if "length q = length p" for q :: "u8 list"
      using id_take_nth_drop [of k "take ?m q"] True m n that by simp
    have "le16 (p[k := b]) ?m = le16 p ?m" using True by (simp add: le16_def)
    then have "foldl crc_byte 0xFFFF (take ?m (p[k := b])) = foldl crc_byte 0xFFFF (take ?m p)"
      using ok bad by (simp add: crc_ok_def update_crc16_def)
    moreover have tail: "drop (Suc k) (take ?m (p[k := b])) = drop (Suc k) (take ?m p)" (is "_ = ?t")
      by (simp add: drop_take)
    have "take ?m (p[k := b]) = take k p @ b # ?t" "take ?m p = take k p @ p ! k # ?t"
      using split [of p] split [of "p[k := b]"] tail k n by simp_all
    ultimately have "foldl crc_byte (crc_byte c b) ?t = foldl crc_byte (crc_byte c (p ! k)) ?t"
      by (metis c_def foldl_Cons foldl_append)
    then have "crc_byte c b = crc_byte c (p ! k)" by (rule crc_fold_inj)
    then show False using b crc_byte_inj_data by blast
  next
    case False
    then have "take ?m (p[k := b]) = take ?m p" by simp
    then have "le16 (p[k := b]) ?m = le16 p ?m"
      using ok bad by (simp add: crc_ok_def update_crc16_def)
    from le16_eqD [OF this] have "p[k := b] ! ?m = p ! ?m" "p[k := b] ! (?m + 1) = p ! (?m + 1)"
      by blast+
    moreover have "k = ?m \<or> k = ?m + 1" using False k m by linarith
    ultimately have "p[k := b] ! k = p ! k" by blast
    then show False using b k n by simp
  qed
qed

definition refused :: "update_world \<Rightarrow> update_result \<Rightarrow> bool" where
  "refused w out \<longleftrightarrow> (\<exists>r. out = Some ((False, r), w) \<and> rep_code r = UPDATE_NACK)"

lemma refused_nack [simp]: "refused w (nack w err uid)"
  by (simp add: refused_def nack_def reply_set_def)

lemma not_refused [simp]: "\<not> refused w (Some ((True, r), w'))" "\<not> refused w None"
  by (simp_all add: refused_def)

lemma crc_refused:
  "unat n \<le> length p \<Longrightarrow> \<not> crc_ok p n \<Longrightarrow> refused w (update_process w p n)"
  by (cases "n = 41") (simp_all add: update_process_def update_begin_def Let_def not_less)

lemma accepted_crc:
  assumes "update_process w p n = Some ((True, r), w')"
  shows "crc_ok p n \<and> unat n \<le> length p \<and> 2 \<le> unat n"
proof -
  have len: "unat n \<le> length p" using assms by (auto simp: update_process_def split: if_splits)
  have crc: "crc_ok p n" using crc_refused [OF len, of w] assms by auto
  have "refused w (update_process w p n)" if "n \<noteq> 41" "n < 7"
    using that len by (simp add: update_process_def update_begin_def Let_def not_less)
  with assms have "n = 41 \<or> \<not> n < 7" by auto
  then have "2 \<le> unat n" by (auto simp: word_less_nat_alt)
  with len crc show ?thesis by simp
qed

subsection \<open>Retransmission\<close>

lemma update_begin_new:
  assumes "update_begin w p n uid = Some ((True, r), w')" and "w' \<noteq> w"
  shows "n = 41 \<and> crc_ok p 41 \<and> uid \<noteq> 0 \<and> \<not> le16 p 5 < 48 \<and> \<not> le16 p 5 > UPDATE_MAX_IMAGE \<and>
    w' = w\<lparr>w_rx := update_reset\<lparr>u_id := uid, u_total := le16 p 5, u_sha := take 32 (drop 7 p),
               u_state := UPDATE_STATE_ACTIVE\<rparr>, w_magic := 0\<rparr> \<and>
    r = reply_set (w_rx w') UPDATE_ACK 0 uid"
  using assms unfolding update_begin_def Let_def nack_def
  by (simp split: if_split_asm) auto

lemma update_begin_again:
  assumes "update_begin w p n uid = Some ((True, r), w')"
  shows "update_begin w' p n uid = Some ((True, r), w')"
proof (cases "w' = w")
  case True
  with assms show ?thesis by simp
next
  case False
  from update_begin_new [OF assms this] show ?thesis
    by (simp add: update_begin_def Let_def)
qed

lemma update_data_new:
  assumes "update_data w p n uid = Some ((True, r), w')" and "w' \<noteq> w"
  shows "\<not> n < 12 \<and> p ! 9 \<noteq> 0 \<and> \<not> p ! 9 > UPDATE_MAX_CHUNK \<and> n = 12 + ucast (p ! 9) \<and>
    \<not> (ucast (le16 p 7) :: u32) + ucast (p ! 9) > ucast (u_total (w_rx w)) \<and>
    u_state (w_rx w) = UPDATE_STATE_ACTIVE \<and> le16 p 5 = u_next_seq (w_rx w) \<and>
    le16 p 7 = u_received (w_rx w) \<and>
    unat (le16 p 7) + unat (p ! 9) \<le> length (w_pend w) \<and>
    w' = w\<lparr>w_rx := (w_rx w)\<lparr>u_received := u_received (w_rx w) + ucast (p ! 9),
               u_next_seq := u_next_seq (w_rx w) + 1\<rparr>,
           w_pend := blit (unat (le16 p 7)) (take (unat (p ! 9)) (drop 10 p)) (w_pend w)\<rparr> \<and>
    r = reply_set (w_rx w') UPDATE_ACK 0 uid"
  using assms unfolding update_data_def Let_def
  by (auto simp: nack_def split: if_splits)

lemma update_data_again:
  assumes wf: "update_wf w" and n: "unat n \<le> length p"
    and acc: "update_data w p n uid = Some ((True, r), w')"
  shows "update_data w' p n uid = Some ((True, r), w')"
proof (cases "w' = w")
  case True
  with acc show ?thesis by simp
next
  case False
  let ?len = "unat (p ! 9)" and ?off = "unat (le16 p 7)" and ?rx = "w_rx w"
  let ?chunk = "take ?len (drop 10 p)"
  note new = update_data_new [OF acc False]
  then have w': "w' = w\<lparr>w_rx := ?rx\<lparr>u_received := u_received ?rx + ucast (p ! 9),
               u_next_seq := u_next_seq ?rx + 1\<rparr>, w_pend := blit ?off ?chunk (w_pend w)\<rparr>"
    by blast
  have le: "?off + ?len \<le> unat (u_total ?rx)" using new update_data_bounds by blast
  have total: "unat (u_total ?rx) \<le> 552" and seqle: "unat (u_next_seq ?rx) \<le> unat (u_total ?rx)"
    using wf new by (auto simp: update_wf_def update_consts)
  have "?len \<le> 64" using new by (simp add: update_consts not_less word_le_nat_alt)
  then have "unat n = 12 + ?len" using new by (simp add: unat_word_ariths unat_ucast_up)
  with n have chunk: "length ?chunk = ?len" by simp
  have seq: "(ucast (u_next_seq ?rx) :: u32) + 1 = ucast (u_next_seq ?rx + 1)"
    using total seqle
    by (intro word_unat_eq_iff [THEN iffD2]) (simp add: unat_ucast_up unat_word_ariths)
  have rcv: "(ucast (u_received ?rx) :: u32) + ucast (p ! 9) = ucast (u_received ?rx + ucast (p ! 9))"
    using total le new
    by (intro word_unat_eq_iff [THEN iffD2]) (simp add: unat_ucast_up unat_word_ariths)
  have same: "take ?len (drop ?off (blit ?off ?chunk (w_pend w))) = ?chunk"
  proof (rule take_drop_blit)
    show "?off + length ?chunk \<le> length (w_pend w)" using new chunk by linarith
  qed (use chunk in simp)
  have "length (blit ?off ?chunk (w_pend w)) = length (w_pend w)"
  proof (rule length_blit)
    show "?off + length ?chunk \<le> length (w_pend w)" using new chunk by linarith
  qed
  then have "\<not> length (w_pend w') < ?off + ?len" using new by (auto simp: w')
  moreover have "\<not> 12 + (ucast (p ! 9) :: u32) < 12"
    "\<not> (ucast (u_total ?rx) :: u32) < ucast (u_received ?rx + ucast (p ! 9))"
    using new rcv by auto
  ultimately show ?thesis
    using new seq rcv same w' unfolding update_data_def Let_def by simp
qed

lemma update_commit_new:
  assumes "update_commit w n uid = Some ((True, r), w')" and "w' \<noteq> w"
  shows "n = 7 \<and> u_state (w_rx w') = UPDATE_STATE_STAGED \<and> u_id (w_rx w') = u_id (w_rx w) \<and>
    r = reply_set (w_rx w') UPDATE_REPLY_STAGED 0 uid"
  using assms unfolding update_commit_def Let_def nack_def
  by (simp split: if_split_asm option.split_asm) auto

lemma update_commit_again:
  assumes "update_commit w n uid = Some ((True, r), w')"
  shows "update_commit w' n uid = Some ((True, r), w')"
proof (cases "w' = w")
  case True
  with assms show ?thesis by simp
next
  case False
  from update_commit_new [OF assms this] show ?thesis
    by (simp add: update_commit_def Let_def)
qed

lemma process_again:
  assumes wf: "update_wf w"
    and acc: "update_process w p n = Some ((True, r), w')" and op: "p ! 0 \<noteq> UPDATE_OP_ABORT"
  shows "update_process w' p n = Some ((True, r), w')"
proof -
  define uid where "uid = (if n \<ge> 5 then le32 p 1 else 0)"
  note crc = accepted_crc [OF acc]
  have n0: "n \<noteq> 0" using crc by (auto simp: word_less_nat_alt)
  show ?thesis
  proof (cases "p ! 0 = UPDATE_OP_BEGIN")
    case True
    have "update_process v p n = update_begin v p n uid" for v
      using True n0 crc by (simp add: update_process_def Let_def uid_def)
    with acc show ?thesis using update_begin_again by simp
  next
    case False
    have n7: "\<not> n < 7"
      using acc False n0 crc by (auto simp: update_process_def Let_def nack_def split: if_splits)
    have eq: "update_process v p n = (if u_state (w_rx v) = UPDATE_STATE_IDLE \<or> uid \<noteq> u_id (w_rx v)
        then nack v UPDATE_ERR_ID uid
        else if p ! 0 = UPDATE_OP_DATA then update_data v p n uid
        else if p ! 0 = UPDATE_OP_COMMIT then update_commit v n uid
        else nack v UPDATE_ERR_FORMAT uid)" for v
      using False n0 n7 crc op by (simp add: update_process_def Let_def uid_def)
    have ids: "\<not> (u_state (w_rx w) = UPDATE_STATE_IDLE \<or> uid \<noteq> u_id (w_rx w))"
      using acc by (auto simp: eq nack_def split: if_splits)
    show ?thesis
    proof (cases "p ! 0 = UPDATE_OP_DATA")
      case True
      then have d: "update_data w p n uid = Some ((True, r), w')" using acc ids by (simp add: eq)
      have "u_state (w_rx w') = u_state (w_rx w) \<and> u_id (w_rx w') = u_id (w_rx w)"
        using update_data_new [OF d] by (cases "w' = w") auto
      then show ?thesis using True ids update_data_again [OF wf _ d] crc by (simp add: eq)
    next
      case data: False
      then have c: "p ! 0 = UPDATE_OP_COMMIT" "update_commit w n uid = Some ((True, r), w')"
        using acc [unfolded eq] ids by (simp_all add: nack_def split: if_split_asm)
      then have "u_state (w_rx w') \<noteq> UPDATE_STATE_IDLE \<and> u_id (w_rx w') = uid"
        using update_commit_new [OF c(2)] ids by (cases "w' = w") auto
      then show ?thesis using c data update_commit_again [OF c(2)]
        by (simp add: eq [of w'])
    qed
  qed
qed

subsection \<open>A whole upload\<close>

text \<open>The sender's side: the messages of one upload, in the order the protocol asks for.\<close>

definition with_crc :: "u8 list \<Rightarrow> u8 list" where
  "with_crc body = body @ le16_bytes (update_crc16 body (of_nat (length body)))"

definition begin_msg :: "u32 \<Rightarrow> u8 list \<Rightarrow> u8 list" where
  "begin_msg uid img =
     with_crc (UPDATE_OP_BEGIN # le32_bytes uid @ le16_bytes (of_nat (length img)) @ sha_spec img)"

definition data_msg :: "u32 \<Rightarrow> u16 \<Rightarrow> u16 \<Rightarrow> u8 list \<Rightarrow> u8 list" where
  "data_msg uid seq off chunk =
     with_crc (UPDATE_OP_DATA # le32_bytes uid @ le16_bytes seq @ le16_bytes off
       @ of_nat (length chunk) # chunk)"

definition commit_msg :: "u32 \<Rightarrow> u8 list" where
  "commit_msg uid = with_crc (UPDATE_OP_COMMIT # le32_bytes uid)"

fun data_msgs :: "u32 \<Rightarrow> nat \<Rightarrow> nat \<Rightarrow> u8 list list \<Rightarrow> u8 list list" where
  "data_msgs uid seq off [] = []"
| "data_msgs uid seq off (c # cs) =
     data_msg uid (of_nat seq) (of_nat off) c # data_msgs uid (Suc seq) (off + length c) cs"

definition upload :: "u32 \<Rightarrow> u8 list list \<Rightarrow> u8 list list" where
  "upload uid cs =
     begin_msg uid (concat cs) # data_msgs uid 0 0 cs @ [commit_msg uid]"

lemma length_with_crc [simp]: "length (with_crc body) = length body + 2"
  by (simp add: with_crc_def)

lemma with_crc_prefix:
  "i + k \<le> length body \<Longrightarrow> take k (drop i (with_crc body)) = take k (drop i body)"
  by (simp add: with_crc_def)

lemma with_crc_nth: "i < length body \<Longrightarrow> with_crc body ! i = body ! i"
  by (simp add: with_crc_def nth_append)

lemma crc_ok_with_crc:
  assumes "length body + 2 < 2 ^ 32"
  shows "crc_ok (with_crc body) (of_nat (length body + 2))"
proof -
  have n: "of_nat (length body + 2) - 2 = (of_nat (length body) :: u32)" by simp
  have m: "unat (of_nat (length body) :: u32) = length body"
    using assms by (simp add: unat_of_nat take_bit_nat_eq_self)
  have "le16 (with_crc body) (length body) = update_crc16 body (of_nat (length body))"
    by (rule le16_le16_bytes) (simp add: with_crc_def)
  then show ?thesis
    by (simp add: crc_ok_def n m update_crc16_def with_crc_def del: of_nat_add)
qed

lemma le32_with_crc:
  "le32 (with_crc (x # le32_bytes uid @ rest)) 1 = uid"
  by (rule le32_le32_bytes) (simp add: with_crc_def)

lemma update_step_active:
  assumes body: "body = x # le32_bytes uid @ rest" "length body + 2 < 2 ^ 32"
    and x: "x \<noteq> UPDATE_OP_BEGIN" and rx: "u_state (w_rx w) = UPDATE_STATE_ACTIVE" "u_id (w_rx w) = uid"
  defines "n \<equiv> of_nat (length body + 2)"
  shows "update_step (with_crc body) w =
    (if x = UPDATE_OP_DATA then update_data w (with_crc body) n uid
     else if x = UPDATE_OP_COMMIT then update_commit w n uid
     else if x = UPDATE_OP_ABORT then update_abort w n uid
     else nack w UPDATE_ERR_FORMAT uid)"
proof -
  have un: "unat n = length body + 2"
    using body(2) unfolding n_def unat_of_nat by (simp add: take_bit_nat_eq_self)
  have "7 \<le> unat n" unfolding un body(1) by simp
  then have ns: "n \<noteq> 0" "\<not> n < 7" "5 \<le> n" by (auto simp: word_less_nat_alt word_le_nat_alt)
  have crc: "crc_ok (with_crc body) n" unfolding n_def by (rule crc_ok_with_crc [OF body(2)])
  have ops: "with_crc body ! 0 = x" "le32 (with_crc body) 1 = uid"
    using le32_with_crc [of x uid rest] with_crc_nth [of 0 body] body(1) by auto
  show ?thesis
    unfolding update_step_def update_process_def length_with_crc n_def [symmetric] Let_def
    using ns crc ops x rx un by (simp del: One_nat_def)
qed

definition sending :: "u32 \<Rightarrow> u8 list \<Rightarrow> u8 list \<Rightarrow> nat \<Rightarrow> update_world \<Rightarrow> bool" where
  "sending uid img sent seq w \<longleftrightarrow>
     update_wf w \<and> u_state (w_rx w) = UPDATE_STATE_ACTIVE \<and> u_id (w_rx w) = uid \<and>
     u_total (w_rx w) = of_nat (length img) \<and> u_sha (w_rx w) = sha_spec img \<and>
     u_received (w_rx w) = of_nat (length sent) \<and> u_next_seq (w_rx w) = of_nat seq \<and>
     take (length sent) (w_pend w) = sent"

lemma u16_nat: "n \<le> 552 \<Longrightarrow> unat (of_nat n :: u16) = n"
  by (simp add: unat_of_nat take_bit_nat_eq_self)

lemma begin_step:
  assumes wf: "update_wf w" and rx: "u_state (w_rx w) = UPDATE_STATE_IDLE"
    "w_magic w \<noteq> UPDATE_PEND_MAGIC" and uid: "uid \<noteq> 0" and img: "48 \<le> length img" "length img \<le> 552"
  shows "\<exists>r w'. update_step (begin_msg uid img) w = Some ((True, r), w') \<and> sending uid img [] 0 w'"
proof -
  define body where "body = UPDATE_OP_BEGIN # le32_bytes uid @ le16_bytes (of_nat (length img)) @ sha_spec img"
  have len: "length body = 39" by (simp add: body_def length_sha_spec)
  have crc: "crc_ok (with_crc body) 41" using crc_ok_with_crc [of body] by (simp add: len)
  have uid': "le32 (with_crc body) 1 = uid" unfolding body_def by (rule le32_with_crc)
  have total: "le16 (with_crc body) 5 = of_nat (length img)"
    by (rule le16_le16_bytes)
      (simp add: with_crc_def body_def le32_bytes_def le16_bytes_def)
  have sha: "take 32 (drop 7 (with_crc body)) = sha_spec img"
    by (simp add: with_crc_def body_def le32_bytes_def le16_bytes_def length_sha_spec)
  have op: "with_crc body ! 0 = UPDATE_OP_BEGIN" by (simp add: with_crc_def body_def)
  have t: "\<not> (of_nat (length img) :: u16) < 48" "\<not> (of_nat (length img) :: u16) > UPDATE_MAX_IMAGE"
    using img by (simp_all add: word_less_nat_alt u16_nat update_consts)
  let ?rx = "update_reset\<lparr>u_id := uid, u_total := of_nat (length img), u_sha := sha_spec img,
      u_state := UPDATE_STATE_ACTIVE\<rparr>"
  have "update_begin w (with_crc body) 41 uid =
      Some ((True, reply_set ?rx UPDATE_ACK 0 uid), w\<lparr>w_rx := ?rx, w_magic := 0\<rparr>)"
    using crc total sha uid t rx unfolding update_begin_def Let_def by simp
  moreover have "update_step (with_crc body) w = update_begin w (with_crc body) 41 uid"
    unfolding update_step_def update_process_def Let_def using op uid' by (simp add: len del: One_nat_def)
  moreover have "sending uid img [] 0 (w\<lparr>w_rx := ?rx, w_magic := 0\<rparr>)"
    using update_wf_fresh [OF wf uid t length_sha_spec]
    by (simp add: sending_def update_reset_def)
  ultimately show ?thesis by (auto simp: begin_msg_def body_def)
qed

lemma data_step:
  assumes snd: "sending uid img sent seq w" and c: "c \<noteq> []" "length c \<le> 64"
    and fit: "length sent + length c \<le> length img" "length img \<le> 552"
  shows "\<exists>r w'. update_step (data_msg uid (of_nat seq) (of_nat (length sent)) c) w = Some ((True, r), w') \<and>
    sending uid img (sent @ c) (Suc seq) w'"
proof -
  define body where "body = UPDATE_OP_DATA # le32_bytes uid @ le16_bytes (of_nat seq) @
    le16_bytes (of_nat (length sent)) @ of_nat (length c) # c"
  let ?p = "with_crc body" and ?n = "12 + of_nat (length c) :: u32" and ?rx = "w_rx w"
  have len: "length body = 10 + length c" by (simp add: body_def)
  have ulen: "unat (of_nat (length c) :: u8) = length c"
    using c by (simp add: unat_of_nat take_bit_nat_eq_self)
  have fields: "le16 ?p 5 = of_nat seq" "le16 ?p 7 = of_nat (length sent)"
    by (rule le16_le16_bytes, simp add: with_crc_def body_def le32_bytes_def le16_bytes_def)+
  have p9: "?p ! 9 = of_nat (length c)" and chunk: "take (length c) (drop 10 ?p) = c"
    by (simp_all add: with_crc_def body_def le32_bytes_def le16_bytes_def)
  have w: "update_wf w" "u_state ?rx = UPDATE_STATE_ACTIVE" "u_id ?rx = uid"
    "u_total ?rx = of_nat (length img)" "u_received ?rx = of_nat (length sent)"
    "u_next_seq ?rx = of_nat seq" "take (length sent) (w_pend w) = sent"
    using snd by (auto simp: sending_def)
  have pend: "552 \<le> length (w_pend w)" using w(1) by (simp add: update_wf_def)
  have nums: "(of_nat (length c) :: u8) \<noteq> 0" "\<not> (of_nat (length c) :: u8) > UPDATE_MAX_CHUNK"
    "?n = 12 + ucast (of_nat (length c) :: u8)" "\<not> ?n < 12"
    "\<not> (ucast (of_nat (length sent) :: u16) :: u32) + ucast (of_nat (length c) :: u8) > ucast (u_total ?rx)"
    using c fit ulen
    by (simp_all add: word_less_nat_alt word_unat_eq_iff update_consts unat_word_ariths unat_ucast_up
        u16_nat w(4) unat_of_nat take_bit_nat_eq_self)
  let ?rx' = "?rx\<lparr>u_received := u_received ?rx + ucast (of_nat (length c) :: u8),
      u_next_seq := u_next_seq ?rx + 1\<rparr>"
  let ?w' = "w\<lparr>w_rx := ?rx', w_pend := blit (length sent) c (w_pend w)\<rparr>"
  have "update_step ?p w = update_data w ?p ?n uid"
    using update_step_active [of body UPDATE_OP_DATA uid _ w, OF body_def _ _ w(2,3)] c
    by (simp add: len update_consts add.commute)
  moreover have data: "update_data w ?p ?n uid = Some ((True, reply_set ?rx' UPDATE_ACK 0 uid), ?w')"
    using nums fields p9 chunk w ulen fit pend
    unfolding update_data_def Let_def by (simp add: u16_nat)
  moreover have "update_wf ?w'"
    using update_data_fine [OF w(1), of ?n ?p uid] data c
    by (simp add: len unat_word_ariths unat_of_nat take_bit_nat_eq_self)
  moreover have "take (length sent + length c) (blit (length sent) c (w_pend w)) = sent @ c"
    using w(7) fit pend by (simp add: blit_def)
  moreover have "(ucast (of_nat (length c) :: u8) :: u16) = of_nat (length c)"
    using ulen c by (simp add: word_unat_eq_iff unat_ucast_up u16_nat)
  ultimately show ?thesis
    using snd by (auto simp: data_msg_def body_def sending_def add.commute)
qed

lemma commit_step:
  assumes snd: "sending uid img img seq w" and img: "length img \<le> 552"
  shows "\<exists>r w'. update_step (commit_msg uid) w = Some ((True, r), w') \<and> update_wf w' \<and>
    u_state (w_rx w') = UPDATE_STATE_STAGED \<and> u_id (w_rx w') = uid \<and> w_pend w' = w_pend w \<and>
    w_magic w' = UPDATE_PEND_MAGIC"
proof -
  have w: "update_wf w" "u_state (w_rx w) = UPDATE_STATE_ACTIVE" "u_id (w_rx w) = uid"
    using snd by (auto simp: sending_def)
  have total: "unat (u_total (w_rx w)) = length img" using snd img by (simp add: sending_def u16_nat)
  have "length img \<le> length (w_pend w)" using w(1) img by (simp add: update_wf_def)
  then have sha: "sha256 (w_pend w) (ucast (u_total (w_rx w))) = Some (u_sha (w_rx w))"
    and "\<not> length (w_pend w) < unat (u_total (w_rx w))"
    using sha256_eq [of "ucast (u_total (w_rx w))" "w_pend w"] snd total img
    by (simp_all add: unat_ucast_up sending_def)
  then have com: "update_commit w 7 uid = Some ((True, reply_set ((w_rx w)\<lparr>u_state := UPDATE_STATE_STAGED\<rparr>)
      UPDATE_REPLY_STAGED 0 uid), w\<lparr>w_rx := (w_rx w)\<lparr>u_state := UPDATE_STATE_STAGED\<rparr>, w_magic := UPDATE_PEND_MAGIC\<rparr>)"
    using snd by (simp add: update_commit_def Let_def sending_def)
  moreover have "update_step (commit_msg uid) w = update_commit w 7 uid"
    using update_step_active [of "UPDATE_OP_COMMIT # le32_bytes uid" UPDATE_OP_COMMIT uid "[]" w, OF _ _ _ w(2,3)]
    by (simp add: commit_msg_def update_consts)
  ultimately show ?thesis
    using update_commit_fine [OF w(1), of 7 uid] w(3) by simp
qed

subsection \<open>Lost replies\<close>

text \<open>Every message is sent a positive number of times before its reply gets through.\<close>

definition resend :: "nat list \<Rightarrow> u8 list list \<Rightarrow> u8 list list" where
  "resend ns msgs = concat (map2 replicate ns msgs)"

lemma msg_op [simp]:
  "begin_msg uid img ! 0 \<noteq> UPDATE_OP_ABORT" "data_msg uid s off c ! 0 \<noteq> UPDATE_OP_ABORT"
  "commit_msg uid ! 0 \<noteq> UPDATE_OP_ABORT"
  by (simp_all add: begin_msg_def data_msg_def commit_msg_def with_crc_def update_consts)

lemma step_again:
  assumes "update_wf w" "update_step m w = Some ((True, r), w')" "m ! 0 \<noteq> UPDATE_OP_ABORT"
  shows "run_steps update_step (replicate n m) w' = Some (replicate n (True, r), w')"
  using process_again [OF assms(1) assms(2) [unfolded update_step_def] assms(3)]
  by (induction n) (simp_all add: update_step_def)

lemma resend_Cons:
  assumes "update_wf w" "update_step m w = Some ((True, r), w')" "m ! 0 \<noteq> UPDATE_OP_ABORT" "0 < n"
    and rest: "run_steps update_step (resend ns ms) w' = Some (outs, w'')" "\<forall>out \<in> set outs. fst out"
  shows "\<exists>outs'. run_steps update_step (resend (n # ns) (m # ms)) w = Some (outs', w'') \<and>
    (\<forall>out \<in> set outs'. fst out)"
proof -
  obtain k where "n = Suc k" using \<open>0 < n\<close> by (cases n) auto
  then show ?thesis
    using step_again [OF assms(1-3), of k] assms(2) rest
    by (auto simp: resend_def run_steps_append)
qed

definition staged :: "u32 \<Rightarrow> u8 list \<Rightarrow> update_world \<Rightarrow> bool" where
  "staged uid img w \<longleftrightarrow>
     u_state (w_rx w) = UPDATE_STATE_STAGED \<and> u_id (w_rx w) = uid \<and>
     take (length img) (w_pend w) = img \<and> w_magic w = UPDATE_PEND_MAGIC"

lemma data_phase:
  assumes "sending uid img sent seq w" "img = sent @ concat cs" "length img \<le> 552"
    and "\<forall>c \<in> set cs. c \<noteq> [] \<and> length c \<le> 64"
    and "length ns = Suc (length cs)" "\<forall>n \<in> set ns. 0 < n"
  shows "\<exists>outs w'. run_steps update_step
      (resend ns (data_msgs uid seq (length sent) cs @ [commit_msg uid])) w = Some (outs, w') \<and>
    (\<forall>out \<in> set outs. fst out) \<and> staged uid img w'"
  using assms
proof (induction cs arbitrary: sent seq w ns)
  case Nil
  then obtain n where ns: "ns = [n]" "0 < n" by (cases ns) auto
  have snd: "sending uid img img seq w" using Nil.prems by simp
  from commit_step [OF this Nil.prems(3)] obtain r w' where com:
    "update_step (commit_msg uid) w = Some ((True, r), w')" "u_state (w_rx w') = UPDATE_STATE_STAGED"
    "u_id (w_rx w') = uid" "w_pend w' = w_pend w" "w_magic w' = UPDATE_PEND_MAGIC" by blast
  have "staged uid img w'" using com snd by (simp add: staged_def sending_def)
  then show ?case
    using resend_Cons [OF _ com(1) msg_op(3) ns(2), of "[]" "[]" "[]" w'] snd ns
    by (fastforce simp: resend_def sending_def)
next
  case (Cons c cs)
  then obtain n ms where ns: "ns = n # ms" "0 < n" "length ms = Suc (length cs)" "\<forall>n \<in> set ms. 0 < n"
    by (cases ns) auto
  have c: "c \<noteq> []" "length c \<le> 64" "length sent + length c \<le> length img"
    using Cons.prems by auto
  from data_step [OF Cons.prems(1) c Cons.prems(3)] obtain r w1 where d:
    "update_step (data_msg uid (of_nat seq) (of_nat (length sent)) c) w = Some ((True, r), w1)"
    "sending uid img (sent @ c) (Suc seq) w1" by blast
  have "\<exists>outs w'. run_steps update_step
      (resend ms (data_msgs uid (Suc seq) (length (sent @ c)) cs @ [commit_msg uid])) w1 = Some (outs, w') \<and>
    (\<forall>out \<in> set outs. fst out) \<and> staged uid img w'"
    using Cons.prems d(2) ns by (intro Cons.IH) auto
  then obtain outs w' where rest: "run_steps update_step
      (resend ms (data_msgs uid (Suc seq) (length (sent @ c)) cs @ [commit_msg uid])) w1 = Some (outs, w')"
    "\<forall>out \<in> set outs. fst out" "staged uid img w'" by blast
  have wf: "update_wf w" using Cons.prems(1) by (simp add: sending_def)
  from resend_Cons [OF wf d(1) msg_op(2) ns(2) rest(1,2)] rest(3) show ?case
    unfolding ns by auto
qed

text \<open>
  C19: an upload succeeds.  From IDLE with no image waiting, BEGIN, the DATA chunks of at most 64
  bytes in order, and COMMIT, each sent any positive number of times (its reply may be lost), are
  all accepted, and they leave the transaction STAGED with exactly the sender's bytes in the
  pending area and the magic word set, for every image of 48 to 552 bytes.
\<close>

theorem update_delivers:
  assumes "update_wf w" "u_state (w_rx w) = UPDATE_STATE_IDLE" "w_magic w \<noteq> UPDATE_PEND_MAGIC"
    and "uid \<noteq> 0" "48 \<le> length (concat cs)" "length (concat cs) \<le> 552"
    and "\<forall>c \<in> set cs. c \<noteq> [] \<and> length c \<le> 64"
    and "length ns = length (upload uid cs)" "\<forall>n \<in> set ns. 0 < n"
  shows "\<exists>outs w'. run_steps update_step (resend ns (upload uid cs)) w = Some (outs, w') \<and>
    (\<forall>out \<in> set outs. fst out) \<and> u_state (w_rx w') = UPDATE_STATE_STAGED \<and>
    u_id (w_rx w') = uid \<and> take (length (concat cs)) (w_pend w') = concat cs \<and>
    w_magic w' = UPDATE_PEND_MAGIC"
proof -
  have dl: "length (data_msgs uid seq off cs) = length cs" for seq off
    by (induction cs arbitrary: seq off) auto
  obtain n ms where ns: "ns = n # ms" "0 < n" "length ms = Suc (length cs)" "\<forall>n \<in> set ms. 0 < n"
    using assms(8,9) by (cases ns) (auto simp: upload_def dl)
  from begin_step [OF assms(1-6)] obtain r w1 where b:
    "update_step (begin_msg uid (concat cs)) w = Some ((True, r), w1)" "sending uid (concat cs) [] 0 w1"
    by blast
  from data_phase [OF b(2) _ assms(6,7) ns(3,4)] obtain outs w' where rest:
    "run_steps update_step (resend ms (data_msgs uid 0 0 cs @ [commit_msg uid])) w1 = Some (outs, w')"
    "\<forall>out \<in> set outs. fst out" "staged uid (concat cs) w'" by auto
  from resend_Cons [OF assms(1) b(1) msg_op(1) ns(2) rest(1,2)] rest(3) show ?thesis
    unfolding ns upload_def staged_def by auto
qed

theorem update_delivers_witness:
  "\<exists>outs w'. run_steps update_step (resend [1, 2, 1] (upload 7 [replicate 48 1]))
      \<lparr>w_rx = update_reset, w_pend = replicate 552 0, w_magic = 0\<rparr> = Some (outs, w') \<and>
    (\<forall>out \<in> set outs. fst out) \<and> u_state (w_rx w') = UPDATE_STATE_STAGED \<and> u_id (w_rx w') = 7 \<and>
    take (length (concat [replicate 48 (1::u8)])) (w_pend w') = concat [replicate 48 1] \<and>
    w_magic w' = UPDATE_PEND_MAGIC"
  by (rule update_delivers)
    (simp_all add: update_wf_def update_reset_def update_consts upload_def)

subsection \<open>Single messages\<close>

lemma begin_example:
  "\<exists>r w'. update_process \<lparr>w_rx = update_reset, w_pend = replicate 552 0, w_magic = 0\<rparr>
      (begin_msg 7 (replicate 48 1)) 41 = Some ((True, r), w')"
  using begin_step [of "\<lparr>w_rx = update_reset, w_pend = replicate 552 0, w_magic = 0\<rparr>" 7 "replicate 48 1"]
  by (auto simp: update_wf_def update_reset_def update_consts update_step_def begin_msg_def length_sha_spec)

text \<open>
  C34: an update message that was accepted is refused, whatever the state of the transaction,
  when any one byte of it is changed on the way: the CRC-16 catches it, and the transaction,
  the pending area and the magic word stay as they were.
\<close>

theorem update_detects_corruption:
  assumes "update_process w p n = Some ((True, r), w')" and "k < unat n" and "b \<noteq> p ! k"
  shows "\<exists>r'. update_process v (p[k := b]) n = Some ((False, r'), v) \<and> rep_code r' = UPDATE_NACK"
proof -
  have "\<not> crc_ok (p[k := b]) n"
    using accepted_crc [OF assms(1)] crc_single_byte assms(2,3) by blast
  then show ?thesis
    using crc_refused [of n "p[k := b]" v] accepted_crc [OF assms(1)]
    by (simp add: refused_def)
qed

theorem update_detects_corruption_witness:
  "\<exists>r'. update_process \<lparr>w_rx = update_reset, w_pend = [], w_magic = 5\<rparr>
      ((begin_msg 7 (replicate 48 1))[3 := 9]) 41 =
        Some ((False, r'), \<lparr>w_rx = update_reset, w_pend = [], w_magic = 5\<rparr>) \<and> rep_code r' = UPDATE_NACK"
proof -
  obtain r w' where "update_process \<lparr>w_rx = update_reset, w_pend = replicate 552 0, w_magic = 0\<rparr>
      (begin_msg 7 (replicate 48 1)) 41 = Some ((True, r), w')" using begin_example by blast
  then show ?thesis
    by (rule update_detects_corruption) (simp_all add: begin_msg_def with_crc_def le32_bytes_def)
qed

text \<open>
  Retransmission is harmless: an accepted BEGIN, DATA or COMMIT that arrives again (its reply
  was lost) gets the same reply and changes nothing.
\<close>

theorem update_idempotent:
  assumes "update_wf w" and "update_process w p n = Some ((True, r), w')"
    and "p ! 0 \<noteq> UPDATE_OP_ABORT"
  shows "update_process w' p n = Some ((True, r), w')"
  using assms by (rule process_again)

theorem update_idempotent_witness:
  "\<exists>r w'. update_process w' (begin_msg 7 (replicate 48 1)) 41 = Some ((True, r), w')"
proof -
  obtain r w' where acc: "update_process \<lparr>w_rx = update_reset, w_pend = replicate 552 0, w_magic = 0\<rparr>
      (begin_msg 7 (replicate 48 1)) 41 = Some ((True, r), w')" using begin_example by blast
  have "update_process w' (begin_msg 7 (replicate 48 1)) 41 = Some ((True, r), w')"
  proof (rule update_idempotent [OF _ acc])
    show "begin_msg 7 (replicate 48 1) ! 0 \<noteq> UPDATE_OP_ABORT" by (rule msg_op)
  qed (simp add: update_wf_def update_reset_def update_consts)
  then show ?thesis by blast
qed

end
