(* ===== verification/Console.thy ===== *)
theory Console
  imports Prelude
begin

text \<open>
  The text output of \<^verbatim>\<open>core/uart.c\<close> (\<open>uart_puts\<close>, \<open>uart_puthex\<close>, \<open>uart_putdec\<close>) as the bytes it sends, and the
  board's virtual wire: the receive ring that \<open>uart_getc\<close> drains before the peripheral and the
  ring into which \<open>uart_tap\<close> copies what is sent.
\<close>

subsection \<open>Numbers\<close>

definition hex_char :: "u8 \<Rightarrow> u8" where
  "hex_char n = (if n < 10 then 48 + n else 97 + n - 10)"

definition uart_puthex :: "u32 \<Rightarrow> u8 list" where
  "uart_puthex v = map (\<lambda>i. hex_char (ucast (drop_bit i v AND 0xF))) [28, 24, 20, 16, 12, 8, 4, 0]"

text \<open>The buffer \<^verbatim>\<open>b\<close> of \<^verbatim>\<open>uart_putdec\<close>, least significant digit first.\<close>

function dec_digits :: "u32 \<Rightarrow> u8 list" where
  "dec_digits v = (48 + ucast (v mod 10)) # (if v div 10 = 0 then [] else dec_digits (v div 10))"
  by auto
termination
proof (relation "measure unat")
  fix v :: u32 assume "v div 10 \<noteq> 0"
  then have "unat v div 10 \<noteq> 0" by (simp add: word_unat_eq_iff unat_div)
  then show "(v div 10, v) \<in> measure unat" by (simp add: unat_div)
qed simp

declare dec_digits.simps [simp del]

definition uart_putdec :: "u32 \<Rightarrow> u8 list" where
  "uart_putdec v = rev (dec_digits v)"

text \<open>A constant text, one byte per character.\<close>

definition uart_puts :: "string \<Rightarrow> u8 list" where
  "uart_puts s = map of_char s"

definition parse_digits :: "nat \<Rightarrow> (u8 \<Rightarrow> nat) \<Rightarrow> u8 list \<Rightarrow> nat" where
  "parse_digits base val bs = foldl (\<lambda>n b. base * n + val b) 0 bs"

definition hex_val :: "u8 \<Rightarrow> nat" where
  "hex_val b = (if b < 58 then unat b - 48 else unat b - 87)"

lemma parse_digits_snoc: "parse_digits base val (bs @ [b]) = base * parse_digits base val bs + val b"
  by (simp add: parse_digits_def)

lemma dec_digits_spec:
  "parse_digits 10 (\<lambda>b. unat b - 48) (rev (dec_digits v)) = unat v \<and>
   (\<forall>b \<in> set (dec_digits v). 48 \<le> b \<and> b \<le> 57) \<and>
   (unat v < 10 ^ n \<longrightarrow> 0 < n \<longrightarrow> length (dec_digits v) \<le> n)"
proof (induction v arbitrary: n rule: dec_digits.induct)
  case (1 v)
  have m: "unat (v mod 10) < 10" by (simp add: unat_mod)
  then have d: "unat (48 + ucast (v mod 10) :: u8) = 48 + unat (v mod 10)"
    by (simp add: unat_word_ariths unsigned_ucast_eq take_bit_nat_def)
  then have b: "48 \<le> (48 + ucast (v mod 10) :: u8)" "(48 + ucast (v mod 10) :: u8) \<le> 57"
    using m by (simp_all add: word_le_nat_alt)
  have v: "unat v = 10 * unat (v div 10) + unat (v mod 10)" by (simp add: unat_div unat_mod)
  show ?case
  proof (cases "v div 10 = 0")
    case True
    then have "dec_digits v = [48 + ucast (v mod 10)]" by (simp add: dec_digits.simps [of v])
    then show ?thesis using b d v True by (simp add: parse_digits_def)
  next
    case False
    note ih = "1.IH" [OF False]
    have e: "dec_digits v = (48 + ucast (v mod 10)) # dec_digits (v div 10)"
      using False by (simp add: dec_digits.simps [of v])
    have "0 < unat (v div 10)" using False by (simp add: unat_gt_0)
    have "length (dec_digits v) \<le> n" if n: "unat v < 10 ^ n" "0 < n"
    proof -
      obtain k where k: "n = Suc k" using n(2) by (cases n) auto
      with n(1) v have lt: "unat (v div 10) < 10 ^ k" by simp
      then have "0 < k" using \<open>0 < unat (v div 10)\<close> by (cases k) auto
      with ih [of k] lt show ?thesis by (simp add: e k)
    qed
    moreover have "parse_digits 10 (\<lambda>b. unat b - 48) (rev (dec_digits v)) = unat v"
      unfolding e using ih d v by (simp add: parse_digits_snoc)
    ultimately show ?thesis using ih b by (simp add: e)
  qed
qed

lemma hex_char_val: "n < 16 \<Longrightarrow> hex_val (hex_char n) = unat n"
proof -
  assume "n < 16"
  then have "unat n \<in> set [0, 1, 2, 3, 4, 5, 6, 7, 8, 9, 10, 11, 12, 13, 14, 15]"
    by (simp add: word_less_nat_alt) presburger
  then have "n \<in> set (map word_of_nat [0, 1, 2, 3, 4, 5, 6, 7, 8, 9, 10, 11, 12, 13, 14, 15])"
    by (auto intro!: word_unat_eq_iff [THEN iffD2])
  then show ?thesis by (auto simp: hex_val_def hex_char_def)
qed

lemma nibble: "hex_val (hex_char (ucast (drop_bit i (v :: u32) AND 0xF))) = unat v div 2 ^ i mod 16"
proof -
  have "drop_bit i v AND 0xF = take_bit 4 (drop_bit i v)" by (simp add: take_bit_eq_mask mask_eq_exp_minus_1)
  moreover have "unat v < 4294967296" using unsigned_less [of v] by simp
  ultimately have n: "unat (drop_bit i v AND 0xF) = unat v div 2 ^ i mod 16"
    by (simp only: unsigned_take_bit_eq unsigned_drop_bit_eq) (simp add: take_bit_nat_def drop_bit_nat_def)
  have "unat v div 2 ^ i mod 16 < 16" by simp
  then have u: "unat (ucast (drop_bit i v AND 0xF) :: u8) = unat v div 2 ^ i mod 16"
    using n by (simp add: unsigned_ucast_eq take_bit_nat_eq_self)
  then have "(ucast (drop_bit i v AND 0xF) :: u8) < 16" by (simp add: word_less_nat_alt)
  with u show ?thesis by (simp add: hex_char_val)
qed

lemma nibble_step: "16 * (x div 2 ^ (i + 4)) + x div 2 ^ i mod 16 = x div (2 ^ i :: nat)"
proof -
  have "x div 2 ^ (i + 4) = x div 2 ^ i div 16" by (simp add: power_add div_mult2_eq)
  then show ?thesis by simp
qed

text \<open>
  The numbers on the console can be read back: \<open>uart_putdec\<close> sends at most ten digits, so its
  11-byte buffer suffices, and they denote the number; \<open>uart_puthex\<close> sends eight hexadecimal digits
  that denote it.
\<close>

theorem console_numbers_roundtrip:
  "parse_digits 10 (\<lambda>b. unat b - 48) (uart_putdec v) = unat v \<and> length (uart_putdec v) \<le> 10 \<and>
   parse_digits 16 hex_val (uart_puthex v) = unat v \<and> length (uart_puthex v) = 8"
proof -
  have lt: "unat v < 2 ^ 32" using unsigned_less [of v] by simp
  then have "length (dec_digits v) \<le> 10"
    using dec_digits_spec [of v 10] by simp
  moreover have top: "unat v div 2 ^ 28 mod 16 = unat v div 2 ^ 28"
    using lt by simp
  then have "parse_digits 16 hex_val (uart_puthex v) = unat v"
    using nibble_step [of "unat v" 24] nibble_step [of "unat v" 20] nibble_step [of "unat v" 16]
      nibble_step [of "unat v" 12] nibble_step [of "unat v" 8] nibble_step [of "unat v" 4]
      nibble_step [of "unat v" 0] nibble [of 0 v]
    by (simp add: uart_puthex_def parse_digits_def nibble)
  ultimately show ?thesis
    using dec_digits_spec [of v 10] by (simp add: uart_putdec_def uart_puthex_def)
qed

subsection \<open>The virtual wire\<close>

definition VU_MAGIC :: u32 where "VU_MAGIC = 0x54524156"

record vuart =
  vu_magic :: u32
  rx_wr :: u32
  rx_rd :: u32
  vu_flags :: u32
  tx_wr :: u32
  tx_rd :: u32
  vu_rx :: "u8 list"
  vu_tx :: "u8 list"

definition uart_tap :: "u8 \<Rightarrow> vuart \<Rightarrow> vuart" where
  "uart_tap c w =
     (if vu_magic w \<noteq> VU_MAGIC \<or> vu_flags w AND 1 = 0 then w
      else if tx_wr w - tx_rd w < 1024 then
        w\<lparr>vu_tx := (vu_tx w)[unat (tx_wr w AND 1023) := c], tx_wr := tx_wr w + 1\<rparr>
      else w)"

text \<open>\<^verbatim>\<open>uart_getc\<close> on the board: the ring first, then what the peripheral holds (\<open>None\<close>: nothing).\<close>

definition uart_getc :: "u8 option \<Rightarrow> vuart \<Rightarrow> u8 option \<times> vuart" where
  "uart_getc periph w =
     (if vu_magic w = VU_MAGIC \<and> rx_rd w < rx_wr w
      then (Some (vu_rx w ! unat (rx_rd w AND 1023)), w\<lparr>rx_rd := rx_rd w + 1\<rparr>)
      else (periph, w))"

text \<open>The bytes the host has not drained, oldest first.\<close>

definition tap_pending :: "vuart \<Rightarrow> u8 list" where
  "tap_pending w =
     map (\<lambda>i. vu_tx w ! unat ((tx_rd w + word_of_nat i) AND 1023)) [0..<unat (tx_wr w - tx_rd w)]"

lemma ring_index_less [simp]: "unat (x AND 1023 :: u32) < 1024"
proof -
  have "unat (x AND 1023) \<le> unat (1023 :: u32)"
    unfolding word_le_nat_alt [symmetric] by (rule word_and_le1)
  then show ?thesis by simp
qed

lemma ring_index_mod: "unat (x AND 1023 :: u32) = unat x mod 1024"
proof -
  have "x AND 1023 = take_bit 10 x" by (simp add: take_bit_eq_mask mask_eq_exp_minus_1)
  then show ?thesis by (simp add: unsigned_take_bit_eq take_bit_nat_def)
qed

lemma ring_index_inj:
  assumes "i < j" "j < i + 1024"
  shows "unat ((r + word_of_nat i) AND 1023 :: u32) \<noteq> unat ((r + word_of_nat j) AND 1023)"
proof
  assume eq: "unat ((r + word_of_nat i) AND 1023) = unat ((r + word_of_nat j) AND 1023)"
  have m: "unat (r + word_of_nat k) mod 1024 = (unat r + k) mod 1024" for k
    by (simp add: unat_word_ariths unat_of_nat mod_mod_cancel mod_simps take_bit_nat_def)
  have "(unat r + i) mod 1024 = (unat r + j) mod 1024" using eq by (simp add: ring_index_mod m)
  then have "1024 dvd (unat r + j) - (unat r + i)" using assms(1) by (metis mod_eq_dvd_iff_nat less_or_eq_imp_le nat_add_left_cancel_le)
  then have "1024 dvd j - i" by simp
  then show False using assms by (auto dest: dvd_imp_le)
qed

text \<open>
  The transmit tap is a queue of 1024 bytes.  With the tap on, a sent byte is appended to
  the undrained bytes when there is room and dropped when there is none; a byte that is waiting is
  never overwritten, also when the counters wrap.
\<close>

theorem tap_is_a_queue:
  assumes "length (vu_tx w) = 1024" "vu_magic w = VU_MAGIC" "vu_flags w AND 1 \<noteq> 0"
    and "length (tap_pending w) \<le> 1024"
  shows "tap_pending (uart_tap c w) =
      (if length (tap_pending w) < 1024 then tap_pending w @ [c] else tap_pending w) \<and>
    length (vu_tx (uart_tap c w)) = 1024"
proof (cases "tx_wr w - tx_rd w < 1024")
  case True
  let ?n = "unat (tx_wr w - tx_rd w)" and ?r = "tx_rd w"
  have n: "?n < 1024" using True by (simp add: word_less_nat_alt)
  have wr: "tx_wr w = ?r + word_of_nat ?n" by simp
  have "unat (tx_wr w + 1 - ?r) = unat (tx_wr w - ?r + 1)" by (simp add: algebra_simps)
  also have "\<dots> = Suc ?n" using n by (simp add: unat_word_ariths)
  finally have n': "unat (tx_wr w + 1 - ?r) = Suc ?n" .
  have old: "(vu_tx w)[unat (tx_wr w AND 1023) := c] ! unat ((?r + word_of_nat i) AND 1023) =
      vu_tx w ! unat ((?r + word_of_nat i) AND 1023)" if "i < ?n" for i
    using ring_index_inj [of i ?n ?r] that n wr by simp
  have "tap_pending (uart_tap c w) = tap_pending w @ [c]"
    using True assms(1-3) old by (simp add: uart_tap_def tap_pending_def n')
  then show ?thesis using assms(1) n True assms(2,3) by (simp add: tap_pending_def uart_tap_def)
next
  case False
  then show ?thesis using assms by (simp add: uart_tap_def tap_pending_def word_less_nat_alt)
qed

theorem tap_is_a_queue_witness:
  "tap_pending (uart_tap 7 \<lparr>vu_magic = VU_MAGIC, rx_wr = 0, rx_rd = 0, vu_flags = 1, tx_wr = 0,
     tx_rd = 0xFFFFFFFF, vu_rx = [], vu_tx = replicate 1024 3\<rparr>) = [3, 7]"
proof -
  let ?w = "\<lparr>vu_magic = VU_MAGIC, rx_wr = 0, rx_rd = 0, vu_flags = 1, tx_wr = 0,
     tx_rd = 0xFFFFFFFF, vu_rx = [], vu_tx = replicate 1024 3\<rparr> :: vuart"
  have "tap_pending ?w = [3]" by (simp add: tap_pending_def)
  then show ?thesis using tap_is_a_queue [of ?w 7] by simp
qed

end
