(* ===== verification/Supervisor.thy ===== *)
theory Supervisor
  imports Boot Monitor Frame Update Console
begin

text \<open>
  The supervisor's state and its schedule, \<^verbatim>\<open>modules/supervisor.c\<close>: one round from the wiring of the
  compartments (\<open>schedule_round\<close>) over the phases (\<open>supervisor_resume\<close>, \<open>supervisor_fault\<close>) to
  \<open>native_done\<close>.  A function that hands the CPU over returns a value of \<open>ctl\<close>, which says to whom.
\<close>

subsection \<open>Packets and constants\<close>

definition PKT_GPI :: "u8 list" where
  "PKT_GPI =
    [0xfd, 0x1e, 0, 0, 1, 2, 3, 0x21, 0, 0, 0x80, 0x2f, 0x77, 0x12, 0x60, 0x2e, 0x36, 7,
     0x50, 0xc3, 0, 0, 0x64, 0, 0, 0, 0, 0, 0, 0, 0, 0, 0, 0, 0, 0, 0, 0, 0xff, 0xff,
     0xab, 0xcd]"

definition PKT_HB :: "u8 list" where
  "PKT_HB =
    [0xfd, 9, 0, 0, 2, 2, 3, 0, 0, 0, 1, 3, 0, 0, 0, 0, 3, 3, 0, 0xaa, 0xbb]"

definition PKT_BADMAGIC :: "u8 list" where
  "PKT_BADMAGIC =
    [0xfe, 0x1e, 0, 0, 1, 2, 3, 0x21, 0, 0, 0x80, 0x2f, 0x77, 0x12, 0x60, 0x2e, 0x36, 7,
     0x50, 0xc3, 0, 0, 0x64, 0, 0, 0, 0, 0, 0, 0, 0, 0, 0, 0, 0, 0, 0, 0, 0xff, 0xff] @ replicate 2 0"

definition PKT_BADMSGID :: "u8 list" where
  "PKT_BADMSGID =
    [0xfd, 0x1e, 0, 0, 1, 2, 3, 0x64, 0, 0, 0x80, 0x2f, 0x77, 0x12, 0x60, 0x2e, 0x36, 7,
     0x50, 0xc3, 0, 0, 0x64, 0, 0, 0, 0, 0, 0, 0, 0, 0, 0, 0, 0, 0, 0, 0, 0xff, 0xff] @ replicate 2 0"

definition PKT_BIGLEN :: "u8 list" where
  "PKT_BIGLEN =
    [0xfd, 0xfa, 0, 0, 1, 2, 3, 0x21, 0, 0, 0x80, 0x2f, 0x77, 0x12, 0x60, 0x2e, 0x36, 7,
     0x50, 0xc3, 0, 0, 0x64, 0, 0, 0, 0, 0, 0, 0, 0, 0, 0, 0, 0, 0, 0, 0, 0xff, 0xff] @ replicate 2 0"

definition PKT_BADLAT :: "u8 list" where
  "PKT_BADLAT =
    [0xfd, 0x1e, 0, 0, 1, 2, 3, 0x21, 0, 0, 0, 0x2f, 0x68, 0x59, 0x60, 0x2e, 0x36, 7,
     0x50, 0xc3, 0, 0, 0x64, 0, 0, 0, 0, 0, 0, 0, 0, 0, 0, 0, 0, 0, 0, 0, 0xff, 0xff] @ replicate 2 0"

definition SWARM_LON33 :: "u8 list" where "SWARM_LON33 = [0x60, 0x2E, 0x36, 0x07]"
definition SWARM_LON34 :: "u8 list" where "SWARM_LON34 = [0xC2, 0xBC, 0xEB, 0x00]"
definition MO_SHU :: u32 where "MO_SHU = 0x5741524D"
definition MAX_SWARM :: u32 where "MAX_SWARM = 64"

subsection \<open>The state\<close>

record nat_slot =
  n_len :: u32
  n_entry :: u32
  n_valid :: u32
  n_evicted :: u32

text \<open>
  What the linker and the build provide: the entry addresses and the demo module.
\<close>

record rom =
  monitor_entry :: u32
  atk_vec :: "u32 list"
  native_demo :: "u8 list"

text \<open>
  The state: the STATUS window, the monitor's box, the boot program area, the pending area with its
  magic word, the mailbox, the native slots with their text and the first word of their SRAM, the
  flash mirror, the statics of \<^verbatim>\<open>supervisor.c\<close>, the compartment table with the PMP registers, the
  forensics ring, and two words of the attacker's box.  The environment: the successive timer
  readings, the polls of the transmitter for each bounded send, the bytes of an uninitialised
  local, the registers at a call of \<^verbatim>\<open>compartment_enter\<close>, and what went out on the wire.
\<close>

record sup =
  status :: "u32 list"
  box :: mon_box
  prog_area :: "u8 list"
  pend :: "u8 list"
  pend_ok :: u32
  mailbox :: "u8 list"
  g_nat :: "nat_slot list"
  g_nat_live :: u32
  g_nat_retired :: u32
  nat_text :: "u8 list list"
  nat_sram :: "u32 list"
  mirror :: "u8 list"
  g_update :: update_rx
  g_update_hload :: u32
  g_update_hrej :: u32
  table :: comp_state
  g_ri_index :: u32
  g_ri_cause :: "u32 list"
  g_ri_addr :: "u32 list"
  g_phase :: u32
  g_input_sum :: u32
  g_stk0 :: u32
  g_alerts :: u32
  g_conflict_n :: u32
  g_source :: u32
  g_atk_vec :: u32
  atk_own :: u32
  atk_proof :: u32
  g_chan_stage :: "u8 list"
  clock :: "nat \<Rightarrow> u32"
  reads :: nat
  tx_polls :: "nat \<Rightarrow> (bool \<times> u32) list"
  sends :: nat
  residue :: "nat \<Rightarrow> u8"
  m_regs :: "nat \<Rightarrow> u32"
  m_mstatus :: u32
  wire :: "u8 list"

text \<open>
  Who runs next: user mode, the service loop with its receiver and \<^verbatim>\<open>seen\<close> counter, the report of the
  emulator build, the fail-stop heartbeat, the wait of \<^verbatim>\<open>compartment_enter\<close>; \<open>Waiting\<close>: a bounded
  send is still polling; \<open>Crashes\<close>: an access outside an object.
\<close>

datatype ctl =
    Runs cpu sup
  | Serves uart_frame_rx u32 sup
  | Reports sup
  | Halts sup
  | Parked sup
  | Waiting
  | Crashes

definition timer_now :: "sup \<Rightarrow> u32 \<times> sup" where
  "timer_now st = (clock st (reads st), st\<lparr>reads := reads st + 1\<rparr>)"

definition status_set :: "nat \<Rightarrow> u32 \<Rightarrow> sup \<Rightarrow> sup" where
  "status_set k v st = st\<lparr>status := (status st)[k := v]\<rparr>"

definition status_inc :: "nat \<Rightarrow> sup \<Rightarrow> sup" where
  "status_inc k st = status_set k (status st ! k + 1) st"

text \<open>A run of consecutive words, stored in a loop.\<close>

definition status_copy :: "nat \<Rightarrow> u32 list \<Rightarrow> sup \<Rightarrow> sup" where
  "status_copy k vs st = st\<lparr>status := blit k vs (status st)\<rparr>"

definition nat_update :: "u32 \<Rightarrow> (nat_slot \<Rightarrow> nat_slot) \<Rightarrow> sup \<Rightarrow> sup" where
  "nat_update k f st = st\<lparr>g_nat := (g_nat st)[unat k := f (g_nat st ! unat k)]\<rparr>"

subsection \<open>Inputs of a round\<close>

fun load_packets :: "nat \<Rightarrow> u32 \<Rightarrow> u8 list list \<Rightarrow> mon_box \<Rightarrow> mon_box" where
  "load_packets i off [] b = b"
| "load_packets i off (p # ps) b =
     load_packets (Suc i) (off + word_of_nat (length p)) ps
       (b\<lparr>mon_off := (mon_off b)[i := off],
          mon_sizes := (mon_sizes b)[i := word_of_nat (length p)],
          mon_input := blit (unat off) p (mon_input b)\<rparr>)"

definition bao :: "u8 list list" where
  "bao = [PKT_GPI, PKT_HB, PKT_BADMAGIC, PKT_BADMSGID, PKT_BIGLEN, PKT_BADLAT]"

fun load_swarm :: "(nat \<Rightarrow> u8 list) \<Rightarrow> nat list \<Rightarrow> mon_box \<Rightarrow> mon_box" where
  "load_swarm f [] b = b"
| "load_swarm f (i # is) b =
     load_swarm f is
       (b\<lparr>mon_soff := (mon_soff b)[i := word_of_nat (i * 42)],
          mon_ssizes := (mon_ssizes b)[i := 42],
          mon_data := blit (i * 42) (f i) (mon_data b)\<rparr>)"

definition mailbox_packet :: "u8 list \<Rightarrow> nat \<Rightarrow> u8 list" where
  "mailbox_packet mb i = take 42 (drop (8 + i * 42) mb)"

definition demo_packet :: "nat \<Rightarrow> u8 list" where
  "demo_packet i =
     take 10 PKT_GPI @ [0x80, 0x2F, 0x77, 0x12] @ (if i < 4 then SWARM_LON33 else SWARM_LON34)
       @ drop 18 PKT_GPI"

definition load_inputs :: "sup \<Rightarrow> sup" where
  "load_inputs st =
     (let b = load_packets 0 0 bao (box st);
          magic = le32 (mailbox st) 0; cnt = le32 (mailbox st) 4;
          mailed = (magic = MO_SHU \<and> cnt \<ge> 1 \<and> cnt \<le> MAX_SWARM);
          n = (if mailed then cnt else 8);
          b = load_swarm (if mailed then mailbox_packet (mailbox st) else demo_packet) [0..<unat n] b
      in st\<lparr>box := b\<lparr>mon_confn := n, mon_map := replicate 64 0\<rparr>, g_conflict_n := n,
            g_source := (if mailed then 1 else 0)\<rparr>)"

subsection \<open>Entering compartments\<close>

definition enter_checked :: "u32 \<Rightarrow> sup \<Rightarrow> ctl" where
  "enter_checked i st =
     (if compartment_evicted i (table st) \<noteq> 0
      then Halts (status_set S_HALTC (0xEE00 OR i) (status_set S_HALT 0x48414C54 st))
      else
        (case compartment_enter i (m_regs st) (m_mstatus st) (table st) of
           Parks \<Rightarrow> Parked st
         | BadIndex \<Rightarrow> Crashes
         | Enters cpu tab \<Rightarrow> Runs cpu (st\<lparr>table := tab\<rparr>)))"

definition schedule_round :: "target \<Rightarrow> rom \<Rightarrow> sup \<Rightarrow> ctl" where
  "schedule_round t rom st =
     (let st = load_inputs st;
          live = g_nat_live st;
          tab = compartment_set 0 (ic_comp_monitor t) (monitor_entry rom - MON_TEXT t) (table st);
          tab = compartment_set 1 (ic_comp_attacker t) (atk_vec rom ! 0 - ATK_TEXT t) tab;
          tab = compartment_set 2 (nat_spec t live) (n_entry (g_nat st ! unat live)) tab;
          st = st\<lparr>table := compartment_arm 0 tab,
                  nat_sram := (nat_sram st)[(if live \<noteq> 0 then 1 else 0) := 0],
                  g_phase := 1, box := (box st)\<lparr>mon_mode := 0\<rparr>\<rparr>;
          (now, st) = timer_now st
      in enter_checked 0 (st\<lparr>g_stk0 := now\<rparr>))"

definition supervisor_reset :: "sup \<Rightarrow> sup" where
  "supervisor_reset st =
     st\<lparr>g_phase := 1, g_input_sum := 0, g_stk0 := 0, g_alerts := 0, g_conflict_n := 0, g_source := 0,
        g_atk_vec := 0, g_ri_index := 0, g_ri_cause := replicate 8 0, g_ri_addr := replicate 8 0\<rparr>"

definition hot_round :: "target \<Rightarrow> rom \<Rightarrow> sup \<Rightarrow> ctl" where
  "hot_round t rom st = schedule_round t rom (supervisor_reset st)"

text \<open>The sum over the six input windows; \<open>None\<close>: a window leaves the input buffer.\<close>

definition input_sum :: "mon_box \<Rightarrow> u32 option" where
  "input_sum b =
     (if \<exists>i \<in> set [0..<6]. length (mon_input b) < unat (mon_off b ! i) + unat (mon_sizes b ! i) then None
      else Some (sum_list (map (\<lambda>i. sum_list (map ucast
              (take (unat (mon_sizes b ! i)) (drop (unat (mon_off b ! i)) (mon_input b))))) [0..<6])))"

subsection \<open>The end of a round\<close>

text \<open>The line the board prints: \<^verbatim>\<open>\nverdicts:\<close>, six numbers, a newline.\<close>

definition verdict_line :: "sup \<Rightarrow> u8 list" where
  "verdict_line st =
     [10, 118, 101, 114, 100, 105, 99, 116, 115, 58]
       @ concat (map (\<lambda>i. 32 # uart_putdec (status st ! (S_CAIJUE + i))) [0..<6]) @ [10]"

definition native_done :: "target \<Rightarrow> u32 \<Rightarrow> sup \<Rightarrow> ctl" where
  "native_done t proof_word st =
     (let w = (if proof_word \<noteq> 0 then nat_sram st ! (if g_nat_live st \<noteq> 0 then 1 else 0) else 0);
          st = status_set S_DONE 0x600DF00D (status_set S_NAT2 w st)
      in case t of
           Qemu \<Rightarrow> Reports st
         | Board \<Rightarrow>
             Serves rx_init (status st ! S_HLOAD) (st\<lparr>wire := wire st @ verdict_line st\<rparr>))"

definition atk_schedule :: "target \<Rightarrow> rom \<Rightarrow> u32 \<Rightarrow> sup \<Rightarrow> ctl" where
  "atk_schedule t rom v st =
     (let tab = compartment_set 1 (ic_comp_attacker t) (atk_vec rom ! unat v - ATK_TEXT t) (table st)
      in enter_checked 1 (st\<lparr>table := compartment_arm 1 tab\<rparr>))"

definition want :: "u32 list" where
  "want = [1, 1, 0, 2, 3, 4]"

text \<open>What \<^verbatim>\<open>atk_advance\<close> records when all seven lifetimes ran.\<close>

definition finalize_round :: "u32 \<Rightarrow> sup \<Rightarrow> sup" where
  "finalize_round s st =
     (let vok = (if \<exists>i \<in> set [0..<6]. mon_verdicts (box st) ! i \<noteq> want ! i \<or>
                     status st ! (S_CAIJUE + i) \<noteq> want ! i then 0 else 1);
          st = status_set S_VINTACT vok st;
          st = status_set S_IINTACT (if s = g_input_sum st then 1 else 0) st;
          st = status_set S_INTER (g_ri_index st) st;
          st = status_copy S_LOG0C
                 (concat (map (\<lambda>i. [g_ri_cause st ! i, g_ri_addr st ! i]) [0..<5])) st
      in status_set S_NAT2 0 st)"

definition atk_advance :: "target \<Rightarrow> rom \<Rightarrow> sup \<Rightarrow> ctl" where
  "atk_advance t rom st =
     (let v = g_atk_vec st;
          st = (if v = 0 then status_set S_OWNOOK (if atk_own st = 0xBEEF5EED then 1 else 0) st else st);
          st = (if v = 6 then status_set S_RDROK (if atk_proof st = 0x5EEDC0DE then 1 else 0) st else st);
          st = st\<lparr>g_atk_vec := v + 1\<rparr>
      in if g_atk_vec st < 7 then atk_schedule t rom (g_atk_vec st) st
         else
           (case input_sum (box st) of
              None \<Rightarrow> Crashes
            | Some s \<Rightarrow>
                (let st = finalize_round s st; live = g_nat st ! unat (g_nat_live st) in
                 if g_nat_retired st \<noteq> 0 \<or> n_valid live = 0 \<or> n_evicted live \<noteq> 0
                 then native_done t 0 (status_set S_NSLOT 0xFFFFFFFF st)
                 else
                   (let st = status_set S_NSLOT (g_nat_live st) st
                    in enter_checked 2 (st\<lparr>g_phase := 5\<rparr>)))))"

subsection \<open>Traps\<close>

text \<open>
  A yield.  Phases 1 to 3 are the three activations of the monitor, phase 4 the attacker's lifetimes,
  and a later phase the native module's.
\<close>

definition rollback_program :: "sup \<Rightarrow> sup" where
  "rollback_program st =
     (if mon_prog_cnt (box st) \<noteq> 0 \<and> mon_prog_fault (box st) \<noteq> 0 then
        (let b = box st;
             b = (if mon_prog_b_cnt b \<noteq> 0
                  then b\<lparr>mon_prog := mon_prog_b b, mon_prog_cnt := mon_prog_b_cnt b, mon_prog_b_cnt := 0\<rparr>
                  else b\<lparr>mon_prog_cnt := 0\<rparr>)
         in status_inc S_ROLL (st\<lparr>box := b\<lparr>mon_prog_fault := 0\<rparr>\<rparr>))
      else st)"

definition next_activation :: "u32 \<Rightarrow> u32 \<Rightarrow> sup \<Rightarrow> ctl" where
  "next_activation phase mode st =
     (let st = st\<lparr>table := compartment_arm 0 (table st), g_phase := phase,
                  box := (box st)\<lparr>mon_mode := mode\<rparr>\<rparr>;
          (now, st) = timer_now st
      in enter_checked 0 (st\<lparr>g_stk0 := now\<rparr>))"

definition resume_packets :: "sup \<Rightarrow> ctl" where
  "resume_packets st =
     (let (now, st) = timer_now st;
          cyc = now - g_stk0 st;
          st = status_copy S_CAIJUE (take 6 (mon_verdicts (box st))) st;
          st = status_copy S_INSNS (take 6 (mon_insns (box st))) st;
          st = status_set S_CYC0 cyc st
      in case input_sum (box st) of
           None \<Rightarrow> Crashes
         | Some s \<Rightarrow> next_activation 2 1 (rollback_program (st\<lparr>g_input_sum := s\<rparr>)))"

definition resume_screen :: "sup \<Rightarrow> ctl" where
  "resume_screen st =
     (let (now, st) = timer_now st;
          cyc = now - g_stk0 st;
          n = unat (g_conflict_n st);
          verd = take n (mon_screen_verd (box st));
          st = status_copy S_BAN_CAIJUE (take 8 verd) st;
          st = status_copy S_CINSNS (take (min n 8) (mon_screen_insns (box st))) st;
          st = st\<lparr>g_alerts := word_of_nat (length (filter (\<lambda>v. v = 5) verd))\<rparr>;
          st = status_set S_CYC1 cyc st;
          st = status_set S_JINGBAO (g_alerts st) st;
          st = status_set S_CHONGTU_N (g_conflict_n st) st;
          st = status_set S_LAIYUAN (g_source st) st
      in if length (mon_screen_verd (box st)) < n then Crashes else next_activation 3 2 st)"

definition resume_native :: "target \<Rightarrow> rom \<Rightarrow> sup \<Rightarrow> ctl" where
  "resume_native t rom st =
     (let (now, st) = timer_now st;
          cyc = now - g_stk0 st;
          natok = (if take 6 (mon_native_verd (box st)) = want then 1 else 0);
          st = status_set S_NATOK natok (status_set S_CYC2 cyc st)
      in atk_schedule t rom 0 (st\<lparr>g_phase := 4, g_atk_vec := 0\<rparr>))"

definition supervisor_resume :: "target \<Rightarrow> rom \<Rightarrow> sup \<Rightarrow> ctl" where
  "supervisor_resume t rom st =
     (if g_phase st = 1 then resume_packets st
      else if g_phase st = 2 then resume_screen st
      else if g_phase st = 3 then resume_native t rom st
      else if g_phase st = 4 then atk_advance t rom st
      else native_done t 1 st)"

text \<open>
  \<^verbatim>\<open>tele_fault\<close>: the 16 bytes are built in an uninitialised local, of which bytes 3, 14 and 15 are never
  written; they are the stack's residue.  \<open>None\<close>: the send is still polling.
\<close>

definition tele_bytes :: "u32 \<Rightarrow> sup \<Rightarrow> u8 list" where
  "tele_bytes slot st =
     (let i = (if g_ri_index st \<noteq> 0 then g_ri_index st - 1 else 0)
      in [ucast i, ucast (cur_comp (table st)), ucast slot, residue st 3]
           @ le32_bytes (g_ri_cause st ! unat i) @ le32_bytes (g_ri_addr st ! unat i)
           @ [ucast (g_nat_live st), ucast (g_nat_retired st), residue st 14, residue st 15])"

definition send_limited :: "u8 \<Rightarrow> u8 list \<Rightarrow> u32 \<Rightarrow> u32 \<Rightarrow> sup \<Rightarrow> (bool \<times> sup) option" where
  "send_limited ty payload len budget st =
     (let (t0, st) = timer_now st in
      case uart_send_frame_limited ty payload len budget t0 (tx_polls st (sends st)) of
        None \<Rightarrow> None
      | Some (sent, rest, out) \<Rightarrow> Some (sent, st\<lparr>sends := sends st + 1, wire := wire st @ out\<rparr>))"

definition tele_fault :: "u32 \<Rightarrow> sup \<Rightarrow> sup option" where
  "tele_fault slot st =
     (case send_limited FRAME_TELE (tele_bytes slot st) 16 50000 st of
        None \<Rightarrow> None
      | Some (sent, st) \<Rightarrow> Some (if sent then st else status_inc S_TXABORT st))"

text \<open>The rollback of the native window: the other slot if it can run, otherwise retirement.\<close>

definition native_strike :: "sup \<Rightarrow> sup option" where
  "native_strike st =
     (let dead = g_nat_live st; other = dead XOR 1;
          st = nat_update dead (\<lambda>n. n\<lparr>n_evicted := 1\<rparr>) st;
          st = status_set S_NAT2 0 st
      in case tele_fault dead st of
           None \<Rightarrow> None
         | Some st \<Rightarrow>
             (let n = g_nat st ! unat other;
                  st = (if n_valid n \<noteq> 0 \<and> n_evicted n = 0
                        then status_inc S_ROLL (st\<lparr>g_nat_live := other, g_nat_retired := 0\<rparr>)
                        else st\<lparr>g_nat_retired := 1\<rparr>)
              in Some (status_set S_NSLOT
                   (if g_nat_retired st \<noteq> 0 then 0xFFFFFFFF else g_nat_live st) st)))"

definition supervisor_fault :: "target \<Rightarrow> rom \<Rightarrow> u32 \<Rightarrow> sup \<Rightarrow> ctl" where
  "supervisor_fault t rom cause st =
     (let st = (if cause AND 0x80000000 \<noteq> 0 then status_inc S_PREEMPT st else st);
          st = st\<lparr>table := compartment_evict (cur_comp (table st)) (table st)\<rparr>
      in if g_phase st = 4 then atk_advance t rom st
         else if g_phase st \<ge> 5 then
           (case (if cur_comp (table st) = 2 then native_strike st else Some st) of
              None \<Rightarrow> Waiting
            | Some st \<Rightarrow> native_done t 0 st)
         else
           Halts (status_set S_HALTC (push_bit 24 (g_phase st AND 0xFF) OR (cause AND 0xFFFFFF))
             (status_set S_HALT 0x48414C54 st)))"

end
