(* ===== verification/Channel.thy ===== *)
theory Channel
  imports Supervisor
begin

text \<open>
  The runtime channel of \<^verbatim>\<open>modules/supervisor.c\<close>: the frames the service loop takes (\<open>chan_poll\<close>), the gated
  installation of a staged image (\<open>hot_swap\<close>), the outcome of an update transaction
  (\<open>hot_update_finalize\<close>), and one turn of the loop (\<open>service_step\<close>).
\<close>

subsection \<open>Installing a staged image\<close>

definition le64 :: "u8 list \<Rightarrow> nat \<Rightarrow> u64" where
  "le64 p i = ucast (le32 p i) OR push_bit 32 (ucast (le32 p (i + 4)))"

text \<open>The instruction words of a staged program.\<close>

definition staged_insns :: "u8 list \<Rightarrow> u32 \<Rightarrow> u64 list" where
  "staged_insns img n = map (\<lambda>i. le64 img (8 + 8 * i)) [0..<unat n]"

definition native_desc :: "target \<Rightarrow> u32 \<Rightarrow> u32 \<Rightarrow> ic_module_desc" where
  "native_desc t slot entry =
     \<lparr>d_magic = IC_MODULE_MAGIC, d_contract_ver = IC_CONTRACT_VERSION, d_kind = IC_MODULE_NATIVE,
      d_text_base = text_base (nat_spec t slot), d_text_size = 0x1000,
      d_sram_base = sram_base (nat_spec t slot), d_sram_size = 0x1000, d_entry_offset = entry,
      d_reserved = 0\<rparr>"

definition ebpf_desc :: "target \<Rightarrow> u32 \<Rightarrow> ic_module_desc" where
  "ebpf_desc t n =
     \<lparr>d_magic = IC_MODULE_MAGIC, d_contract_ver = IC_CONTRACT_VERSION, d_kind = IC_MODULE_EBPF,
      d_text_base = MON_BOX t + word_of_nat MON_PROG, d_text_size = n * 8, d_sram_base = 0,
      d_sram_size = 0, d_entry_offset = 0, d_reserved = 0\<rparr>"

text \<open>The length of what the digest covers; \<open>None\<close>: refused by its header.\<close>

definition staged_body :: "u32 \<Rightarrow> u32 \<Rightarrow> u32 option" where
  "staged_body kind w0 =
     (let body = (if kind = PEND_NATIVE then (if w0 = 0 \<or> w0 > 0x1F0 then None else Some (16 + w0))
                  else if kind = PEND_EBPF then
                    (if w0 = 0 \<or> w0 > IC_PROG_MAX_INSNS then None else Some (8 + w0 * 8))
                  else None)
      in case body of
           None \<Rightarrow> None
         | Some body \<Rightarrow>
             if body > PROG_PEND_MAGIC_OFF - 8 - SHA256_LEN \<or> body < 16 then None else Some body)"

definition swap_reject :: "sup \<Rightarrow> sup" where
  "swap_reject st = (status_inc S_HREJ st)\<lparr>pend_ok := 0\<rparr>"

definition swap_accept :: "sup \<Rightarrow> sup" where
  "swap_accept st = status_inc S_HLOAD (st\<lparr>pend_ok := 0\<rparr>)"

definition install_native :: "target \<Rightarrow> u32 \<Rightarrow> sup \<Rightarrow> sup option" where
  "install_native t w0 st =
     (let entry = le32 (pend st) 8; slot = le32 (pend st) 12 in
      if w0 = 0 \<or> w0 > 0x1F0 \<or> entry AND 1 \<noteq> 0 \<or> entry \<ge> 0x1000 \<or> slot > 1 then Some (swap_reject st)
      else if ic_module_check (Some (native_desc t slot entry)) \<noteq> IC_OK then Some (swap_reject st)
      else
        (let k = unat slot;
             code = drop 16 (pend st);
             st = st\<lparr>nat_text := (nat_text st)[k := blit 0 (take (unat w0) code) (nat_text st ! k)]\<rparr>
         in case flash_mirror_write slot code w0 entry (mirror st) of
              None \<Rightarrow> None
            | Some (r, mir) \<Rightarrow>
                (let st = status_set S_FPROG r (st\<lparr>mirror := mir\<rparr>);
                     st = nat_update slot
                            (\<lambda>n. n\<lparr>n_len := w0, n_entry := entry, n_valid := 1, n_evicted := 0\<rparr>) st;
                     st = status_set S_NSLOT slot (st\<lparr>g_nat_live := slot, g_nat_retired := 0\<rparr>);
                     (t0, st) = timer_now st;
                     st = st\<lparr>table := compartment_arm 2 (compartment_set 2 (nat_spec t slot) entry (table st))\<rparr>;
                     (t1, st) = timer_now st
                 in Some (swap_accept (status_set S_REMAP (t1 - t0) st)))))"

definition install_ebpf :: "target \<Rightarrow> u32 \<Rightarrow> sup \<Rightarrow> sup" where
  "install_ebpf t w0 st =
     (let ins = staged_insns (pend st) w0 in
      if w0 = 0 \<or> w0 > IC_PROG_MAX_INSNS then swap_reject st
      else if ic_module_check (Some (ebpf_desc t w0)) \<noteq> IC_OK \<or>
              ic_program_check (Some ins) w0 \<noteq> IC_OK then swap_reject st
      else
        (let b = box st;
             b = b\<lparr>mon_prog_b_cnt := mon_prog_cnt b, mon_prog_b := mon_prog b\<rparr>;
             b = b\<lparr>mon_prog := blit 0 ins (mon_prog b), mon_prog_cnt := w0, mon_prog_fault := 0\<rparr>
         in swap_accept (st\<lparr>box := b\<rparr>)))"

text \<open>\<open>None\<close>: an access outside an object.\<close>

definition hot_swap :: "target \<Rightarrow> sup \<Rightarrow> sup option" where
  "hot_swap t st =
     (if pend_ok st \<noteq> PROG_PEND_MAGIC then Some st
      else
        (let w0 = le32 (pend st) 0; kind = le32 (pend st) 4 in
         case staged_body kind w0 of
           None \<Rightarrow> Some (swap_reject st)
         | Some body \<Rightarrow>
             (case trust_check (pend st) body of
                None \<Rightarrow> None
              | Some False \<Rightarrow> Some (swap_reject st)
              | Some True \<Rightarrow>
                  if kind = PEND_NATIVE then install_native t w0 st
                  else Some (install_ebpf t w0 st))))"

subsection \<open>Update replies\<close>

definition reply_bytes :: "update_reply \<Rightarrow> u8 list" where
  "reply_bytes r =
     (let p = [rep_code r] @ le32_bytes (rep_id r) @ le16_bytes (rep_next_seq r) @ [rep_detail r]
      in p @ le16_bytes (update_crc16 p 8))"

definition update_send_reply :: "update_reply \<Rightarrow> sup \<Rightarrow> sup option" where
  "update_send_reply r st =
     (case send_limited FRAME_UPDATE_REPLY (reply_bytes r) 10 50000 st of
        None \<Rightarrow> None
      | Some (sent, st) \<Rightarrow> Some st)"

text \<open>The result is 1, -1 or 0; \<open>None\<close>: the send is still polling.\<close>

definition hot_update_finalize :: "sup \<Rightarrow> (int \<times> sup) option" where
  "hot_update_finalize st =
     (let hload = status st ! S_HLOAD; hrej = status st ! S_HREJ in
      if u_state (g_update st) \<noteq> UPDATE_STATE_STAGED then Some (0, st)
      else if hload = g_update_hload st \<and> hrej = g_update_hrej st then Some (0, st)
      else
        (let accepted = (hload \<noteq> g_update_hload st \<and> hrej = g_update_hrej st);
             st = st\<lparr>g_update := update_finish (g_update st) accepted\<rparr>;
             reply = \<lparr>rep_id = u_id (g_update st), rep_next_seq = u_next_seq (g_update st),
                      rep_code = (if accepted then UPDATE_ACCEPT else UPDATE_REJECT),
                      rep_detail = (if accepted then 0 else UPDATE_ERR_STATE)\<rparr>
         in case update_send_reply reply st of
              None \<Rightarrow> None
            | Some st \<Rightarrow> Some (if accepted then 1 else - 1, st)))"

subsection \<open>Frames\<close>

text \<open>
  The frame handlers, by type.  A result is the event code and the state; \<open>Stalled\<close>: a bounded send
  is still polling; \<open>Wild\<close>: an access outside an object.
\<close>

datatype event = Event u32 sup | Stalled | Wild

definition chan_update :: "u32 \<Rightarrow> sup \<Rightarrow> event" where
  "chan_update n st =
     (case update_process \<lparr>w_rx = g_update st, w_pend = pend st, w_magic = pend_ok st\<rparr> (g_chan_stage st) n of
        None \<Rightarrow> Wild
      | Some ((accepted, reply), w) \<Rightarrow>
          (case update_send_reply reply
                  (st\<lparr>g_update := w_rx w, pend := w_pend w, pend_ok := w_magic w\<rparr>) of
             None \<Rightarrow> Stalled
           | Some st \<Rightarrow>
               if accepted \<and> rep_code reply = UPDATE_REPLY_STAGED
               then Event 5 (st\<lparr>g_update_hload := status st ! S_HLOAD, g_update_hrej := status st ! S_HREJ\<rparr>)
               else Event (if accepted then 6 else 0) st))"

definition chan_program :: "u32 \<Rightarrow> sup \<Rightarrow> event" where
  "chan_program n st =
     (let stage = g_chan_stage st; cnt = le32 stage 4 in
      if n < 8 + SHA256_LEN \<or> le32 stage 0 \<noteq> PROG_MAGIC then Event 0 st
      else if cnt = 0 \<or> cnt > IC_PROG_MAX_INSNS \<or> n \<noteq> 8 + cnt * 8 + SHA256_LEN then Event 0 st
      else
        (let img = blit 0 (le32_bytes cnt @ le32_bytes PEND_EBPF @ take (unat n - 8) (drop 8 stage)) (pend st)
         in if length (pend st) < unat n then Wild
            else Event 2 (st\<lparr>pend := img, pend_ok := PROG_PEND_MAGIC\<rparr>)))"

definition chan_mailbox :: "u32 \<Rightarrow> sup \<Rightarrow> event" where
  "chan_mailbox n st =
     (let stage = g_chan_stage st; magic = le32 stage 0; cnt = le32 stage 4 in
      if n < 12 then Event 0 st
      else if magic \<noteq> MO_SHU \<or> cnt = 0 \<or> cnt > MAX_SWARM \<or> n \<noteq> 8 + 42 * cnt then Event 0 st
      else if length (mailbox st) < unat n then Wild
      else Event 1 (st\<lparr>mailbox := blit 0 (take (unat n) stage) (mailbox st)\<rparr>))"

definition status_reply :: "u32 list \<Rightarrow> u8 list" where
  "status_reply ws = [0, 0, 0, 0] @ concat (map le32_bytes ws)"

definition chan_status :: "u32 \<Rightarrow> sup \<Rightarrow> event" where
  "chan_status n st =
     (if n < 1 then Event 0 st
      else if g_chan_stage st ! 0 \<noteq> 0 then Event 4 st
      else
        (let out = status_reply (take STATUS_WORDS (status st)) in
         if length (g_chan_stage st) < length out then Wild
         else
           (let st = st\<lparr>g_chan_stage := blit 0 out (g_chan_stage st)\<rparr>
            in Event 4 (st\<lparr>wire := wire st @
                 uart_send_frame FRAME_STATUS (g_chan_stage st) (word_of_nat (4 + STATUS_WORDS * 4))\<rparr>))))"

definition chan_rearm :: "u32 \<Rightarrow> sup \<Rightarrow> event" where
  "chan_rearm n st =
     (if n \<noteq> 4 then Event 0 st
      else
        (let slot = le32 (g_chan_stage st) 0;
             echo = uart_send_frame FRAME_REARM (g_chan_stage st) 4 in
         if slot > 1 \<or> n_valid (g_nat st ! unat slot) = 0
         then Event 3 (st\<lparr>wire := wire st @ echo\<rparr>)
         else
           (let st = nat_update slot (\<lambda>n. n\<lparr>n_evicted := 0\<rparr>) st;
                st = st\<lparr>g_nat_live := slot, g_nat_retired := 0\<rparr>;
                st = status_inc S_REARM (status_set S_NSLOT slot st)
            in Event 3 (st\<lparr>wire := wire st @ echo\<rparr>))))"

definition chan_native :: "u32 \<Rightarrow> sup \<Rightarrow> event" where
  "chan_native n st =
     (if n < 16 \<or> n > 0x200 then Event 0 st
      else if length (pend st) < unat n then Wild
      else Event 2 (st\<lparr>pend := blit 0 (take (unat n) (g_chan_stage st)) (pend st),
                       pend_ok := PROG_PEND_MAGIC\<rparr>))"

definition chan_frame :: "u32 \<Rightarrow> u32 \<Rightarrow> sup \<Rightarrow> event" where
  "chan_frame ty n st =
     (if ty = ucast FRAME_UPDATE then chan_update n st
      else if ty = 1 then chan_program n st
      else if ty = 2 then chan_mailbox n st
      else if ty = ucast FRAME_STATUS then chan_status n st
      else if ty = ucast FRAME_REARM then chan_rearm n st
      else if ty = 3 then chan_native n st
      else Event 0 st)"

text \<open>
  \<^verbatim>\<open>chan_poll\<close>: \<open>now\<close> and the arrivals are the environment of \<open>uart_poll_frame\<close>; the receiver goes back to
  the caller.
\<close>

definition chan_poll :: "u32 \<Rightarrow> (u8 \<times> u32 \<times> u32) list \<Rightarrow> uart_frame_rx \<Rightarrow> sup \<Rightarrow> event \<times> uart_frame_rx" where
  "chan_poll now arrivals rx st =
     (case uart_poll_frame now arrivals (g_chan_stage st) (word_of_nat (length (g_chan_stage st))) rx of
        None \<Rightarrow> (Wild, rx)
      | Some (n, stage, rx, rest) \<Rightarrow>
          (let st = st\<lparr>g_chan_stage := stage\<rparr>
           in (if n = 0 then Event 0 st else chan_frame (rx_type rx) n st, rx)))"

subsection \<open>One turn of the service loop\<close>

definition service_step :: "target \<Rightarrow> rom \<Rightarrow> u32 \<Rightarrow> (u8 \<times> u32 \<times> u32) list \<Rightarrow>
    uart_frame_rx \<Rightarrow> u32 \<Rightarrow> sup \<Rightarrow> ctl" where
  "service_step t rom now arrivals rx seen st =
     (case chan_poll now arrivals rx st of
        (Stalled, rx) \<Rightarrow> Waiting
      | (Wild, rx) \<Rightarrow> Crashes
      | (Event ev st, rx) \<Rightarrow>
          (case hot_swap t st of
             None \<Rightarrow> Crashes
           | Some st \<Rightarrow>
               (case hot_update_finalize st of
                  None \<Rightarrow> Waiting
                | Some (r, st) \<Rightarrow>
                    if status st ! S_HLOAD \<noteq> seen then hot_round t rom st
                    else if ev = 1 then hot_round t rom st
                    else Serves rx seen (status_inc 3 st))))"

end
