(* ===== verification/Startup.thy ===== *)
theory Startup
  imports Channel
begin

text \<open>
  Boot, \<^verbatim>\<open>boot_main\<close> of \<^verbatim>\<open>modules/supervisor.c\<close>: the STATUS window is cleared, the boot gate runs, the
  program area is filled from the console and loaded through the gates, the verifier meets random
  images, the native slots come back from the flash mirror, and the first round starts.
\<close>

subsection \<open>Loading a program\<close>

definition area_insns :: "u8 list \<Rightarrow> u32 \<Rightarrow> u64 list" where
  "area_insns area n = map (\<lambda>i. le64 area (8 + 8 * i)) [0..<unat n]"

definition load_program :: "target \<Rightarrow> sup \<Rightarrow> sup" where
  "load_program t st =
     (let st = st\<lparr>box := (box st)\<lparr>mon_prog_cnt := 0, mon_prog_b_cnt := 0, mon_prog_fault := 0\<rparr>\<rparr>;
          st = fold (\<lambda>k. status_set k 0) [S_LOAD, S_HLOAD, S_HREJ, S_ROLL, S_REARM, S_PREEMPT, S_TXABORT] st;
          area = prog_area st
      in if le32 area 0 \<noteq> PROG_MAGIC then st
         else
           (let cnt = le32 area 4 in
            if cnt = 0 \<or> cnt > IC_PROG_MAX_INSNS then status_set S_LOAD 2 st
            else if ic_module_check (Some (ebpf_desc t cnt)) \<noteq> IC_OK then status_set S_LOAD 3 st
            else
              (let b = box st;
                   b = b\<lparr>mon_prog := blit 0 (area_insns area cnt) (mon_prog b)\<rparr>
               in if ic_program_check (Some (mon_prog b)) cnt \<noteq> IC_OK
                  then status_set S_LOAD 4 (st\<lparr>box := b\<rparr>)
                  else status_set S_LOAD 1 (st\<lparr>box := b\<lparr>mon_prog_cnt := cnt\<rparr>\<rparr>))))"

text \<open>
  \<^verbatim>\<open>uart_load\<close> with the polls of the boot window: the frame is staged at offset \<^verbatim>\<open>0x400\<close> of the area and
  copied to its start.  \<open>None\<close>: the polls do not decide the call, or it leaves the area.
\<close>

definition uart_load :: "u32 \<Rightarrow> (u32 \<times> u8 option) list \<Rightarrow> sup \<Rightarrow> sup option" where
  "uart_load t0 polls st =
     (case uart_recv t0 polls (drop 0x400 (prog_area st)) UART_FRAME_MAX of
        RPending \<Rightarrow> None
      | RMemory \<Rightarrow> None
      | RDone n stage rx \<Rightarrow>
          (let area = blit 0x400 stage (prog_area st)
           in Some (st\<lparr>prog_area := blit 0 (take (unat n) stage) area\<rparr>)))"

subsection \<open>The boot fuzz\<close>

definition xorshift :: "u32 \<Rightarrow> u32" where
  "xorshift s =
     (let s = s XOR push_bit 13 s; s = s XOR drop_bit 17 s in s XOR push_bit 5 s)"

fun fuzz_image :: "nat \<Rightarrow> u32 \<Rightarrow> u64 list \<times> u32" where
  "fuzz_image 0 s = ([], s)"
| "fuzz_image (Suc n) s =
     (let lo = xorshift s; hi = xorshift lo; (rest, s) = fuzz_image n hi
      in ((ucast lo OR push_bit 32 (ucast hi)) # rest, s))"

fun boot_fuzz :: "nat \<Rightarrow> u32 \<Rightarrow> u32 \<Rightarrow> u32 \<Rightarrow> u32 \<times> u32" where
  "boot_fuzz 0 s acc rej = (acc, rej)"
| "boot_fuzz (Suc n) s acc rej =
     (let (ins, s) = fuzz_image 8 s
      in if ic_program_check (Some ins) 8 = IC_OK then boot_fuzz n s (acc + 1) rej
         else boot_fuzz n s acc (rej + 1))"

subsection \<open>The native slots\<close>

text \<open>The built-in module in slot 0, nothing in slot 1.  \<open>None\<close>: the module does not fit.\<close>

definition install_demo :: "rom \<Rightarrow> sup \<Rightarrow> sup option" where
  "install_demo rom st =
     (let n = length (native_demo rom) in
      if length (nat_text st ! 0) < n then None
      else
        Some (st\<lparr>g_nat := [\<lparr>n_len = word_of_nat n, n_entry = 0, n_valid = 1, n_evicted = 0\<rparr>,
                           \<lparr>n_len = 0, n_entry = 0, n_valid = 0, n_evicted = 0\<rparr>],
                 nat_text := (nat_text st)[0 := blit 0 (native_demo rom) (nat_text st ! 0)],
                 g_nat_live := 0, g_nat_retired := 0\<rparr>))"

definition restore_slot :: "target \<Rightarrow> u32 \<Rightarrow> sup \<Rightarrow> sup option" where
  "restore_slot t k st =
     (case flash_mirror_read k (nat_text st ! unat k) 0x1F0 (n_entry (g_nat st ! unat k)) (mirror st) of
        None \<Rightarrow> None
      | Some (len, txt, entry) \<Rightarrow>
          (let st = nat_update k (\<lambda>n. n\<lparr>n_entry := entry\<rparr>)
                      (st\<lparr>nat_text := (nat_text st)[unat k := txt]\<rparr>)
           in if len = 0 then Some st
              else if ic_module_check (Some (native_desc t k entry)) \<noteq> IC_OK
              then Some (st\<lparr>nat_sram := (nat_sram st)[unat k := 0]\<rparr>)
              else
                Some ((nat_update k (\<lambda>n. n\<lparr>n_len := len, n_valid := 1, n_evicted := 0\<rparr>) st)
                        \<lparr>g_nat_live := k\<rparr>)))"

definition restore_slots :: "target \<Rightarrow> sup \<Rightarrow> sup option" where
  "restore_slots t st =
     (case restore_slot t 0 st of None \<Rightarrow> None | Some st \<Rightarrow> restore_slot t 1 st)"

subsection \<open>The loopback proof\<close>

text \<open>One poll per turn: what \<^verbatim>\<open>uart_getc\<close> returned, and the tick read when it returned nothing.\<close>

fun loopback :: "u32 \<Rightarrow> nat \<Rightarrow> (u8 option \<times> u32) list \<Rightarrow> u32 option" where
  "loopback t0 0 polls = Some 1"
| "loopback t0 (Suc n) [] = None"
| "loopback t0 (Suc n) ((Some c, now) # polls) = (if c = 85 then loopback t0 n polls else Some 0)"
| "loopback t0 (Suc n) ((None, now) # polls) =
     (if now - t0 > 400000 then Some 0 else loopback t0 (Suc n) polls)"

subsection \<open>Boot\<close>

text \<open>The name \<^verbatim>\<open>PMP-EBPF-3\<close> with its terminator, stored at \<^verbatim>\<open>STATUS_NAME\<close> byte by byte.\<close>

definition name_bytes :: "u8 list" where
  "name_bytes = [80, 77, 80, 45, 69, 66, 80, 70, 45, 51, 0]"

fun STATUS_NAME :: "target \<Rightarrow> u32" where
  "STATUS_NAME Qemu = 0x80010110"
| "STATUS_NAME Board = 0x20000110"

definition put_byte :: "u32 \<Rightarrow> nat \<Rightarrow> u8 \<Rightarrow> u32" where
  "put_byte w k b = (w AND NOT (push_bit (8 * k) 0xFF)) OR push_bit (8 * k) (ucast b)"

fun put_status_bytes :: "nat \<Rightarrow> u8 list \<Rightarrow> u32 list \<Rightarrow> u32 list" where
  "put_status_bytes off [] ws = ws"
| "put_status_bytes off (b # bs) ws =
     put_status_bytes (off + 1) bs (ws[off div 4 := put_byte (ws ! (off div 4)) (off mod 4) b])"

text \<open>What a boot meets: the polls of the loopback, and those of the console window.\<close>

record boot_env =
  loop_t0 :: u32
  loop_polls :: "(u8 option \<times> u32) list"
  load_t0 :: u32
  load_polls :: "(u32 \<times> u8 option) list"

text \<open>Up to the console: status, gate, identity, the transmit self-test, the loopback on the board.\<close>

definition boot_status :: "target \<Rightarrow> boot_env \<Rightarrow> sup \<Rightarrow> sup option" where
  "boot_status t env st =
     (let st = status_set S_GATE 0xC0DE0000 (st\<lparr>status := replicate STATUS_WORDS 0\<rparr>);
          st = status_set 1 0xC0DE0008 (status_set 0 0xDEADBEEF st);
          st = st\<lparr>status := put_status_bytes (unat (STATUS_NAME t - STATUS_BASE t)) name_bytes (status st)\<rparr>;
          st = st\<lparr>wire := wire st @ [105, 110, 116, 101, 114, 99, 108, 117, 115, 10]\<rparr>;
          (t0, st) = timer_now st;
          st = st\<lparr>wire := wire st @ replicate 64 85\<rparr>;
          (t1, st) = timer_now st;
          st = status_set S_UTX (t1 - t0) st
      in case t of
           Qemu \<Rightarrow> Some st
         | Board \<Rightarrow>
             (case loopback (loop_t0 env) 64 (loop_polls env) of
                None \<Rightarrow> None
              | Some ok \<Rightarrow> Some (status_set S_URX ok st)))"

definition boot_reset :: "sup \<Rightarrow> sup" where
  "boot_reset st =
     (let st = st\<lparr>g_update := update_reset, g_update_hload := 0, g_update_hrej := 0, pend_ok := 0\<rparr>;
          (acc, rej) = boot_fuzz 2048 0xC0FFEE1 0 0
      in status_set S_FUZZR rej (status_set S_FUZZA acc st))"

definition boot_main :: "target \<Rightarrow> rom \<Rightarrow> boot_env \<Rightarrow> sup \<Rightarrow> ctl" where
  "boot_main t rom env st =
     (let gate = boot_gate t in
      if gate \<noteq> 0 then
        Halts (status_set S_GATE (0xC0DE0000 OR gate) (st\<lparr>status := replicate STATUS_WORDS 0\<rparr>))
      else
        (case boot_status t env st of
           None \<Rightarrow> Waiting
         | Some st \<Rightarrow>
             (case uart_load (load_t0 env) (load_polls env) st of
                None \<Rightarrow> Waiting
              | Some st \<Rightarrow>
                  (let st = boot_reset (load_program t st)
                   in case install_demo rom st of
                        None \<Rightarrow> Crashes
                      | Some st \<Rightarrow>
                          (case restore_slots t st of
                             None \<Rightarrow> Crashes
                           | Some st \<Rightarrow> schedule_round t rom st)))))"

end
