(* ===== verification/PolicyRuns.thy ===== *)
theory PolicyRuns
  imports Monitor Bytes
begin

text \<open>
  Runs of the two shipped policies, one basic block at a time: the steps of the interpreter on a
  concrete instruction (\<open>run_simps\<close>), then the verdict of the packet policy on a header
  (\<open>mav_run\<close>) and one counting run of the screening policy (\<open>conf_run\<close>), for every context.
\<close>

lemma load_le_at:
  "k < length bs \<Longrightarrow> load_le (drop k bs) 1 = Some (ucast (bs ! k))"
  "k + 1 < length bs \<Longrightarrow> load_le (drop k bs) 2 = Some (ucast (bs ! k) OR push_bit 8 (ucast (bs ! (k + 1))))"
  "k + 3 < length bs \<Longrightarrow> load_le (drop k bs) 4 = Some (ucast (bs ! k) OR push_bit 8 (ucast (bs ! (k + 1)))
     OR push_bit 16 (ucast (bs ! (k + 2))) OR push_bit 24 (ucast (bs ! (k + 3))))"
  by (simp_all add: load_le_def)

definition continue :: "ebpf_prog \<Rightarrow> step_result \<Rightarrow> run_result option" where
  "continue p r =
     (case r of
        Running st' \<Rightarrow> ebpf_loop p st'
      | Exited v st' \<Rightarrow> Some (out_exit v st')
      | Faulted f st' \<Rightarrow> Some (out_fault f st')
      | Undefined u \<Rightarrow> Some (Undef u))"

lemma continue_simps [simp]:
  "continue p (Running st) = ebpf_loop p st"
  "continue p (Exited v st) = Some (out_exit v st)"
  by (simp_all add: continue_def)

lemma load_le_0: "1 \<le> length bs \<Longrightarrow> load_le bs 1 = Some (ucast (bs ! 0))"
  using load_le_at(1) [of 0 bs] by (simp add: Suc_le_eq)

lemma run_step:
  assumes "pc < p_insn_cnt p" "n + 1 \<le> p_max_steps p"
  shows "ebpf_loop p \<lparr>s_regs = rs, s_pc = pc, s_steps = n, s_insns = n, s_map = m\<rparr> =
    continue p (exec_insn p \<lparr>s_regs = rs, s_pc = pc, s_steps = n + 1, s_insns = n + 1, s_map = m\<rparr>
            (decode_insn (p_ins p ! unat pc)))"
  using assms by (subst ebpf_loop.simps) (simp add: ebpf_step_def continue_def not_le [symmetric])

lemma ldx_run:
  assumes op: "op = 0x71 \<and> sz = 1 \<or> op = 0x69 \<and> sz = 2 \<or> op = 0x61 \<and> sz = 4"
    and reg: "rs ! unat src = p_ctx p" "src < 10" "dst < 10" "p_ctx p \<le> 0xffffffff"
    and off: "unat (scast off :: u64) < 64" "unat (scast off :: u64) + unat sz \<le> unat (p_ctx_size p)"
      "unat (scast off :: u64) + unat sz \<le> length (p_ctx_bytes p)"
  shows "exec_insn p \<lparr>s_regs = rs, s_pc = pc, s_steps = a, s_insns = b, s_map = m\<rparr>
      \<lparr>i_op = op, i_dst = dst, i_src = src, i_off = off, i_imm = 0\<rparr> =
    Running \<lparr>s_regs = rs[unat dst := the (load_le (drop (unat (scast off :: u64)) (p_ctx_bytes p)) sz)],
             s_pc = pc + 1, s_steps = a, s_insns = b, s_map = m\<rparr>"
proof -
  let ?k = "scast off :: u64"
  have d: "\<not> dst > 10" "\<not> src > 10" "dst \<noteq> 10" "src \<noteq> 10" using reg(2,3) by auto
  have sz: "unat sz \<le> 4" "ldx_size op = sz" "sz \<in> {1, 2, 4, 8}" using op by (auto simp: ldx_size_def)
  have lt: "unat (p_ctx p) < 4294967296" using reg(4) by (simp add: word_le_nat_alt)
  have sum: "\<not> p_ctx p + ?k < p_ctx p"
    using lt off(1) by (simp add: word_less_nat_alt unat_word_ariths)
  have fits: "\<not> ?k + ucast sz > ucast (p_ctx_size p)"
    using sz(1) off(1,2) by (simp add: word_less_nat_alt unat_word_ariths unat_ucast_up not_less)
  obtain v where v: "load_le (drop (unat ?k) (p_ctx_bytes p)) sz = Some v"
    using load_le_Some [OF sz(3)] off(3) by (metis length_drop le_diff_conv2 add.commute add_leE)
  show ?thesis
    using op d sum fits v sz(2) reg(1) by (auto simp: exec_insn_def ldx_step_def)
qed


lemma alu_run:
  assumes "i_op i AND 7 = 7" "i_dst i < 10" "i_src i \<le> 10"
  shows "exec_insn p st i = alu_step st i True (i_op i AND 0xf0)"
  using assms by (auto simp: exec_insn_def not_less [symmetric])

lemma exit_run:
  "exec_insn p st \<lparr>i_op = 0x95, i_dst = 0, i_src = 0, i_off = 0, i_imm = 0\<rparr> = Exited (s_regs st ! 0) st"
  by (simp add: exec_insn_def jmp_step_def jmp_switch_def)

lemma jmp_run:
  assumes "i_op i AND 7 = 5" "i_dst i \<le> 10" "i_src i \<le> 10"
    and "i_op i AND 0xf0 \<noteq> 0" "i_op i AND 0xf0 \<noteq> 0x80" "i_op i AND 0xf0 \<noteq> 0x90"
    and "jmp_switch (i_op i AND 0xf0) (0 :: u64) 0 \<noteq> JBad"
  shows "continue p (exec_insn p st i) =
    (if jmp_switch (i_op i AND 0xf0) (s_regs st ! unat (i_dst i))
       (if i_op i AND 0x08 \<noteq> 0 then s_regs st ! unat (i_src i) else scast (i_imm i)) = Taken True
     then ebpf_loop p (st\<lparr>s_pc := jump_target (s_pc st) (i_off i)\<rparr>)
     else ebpf_loop p (st\<lparr>s_pc := s_pc st + 1\<rparr>))"
proof -
  let ?b = "if i_op i AND 0x08 \<noteq> 0 then s_regs st ! unat (i_src i) else scast (i_imm i)"
  obtain t where "jmp_switch (i_op i AND 0xf0) (s_regs st ! unat (i_dst i)) ?b = Taken t"
    using assms(4-7) by (auto simp: jmp_switch_def split: if_splits)
  then show ?thesis using assms(1-6) by (auto simp: exec_insn_def jmp_step_def not_less [symmetric])
qed

lemmas ldx_runs = ldx_run [where op = "0x71" and sz = 1, simplified]
  ldx_run [where op = "0x69" and sz = 2, simplified]
  ldx_run [where op = "0x61" and sz = 4, simplified]

definition mav_prog :: "u32 \<Rightarrow> u8 list \<Rightarrow> u32 \<Rightarrow> ebpf_prog" where
  "mav_prog addr bs sz = mon_run_prog POLICY_MAVLINK POLICY_MAVLINK_CNT 0 addr bs sz"

lemma mav_prog_sel [simp]:
  "p_ins (mav_prog addr bs sz) = POLICY_MAVLINK" "p_insn_cnt (mav_prog addr bs sz) = 28"
  "p_ctx (mav_prog addr bs sz) = ucast addr" "p_ctx_bytes (mav_prog addr bs sz) = bs"
  "p_ctx_size (mav_prog addr bs sz) = sz" "p_max_steps (mav_prog addr bs sz) = 1000000"
  by (simp_all add: mav_prog_def mon_run_prog_def POLICY_MAVLINK_CNT_def)

lemma ucast_addr: "(ucast (addr :: u32) :: u64) \<le> 0xffffffff"
  using u32_le_max [of addr] by (simp add: word_le_nat_alt unat_ucast_up)

lemmas insn_simps = asm_defs EBPF_ENC_def decode_insn_def alu_run alu_step_def alu_arg_def alu_switch_def
  alu_shift_def jmp_run exit_run jmp_switch_def jump_target_def ldx_runs load_le_at load_le_0 ucast_addr nth_list_update

lemmas run_simps = run_step insn_simps

abbreviation go :: "ebpf_prog \<Rightarrow> u64 list \<Rightarrow> u32 \<Rightarrow> u32 \<Rightarrow> u32 list option \<Rightarrow> run_result option" where
  "go p rs pc n m \<equiv> ebpf_loop p \<lparr>s_regs = rs, s_pc = pc, s_steps = n, s_insns = n, s_map = m\<rparr>"





lemma ucast_byte_at:
  assumes "n \<le> 24"
  shows "(ucast (push_bit n (ucast (b :: u8) :: u32)) :: u64) = push_bit n (ucast b)"
proof (rule bit_word_eqI)
  fix k assume "k < LENGTH(64)"
  show "bit (ucast (push_bit n (ucast b :: u32)) :: u64) k \<longleftrightarrow> bit (push_bit n (ucast b :: u64)) k"
    using assms by (auto simp: bit_simps dest: bit_imp_le_length)
qed

lemma ucast_or: "(ucast (x OR y :: u32) :: u64) = ucast x OR ucast y"
  by (rule bit_word_eqI) (auto simp: bit_simps)

lemma join24:
  "(ucast (a :: u8) OR push_bit 8 (ucast (b :: u8))) OR push_bit 16 (ucast (c :: u8)) =
    (ucast ((ucast a :: u32) OR push_bit 8 (ucast b) OR push_bit 16 (ucast c)) :: u64)"
  using ucast_byte_at [of 0 a] by (simp add: ucast_byte_at ucast_or or.assoc)

lemma join32:
  "ucast (a :: u8) OR push_bit 8 (ucast (b :: u8)) OR push_bit 16 (ucast (c :: u8)) OR push_bit 24 (ucast (d :: u8)) =
    (ucast ((ucast a :: u32) OR push_bit 8 (ucast b) OR push_bit 16 (ucast c) OR push_bit 24 (ucast d)) :: u64)"
  using ucast_byte_at [of 0 a] by (simp add: ucast_byte_at ucast_or)

lemma u64_of_u32:
  assumes "unat (y :: u64) < 4294967296"
  shows "ucast (x :: u32) = y \<longleftrightarrow> x = ucast y" "y < ucast x \<longleftrightarrow> ucast y < x"
proof -
  have "unat (ucast y :: u32) = unat y" using assms by (simp add: unsigned_ucast_eq take_bit_nat_eq_self)
  then show "ucast (x :: u32) = y \<longleftrightarrow> x = ucast y" "y < ucast x \<longleftrightarrow> ucast y < x"
    by (simp_all add: word_unat_eq_iff word_less_nat_alt unat_ucast_up)
qed

lemma u64_of_u8:
  assumes "unat (y :: u64) < 256"
  shows "ucast (x :: u8) = y \<longleftrightarrow> x = ucast y" "y < ucast x \<longleftrightarrow> (ucast y :: u32) < ucast x"
proof -
  have "unat (ucast y :: u8) = unat y" "unat (ucast y :: u32) = unat y"
    using assms by (simp_all add: unsigned_ucast_eq take_bit_nat_eq_self)
  then show "ucast (x :: u8) = y \<longleftrightarrow> x = ucast y" "y < ucast x \<longleftrightarrow> (ucast y :: u32) < ucast x"
    by (simp_all add: word_unat_eq_iff word_less_nat_alt unat_ucast_up)
qed

definition msgid_of :: "u8 list \<Rightarrow> u32" where
  "msgid_of p = ucast (p ! 7) OR push_bit 8 (ucast (p ! 8)) OR push_bit 16 (ucast (p ! 9))"

lemma mav_header:
  assumes "14 \<le> unat sz" "14 \<le> length bs" "length rs = 11" "rs ! 1 = ucast addr" "bs ! 0 = 0xFD"
  shows "\<exists>rs'. length rs' = 11 \<and> rs' ! 1 = ucast addr \<and> rs' ! 4 = ucast (msgid_of bs) \<and>
    go (mav_prog addr bs sz) rs 0 0 m = go (mav_prog addr bs sz) rs' 7 7 m"
  using assms
  by (intro exI [of _ "rs[2 := 0xFD, 3 := 253, 4 := ucast (bs ! 7) OR push_bit 8 (ucast (bs ! 8)),
        5 := push_bit 16 (ucast (bs ! 9)), 4 := ucast (msgid_of bs)]"])
    (simp add: run_step [where pc = 0] run_step [where pc = 1] run_step [where pc = 2] run_step [where pc = 3] run_step [where pc = 4] run_step [where pc = 5] run_step [where pc = 6] insn_simps POLICY_MAVLINK_def join24 msgid_of_def)

lemma mav_run:
  assumes "14 \<le> unat sz" "14 \<le> length bs" "length rs = 11" "rs ! 1 = ucast addr"
  shows "\<exists>k. k \<le> 15 \<and> go (mav_prog addr bs sz) rs 0 0 m =
     Some (Ret 0 \<lparr>r_retval = ucast (native_verdict bs), r_insns = k, r_fault = EBPF_OK\<rparr> m)"
proof (cases "bs ! 0 = 0xFD")
  case False
  then show ?thesis
    using assms
    by (simp add: run_step [where pc = 0] run_step [where pc = 1] run_step [where pc = 2] run_step [where pc = 22] run_step [where pc = 23] insn_simps POLICY_MAVLINK_def native_verdict_def out_exit_def u64_of_u8)
next
  case True
  obtain rs' where rs': "length rs' = 11" "rs' ! 1 = ucast addr" "rs' ! 4 = ucast (msgid_of bs)"
    and go: "go (mav_prog addr bs sz) rs 0 0 m = go (mav_prog addr bs sz) rs' 7 7 m"
    using mav_header [OF assms True] by blast
  show ?thesis
    unfolding go
    using assms(1,2) rs' True
    by (simp add: run_step [where pc = 7] run_step [where pc = 8] run_step [where pc = 9] run_step [where pc = 10] run_step [where pc = 11] run_step [where pc = 12] run_step [where pc = 13] run_step [where pc = 14] run_step [where pc = 15] run_step [where pc = 16] run_step [where pc = 17] run_step [where pc = 18] run_step [where pc = 19] run_step [where pc = 20] run_step [where pc = 21] run_step [where pc = 22] run_step [where pc = 23] run_step [where pc = 24] run_step [where pc = 25] run_step [where pc = 26] run_step [where pc = 27] insn_simps POLICY_MAVLINK_def native_verdict_def
      msgid_of_def [symmetric] Let_def out_exit_def join32 u64_of_u32 u64_of_u8)
qed

definition conf_prog :: "u32 \<Rightarrow> u8 list \<Rightarrow> u32 \<Rightarrow> ebpf_prog" where
  "conf_prog addr bs sz = mon_run_prog POLICY_CONFLICT POLICY_CONFLICT_CNT MAP_CELLS addr bs sz"

lemma conf_prog_sel [simp]:
  "p_ins (conf_prog addr bs sz) = POLICY_CONFLICT" "p_insn_cnt (conf_prog addr bs sz) = 34"
  "p_ctx (conf_prog addr bs sz) = ucast addr" "p_ctx_bytes (conf_prog addr bs sz) = bs"
  "p_ctx_size (conf_prog addr bs sz) = sz" "p_max_steps (conf_prog addr bs sz) = 1000000"
  "p_map_cells (conf_prog addr bs sz) = 64"
  by (simp_all add: conf_prog_def mon_run_prog_def POLICY_CONFLICT_CNT_def MAP_CELLS_def)

definition grid_index :: "u64 \<Rightarrow> nat" where
  "grid_index x = unat ((ucast x :: u32) AND 63)"

lemma grid_index_less [simp]: "grid_index x < 64"
proof -
  have "unat ((ucast x :: u32) AND 63) \<le> unat (63 :: u32)"
    unfolding word_le_nat_alt [symmetric] by (rule word_and_le1)
  then show ?thesis by (simp add: grid_index_def)
qed

lemma call_run:
  assumes "length m = 64"
  shows "exec_insn (conf_prog addr bs sz) \<lparr>s_regs = rs, s_pc = pc, s_steps = a, s_insns = b, s_map = Some m\<rparr>
      \<lparr>i_op = 0x85, i_dst = 0, i_src = 0, i_off = 0, i_imm = 1\<rparr> =
    Running \<lparr>s_regs = rs[0 := ucast (m ! grid_index (rs ! 1))], s_pc = pc + 1, s_steps = a, s_insns = b,
      s_map = Some m\<rparr>"
   "exec_insn (conf_prog addr bs sz) \<lparr>s_regs = rs, s_pc = pc, s_steps = a, s_insns = b, s_map = Some m\<rparr>
      \<lparr>i_op = 0x85, i_dst = 0, i_src = 0, i_off = 0, i_imm = 2\<rparr> =
    Running \<lparr>s_regs = rs[0 := 0], s_pc = pc + 1, s_steps = a, s_insns = b,
      s_map = Some (m[grid_index (rs ! 1) := ucast (rs ! 2)])\<rparr>"
  using assms grid_index_less [of "rs ! 1"]
  by (simp_all add: exec_insn_def jmp_step_def call_step_def grid_index_def Let_def)

definition swarm_cell :: "u8 list \<Rightarrow> u64" where
  "swarm_cell bs =
     push_bit 3 (drop_bit 26 (ucast (le32 bs 10)) AND 7) OR (drop_bit 26 (ucast (le32 bs 14)) AND 7)"


lemma load_le32: "k + 3 < length bs \<Longrightarrow> load_le (drop k bs) 4 = Some (ucast (le32 bs k))"
  using load_le_at(3) [of k bs] by (simp add: join32 le32_def)


lemma conf_other:
  assumes "18 \<le> unat sz" "18 \<le> length bs" "length rs = 11" "rs ! 1 = ucast addr" "msgid_of bs \<noteq> 33"
  shows "\<exists>k. k \<le> 34 \<and> go (conf_prog addr bs sz) rs 0 0 m =
    Some (Ret 0 \<lparr>r_retval = 1, r_insns = k, r_fault = EBPF_OK\<rparr> m)"
  using assms
  by (simp add: run_step [where pc = 0] run_step [where pc = 1] run_step [where pc = 2] run_step [where pc = 3] run_step [where pc = 4] run_step [where pc = 5] run_step [where pc = 30] run_step [where pc = 31] insn_simps POLICY_CONFLICT_def join24
    msgid_of_def [symmetric] u64_of_u32 out_exit_def)

lemma conf_head:
  assumes "18 \<le> unat sz" "18 \<le> length bs" "length rs = 11" "rs ! 1 = ucast addr" "msgid_of bs = 33"
  shows "\<exists>rs'. length rs' = 11 \<and> rs' ! 1 = ucast addr \<and>
    go (conf_prog addr bs sz) rs 0 0 m = go (conf_prog addr bs sz) rs' 6 6 m"
  using assms
  apply (simp add: run_step [where pc = 0] run_step [where pc = 1] run_step [where pc = 2] run_step [where pc = 3] run_step [where pc = 4] run_step [where pc = 5] insn_simps POLICY_CONFLICT_def join24
    msgid_of_def [symmetric])
  apply (intro exI conjI) prefer 3 apply (rule refl)
  apply simp_all
  done

lemma conf_cell:
  assumes "18 \<le> unat sz" "18 \<le> length bs" "length rs = 11" "rs ! 1 = ucast addr"
  shows "\<exists>rs'. length rs' = 11 \<and> rs' ! 1 = swarm_cell bs \<and> rs' ! 4 = swarm_cell bs \<and>
    go (conf_prog addr bs sz) rs 6 6 m = go (conf_prog addr bs sz) rs' 15 15 m"
  using assms
  apply (simp add: run_step [where pc = 6] run_step [where pc = 7] run_step [where pc = 8] run_step [where pc = 9] run_step [where pc = 10] run_step [where pc = 11] run_step [where pc = 12] run_step [where pc = 13] run_step [where pc = 14] insn_simps load_le32 POLICY_CONFLICT_def del: load_le_at)
  apply (intro exI conjI) prefer 4 apply (rule refl)
  apply (simp_all add: swarm_cell_def)
  done

definition grid_bump :: "u32 list \<Rightarrow> u64 \<Rightarrow> u32 list" where
  "grid_bump m c = m[grid_index c := m ! grid_index c + 1]"

lemma length_grid_bump [simp]: "length (grid_bump m c) = length m"
  by (simp add: grid_bump_def)

lemma ucast_inc: "(ucast ((ucast x :: u64) + 1) :: u32) = x + 1"
proof -
  have "unat x < 4294967296" using unsigned_less [of x] by simp
  then have "unat ((ucast x :: u64) + 1) = unat x + 1" by (simp add: unat_word_ariths unat_ucast_up)
  then show ?thesis by (simp add: word_unat_eq_iff unsigned_ucast_eq unat_word_ariths take_bit_nat_def)
qed

lemma conf_count:
  assumes "length rs = 11" "length m = 64" "rs ! 1 = c" "rs ! 4 = c"
  shows "\<exists>rs'. length rs' = 11 \<and> rs' ! 6 = ucast (m ! grid_index c) + 1 \<and> rs' ! 4 = c \<and>
    go (conf_prog addr bs sz) rs 15 15 (Some m) = go (conf_prog addr bs sz) rs' 21 21 (Some (grid_bump m c))"
  using assms
  apply (simp add: run_step [where pc = 15] run_step [where pc = 16] run_step [where pc = 17] run_step [where pc = 18] run_step [where pc = 19] run_step [where pc = 20] insn_simps call_run POLICY_CONFLICT_def)
  apply (intro exI conjI) prefer 4 apply (subst grid_bump_def, subst ucast_inc, rule refl)
  apply (simp_all)
  done

lemma conf_decide:
  assumes "length rs = 11" "length m = 64" "rs ! 4 = c"
  shows "\<exists>k. k \<le> 34 \<and> go (conf_prog addr bs sz) rs 21 21 (Some m) =
    Some (Ret 0 \<lparr>r_retval = (if 3 < rs ! 6 \<or> 3 < m ! grid_index (c - 1) \<or> 3 < m ! grid_index (c + 1) then 5 else 1),
      r_insns = k, r_fault = EBPF_OK\<rparr> (Some m))"
  using assms
  by (simp add: run_step [where pc = 21] run_step [where pc = 22] run_step [where pc = 23] run_step [where pc = 24] run_step [where pc = 25] run_step [where pc = 26] run_step [where pc = 27] run_step [where pc = 28] run_step [where pc = 29] run_step [where pc = 30] run_step [where pc = 31] run_step [where pc = 32] run_step [where pc = 33] insn_simps call_run POLICY_CONFLICT_def out_exit_def u64_of_u32)

definition grid_alert :: "u32 list \<Rightarrow> u64 \<Rightarrow> bool" where
  "grid_alert m c \<longleftrightarrow>
     3 < (ucast (m ! grid_index c) :: u64) + 1 \<or>
     3 < grid_bump m c ! grid_index (c - 1) \<or> 3 < grid_bump m c ! grid_index (c + 1)"

lemma conf_run:
  assumes "18 \<le> unat sz" "18 \<le> length bs" "length rs = 11" "rs ! 1 = ucast addr" "length m = 64"
    "msgid_of bs = 33"
  shows "\<exists>k. k \<le> 34 \<and> go (conf_prog addr bs sz) rs 0 0 (Some m) =
    Some (Ret 0 \<lparr>r_retval = (if grid_alert m (swarm_cell bs) then 5 else 1), r_insns = k, r_fault = EBPF_OK\<rparr>
      (Some (grid_bump m (swarm_cell bs))))"
proof -
  let ?p = "conf_prog addr bs sz" and ?c = "swarm_cell bs"
  obtain r1 where r1: "length r1 = 11" "r1 ! 1 = ucast addr"
    and g1: "go ?p rs 0 0 (Some m) = go ?p r1 6 6 (Some m)"
    using conf_head [OF assms(1-4,6)] by blast
  obtain r2 where r2: "length r2 = 11" "r2 ! 1 = ?c" "r2 ! 4 = ?c"
    and g2: "go ?p r1 6 6 (Some m) = go ?p r2 15 15 (Some m)"
    using conf_cell [OF assms(1,2) r1] by blast
  obtain r3 where r3: "length r3 = 11" "r3 ! 6 = ucast (m ! grid_index ?c) + 1" "r3 ! 4 = ?c"
    and g3: "go ?p r2 15 15 (Some m) = go ?p r3 21 21 (Some (grid_bump m ?c))"
    using conf_count [OF r2(1) assms(5) r2(2,3)] by blast
  show ?thesis
    using conf_decide [OF r3(1) _ r3(3), of "grid_bump m ?c" addr bs sz] assms(5)
    unfolding g1 g2 g3 r3(2) grid_alert_def by simp
qed

end
