(* ===== verification/Rounds.thy ===== *)
theory Rounds
  imports PolicyRuns
begin

text \<open>
  What a monitor activation computes: the built-in packet policy agrees with the native filter, the
  screening policy counts reports per cell, and a loaded program only has to be accepted by the
  verifier for the activation to be defined.
\<close>

subsection \<open>Contexts\<close>

lemma ebpf_run_start:
  assumes "p_insn_cnt p \<noteq> 0" "p_insn_cnt p \<le> 64" "unat (p_insn_cnt p) \<le> length (p_ins p)"
  shows "ebpf_run p m = go p ((replicate 11 0)[1 := p_ctx p]) 0 0 m"
  using assms by (simp add: ebpf_run_def EBPF_MAX_INSNS_def init_state_def not_less leD)

lemma mav_ebpf_run:
  assumes "14 \<le> unat sz" "14 \<le> length bs"
  shows "\<exists>k. k \<le> 15 \<and> ebpf_run (mav_prog addr bs sz) m =
     Some (Ret 0 \<lparr>r_retval = ucast (native_verdict bs), r_insns = k, r_fault = EBPF_OK\<rparr> m)"
  using mav_run [OF assms, of "(replicate 11 0)[1 := ucast addr]" addr m]
  by (simp add: ebpf_run_start POLICY_MAVLINK_def)

lemma conf_ebpf_run:
  assumes "18 \<le> unat sz" "18 \<le> length bs" "length m = 64"
  shows "\<exists>k. k \<le> 34 \<and> ebpf_run (conf_prog addr bs sz) (Some m) =
    Some (Ret 0 \<lparr>r_retval = (if msgid_of bs = 33 \<and> grid_alert m (swarm_cell bs) then 5 else 1),
      r_insns = k, r_fault = EBPF_OK\<rparr>
      (Some (if msgid_of bs = 33 then grid_bump m (swarm_cell bs) else m)))"
  using conf_run [OF assms(1,2) _ _ assms(3), of "(replicate 11 0)[1 := ucast addr]" addr]
    conf_other [OF assms(1,2), of "(replicate 11 0)[1 := ucast addr]" addr "Some m"]
  by (cases "msgid_of bs = 33") (simp_all add: ebpf_run_start POLICY_CONFLICT_def)

lemma ucast_down_up: "(ucast (ucast (x :: u32) :: u64) :: u32) = x"
  by (rule bit_word_eqI) (auto simp: bit_simps)

subsection \<open>The packet round\<close>

definition packets_ok :: "mon_box \<Rightarrow> bool" where
  "packets_ok b \<longleftrightarrow>
     box_wf b \<and> (\<forall>i < 6. 14 \<le> unat (mon_sizes b ! i) \<and>
       unat (mon_off b ! i) + unat (mon_sizes b ! i) \<le> 256)"

definition packet_at :: "mon_box \<Rightarrow> nat \<Rightarrow> u8 list" where
  "packet_at b i = drop (unat (mon_off b ! i)) (mon_input b)"

definition packet_verdicts :: "mon_box \<Rightarrow> u32 list" where
  "packet_verdicts b = map (\<lambda>i. native_verdict (packet_at b i)) [0..<6]"

lemma packet_at_length:
  "packets_ok b \<Longrightarrow> i < 6 \<Longrightarrow> unat (mon_sizes b ! i) \<le> length (packet_at b i) \<and> 14 \<le> length (packet_at b i)"
  by (auto simp: packets_ok_def packet_at_def box_wf_def)

lemma packet_prog_same [simp]:
  "packet_prog t (b\<lparr>mon_verdicts := vs, mon_insns := ns\<rparr>) i = packet_prog t b i"
  by (simp add: packet_prog_def)

lemma fault_code_pos: "f \<noteq> EBPF_OK \<Longrightarrow> (ucast (fault_code f) :: u32) \<noteq> 0"
  by (cases f) simp_all

text \<open>If every run returns, the loop stores every verdict and raises the flag for a fault.\<close>

lemma packet_loop_runs:
  assumes "\<forall>i \<in> set is. \<exists>c m. ebpf_run (packet_prog t b i) None = Some (Ret c (R i) m)"
    and "\<forall>i \<in> set is. i < 6" "length vs = 6" "length ns = 6"
  shows "\<exists>pf' vs' ns'. packet_loop t is pf (b\<lparr>mon_verdicts := vs, mon_insns := ns\<rparr>) =
       Some (Inr (pf', b\<lparr>mon_verdicts := vs', mon_insns := ns'\<rparr>)) \<and>
     length vs' = 6 \<and> length ns' = 6 \<and>
     (\<forall>i < 6. vs' ! i = (if i \<in> set is then ucast (r_retval (R i)) else vs ! i)) \<and>
     (\<forall>i < 6. ns' ! i = (if i \<in> set is then r_insns (R i) else ns ! i)) \<and>
     (pf' \<noteq> 0 \<longleftrightarrow> (\<exists>i \<in> set is. r_fault (R i) \<noteq> EBPF_OK) \<or> pf \<noteq> 0)"
  using assms
proof (induction "is" arbitrary: pf vs ns)
  case Nil
  then show ?case
    by - (rule exI [of _ pf], rule exI [of _ vs], rule exI [of _ ns], simp)
next
  case (Cons j js)
  obtain c m where run: "ebpf_run (packet_prog t b j) None = Some (Ret c (R j) m)"
    using Cons.prems(1) by auto
  let ?pf = "if r_fault (R j) \<noteq> EBPF_OK then ucast (fault_code (r_fault (R j))) else pf"
  let ?vs = "vs[j := ucast (r_retval (R j))]" and ?ns = "ns[j := r_insns (R j)]"
  have "\<forall>i \<in> set js. \<exists>c m. ebpf_run (packet_prog t b i) None = Some (Ret c (R i) m)"
    "\<forall>i \<in> set js. i < 6" "length ?vs = 6" "length ?ns = 6"
    using Cons.prems by auto
  from Cons.IH [OF this, of ?pf] obtain pf' vs' ns' where
    loop: "packet_loop t js ?pf (b\<lparr>mon_verdicts := ?vs, mon_insns := ?ns\<rparr>) =
        Some (Inr (pf', b\<lparr>mon_verdicts := vs', mon_insns := ns'\<rparr>))"
    and res: "length vs' = 6" "length ns' = 6"
      "\<And>i. i < 6 \<Longrightarrow> vs' ! i = (if i \<in> set js then ucast (r_retval (R i)) else ?vs ! i)"
      "\<And>i. i < 6 \<Longrightarrow> ns' ! i = (if i \<in> set js then r_insns (R i) else ?ns ! i)"
      "pf' \<noteq> 0 \<longleftrightarrow> (\<exists>i \<in> set js. r_fault (R i) \<noteq> EBPF_OK) \<or> ?pf \<noteq> 0"
    by blast
  have "packet_loop t (j # js) pf (b\<lparr>mon_verdicts := vs, mon_insns := ns\<rparr>) =
      Some (Inr (pf', b\<lparr>mon_verdicts := vs', mon_insns := ns'\<rparr>))"
    using run loop by simp
  moreover have "\<forall>i < 6. vs' ! i = (if i \<in> set (j # js) then ucast (r_retval (R i)) else vs ! i)"
    using res(3) Cons.prems(2,3) by (simp add: nth_list_update)
  moreover have "\<forall>i < 6. ns' ! i = (if i \<in> set (j # js) then r_insns (R i) else ns ! i)"
    using res(4) Cons.prems(2,4) by (simp add: nth_list_update)
  moreover have "pf' \<noteq> 0 \<longleftrightarrow> (\<exists>i \<in> set (j # js). r_fault (R i) \<noteq> EBPF_OK) \<or> pf \<noteq> 0"
    using res(5) fault_code_pos [of "r_fault (R j)"] by (cases "r_fault (R j) = EBPF_OK") auto
  ultimately show ?case using res(1,2) by blast
qed

lemma mon_base_pos: "8 \<le> (ucast (MON_BOX t + word_of_nat MON_INPUT + x) :: u64)" if "unat x \<le> 256"
proof -
  have "unat (MON_BOX t + word_of_nat MON_INPUT + x) = unat (MON_BOX t + word_of_nat MON_INPUT) + unat x"
    using that by (cases t) (simp_all add: target_addresses mon_offsets unat_word_ariths)
  then show ?thesis
    using that by (cases t) (simp_all add: target_addresses mon_offsets word_le_nat_alt unat_ucast_up)
qed

lemma packet_prog_fit:
  assumes ok: "packets_ok b" and i: "i < 6" and cnt: "mon_prog_cnt b \<noteq> 0 \<longrightarrow> unat (mon_prog_cnt b) \<le> 64"
  shows "unat (p_insn_cnt (packet_prog t b i)) \<le> length (p_ins (packet_prog t b i))"
    "p_max_steps (packet_prog t b i) < 0xffffffff" "ctx_ok (packet_prog t b i)"
    "map_sane (packet_prog t b i) None"
proof -
  have wf: "length (mon_prog b) = 64" using ok by (simp add: packets_ok_def box_wf_def)
  show "unat (p_insn_cnt (packet_prog t b i)) \<le> length (p_ins (packet_prog t b i))"
    using wf cnt by (simp add: packet_prog_def mon_run_prog_def POLICY_MAVLINK_def POLICY_MAVLINK_CNT_def)
  show "p_max_steps (packet_prog t b i) < 0xffffffff" "map_sane (packet_prog t b i) None"
    by (simp_all add: packet_prog_def mon_run_prog_def map_sane_def)
  have "unat (mon_off b ! i) \<le> 256" using ok i unfolding packets_ok_def by (meson add_leD1)
  then show "ctx_ok (packet_prog t b i)"
    using packet_at_length [OF ok i] mon_base_pos
    by (simp add: ctx_ok_def packet_prog_def mon_run_prog_def packet_at_def)
qed

lemma packet_loop_total:
  assumes "\<forall>i \<in> set is. \<exists>r. ebpf_run (packet_prog t b i) None = Some r"
  shows "(\<exists>i u. i \<in> set is \<and> ebpf_run (packet_prog t b i) None = Some (Undef u) \<and>
       packet_loop t is pf (b\<lparr>mon_verdicts := vs, mon_insns := ns\<rparr>) = Some (Inl u)) \<or>
     (\<forall>i \<in> set is. \<exists>c r m. ebpf_run (packet_prog t b i) None = Some (Ret c r m))"
  using assms
proof (induction "is" arbitrary: pf vs ns)
  case Nil
  then show ?case by simp
next
  case (Cons j js)
  obtain r where run: "ebpf_run (packet_prog t b j) None = Some r" using Cons.prems by auto
  show ?case
  proof (cases r)
    case (Undef u)
    with run show ?thesis by auto
  next
    case (Ret c x m)
    have js: "\<forall>i \<in> set js. \<exists>r. ebpf_run (packet_prog t b i) None = Some r" using Cons.prems by simp
    let ?pf = "if r_fault x \<noteq> EBPF_OK then ucast (fault_code (r_fault x)) else pf"
      and ?b = "b\<lparr>mon_verdicts := vs[j := ucast (r_retval x)], mon_insns := ns[j := r_insns x]\<rparr>"
    consider (undef) i u where "i \<in> set js" "ebpf_run (packet_prog t b i) None = Some (Undef u)"
        "packet_loop t js ?pf ?b = Some (Inl u)"
      | (all_run) "\<forall>i \<in> set js. \<exists>c r m. ebpf_run (packet_prog t b i) None = Some (Ret c r m)"
      using Cons.IH [OF js] by blast
    then show ?thesis
    proof cases
      case undef
      have "packet_loop t (j # js) pf (b\<lparr>mon_verdicts := vs, mon_insns := ns\<rparr>) = Some (Inl u)"
        using run Ret undef(3) by simp
      then show ?thesis using undef(1,2) by auto
    next
      case all_run
      then show ?thesis using run Ret by auto
    qed
  qed
qed

text \<open>The activation in packet mode, for whatever program is live.\<close>

lemma packet_mode_runs:
  assumes ok: "packets_ok b" and mode: "mon_mode b \<noteq> 1" "mon_mode b \<noteq> 2"
    and run: "\<And>i. i < 6 \<Longrightarrow> \<exists>c m. ebpf_run (packet_prog t b i) None = Some (Ret c (R i) m)"
  shows "\<exists>pf. monitor_main t b =
      Some (Inr (b\<lparr>mon_verdicts := map (\<lambda>i. ucast (r_retval (R i))) [0..<6],
                   mon_insns := map (\<lambda>i. r_insns (R i)) [0..<6], mon_prog_fault := pf\<rparr>)) \<and>
    (pf \<noteq> 0 \<longleftrightarrow> (\<exists>i < 6. r_fault (R i) \<noteq> EBPF_OK))"
proof -
  have len: "length (mon_verdicts b) = 6" "length (mon_insns b) = 6"
    using ok by (simp_all add: packets_ok_def box_wf_def)
  have all: "\<forall>i \<in> set [0..<6]. \<exists>c m. ebpf_run (packet_prog t b i) None = Some (Ret c (R i) m)"
    "\<forall>i \<in> set [0..<6]. i < 6" using run by auto
  from packet_loop_runs [OF all len, of 0] obtain pf vs ns where
    loop: "packet_loop t [0..<6] 0 b = Some (Inr (pf, b\<lparr>mon_verdicts := vs, mon_insns := ns\<rparr>))"
    and res: "length vs = 6" "length ns = 6" "\<forall>i < 6. vs ! i = ucast (r_retval (R i))"
      "\<forall>i < 6. ns ! i = r_insns (R i)" "pf \<noteq> 0 \<longleftrightarrow> (\<exists>i < 6. r_fault (R i) \<noteq> EBPF_OK)"
    by (auto simp: Bex_def)
  have "vs = map (\<lambda>i. ucast (r_retval (R i))) [0..<6]" "ns = map (\<lambda>i. r_insns (R i)) [0..<6]"
    using res by (auto intro!: nth_equalityI)
  with loop mode res(5) show ?thesis by (intro exI [of _ pf]) (simp add: monitor_main_def)
qed

lemma builtin_packet_run:
  assumes "packets_ok b" "mon_prog_cnt b = 0" "i < 6"
  shows "\<exists>k. k \<le> 15 \<and> ebpf_run (packet_prog t b i) None =
    Some (Ret 0 \<lparr>r_retval = ucast (native_verdict (packet_at b i)), r_insns = k, r_fault = EBPF_OK\<rparr> None)"
proof -
  have "14 \<le> unat (mon_sizes b ! i)" "14 \<le> length (packet_at b i)"
    using assms(1,3) packet_at_length [OF assms(1,3)] by (auto simp: packets_ok_def)
  from mav_ebpf_run [OF this, of "MON_BOX t + word_of_nat MON_INPUT + mon_off b ! i" None]
  show ?thesis using assms(2) by (simp add: packet_prog_def mav_prog_def packet_at_def)
qed

lemma native_loop_runs:
  assumes "packets_ok b" "\<forall>i \<in> set is. i < 6" "length vs = 6"
  shows "\<exists>vs'. native_loop is (b\<lparr>mon_native_verd := vs\<rparr>) = Some (b\<lparr>mon_native_verd := vs'\<rparr>) \<and>
    length vs' = 6 \<and>
    (\<forall>i < 6. vs' ! i = (if i \<in> set is then native_verdict (packet_at b i) else vs ! i))"
  using assms(2,3)
proof (induction "is" arbitrary: vs)
  case Nil
  then show ?case by (intro exI [of _ vs]) simp
next
  case (Cons j js)
  have "\<not> length (packet_at b j) < 14" using packet_at_length [OF assms(1), of j] Cons.prems by simp
  moreover from Cons.IH [of "vs[j := native_verdict (packet_at b j)]"] Cons.prems obtain vs' where
    "native_loop js (b\<lparr>mon_native_verd := vs[j := native_verdict (packet_at b j)]\<rparr>) =
      Some (b\<lparr>mon_native_verd := vs'\<rparr>)" "length vs' = 6"
    "\<forall>i < 6. vs' ! i = (if i \<in> set js then native_verdict (packet_at b i)
      else vs[j := native_verdict (packet_at b j)] ! i)"
    by auto
  ultimately show ?case
    using Cons.prems by (intro exI [of _ vs']) (simp add: packet_at_def nth_list_update)
qed

lemma native_filter_runs:
  assumes "packets_ok b"
  shows "native_filter b = Some (b\<lparr>mon_native_verd := packet_verdicts b\<rparr>)"
proof -
  have len: "length (mon_native_verd b) = 6" using assms by (simp add: packets_ok_def box_wf_def)
  obtain vs where "native_filter b = Some (b\<lparr>mon_native_verd := vs\<rparr>)" "length vs = 6"
    "\<forall>i < 6. vs ! i = native_verdict (packet_at b i)"
    using native_loop_runs [OF assms _ len, of "[0..<6]"] by (auto simp: native_filter_def)
  moreover from this have "vs = packet_verdicts b" by (auto simp: packet_verdicts_def intro!: nth_equalityI)
  ultimately show ?thesis by simp
qed

lemma builtin_round:
  assumes "packets_ok b" "mon_prog_cnt b = 0" "mon_mode b \<noteq> 1" "mon_mode b \<noteq> 2"
  shows "(\<exists>ns. monitor_main t b = Some (Inr (b\<lparr>mon_verdicts := packet_verdicts b, mon_insns := ns,
        mon_prog_fault := 0\<rparr>)) \<and> (\<forall>n \<in> set ns. n \<le> 15) \<and> length ns = 6) \<and>
    monitor_main t (b\<lparr>mon_mode := 2\<rparr>) =
      Some (Inr (b\<lparr>mon_mode := 2, mon_native_verd := packet_verdicts b\<rparr>))"
proof -
  from builtin_packet_run [OF assms(1,2), of _ t] obtain k where
    k: "\<And>i. i < 6 \<Longrightarrow> k i \<le> 15 \<and> ebpf_run (packet_prog t b i) None = Some (Ret 0
      \<lparr>r_retval = ucast (native_verdict (packet_at b i)), r_insns = k i, r_fault = EBPF_OK\<rparr> None)"
    by metis
  let ?R = "\<lambda>i. \<lparr>r_retval = ucast (native_verdict (packet_at b i)), r_insns = k i, r_fault = EBPF_OK\<rparr>"
  have "\<exists>c m. ebpf_run (packet_prog t b i) None = Some (Ret c (?R i) m)" if "i < 6" for i
    using k [OF that] by blast
  from packet_mode_runs [OF assms(1,3,4) this] have
    "monitor_main t b = Some (Inr (b\<lparr>mon_verdicts := packet_verdicts b,
      mon_insns := map k [0..<6], mon_prog_fault := 0\<rparr>))"
    by (simp add: packet_verdicts_def ucast_down_up)
  moreover have "packets_ok (b\<lparr>mon_mode := 2\<rparr>)" using assms(1) by (simp add: packets_ok_def box_wf_def)
  then have "monitor_main t (b\<lparr>mon_mode := 2\<rparr>) =
      Some (Inr (b\<lparr>mon_mode := 2, mon_native_verd := packet_verdicts b\<rparr>))"
    using native_filter_runs [of "b\<lparr>mon_mode := 2\<rparr>"]
    by (simp add: monitor_main_def packet_verdicts_def packet_at_def)
  ultimately show ?thesis using k by (intro conjI exI [of _ "map k [0..<6]"]) auto
qed

text \<open>
  C14: the built-in eBPF policy and the native filter agree.  With no program loaded, a packet round
  over six packets that lie in the input window and have at least 14 bytes returns, stores for
  each the verdict of the native filter, and raises no fault; the native mode on the same box stores
  the same six verdicts in its own slot.
\<close>

theorem policy_agrees_with_native:
  assumes "packets_ok b" "mon_prog_cnt b = 0" "mon_mode b \<noteq> 1" "mon_mode b \<noteq> 2"
  shows "(\<exists>ns. monitor_main t b = Some (Inr (b\<lparr>mon_verdicts := packet_verdicts b, mon_insns := ns,
        mon_prog_fault := 0\<rparr>)) \<and> (\<forall>n \<in> set ns. n \<le> 15)) \<and>
    monitor_main t (b\<lparr>mon_mode := 2\<rparr>) =
      Some (Inr (b\<lparr>mon_mode := 2, mon_native_verd := packet_verdicts b\<rparr>))"
  using builtin_round [OF assms, of t] by blast

definition sample_box :: mon_box where
  "sample_box =
     \<lparr>mon_mode = 0, mon_off = [0, 42, 84, 126, 168, 210], mon_sizes = replicate 6 42,
      mon_input = replicate 256 0, mon_confn = 0, mon_soff = replicate 64 0,
      mon_ssizes = replicate 64 42, mon_verdicts = replicate 6 0, mon_insns = replicate 6 0,
      mon_screen_verd = replicate 64 0, mon_screen_insns = replicate 64 0,
      mon_native_verd = replicate 6 0, diag_runs = 0, diag_alrt = 0, mon_map = replicate 64 0,
      mon_data = replicate 2688 0, mon_prog_fault = 0, mon_prog_cnt = 0,
      mon_prog = replicate 64 0, mon_prog_b = replicate 64 0, mon_prog_b_cnt = 0\<rparr>"

lemma sample_box_ok: "packets_ok sample_box"
proof -
  have "\<forall>i \<in> set [0..<6]. unat (mon_off sample_box ! i) \<le> 210 \<and> mon_sizes sample_box ! i = 42"
    by (simp add: sample_box_def upt_rec)
  then have "\<forall>i < 6. unat (mon_off sample_box ! i) \<le> 210 \<and> mon_sizes sample_box ! i = 42" by simp
  then show ?thesis by (auto simp: packets_ok_def box_wf_def) (simp_all add: sample_box_def)
qed

theorem policy_agrees_with_native_witness:
  "\<exists>ns. monitor_main Board sample_box =
     Some (Inr (sample_box\<lparr>mon_verdicts := [0, 0, 0, 0, 0, 0], mon_insns := ns, mon_prog_fault := 0\<rparr>))"
proof -
  have "packet_verdicts sample_box = [0, 0, 0, 0, 0, 0]"
    by (simp add: packet_verdicts_def packet_at_def sample_box_def native_verdict_def upt_rec)
  then show ?thesis
    using policy_agrees_with_native [OF sample_box_ok, of Board] by (auto simp: sample_box_def)
qed

subsection \<open>A loaded program\<close>

text \<open>What an undefined packet round says about the live program.\<close>

definition has_hazard :: "mon_box \<Rightarrow> ub \<Rightarrow> bool" where
  "has_hazard b u \<longleftrightarrow>
     u = UB_DIVISION \<and> (\<exists>pc < unat (mon_prog_cnt b). div32_reg (mon_prog b ! pc)) \<or>
     u = UB_OVERFLOW \<and> (\<exists>pc < unat (mon_prog_cnt b). neg_insn (mon_prog b ! pc))"

lemma loaded_prog_fields:
  "mon_prog_cnt b \<noteq> 0 \<Longrightarrow> p_ins (packet_prog t b i) = mon_prog b \<and> p_insn_cnt (packet_prog t b i) = mon_prog_cnt b"
  by (simp add: packet_prog_def mon_run_prog_def)

lemma accepted_count: "ic_program_check ins n = IC_OK \<Longrightarrow> n \<noteq> 0 \<and> n \<le> 64"
  by (auto simp: ic_program_check_def IC_PROG_MAX_INSNS_def split: if_splits option.splits)

lemma loaded_packet_run:
  assumes ok: "packets_ok b" and i: "i < 6"
    and acc: "ic_program_check (Some (mon_prog b)) (mon_prog_cnt b) = IC_OK"
  shows "\<exists>r. ebpf_run (packet_prog t b i) None = Some r \<and> run_outcome True (packet_prog t b i) r"
proof (rule gate.accepted)
  have cnt: "mon_prog_cnt b \<noteq> 0" "unat (mon_prog_cnt b) \<le> 64"
    using accepted_count [OF acc] by (auto simp: word_le_nat_alt)
  then show "ic_program_check (Some (p_ins (packet_prog t b i))) (p_insn_cnt (packet_prog t b i)) = IC_OK"
    using acc by (simp add: loaded_prog_fields)
  show "unat (p_insn_cnt (packet_prog t b i)) \<le> length (p_ins (packet_prog t b i)) \<and>
    p_max_steps (packet_prog t b i) < 0xffffffff \<and> ctx_ok (packet_prog t b i) \<and>
    map_sane (packet_prog t b i) None"
    using packet_prog_fit [OF ok i] cnt(2) by simp
qed

lemma loaded_round:
  assumes "packets_ok b" "mon_mode b \<noteq> 1" "mon_mode b \<noteq> 2"
    and "ic_program_check (Some (mon_prog b)) (mon_prog_cnt b) = IC_OK"
  shows "(\<exists>u. monitor_main t b = Some (Inl u) \<and> has_hazard b u) \<or>
    (\<exists>vs ns pf. monitor_main t b = Some (Inr (b\<lparr>mon_verdicts := vs, mon_insns := ns,
        mon_prog_fault := pf\<rparr>)) \<and> length vs = 6 \<and> length ns = 6)"
proof -
  have cnt: "mon_prog_cnt b \<noteq> 0" using accepted_count [OF assms(4)] by simp
  have "\<forall>i \<in> set [0..<6]. \<exists>r. ebpf_run (packet_prog t b i) None = Some r"
    using loaded_packet_run [OF assms(1) _ assms(4)] by (metis atLeastLessThan_iff set_upt)
  from packet_loop_total [OF this, where pf = 0 and vs = "mon_verdicts b" and ns = "mon_insns b"]
  consider (undef) i u where "i \<in> set [0..<6]" "ebpf_run (packet_prog t b i) None = Some (Undef u)"
      "packet_loop t [0..<6] 0 b = Some (Inl u)"
    | (runs) "\<forall>i \<in> set [0..<6]. \<exists>c r m. ebpf_run (packet_prog t b i) None = Some (Ret c r m)"
    by auto
  then show ?thesis
  proof cases
    case undef
    then have "run_outcome True (packet_prog t b i) (Undef u)"
      using loaded_packet_run [OF assms(1) _ assms(4), of i t] by auto
    then have "has_hazard b u"
      using cnt by (simp add: run_outcome_def has_hazard_def loaded_prog_fields)
    then show ?thesis using undef(3) assms(2,3) by (auto simp: monitor_main_def)
  next
    case runs
    define R where "R i = (case ebpf_run (packet_prog t b i) None of Some (Ret c r m) \<Rightarrow> r)" for i
    have "\<exists>c m. ebpf_run (packet_prog t b i) None = Some (Ret c (R i) m)" if "i < 6" for i
    proof -
      have "i \<in> set [0..<6]" using that by simp
      with runs obtain c r m where "ebpf_run (packet_prog t b i) None = Some (Ret c r m)" by blast
      then show ?thesis by (intro exI [of _ c] exI [of _ m]) (simp add: R_def)
    qed
    then obtain pf where "monitor_main t b =
      Some (Inr (b\<lparr>mon_verdicts := map (\<lambda>i. ucast (r_retval (R i))) [0..<6],
        mon_insns := map (\<lambda>i. r_insns (R i)) [0..<6], mon_prog_fault := pf\<rparr>))"
      using packet_mode_runs [OF assms(1-3), of t R] by blast
    then show ?thesis by (intro disjI2 exI [of _ "map (\<lambda>i. ucast (r_retval (R i))) [0..<6]"]
        exI [of _ "map (\<lambda>i. r_insns (R i)) [0..<6]"] exI [of _ pf]) simp
  qed
qed

text \<open>
  A program the verifier accepted is safe to run on the packets.  The activation returns; either
  it stores six verdicts, six instruction counts and the fault flag and changes nothing else in the
  box, or it runs into one of the two arithmetic hazards, and then the live program contains
  such an instruction.
\<close>

theorem loaded_round_defined:
  assumes "packets_ok b" "mon_mode b \<noteq> 1" "mon_mode b \<noteq> 2"
    and "ic_program_check (Some (mon_prog b)) (mon_prog_cnt b) = IC_OK"
  shows "(\<exists>u. monitor_main t b = Some (Inl u) \<and> has_hazard b u) \<or>
    (\<exists>vs ns pf. monitor_main t b = Some (Inr (b\<lparr>mon_verdicts := vs, mon_insns := ns,
        mon_prog_fault := pf\<rparr>)) \<and> length vs = 6 \<and> length ns = 6)"
  using assms by (rule loaded_round)

definition loaded_box :: mon_box where
  "loaded_box = sample_box\<lparr>mon_prog := pass_all_ins @ replicate 57 0, mon_prog_cnt := 7\<rparr>"

lemma loaded_box_accepted: "ic_program_check (Some (mon_prog loaded_box)) (mon_prog_cnt loaded_box) = IC_OK"
  by code_simp

lemma loaded_box_packets: "packets_ok loaded_box"
  using sample_box_ok by (simp add: packets_ok_def box_wf_def loaded_box_def pass_all_ins_def)

theorem loaded_round_defined_witness: "monitor_main Board loaded_box \<noteq> None"
  using loaded_round_defined [OF loaded_box_packets _ _ loaded_box_accepted, of Board]
  by (auto simp: loaded_box_def sample_box_def)

subsection \<open>Screening the swarm\<close>

text \<open>
  The specification: reports with message id 33 are counted by grid cell; a packet is flagged when its
  cell or one of the two neighbouring cell numbers has had more than three reports so far.
\<close>

definition reports :: "u8 list list \<Rightarrow> nat \<Rightarrow> nat" where
  "reports ps k = length (filter (\<lambda>p. msgid_of p = 33 \<and> grid_index (swarm_cell p) = k) ps)"

definition crowded :: "u8 list list \<Rightarrow> u8 list \<Rightarrow> bool" where
  "crowded ps p \<longleftrightarrow>
     msgid_of p = 33 \<and>
     (let k = grid_index (swarm_cell p)
      in 3 < reports ps k \<or> 3 < reports ps ((k + 63) mod 64) \<or> 3 < reports ps ((k + 1) mod 64))"

lemma crowded_33: "crowded ps p \<Longrightarrow> msgid_of p = 33"
  by (simp add: crowded_def)

definition screen_verdict :: "u8 list list \<Rightarrow> nat \<Rightarrow> u32" where
  "screen_verdict ps i = (if crowded (take (Suc i) ps) (ps ! i) then 5 else 1)"

definition grid_of :: "u8 list list \<Rightarrow> u32 list" where
  "grid_of ps = map (\<lambda>k. word_of_nat (reports ps k)) [0..<64]"

lemma length_grid_of [simp]: "length (grid_of ps) = 64"
  by (simp add: grid_of_def)

lemma grid_of_nth [simp]: "k < 64 \<Longrightarrow> grid_of ps ! k = word_of_nat (reports ps k)"
  by (simp add: grid_of_def)

lemma grid_index_mod: "grid_index x = unat x mod 64"
proof -
  have "(ucast x :: u32) AND 63 = take_bit 6 (ucast x :: u32)"
    by (simp add: take_bit_eq_mask mask_eq_exp_minus_1)
  then show ?thesis
    by (simp add: grid_index_def unsigned_take_bit_eq unsigned_ucast_eq take_bit_take_bit)
      (simp add: take_bit_nat_def)
qed

lemma grid_index_steps:
  "grid_index (c + 1) = (grid_index c + 1) mod 64" "grid_index (c - 1) = (grid_index c + 63) mod 64"
proof -
  have "grid_index (c + 1) = (unat c + 1) mod 64"
    by (simp add: grid_index_mod unat_word_ariths mod_mod_cancel)
  then show "grid_index (c + 1) = (grid_index c + 1) mod 64"
    by (simp add: grid_index_mod mod_simps)
  have "c - 1 = c + 18446744073709551615" by simp
  then have "grid_index (c - 1) = (unat c + 18446744073709551615) mod 64"
    by (simp only: grid_index_mod unat_word_ariths) (simp add: mod_mod_cancel)
  also have "\<dots> = (unat c mod 64 + 18446744073709551615 mod 64) mod 64" by (simp only: mod_simps)
  finally show "grid_index (c - 1) = (grid_index c + 63) mod 64" by (simp add: grid_index_mod)
qed

lemma grid_of_snoc:
  "grid_of (ps @ [p]) = (if msgid_of p = 33 then grid_bump (grid_of ps) (swarm_cell p) else grid_of ps)"
  by (rule nth_equalityI) (auto simp: grid_bump_def nth_list_update reports_def)

lemma three_less_word: "n < 4294967296 \<Longrightarrow> 3 < (word_of_nat n :: u32) \<longleftrightarrow> 3 < n"
  by (simp add: word_less_nat_alt unat_of_nat take_bit_nat_eq_self)

lemma reports_le: "reports ps k \<le> length ps"
  by (simp add: reports_def)

lemma grid_alert_crowded:
  assumes "length ps < 64" "msgid_of p = 33"
  shows "grid_alert (grid_of ps) (swarm_cell p) \<longleftrightarrow> crowded (ps @ [p]) p"
proof -
  let ?k = "grid_index (swarm_cell p)"
  have small: "reports (ps @ [p]) k < 4294967296" for k
    using reports_le [of "ps @ [p]" k] assms(1) by simp
  have bump: "grid_bump (grid_of ps) (swarm_cell p) = grid_of (ps @ [p])"
    using assms(2) by (simp add: grid_of_snoc)
  have own: "reports (ps @ [p]) ?k = reports ps ?k + 1" using assms(2) by (simp add: reports_def)
  have "unat (word_of_nat (reports ps ?k) :: u32) = reports ps ?k"
    using small [of ?k] own by (simp add: unat_of_nat take_bit_nat_eq_self)
  then have "unat ((ucast (grid_of ps ! ?k) :: u64) + 1) = reports (ps @ [p]) ?k"
    using small [of ?k] own by (simp add: unat_word_ariths unat_ucast_up)
  then have "3 < (ucast (grid_of ps ! ?k) :: u64) + 1 \<longleftrightarrow> 3 < reports (ps @ [p]) ?k"
    by (simp add: word_less_nat_alt)
  then show ?thesis
    using assms(2) small
    by (simp add: grid_alert_def crowded_def bump grid_index_steps three_less_word Let_def)
qed

definition swarm_ok :: "mon_box \<Rightarrow> bool" where
  "swarm_ok b \<longleftrightarrow>
     box_wf b \<and> mon_confn b \<le> 64 \<and>
     (\<forall>i < unat (mon_confn b). 18 \<le> unat (mon_ssizes b ! i) \<and>
       unat (mon_soff b ! i) + unat (mon_ssizes b ! i) \<le> 2688)"

definition swarm :: "mon_box \<Rightarrow> u8 list list" where
  "swarm b = map (\<lambda>i. drop (unat (mon_soff b ! i)) (mon_data b)) [0..<unat (mon_confn b)]"

lemma screen_run:
  assumes ok: "swarm_ok b" and i: "i < unat (mon_confn b)"
  shows "\<exists>n. ebpf_run (screen_prog t (b\<lparr>mon_map := m, mon_screen_verd := vs, mon_screen_insns := ns\<rparr>) i)
      (Some (grid_of (take i (swarm b)))) =
    Some (Ret 0 \<lparr>r_retval = ucast (screen_verdict (swarm b) i), r_insns = n, r_fault = EBPF_OK\<rparr>
      (Some (grid_of (take (Suc i) (swarm b)))))"
proof -
  let ?p = "swarm b ! i"
  have len: "i < length (swarm b)" "length (swarm b) \<le> 64"
    using ok i by (simp_all add: swarm_def swarm_ok_def word_le_nat_alt)
  have p: "?p = drop (unat (mon_soff b ! i)) (mon_data b)" using i by (simp add: swarm_def)
  have "18 \<le> unat (mon_ssizes b ! i)" "18 \<le> length ?p"
    using ok i unfolding p by (auto simp: swarm_ok_def box_wf_def)
  from conf_ebpf_run [OF this, of "grid_of (take i (swarm b))"
      "MON_BOX t + word_of_nat MON_DATA + mon_soff b ! i"] p
  show ?thesis
    using len grid_alert_crowded [of "take i (swarm b)" ?p]
    by (auto simp: screen_prog_def conf_prog_def take_Suc_conv_app_nth grid_of_snoc screen_verdict_def
        dest: crowded_33)
qed

definition alerts :: "u8 list list \<Rightarrow> nat \<Rightarrow> nat" where
  "alerts ps k = length (filter (\<lambda>i. screen_verdict ps i = 5) [k..<length ps])"

lemma screen_loop_runs:
  assumes ok: "swarm_ok b" and k: "k + d = unat (mon_confn b)"
    and len: "length vs = 64" "length ns = 64"
  shows "\<exists>vs' ns'. screen_loop t [k..<k + d] al
      (b\<lparr>mon_map := grid_of (take k (swarm b)), mon_screen_verd := vs, mon_screen_insns := ns\<rparr>) =
    Some (Inr (al + word_of_nat (alerts (swarm b) k),
      b\<lparr>mon_map := grid_of (swarm b), mon_screen_verd := vs', mon_screen_insns := ns'\<rparr>)) \<and>
    length vs' = 64 \<and> length ns' = 64 \<and>
    (\<forall>i < 64. vs' ! i = (if k \<le> i \<and> i < k + d then screen_verdict (swarm b) i else vs ! i))"
  using k len
proof (induction d arbitrary: k al vs ns)
  case 0
  then have "take k (swarm b) = swarm b" "alerts (swarm b) k = 0" by (simp_all add: swarm_def alerts_def)
  with 0 show ?case by - (rule exI [of _ vs], rule exI [of _ ns], auto)
next
  case (Suc d)
  let ?v = "screen_verdict (swarm b) k"
  have k64: "k < 64" "k < unat (mon_confn b)" "k < length (swarm b)"
    using Suc.prems ok by (simp_all add: swarm_ok_def word_le_nat_alt swarm_def)
  obtain n where run: "ebpf_run (screen_prog t (b\<lparr>mon_map := grid_of (take k (swarm b)),
        mon_screen_verd := vs, mon_screen_insns := ns\<rparr>) k) (Some (grid_of (take k (swarm b)))) =
      Some (Ret 0 \<lparr>r_retval = ucast ?v, r_insns = n, r_fault = EBPF_OK\<rparr> (Some (grid_of (take (Suc k) (swarm b)))))"
    using screen_run [OF ok k64(2)] by blast
  have five: "(ucast ?v :: u64) = 5 \<longleftrightarrow> ?v = 5" by (simp add: u64_of_u32)
  have al: "word_of_nat (alerts (swarm b) k) = (if ?v = 5 then 1 else 0) + (word_of_nat (alerts (swarm b) (Suc k)) :: u32)"
    using k64(3) by (simp add: alerts_def upt_conv_Cons)
  from Suc.IH [of "Suc k" "vs[k := ?v]" "ns[k := n]" "if ?v = 5 then al + 1 else al"] Suc.prems
  obtain vs' ns' where
    loop: "screen_loop t [Suc k..<Suc k + d] (if ?v = 5 then al + 1 else al)
      (b\<lparr>mon_map := grid_of (take (Suc k) (swarm b)), mon_screen_verd := vs[k := ?v], mon_screen_insns := ns[k := n]\<rparr>) =
    Some (Inr ((if ?v = 5 then al + 1 else al) + word_of_nat (alerts (swarm b) (Suc k)),
      b\<lparr>mon_map := grid_of (swarm b), mon_screen_verd := vs', mon_screen_insns := ns'\<rparr>))"
    and res: "length vs' = 64" "length ns' = 64"
      "\<forall>i < 64. vs' ! i = (if Suc k \<le> i \<and> i < Suc k + d then screen_verdict (swarm b) i else vs[k := ?v] ! i)"
    by auto
  have upt: "[k..<k + Suc d] = k # [Suc k..<Suc k + d]" by (simp add: upt_conv_Cons del: upt_Suc)
  have "screen_loop t [k..<k + Suc d] al
      (b\<lparr>mon_map := grid_of (take k (swarm b)), mon_screen_verd := vs, mon_screen_insns := ns\<rparr>) =
    Some (Inr (al + word_of_nat (alerts (swarm b) k),
      b\<lparr>mon_map := grid_of (swarm b), mon_screen_verd := vs', mon_screen_insns := ns'\<rparr>))"
    using run k64(1) five al loop unfolding upt by (simp add: ucast_down_up del: upt_Suc)
  moreover have "\<forall>i < 64. vs' ! i = (if k \<le> i \<and> i < k + Suc d then screen_verdict (swarm b) i else vs ! i)"
    using res(3) Suc.prems(2) k64(1) by (auto simp: nth_list_update)
  ultimately show ?case using res(1,2) by blast
qed

lemma screening_round:
  assumes "swarm_ok b" "mon_mode b = 1"
  shows "\<exists>vs ns. monitor_main t b =
      Some (Inr (b\<lparr>mon_map := grid_of (swarm b), mon_screen_verd := vs, mon_screen_insns := ns,
        diag_runs := diag_runs b + 1, diag_alrt := word_of_nat (alerts (swarm b) 0)\<rparr>)) \<and>
    length vs = 64 \<and> length ns = 64 \<and>
    take (unat (mon_confn b)) vs = map (screen_verdict (swarm b)) [0..<unat (mon_confn b)]"
proof -
  have n: "unat (mon_confn b) \<le> 64" using assms(1) by (simp add: swarm_ok_def word_le_nat_alt)
  have "uint (mon_confn b) \<le> 64" using assms(1) by (simp add: swarm_ok_def word_le_def)
  then have "sint (mon_confn b) = uint (mon_confn b)"
    by (simp add: sint_uint, intro signed_take_bit_int_eq_self) (simp_all add: order_trans [OF _ uint_nonnegative])
  then have sint: "nat (sint (mon_confn b)) = unat (mon_confn b)" by simp
  have zero: "replicate 64 0 = grid_of (take 0 (swarm b))"
    by (rule nth_equalityI) (simp_all add: reports_def)
  have len: "length (mon_screen_verd b) = 64" "length (mon_screen_insns b) = 64"
    using assms(1) by (simp_all add: swarm_ok_def box_wf_def)
  from screen_loop_runs [OF assms(1) _ len, of 0 "unat (mon_confn b)" t 0] obtain vs ns where
    "screen_loop t [0..<unat (mon_confn b)] 0 (b\<lparr>mon_map := grid_of (take 0 (swarm b))\<rparr>) =
      Some (Inr (word_of_nat (alerts (swarm b) 0),
        b\<lparr>mon_map := grid_of (swarm b), mon_screen_verd := vs, mon_screen_insns := ns\<rparr>))"
    and "length vs = 64" "length ns = 64" "\<forall>i < 64. vs ! i = (if i < unat (mon_confn b) then screen_verdict (swarm b) i
      else mon_screen_verd b ! i)"
    by auto
  then show ?thesis
    using assms(2) n unfolding monitor_main_def sint zero
    by (intro exI [of _ vs] exI [of _ ns]) (auto intro!: nth_equalityI)
qed

text \<open>
  The screening activation computes the specification.  On a swarm of at most 64 packets of at
  least 18 bytes inside the data window, it returns; the verdict of packet \<open>i\<close> is 5 exactly when the
  first \<open>i + 1\<close> packets crowd its cell or a neighbouring one, and 1 otherwise; the grid holds the
  report counts, and \<^verbatim>\<open>DIAG_ALRT\<close> the number of alerts.
\<close>

theorem screening_counts_reports:
  assumes "swarm_ok b" "mon_mode b = 1"
  shows "\<exists>vs ns. monitor_main t b =
      Some (Inr (b\<lparr>mon_map := grid_of (swarm b), mon_screen_verd := vs, mon_screen_insns := ns,
        diag_runs := diag_runs b + 1, diag_alrt := word_of_nat (alerts (swarm b) 0)\<rparr>)) \<and>
    take (unat (mon_confn b)) vs = map (screen_verdict (swarm b)) [0..<unat (mon_confn b)]"
  using screening_round [OF assms, of t] by blast


definition swarm_box :: mon_box where
  "swarm_box = sample_box\<lparr>mon_mode := 1, mon_confn := 4, mon_data := (replicate 2688 0)[7 := 33]\<rparr>"

lemma swarm_box_ok: "swarm_ok swarm_box"
  by (auto simp: swarm_ok_def swarm_box_def box_wf_def sample_box_def)

lemma swarm_box_swarm: "swarm swarm_box = replicate 4 ((replicate 2688 0)[7 := 33])"
  by (rule nth_equalityI) (auto simp: swarm_def swarm_box_def sample_box_def)

theorem screening_counts_reports_witness:
  "\<exists>b'. monitor_main Board swarm_box = Some (Inr b') \<and> take 4 (mon_screen_verd b') = [1, 1, 1, 5] \<and>
    diag_alrt b' = 1"
proof -
  let ?p = "(replicate 2688 0)[7 := 33] :: u8 list"
  have p: "msgid_of ?p = 33" "grid_index (swarm_cell ?p) = 0"
    by (simp_all add: msgid_of_def swarm_cell_def le32_def grid_index_def)
  have r: "reports (replicate n ?p) k = (if k = 0 then n else 0)" for n k
    by (simp add: reports_def p)
  have v: "screen_verdict (replicate 4 ?p) i = (if 2 < i then 5 else 1)" if "i < 4" for i
    using that by (simp add: screen_verdict_def crowded_def p r Let_def min_def del: replicate_Suc)
  have "map (screen_verdict (replicate 4 ?p)) [0..<4] = [1, 1, 1, 5]" "alerts (replicate 4 ?p) 0 = 1"
    by (simp_all add: v upt_rec alerts_def)
  moreover have "unat (mon_confn swarm_box) = 4" "mon_mode swarm_box = 1" by (simp_all add: swarm_box_def)
  ultimately show ?thesis
    using screening_counts_reports [OF swarm_box_ok, of Board] unfolding swarm_box_swarm by auto
qed

end
