(* ===== verification/Install.thy ===== *)
theory Install
  imports Startup Rounds
begin

text \<open>
  The gate of the hot path: what \<open>hot_swap\<close> does to the state, branch by branch, for every staged
  image.  \<open>sup_shape\<close> is the layout of the supervisor's objects; the acceptance of a program depends
  on the words it counts and no others, so it survives the copies between the slots.
\<close>

subsection \<open>The layout of the state\<close>

definition sup_shape :: "sup \<Rightarrow> bool" where
  "sup_shape st \<longleftrightarrow>
     length (status st) = 106 \<and> box_wf (box st) \<and> length (pend st) = 0x240 \<and>
     length (mailbox st) = 2696 \<and> length (g_chan_stage st) = 2696 \<and> length (prog_area st) = 0x800 \<and>
     length (g_nat st) = 2 \<and> g_nat_live st \<le> 1 \<and> length (nat_text st) = 2 \<and>
     (\<forall>k < 2. length (nat_text st ! k) = 0x1000) \<and> length (nat_sram st) = 2 \<and>
     length (mirror st) = 0x800 \<and> comp_wf (table st) \<and>
     unat (g_ri_index st) \<le> 7 \<and> length (g_ri_cause st) = 8 \<and> length (g_ri_addr st) = 8"

subsection \<open>Acceptance depends on the counted words\<close>

lemma propagate_length: "propagate out ss cells = Some cells' \<Longrightarrow> length cells' = length cells"
  by (induction ss arbitrary: cells) (auto simp: Let_def split: if_splits)

lemma check_loop_cong:
  "\<forall>pc < length cells. ins ! pc = ins' ! pc \<Longrightarrow> check_loop ins cells = check_loop ins' cells"
proof (induction ins cells rule: check_loop.induct)
  case (1 ins cells)
  show ?case
  proof (cases "next_pending cells")
    case None
    then show ?thesis by (simp add: check_loop.simps)
  next
    case (Some pc)
    let ?cells1 = "cells[pc := (fst (cells ! pc), False)]"
    have e: "ins ! pc = ins' ! pc" using 1(2) next_pending_Some [OF Some] by simp
    have ih: "check_loop ins cells2 = check_loop ins' cells2"
      if "insn_check (ins ! pc) (fst (cells ! pc))"
        "propagate (insn_out (ins ! pc) (fst (cells ! pc))) (insn_succ (ins ! pc) (of_nat pc)) ?cells1 = Some cells2"
      for cells2
    proof -
      have "length cells2 = length cells" using propagate_length [OF that(2)] by simp
      then show ?thesis using 1(1) [OF Some refl refl refl _ that(2)] that(1) 1(2) by simp
    qed
    show ?thesis
      using ih Some
      by (subst (1 2) check_loop.simps) (simp add: e Let_def split: option.splits)
  qed
qed

lemma ic_program_check_cong:
  assumes "\<forall>pc < unat cnt. ins ! pc = ins' ! pc"
  shows "ic_program_check (Some ins) cnt = ic_program_check (Some ins') cnt"
proof -
  have "list_all (\<lambda>pc. shape_ok cnt pc (ins ! pc)) [0..<unat cnt] =
      list_all (\<lambda>pc. shape_ok cnt pc (ins' ! pc)) [0..<unat cnt]"
    using assms by (simp add: list_all_iff)
  moreover have "check_regs ins cnt = check_regs ins' cnt"
    unfolding check_regs_def by (rule check_loop_cong) (use assms in simp)
  ultimately show ?thesis by (simp add: ic_program_check_def)
qed

lemma ic_program_check_blit:
  assumes "unat cnt = length ins" "length ins \<le> length buf"
  shows "ic_program_check (Some (blit 0 ins buf)) cnt = ic_program_check (Some ins) cnt"
  by (rule ic_program_check_cong) (use assms in \<open>simp add: nth_blit\<close>)

text \<open>Both slots of the monitor hold accepted programs, or nothing.\<close>

definition progs_ok :: "mon_box \<Rightarrow> bool" where
  "progs_ok b \<longleftrightarrow>
     (mon_prog_cnt b \<noteq> 0 \<longrightarrow> ic_program_check (Some (mon_prog b)) (mon_prog_cnt b) = IC_OK) \<and>
     (mon_prog_b_cnt b \<noteq> 0 \<longrightarrow> ic_program_check (Some (mon_prog_b b)) (mon_prog_b_cnt b) = IC_OK)"

subsection \<open>Staged images\<close>

text \<open>The image in the pending area is complete, and its digest is one the build pins.\<close>

definition pinned :: "u8 list \<Rightarrow> u32 \<Rightarrow> bool" where
  "pinned img body \<longleftrightarrow>
     sha_spec (take (unat body) img) = take 32 (drop (unat body) img) \<and>
     take 32 (drop (unat body) img) \<in> set g_trusted"

lemma small_mul: "(w::u32) \<le> 64 \<Longrightarrow> unat (8 + w * 8) = 8 + unat w * 8"
  by (simp add: unat_word_ariths word_le_nat_alt)

lemma staged_body_bound:
  assumes "staged_body kind w0 = Some body"
  shows "unat body \<le> 536" "kind = PEND_NATIVE \<Longrightarrow> 0 < unat w0 \<and> unat w0 \<le> 0x1F0 \<and> unat body = 16 + unat w0"
    "kind \<noteq> PEND_NATIVE \<Longrightarrow> kind = PEND_EBPF \<and> 0 < unat w0 \<and> unat w0 \<le> 64 \<and> unat body = 8 + unat w0 * 8"
proof -
  have pos: "w0 \<noteq> 0 \<Longrightarrow> 0 < unat w0" by (simp add: unat_gt_0)
  have nat: "\<not> w0 > 0x1F0 \<Longrightarrow> unat w0 \<le> 0x1F0 \<and> unat (16 + w0) = 16 + unat w0"
    by (simp add: word_less_nat_alt not_less unat_word_ariths)
  have bpf: "\<not> w0 > 64 \<Longrightarrow> unat w0 \<le> 64 \<and> unat (8 + w0 * 8) = 8 + unat w0 * 8"
    using small_mul [of w0] by (simp add: word_less_nat_alt word_le_nat_alt not_less)
  show "unat body \<le> 536"
    using assms by (auto simp: staged_body_def PROG_PEND_MAGIC_OFF_def SHA256_LEN_def word_less_nat_alt
        split: if_splits)
  show "kind = PEND_NATIVE \<Longrightarrow> 0 < unat w0 \<and> unat w0 \<le> 0x1F0 \<and> unat body = 16 + unat w0"
    using assms nat pos by (auto simp: staged_body_def split: if_splits)
  show "kind \<noteq> PEND_NATIVE \<Longrightarrow> kind = PEND_EBPF \<and> 0 < unat w0 \<and> unat w0 \<le> 64 \<and> unat body = 8 + unat w0 * 8"
    using assms bpf pos by (auto simp: staged_body_def IC_PROG_MAX_INSNS_def split: if_splits)
qed

lemma trust_check_pinned:
  assumes "length img = 0x240" "unat body \<le> 536"
  shows "trust_check img body = Some (pinned img body)"
  using assms trust_check_eq [of body img] by (simp add: pinned_def)


text \<open>A program went live: the shadow is what was live, nothing else moved but the counters.\<close>

definition program_live :: "sup \<Rightarrow> sup \<Rightarrow> bool" where
  "program_live st st' \<longleftrightarrow>
     (let w0 = le32 (pend st) 0; b = box st; b' = box st' in
      mon_prog b' = staged_insns (pend st) w0 @ drop (unat w0) (mon_prog b) \<and> mon_prog_cnt b' = w0 \<and>
      ic_program_check (Some (mon_prog b')) w0 = IC_OK \<and>
      b' = b\<lparr>mon_prog := mon_prog b', mon_prog_cnt := w0, mon_prog_fault := 0,
             mon_prog_b := mon_prog b, mon_prog_b_cnt := mon_prog_cnt b\<rparr> \<and>
      st' = swap_accept (st\<lparr>box := b'\<rparr>))"

text \<open>
  A native image went live: its code is in the text area and in the flash mirror of its slot, the
  slot is the one wired next, and the other slot and the monitor are as they were.
\<close>

definition native_live :: "target \<Rightarrow> sup \<Rightarrow> sup \<Rightarrow> bool" where
  "native_live t st st' \<longleftrightarrow>
     (let w0 = le32 (pend st) 0; entry = le32 (pend st) 8; slot = le32 (pend st) 12; k = unat slot;
          code = take (unat w0) (drop 16 (pend st))
      in slot \<le> 1 \<and> entry AND 1 = 0 \<and> entry < 0x1000 \<and> 0 < unat w0 \<and> unat w0 \<le> 240 \<and>
         take (unat w0) (nat_text st' ! k) = code \<and>
         mirror_get slot (mirror st') = Some (code, entry) \<and>
         mirror_get (1 - slot) (mirror st') = mirror_get (1 - slot) (mirror st) \<and>
         g_nat st' ! k = \<lparr>n_len = w0, n_entry = entry, n_valid = 1, n_evicted = 0\<rparr> \<and>
         g_nat st' ! (1 - k) = g_nat st ! (1 - k) \<and> nat_text st' ! (1 - k) = nat_text st ! (1 - k) \<and>
         g_nat_live st' = slot \<and> g_nat_retired st' = 0 \<and> box st' = box st \<and> pend_ok st' = 0 \<and>
         status st' ! S_HLOAD = status st ! S_HLOAD + 1 \<and> status st' ! S_HREJ = status st ! S_HREJ)"

lemma install_ebpf_cases:
  assumes "sup_shape st" "le32 (pend st) 0 = w0" "0 < unat w0" "unat w0 \<le> 64"
  shows "install_ebpf t w0 st = swap_reject st \<or> program_live st (install_ebpf t w0 st)"
proof -
  let ?ins = "staged_insns (pend st) w0"
  have len: "length ?ins = unat w0" "length (mon_prog (box st)) = 64"
    using assms(1) by (simp_all add: staged_insns_def sup_shape_def box_wf_def)
  have "ic_program_check (Some (blit 0 ?ins (mon_prog (box st)))) w0 = ic_program_check (Some ?ins) w0"
    by (rule ic_program_check_blit) (use len assms in simp_all)
  then show ?thesis
    using len assms
    by (simp add: install_ebpf_def program_live_def Let_def swap_accept_def status_inc_def status_set_def blit_def)
qed


lemma one_minus_slot: "k = 0 \<or> k = (1::u32) \<Longrightarrow> 1 - unat k = unat (1 - k)"
  by auto

lemma mirror_get_page:
  assumes "slot = 0 \<or> slot = 1" "unat w0 \<le> 240" "unat w0 \<le> length code" "length mir = 0x800"
  shows "mirror_get slot (blit (mir_off slot) (mirror_page slot code w0 entry) mir) =
      Some (take (unat w0) code, entry)"
    "mirror_get (1 - slot) (blit (mir_off slot) (mirror_page slot code w0 entry) mir) = mirror_get (1 - slot) mir"
proof -
  have "flash_mirror_read slot (replicate 0x1F0 0) 0x1F0 0 (blit (mir_off slot) (mirror_page slot code w0 entry) mir) =
      Some (w0, blit 0 (take (unat w0) code) (replicate 0x1F0 0), entry)"
    using flash_read_written [OF assms] assms(2) by (simp add: word_le_nat_alt)
  then show "mirror_get slot (blit (mir_off slot) (mirror_page slot code w0 entry) mir) =
      Some (take (unat w0) code, entry)"
    using assms(3) by (simp add: mirror_get_def blit_def)
  have "1 - slot = 0 \<or> 1 - slot = 1" "1 - slot \<noteq> slot" using assms(1) by auto
  from flash_read_other [OF assms(1) this assms(2,4)]
  show "mirror_get (1 - slot) (blit (mir_off slot) (mirror_page slot code w0 entry) mir) = mirror_get (1 - slot) mir"
    by (simp add: mirror_get_def)
qed

lemma nat_slot_all [simp]:
  "x\<lparr>n_len := a, n_entry := b, n_valid := c, n_evicted := d\<rparr> =
    \<lparr>n_len = a, n_entry = b, n_valid = c, n_evicted = d\<rparr>"
  by (cases x) simp

lemma install_native_runs:
  assumes "sup_shape st" "unat w0 \<le> 240" "slot = 0 \<or> slot = 1"
    and "le32 (pend st) 8 = entry" "le32 (pend st) 12 = slot"
    and "w0 \<noteq> 0" "entry AND 1 = 0" "entry < 0x1000"
    and "ic_module_check (Some (native_desc t slot entry)) = IC_OK"
  shows "\<exists>tab tick. comp_wf tab \<and>
    install_native t w0 st = Some (swap_accept (st\<lparr>
      nat_text := (nat_text st)[unat slot := blit 0 (take (unat w0) (drop 16 (pend st))) (nat_text st ! unat slot)],
      mirror := blit (mir_off slot) (mirror_page slot (drop 16 (pend st)) w0 entry) (mirror st),
      g_nat := (g_nat st)[unat slot := \<lparr>n_len = w0, n_entry = entry, n_valid = 1, n_evicted = 0\<rparr>],
      g_nat_live := slot, g_nat_retired := 0, table := tab, reads := reads st + 2,
      status := (status st)[S_FPROG := 0, S_NSLOT := slot, S_REMAP := tick]\<rparr>))"
proof -
  let ?tab = "compartment_arm 2 (compartment_set 2 (nat_spec t slot) entry (table st))"
  let ?tick = "clock st (Suc (reads st)) - clock st (reads st)"
  have "comp_wf ?tab"
    using assms(1) by (simp add: sup_shape_def compartment_arm_wf compartment_set_wf)
  moreover have "flash_mirror_write slot (drop 16 (pend st)) w0 entry (mirror st) =
      Some (0, blit (mir_off slot) (mirror_page slot (drop 16 (pend st)) w0 entry) (mirror st))"
    by (rule flash_mirror_write_ok) (use assms in \<open>auto simp: sup_shape_def\<close>)
  moreover have "\<not> slot > 1" using assms(3) by auto
  moreover have "\<not> w0 > 0x1F0" using assms(2) by (simp add: word_less_nat_alt not_less)
  ultimately have "comp_wf ?tab \<and> install_native t w0 st = Some (swap_accept (st\<lparr>
      nat_text := (nat_text st)[unat slot := blit 0 (take (unat w0) (drop 16 (pend st))) (nat_text st ! unat slot)],
      mirror := blit (mir_off slot) (mirror_page slot (drop 16 (pend st)) w0 entry) (mirror st),
      g_nat := (g_nat st)[unat slot := \<lparr>n_len = w0, n_entry = entry, n_valid = 1, n_evicted = 0\<rparr>],
      g_nat_live := slot, g_nat_retired := 0, table := ?tab, reads := reads st + 2,
      status := (status st)[S_FPROG := 0, S_NSLOT := slot, S_REMAP := ?tick]\<rparr>))"
    using assms(4-9)
    by (simp add: install_native_def Let_def status_set_def nat_update_def timer_now_def not_le)
  then show ?thesis by blast
qed

lemma status_index: "S_HLOAD = 93" "S_HREJ = 94" "S_FPROG = 99" "S_NSLOT = 97" "S_REMAP = 96"
  by (simp_all add: S_HLOAD_def S_HREJ_def S_FPROG_def S_NSLOT_def S_REMAP_def)

lemma install_native_cases:
  assumes shape: "sup_shape st" and w0: "le32 (pend st) 0 = w0" "0 < unat w0" "unat w0 \<le> 0x1F0"
  shows "install_native t w0 st = Some (swap_reject st) \<or>
    (install_native t w0 st = None \<and> 240 < unat w0) \<or>
    (\<exists>st'. install_native t w0 st = Some st' \<and> native_live t st st' \<and> sup_shape st' \<and>
       g_update st' = g_update st \<and> g_update_hload st' = g_update_hload st \<and> g_update_hrej st' = g_update_hrej st)"
proof -
  define entry where "entry = le32 (pend st) 8"
  define slot where "slot = le32 (pend st) 12"
  note es = entry_def [symmetric] slot_def [symmetric]
  have w: "w0 \<noteq> 0" "\<not> w0 > 0x1F0" using w0 by (auto simp: word_less_nat_alt not_less)
  show ?thesis
  proof (cases "entry AND 1 \<noteq> 0 \<or> entry \<ge> 0x1000 \<or> slot > 1 \<or>
      ic_module_check (Some (native_desc t slot entry)) \<noteq> IC_OK")
    case True
    then show ?thesis using w by (auto simp: install_native_def Let_def es)
  next
    case ok: False
    then have slot: "slot = 0 \<or> slot = 1" using slot_cases by simp
    show ?thesis
    proof (cases "unat w0 \<le> 240")
      case False
      then have "flash_mirror_write slot (drop 16 (pend st)) w0 entry (mirror st) = None"
        using flash_mirror_write_overflow [OF slot] w0(3) by simp
      then show ?thesis using False ok w
        by (simp add: install_native_def Let_def es)
    next
      case small: True
      have gates: "entry AND 1 = 0" "entry < 0x1000" "ic_module_check (Some (native_desc t slot entry)) = IC_OK"
        using ok by (auto simp: not_le)
      from install_native_runs [OF shape small slot entry_def [symmetric] slot_def [symmetric] w(1) gates]
      obtain tab tick where tab: "comp_wf tab" and run: "install_native t w0 st = Some (swap_accept (st\<lparr>
          nat_text := (nat_text st)[unat slot := blit 0 (take (unat w0) (drop 16 (pend st))) (nat_text st ! unat slot)],
          mirror := blit (mir_off slot) (mirror_page slot (drop 16 (pend st)) w0 entry) (mirror st),
          g_nat := (g_nat st)[unat slot := \<lparr>n_len = w0, n_entry = entry, n_valid = 1, n_evicted = 0\<rparr>],
          g_nat_live := slot, g_nat_retired := 0, table := tab, reads := reads st + 2,
          status := (status st)[S_FPROG := 0, S_NSLOT := slot, S_REMAP := tick]\<rparr>))" (is "_ = Some ?st'")
        by blast
      have page: "unat w0 \<le> length (drop 16 (pend st))" "length (mirror st) = 0x800"
        using shape small by (auto simp: sup_shape_def)
      note get = mirror_get_page [OF slot small page, of entry]
      have copied: "take (unat w0) (blit 0 (take (unat w0) (drop 16 (pend st))) buf) =
          take (unat w0) (drop 16 (pend st))" for buf
        using page(1) by (simp add: blit_def)
      have "sup_shape ?st'"
        using shape small slot tab
        by (auto simp: sup_shape_def swap_accept_def status_inc_def status_set_def nth_list_update)
      moreover have "native_live t st ?st'"
        using shape small slot ok get copied
        by (auto simp: native_live_def Let_def es w0(1,2) swap_accept_def status_inc_def status_set_def
            sup_shape_def status_index not_le one_minus_slot)
      ultimately show ?thesis
        using run by (auto simp: swap_accept_def status_inc_def status_set_def)
    qed
  qed
qed


subsection \<open>The gate\<close>

text \<open>What a swap may do: nothing, a recorded rejection, or a live image that was pinned.\<close>

definition swap_outcome :: "target \<Rightarrow> sup \<Rightarrow> sup option \<Rightarrow> bool" where
  "swap_outcome t st r \<longleftrightarrow>
     (let w0 = le32 (pend st) 0; kind = le32 (pend st) 4 in
      r = Some (swap_reject st) \<or>
      (\<exists>body. staged_body kind w0 = Some body \<and> pinned (pend st) body \<and>
         (kind = PEND_EBPF \<and> (\<exists>st'. r = Some st' \<and> program_live st st') \<or>
          kind = PEND_NATIVE \<and> (\<exists>st'. r = Some st' \<and> native_live t st st') \<or>
          kind = PEND_NATIVE \<and> r = None \<and> 240 < unat w0)))"

lemma hot_swap_idle: "pend_ok st \<noteq> PROG_PEND_MAGIC \<Longrightarrow> hot_swap t st = Some st"
  by (simp add: hot_swap_def)

lemma hot_swap_outcome:
  assumes shape: "sup_shape st" and magic: "pend_ok st = PROG_PEND_MAGIC"
  shows "swap_outcome t st (hot_swap t st)"
proof -
  define w0 where "w0 = le32 (pend st) 0"
  define kind where "kind = le32 (pend st) 4"
  note wk = w0_def [symmetric] kind_def [symmetric]
  show ?thesis
  proof (cases "staged_body kind w0")
    case None
    then show ?thesis using magic by (simp add: hot_swap_def swap_outcome_def Let_def wk)
  next
    case (Some body)
    note b = staged_body_bound [OF Some]
    have trust: "trust_check (pend st) body = Some (pinned (pend st) body)"
      using shape b(1) by (intro trust_check_pinned) (simp_all add: sup_shape_def)
    consider (unknown) "\<not> pinned (pend st) body" | (native) "pinned (pend st) body" "kind = PEND_NATIVE"
      | (program) "pinned (pend st) body" "kind \<noteq> PEND_NATIVE" by blast
    then show ?thesis
    proof cases
      case unknown
      then show ?thesis using magic trust by (simp add: hot_swap_def swap_outcome_def Let_def wk Some)
    next
      case native
      then have "hot_swap t st = install_native t w0 st"
        using magic trust Some [unfolded native(2)] by (simp add: hot_swap_def Let_def wk)
      moreover from install_native_cases [OF shape w0_def [symmetric]] b(2) [OF native(2)]
      have "install_native t w0 st = Some (swap_reject st) \<or>
        install_native t w0 st = None \<and> 240 < unat w0 \<or>
        (\<exists>st'. install_native t w0 st = Some st' \<and> native_live t st st')" by blast
      ultimately show ?thesis using native Some unfolding swap_outcome_def Let_def wk by auto
    next
      case program
      then have "hot_swap t st = Some (install_ebpf t w0 st)"
        using magic trust by (simp add: hot_swap_def Let_def wk Some)
      moreover have "install_ebpf t w0 st = swap_reject st \<or> program_live st (install_ebpf t w0 st)"
        using install_ebpf_cases [OF shape w0_def [symmetric]] b(3) [OF program(2)] by blast
      ultimately show ?thesis
        using program b(3) [OF program(2)] Some unfolding swap_outcome_def Let_def wk by auto
    qed
  qed
qed

text \<open>What every swap keeps, and that it counts once.\<close>

lemma swap_reject_keeps:
  "sup_shape st \<Longrightarrow> sup_shape (swap_reject st)" "box (swap_reject st) = box st"
  "g_update (swap_reject st) = g_update st" "g_update_hload (swap_reject st) = g_update_hload st"
  "g_update_hrej (swap_reject st) = g_update_hrej st" "pend_ok (swap_reject st) = 0"
  "sup_shape st \<Longrightarrow> status (swap_reject st) ! S_HREJ = status st ! S_HREJ + 1"
  "status (swap_reject st) ! S_HLOAD = status st ! S_HLOAD"
  by (simp_all add: swap_reject_def sup_shape_def status_inc_def status_set_def status_index)


lemma program_live_keeps:
  assumes "program_live st st'"
  shows "sup_shape st \<Longrightarrow> sup_shape st'" "progs_ok (box st) \<Longrightarrow> progs_ok (box st')"
    "g_update st' = g_update st" "g_update_hload st' = g_update_hload st"
    "g_update_hrej st' = g_update_hrej st" "pend_ok st' = 0"
    "sup_shape st \<Longrightarrow> status st' ! S_HLOAD = status st ! S_HLOAD + 1"
    "status st' ! S_HREJ = status st ! S_HREJ"
proof -
  let ?w0 = "le32 (pend st) 0"
  from assms obtain p where p: "p = staged_insns (pend st) ?w0 @ drop (unat ?w0) (mon_prog (box st))"
    and acc: "ic_program_check (Some p) ?w0 = IC_OK"
    and eq: "st' = swap_accept (st\<lparr>box := (box st)\<lparr>mon_prog := p, mon_prog_cnt := ?w0, mon_prog_fault := 0,
       mon_prog_b := mon_prog (box st), mon_prog_b_cnt := mon_prog_cnt (box st)\<rparr>\<rparr>)"
    unfolding program_live_def Let_def by metis
  have "unat ?w0 \<le> 64" using accepted_count [OF acc] by (simp add: word_le_nat_alt)
  then have "box_wf (box st) \<Longrightarrow> length p = 64"
    unfolding p by (simp add: staged_insns_def box_wf_def)
  then show "sup_shape st \<Longrightarrow> sup_shape st'"
    unfolding eq by (auto simp: sup_shape_def swap_accept_def status_inc_def status_set_def box_wf_def)
  show "progs_ok (box st) \<Longrightarrow> progs_ok (box st')"
    using acc unfolding eq by (simp add: progs_ok_def swap_accept_def status_inc_def status_set_def)
  show "g_update st' = g_update st" "g_update_hload st' = g_update_hload st"
    "g_update_hrej st' = g_update_hrej st" "pend_ok st' = 0" "status st' ! S_HREJ = status st ! S_HREJ"
    "sup_shape st \<Longrightarrow> status st' ! S_HLOAD = status st ! S_HLOAD + 1"
    unfolding eq by (simp_all add: swap_accept_def status_inc_def status_set_def status_index sup_shape_def)
qed

text \<open>
  The supervisor's own contract for a swap: the shape and the accepted programs survive; a staged image
  is consumed and counted once, as loaded or as rejected; nothing of the update transaction moves.
\<close>

lemma hot_swap_keeps:
  assumes shape: "sup_shape st" and run: "hot_swap t st = Some st'"
  shows "sup_shape st' \<and> (progs_ok (box st) \<longrightarrow> progs_ok (box st')) \<and> g_update st' = g_update st \<and>
    g_update_hload st' = g_update_hload st \<and> g_update_hrej st' = g_update_hrej st \<and>
    (if pend_ok st \<noteq> PROG_PEND_MAGIC then st' = st
     else pend_ok st' = 0 \<and>
       (status st' ! S_HLOAD = status st ! S_HLOAD + 1 \<and> status st' ! S_HREJ = status st ! S_HREJ \<or>
        status st' ! S_HLOAD = status st ! S_HLOAD \<and> status st' ! S_HREJ = status st ! S_HREJ + 1))"
proof (cases "pend_ok st = PROG_PEND_MAGIC")
  case False
  then show ?thesis using hot_swap_idle run shape by simp
next
  case magic: True
  define w0 where "w0 = le32 (pend st) 0"
  define kind where "kind = le32 (pend st) 4"
  from hot_swap_outcome [OF shape magic, of t] run
  consider (rej) "st' = swap_reject st" | (prog) "program_live st st'"
    | (nat) body where "staged_body kind w0 = Some body" "kind = PEND_NATIVE" "pinned (pend st) body"
    by (auto simp: swap_outcome_def Let_def w0_def kind_def)
  then show ?thesis
  proof cases
    case rej
    then show ?thesis using swap_reject_keeps [of st] shape magic by simp
  next
    case prog
    then show ?thesis using program_live_keeps [OF prog] shape magic by simp
  next
    case nat
    note b = staged_body_bound [OF nat(1)]
    have "trust_check (pend st) body = Some (pinned (pend st) body)"
      using shape b(1) by (intro trust_check_pinned) (simp_all add: sup_shape_def)
    then have "install_native t w0 st = Some st'"
      using magic nat run by (auto simp: hot_swap_def Let_def w0_def kind_def)
    with install_native_cases [OF shape w0_def [symmetric], of t] b(2) [OF nat(2)]
    consider "st' = swap_reject st" | "native_live t st st'" "sup_shape st'" "g_update st' = g_update st"
      "g_update_hload st' = g_update_hload st" "g_update_hrej st' = g_update_hrej st"
      by auto
    then show ?thesis
    proof cases
      case 1
      then show ?thesis using swap_reject_keeps [of st] shape magic by simp
    next
      case 2
      then show ?thesis using magic by (simp add: native_live_def Let_def)
    qed
  qed
qed


subsection \<open>The hot path is gated\<close>

definition idle_sup :: sup where
  "idle_sup =
     \<lparr>status = replicate 106 0, box = sample_box, prog_area = replicate 0x800 0, pend = replicate 0x240 0,
      pend_ok = 0, mailbox = replicate 2696 0,
      g_nat = replicate 2 \<lparr>n_len = 0, n_entry = 0, n_valid = 0, n_evicted = 0\<rparr>, g_nat_live = 0,
      g_nat_retired = 0, nat_text = replicate 2 (replicate 0x1000 0), nat_sram = [0, 0],
      mirror = replicate 0x800 0xFF, g_update = update_reset, g_update_hload = 0, g_update_hrej = 0,
      table = comp_init, g_ri_index = 0, g_ri_cause = replicate 8 0, g_ri_addr = replicate 8 0,
      g_phase = 1, g_input_sum = 0, g_stk0 = 0, g_alerts = 0, g_conflict_n = 0, g_source = 0,
      g_atk_vec = 0, atk_own = 0, atk_proof = 0, g_chan_stage = replicate 2696 0, clock = (\<lambda>_. 0),
      reads = 0, tx_polls = (\<lambda>_. []), sends = 0, residue = (\<lambda>_. 0), m_regs = (\<lambda>_. 0), m_mstatus = 0,
      wire = []\<rparr>"

lemma idle_sup_shape: "sup_shape idle_sup"
  using sample_box_ok by (simp add: sup_shape_def idle_sup_def packets_ok_def comp_init_wf less_2_cases_iff)

text \<open>
  C4: nothing enters the schedule past the gate.  With no staged image a swap does nothing.  With one,
  it is either rejected, with a counter and the cleared magic as the only trace, or its header bounds
  its length, its digest matches its bytes and is one the build pins, and then it is live: a program
  the verifier accepts, with the old program as its shadow, or a native image that now sits in the text
  and the flash mirror of its slot.  The one access outside an object is a pinned native image of
  more than 240 bytes.
\<close>

theorem hot_swap_gated:
  assumes "sup_shape st"
  shows "if pend_ok st \<noteq> PROG_PEND_MAGIC then hot_swap t st = Some st
    else swap_outcome t st (hot_swap t st)"
  using assms hot_swap_idle hot_swap_outcome by simp

theorem hot_swap_gated_witness:
  "hot_swap Board (idle_sup\<lparr>pend_ok := PROG_PEND_MAGIC\<rparr>) =
    Some (swap_reject (idle_sup\<lparr>pend_ok := PROG_PEND_MAGIC\<rparr>))"
proof -
  have "sup_shape (idle_sup\<lparr>pend_ok := PROG_PEND_MAGIC\<rparr>)"
    using idle_sup_shape by (simp add: sup_shape_def)
  from hot_swap_gated [OF this, of Board] show ?thesis
    by (simp add: swap_outcome_def idle_sup_def le32_def staged_body_def PEND_NATIVE_def PEND_EBPF_def)
qed

end
