(* ===== verification/Restore.thy ===== *)
theory Restore
  imports Install
begin

text \<open>
  The mirror and the restore at boot: a native image that went live comes back after a reset, whatever
  the text areas and the slot table held.
\<close>

lemma native_desc_ok:
  assumes "slot = 0 \<or> slot = 1" "entry AND 1 = 0" "entry < 0x1000"
  shows "ic_module_check (Some (native_desc t slot entry)) = IC_OK"
  using assms
  by (cases t) (auto simp: ic_module_check_def native_desc_def nat_spec_def IC_MODULE_MAGIC_def
      IC_CONTRACT_VERSION_def IC_MODULE_NATIVE_def IC_MODULE_EBPF_def check_native_def region_ok_def IC_MIN_REGION_def)

text \<open>A stored image reads back into any text area, and a read never leaves it.\<close>

lemma mirror_get_read:
  assumes get: "mirror_get slot mir = Some (code, entry)" and code: "code \<noteq> []"
    and mir: "length mir = 0x800" and out: "0x1F0 \<le> length out"
  shows "flash_mirror_read slot out 0x1F0 e mir = Some (word_of_nat (length code), blit 0 code out, entry)"
    "length code \<le> 0x1F0"
proof -
  obtain n out' entry' where read: "flash_mirror_read slot (replicate 0x1F0 0) 0x1F0 0 mir = Some (n, out', entry')"
    and c: "code = take (unat n) out'" "entry = entry'"
    using get by (auto simp: mirror_get_def split: option.splits)
  let ?src = "drop (mir_off slot) mir" and ?l = "le32 (drop (mir_off slot) mir) 8"
  have slot: "\<not> slot > 1" "le32 ?src 0 = MIR_MAGIC"
    using read c(1) code by (auto simp: flash_mirror_read_def Let_def split: if_splits)
  define m where "m = (if ?l > 0x1F0 then 0x1F0 else ?l)"
  have m: "unat m \<le> 0x1F0" by (auto simp: m_def word_less_nat_alt not_less)
  have src: "0x400 \<le> length ?src" using mir slot(1) slot_cases by (auto dest: slot_cases)
  have r: "flash_mirror_read slot o' 0x1F0 e' mir =
      Some (m, blit 0 (take (unat m) (drop 16 ?src)) o', le32 ?src 12)" if "0x1F0 \<le> length o'" for o' e'
    using slot src m that by (simp add: flash_mirror_read_def Let_def m_def [symmetric] del: length_drop)
  have len: "length (take (unat m) (drop 16 ?src)) = unat m" using m src by simp
  have "n = m" "out' = blit 0 (take (unat m) (drop 16 ?src)) (replicate 0x1F0 0)" "entry' = le32 ?src 12"
    using r [of "replicate 0x1F0 0" 0] read by simp_all
  then have "code = take (unat m) (drop 16 ?src)" using c(1) len by (simp add: blit_def)
  moreover from this have "word_of_nat (length code) = m" "length code = unat m" using len by simp_all
  ultimately show "flash_mirror_read slot out 0x1F0 e mir = Some (word_of_nat (length code), blit 0 code out, entry)"
    "length code \<le> 0x1F0"
    using r [OF out] m c(2) \<open>entry' = _\<close> by simp_all
qed


lemma sup_shape_frame [simp]:
  "sup_shape (st\<lparr>pend_ok := a\<rparr>) = sup_shape st" "sup_shape (st\<lparr>g_nat_retired := a\<rparr>) = sup_shape st"
  "sup_shape (st\<lparr>g_update := u\<rparr>) = sup_shape st" "sup_shape (st\<lparr>g_update_hload := a\<rparr>) = sup_shape st"
  "sup_shape (st\<lparr>g_update_hrej := a\<rparr>) = sup_shape st" "sup_shape (st\<lparr>g_phase := a\<rparr>) = sup_shape st"
  "sup_shape (st\<lparr>g_input_sum := a\<rparr>) = sup_shape st" "sup_shape (st\<lparr>g_stk0 := a\<rparr>) = sup_shape st"
  "sup_shape (st\<lparr>g_alerts := a\<rparr>) = sup_shape st" "sup_shape (st\<lparr>g_conflict_n := a\<rparr>) = sup_shape st"
  "sup_shape (st\<lparr>g_source := a\<rparr>) = sup_shape st" "sup_shape (st\<lparr>g_atk_vec := a\<rparr>) = sup_shape st"
  "sup_shape (st\<lparr>reads := n\<rparr>) = sup_shape st" "sup_shape (st\<lparr>sends := n\<rparr>) = sup_shape st"
  "sup_shape (st\<lparr>wire := w\<rparr>) = sup_shape st"
  "sup_shape (status_set k v st) = sup_shape st" "sup_shape (status_inc k st) = sup_shape st"
  "sup_shape (nat_update j f st) = sup_shape st"
  by (simp_all add: sup_shape_def status_set_def status_inc_def nat_update_def)

lemma sup_shape_updates:
  "sup_shape st \<Longrightarrow> length bs = 0x1000 \<Longrightarrow> sup_shape (st\<lparr>nat_text := (nat_text st)[n := bs]\<rparr>)"
  "sup_shape st \<Longrightarrow> sup_shape (st\<lparr>nat_sram := (nat_sram st)[n := v]\<rparr>)"
  "sup_shape st \<Longrightarrow> v \<le> 1 \<Longrightarrow> sup_shape (st\<lparr>g_nat_live := v\<rparr>)"
  "sup_shape st \<Longrightarrow> n + length ws \<le> 106 \<Longrightarrow> sup_shape (status_copy n ws st)"
  "sup_shape st \<Longrightarrow> comp_wf tab \<Longrightarrow> sup_shape (st\<lparr>table := tab\<rparr>)"
  "sup_shape st \<Longrightarrow> box_wf b \<Longrightarrow> sup_shape (st\<lparr>box := b\<rparr>)"
  by (simp_all add: sup_shape_def status_copy_def) (metis nth_list_update nth_list_update_neq)

lemma restore_slot_total:
  assumes shape: "sup_shape st" and k: "k = 0 \<or> k = 1"
  shows "\<exists>st'. restore_slot t k st = Some st' \<and> sup_shape st' \<and> mirror st' = mirror st \<and> box st' = box st \<and>
    g_nat st' ! unat (1 - k) = g_nat st ! unat (1 - k) \<and> nat_text st' ! unat (1 - k) = nat_text st ! unat (1 - k)"
proof -
  have "unat k < 2" using k by auto
  then have "length (nat_text st ! unat k) = 0x1000" using shape by (simp add: sup_shape_def)
  with flash_mirror_read_bounded [of "mirror st" "0x1F0" "nat_text st ! unat k" k "n_entry (g_nat st ! unat k)"] shape
  obtain n buf entry where r: "flash_mirror_read k (nat_text st ! unat k) 0x1F0 (n_entry (g_nat st ! unat k)) (mirror st) =
      Some (n, buf, entry)" "length buf = 0x1000"
    by (auto simp: sup_shape_def)
  have k1: "k \<le> 1" "unat (1 - k) \<noteq> unat k" using k by auto
  note up = sup_shape_updates(1) [OF shape r(2), of "unat k"]
  have "sup_shape (st\<lparr>nat_text := (nat_text st)[unat k := buf], g_nat := (g_nat st)[unat k := x]\<rparr>)"
    "sup_shape (st\<lparr>nat_text := (nat_text st)[unat k := buf], g_nat := (g_nat st)[unat k := x], g_nat_live := k\<rparr>)"
    "sup_shape (st\<lparr>nat_text := (nat_text st)[unat k := buf], g_nat := (g_nat st)[unat k := x],
       nat_sram := (nat_sram st)[unat k := 0]\<rparr>)" for x
    using up k1(1) by (simp_all add: sup_shape_def)
  with r(1) k1(2) show ?thesis by (simp add: restore_slot_def Let_def nat_update_def)
qed

lemma restore_slot_image:
  assumes shape: "sup_shape st" and k: "k = 0 \<or> k = 1"
    and get: "mirror_get k (mirror st) = Some (code, entry)" "code \<noteq> []"
    and ok: "entry AND 1 = 0" "entry < 0x1000"
  shows "\<exists>st'. restore_slot t k st = Some st' \<and>
    g_nat st' ! unat k = \<lparr>n_len = word_of_nat (length code), n_entry = entry, n_valid = 1, n_evicted = 0\<rparr> \<and>
    take (length code) (nat_text st' ! unat k) = code \<and> g_nat_live st' = k"
proof -
  have "unat k < 2" using k by auto
  then have wide: "0x1F0 \<le> length (nat_text st ! unat k)" "length (nat_text st) = 2" "length (g_nat st) = 2"
    using shape by (simp_all add: sup_shape_def)
  have mir: "length (mirror st) = 0x800" using shape by (simp add: sup_shape_def)
  note read = mirror_get_read [OF get mir wide(1)]
  have "(word_of_nat (length code) :: u32) \<noteq> 0"
    using read(2) get(2) by (simp add: word_unat_eq_iff unat_of_nat take_bit_nat_eq_self)
  then show ?thesis
    using read(1) native_desc_ok [OF k ok] wide \<open>unat k < 2\<close> read(2)
    by (simp add: restore_slot_def Let_def nat_update_def blit_def)
qed



definition staged_sup :: sup where
  "staged_sup = idle_sup\<lparr>pend := [4, 0, 0, 0, 2, 0, 0, 0, 2, 0, 0, 0, 1, 0, 0, 0, 0x13, 0, 0, 0] @ replicate 556 0\<rparr>"

lemma staged_sup_shape: "sup_shape staged_sup"
  using idle_sup_shape by (simp add: sup_shape_def staged_sup_def)


end
