(* ===== verification/Service.thy ===== *)
theory Service
  imports Restore
begin

text \<open>
  The service loop keeps its house: whatever bytes arrive, a turn stays inside the supervisor's objects,
  keeps the shape of the state and the accepted programs, and leaves no update transaction between
  staged and settled.
\<close>

subsection \<open>The update transaction inside the supervisor\<close>

definition world :: "sup \<Rightarrow> update_world" where
  "world st = \<lparr>w_rx = g_update st, w_pend = pend st, w_magic = pend_ok st\<rparr>"

text \<open>At the head of the loop no transaction is staged.\<close>

definition quiet :: "sup \<Rightarrow> bool" where
  "quiet st \<longleftrightarrow> update_wf (world st) \<and> u_state (g_update st) \<noteq> UPDATE_STATE_STAGED"

lemma quiet_cong:
  "quiet st \<Longrightarrow> g_update st' = g_update st \<Longrightarrow> length (pend st) = length (pend st') \<Longrightarrow> quiet st'"
  by (auto simp: quiet_def world_def update_wf_def)

lemma process_length:
  "update_process w p n = Some (out, w') \<Longrightarrow> length (w_pend w') = length (w_pend w)"
  by (auto simp: update_process_def update_begin_def update_data_def update_commit_def update_abort_def
      nack_def Let_def split: if_splits option.splits)

lemma process_staged:
  assumes "update_process w p n = Some ((acc, r), w')" "update_wf w"
    and "u_state (w_rx w) \<noteq> UPDATE_STATE_STAGED"
  shows "u_state (w_rx w') = UPDATE_STATE_STAGED \<longleftrightarrow> acc \<and> rep_code r = UPDATE_REPLY_STAGED"
proof -
  have "u_state (w_rx w) = UPDATE_STATE_DONE \<Longrightarrow> u_final (w_rx w) \<noteq> UPDATE_REPLY_STAGED"
    using assms(2) by (auto simp: update_wf_def update_consts)
  then show ?thesis
    using assms(1,3)
    by (auto simp: update_process_def update_begin_def update_data_def update_commit_def update_abort_def
        nack_def Let_def reply_set_def update_consts update_reset_def split: if_splits option.splits)
qed


subsection \<open>Frames\<close>

definition serve_ok :: "sup \<Rightarrow> bool" where
  "serve_ok st \<longleftrightarrow> sup_shape st \<and> progs_ok (box st) \<and> quiet st"

text \<open>After a poll a transaction is staged exactly when the poll says so, and then the counters are noted.\<close>

definition polled :: "sup \<Rightarrow> event \<Rightarrow> bool" where
  "polled st ev \<longleftrightarrow>
     (case ev of
        Wild \<Rightarrow> False
      | Stalled \<Rightarrow> True
      | Event e st' \<Rightarrow>
          sup_shape st' \<and> box st' = box st \<and> update_wf (world st') \<and>
          status st' ! S_HLOAD = status st ! S_HLOAD \<and>
          (u_state (g_update st') = UPDATE_STATE_STAGED \<longleftrightarrow> e = 5) \<and>
          (e = 5 \<longrightarrow> pend_ok st' = PROG_PEND_MAGIC \<and> g_update_hload st' = status st' ! S_HLOAD \<and>
             g_update_hrej st' = status st' ! S_HREJ))"

lemma send_limited_frame:
  assumes "send_limited ty p n budget st = Some (sent, st')"
  obtains r k w where "st' = st\<lparr>reads := r, sends := k, wire := w\<rparr>"
  using assms by (auto simp: send_limited_def timer_now_def Let_def split: option.splits)

lemma update_reply_frame:
  assumes "update_send_reply r st = Some st'"
  obtains n k w where "st' = st\<lparr>reads := n, sends := k, wire := w\<rparr>"
  using assms unfolding update_send_reply_def
  by (auto split: option.splits elim: send_limited_frame)

lemma polled_same:
  assumes "serve_ok st" "sup_shape st'" "box st' = box st" "g_update st' = g_update st"
    "status st' ! S_HLOAD = status st ! S_HLOAD" "e \<noteq> 5"
  shows "polled st (Event e st')"
proof -
  have "length (pend st) = length (pend st')" using assms(1,2) by (simp add: serve_ok_def sup_shape_def)
  then have "quiet st'" using assms(1,4) quiet_cong by (auto simp: serve_ok_def)
  then show ?thesis using assms by (simp add: polled_def quiet_def)
qed

lemma chan_update_polled:
  assumes ok: "serve_ok st" and n: "unat n \<le> 2696"
  shows "polled st (chan_update n st)"
proof -
  have wf: "update_wf (world st)" and idle: "u_state (w_rx (world st)) \<noteq> UPDATE_STATE_STAGED"
    using ok by (simp_all add: serve_ok_def quiet_def world_def)
  have len: "unat n \<le> length (g_chan_stage st)" using ok n by (simp add: serve_ok_def sup_shape_def)
  obtain acc r w where p: "update_process (world st) (g_chan_stage st) n = Some ((acc, r), w)" "update_wf w"
    using update_process_fine [OF wf len] by (auto simp: step_fine_def)
  have wfw: "update_wf \<lparr>w_rx = w_rx w, w_pend = w_pend w, w_magic = w_magic w\<rparr>"
    using p(2) by (cases w) simp
  let ?st = "st\<lparr>g_update := w_rx w, pend := w_pend w, pend_ok := w_magic w\<rparr>"
  have pend: "length (w_pend w) = length (pend st)" using process_length [OF p(1)] by (simp add: world_def)
  then have shape: "sup_shape ?st" using ok by (simp add: serve_ok_def sup_shape_def)
  note staged = process_staged [OF p(1) wf idle]
  show ?thesis
  proof (cases "update_send_reply r ?st")
    case None
    then show ?thesis using p(1) by (simp add: chan_update_def world_def polled_def)
  next
    case (Some st1)
    then obtain k m v where st1: "st1 = ?st\<lparr>reads := k, sends := m, wire := v\<rparr>" by (rule update_reply_frame)
    show ?thesis
    proof (cases "acc \<and> rep_code r = UPDATE_REPLY_STAGED")
      case True
      have "w_magic w = PROG_PEND_MAGIC"
        using p(2) staged True by (auto simp: update_wf_def UPDATE_PEND_MAGIC_def PROG_PEND_MAGIC_def)
      then show ?thesis
        using p wfw Some st1 True staged shape by (simp add: chan_update_def world_def polled_def)
    next
      case False
      then show ?thesis
        using p wfw Some st1 staged shape by (auto simp: chan_update_def world_def polled_def)
    qed
  qed
qed

lemma sup_shape_buffers:
  "sup_shape st \<Longrightarrow> length p = length (pend st) \<Longrightarrow> sup_shape (st\<lparr>pend := p\<rparr>)"
  "sup_shape st \<Longrightarrow> length p = length (mailbox st) \<Longrightarrow> sup_shape (st\<lparr>mailbox := p\<rparr>)"
  "sup_shape st \<Longrightarrow> length p = length (g_chan_stage st) \<Longrightarrow> sup_shape (st\<lparr>g_chan_stage := p\<rparr>)"
  by (simp_all add: sup_shape_def)

lemma prog_len: "cnt \<le> (64::u32) \<Longrightarrow> unat (8 + cnt * 8 + 32) = 40 + unat cnt * 8"
  using small_mul [of cnt] by (simp add: unat_word_ariths word_le_nat_alt)

lemma chan_program_polled:
  assumes ok: "serve_ok st" and n: "unat n \<le> 2696"
  shows "polled st (chan_program n st)"
proof -
  have shape: "sup_shape st" using ok by (simp add: serve_ok_def)
  then have len: "length (g_chan_stage st) = 2696" "length (pend st) = 0x240" by (simp_all add: sup_shape_def)
  define cnt where "cnt = le32 (g_chan_stage st) 4"
  have noise: "polled st (Event 0 st)" using polled_same [OF ok shape] by simp
  show ?thesis
  proof (cases "n < 8 + SHA256_LEN \<or> le32 (g_chan_stage st) 0 \<noteq> PROG_MAGIC \<or> cnt = 0 \<or>
      cnt > IC_PROG_MAX_INSNS \<or> n \<noteq> 8 + cnt * 8 + SHA256_LEN")
    case True
    then show ?thesis using noise by (auto simp: chan_program_def Let_def cnt_def [symmetric])
  next
    case False
    then have "cnt \<le> 64" "n = 8 + cnt * 8 + 32" by (simp_all add: IC_PROG_MAX_INSNS_def SHA256_LEN_def not_less)
    then have un: "unat n \<le> 552" "8 \<le> unat n" using prog_len [of cnt] by (simp_all add: word_le_nat_alt)
    let ?img = "blit 0 (le32_bytes cnt @ le32_bytes PEND_EBPF @ take (unat n - 8) (drop 8 (g_chan_stage st))) (pend st)"
    have "length ?img = length (pend st)" using un len by simp
    from sup_shape_buffers(1) [OF shape this]
    have "polled st (Event 2 (st\<lparr>pend := ?img, pend_ok := PROG_PEND_MAGIC\<rparr>))"
      by (intro polled_same [OF ok]) simp_all
    moreover have "\<not> length (pend st) < unat n" using un len by simp
    ultimately show ?thesis
      using False noise by (simp only: chan_program_def Let_def cnt_def [symmetric] if_split) blast
  qed
qed

lemma chan_mailbox_polled:
  assumes ok: "serve_ok st" and n: "unat n \<le> 2696"
  shows "polled st (chan_mailbox n st)"
proof -
  have shape: "sup_shape st" using ok by (simp add: serve_ok_def)
  then have len: "length (g_chan_stage st) = 2696" "length (mailbox st) = 2696" by (simp_all add: sup_shape_def)
  have "length (blit 0 (take (unat n) (g_chan_stage st)) (mailbox st)) = length (mailbox st)"
    using n len by simp
  from sup_shape_buffers(2) [OF shape this]
  have "polled st (Event 1 (st\<lparr>mailbox := blit 0 (take (unat n) (g_chan_stage st)) (mailbox st)\<rparr>))"
    by (intro polled_same [OF ok]) simp_all
  moreover have "polled st (Event 0 st)" "\<not> length (mailbox st) < unat n"
    using polled_same [OF ok shape] n len by simp_all
  ultimately show ?thesis by (simp only: chan_mailbox_def Let_def if_split) blast
qed

lemma length_status_reply: "length (status_reply ws) = 4 + 4 * length ws"
  by (induction ws) (simp_all add: status_reply_def)

lemma chan_status_polled:
  assumes ok: "serve_ok st"
  shows "polled st (chan_status n st)"
proof -
  have shape: "sup_shape st" using ok by (simp add: serve_ok_def)
  let ?out = "status_reply (take STATUS_WORDS (status st))"
  have len: "length (g_chan_stage st) = 2696" "length ?out = 428"
    using shape by (simp_all add: sup_shape_def length_status_reply STATUS_WORDS_def)
  then have "length (blit 0 ?out (g_chan_stage st)) = length (g_chan_stage st)" by simp
  from sup_shape_buffers(3) [OF shape this]
  have "polled st (Event 4 (st\<lparr>g_chan_stage := blit 0 ?out (g_chan_stage st), wire := w\<rparr>))" for w
    by (intro polled_same [OF ok]) simp_all
  moreover have "polled st (Event 0 st)" "polled st (Event 4 st)" using polled_same [OF ok shape] by simp_all
  ultimately show ?thesis using len by (simp add: chan_status_def Let_def)
qed

lemma chan_rearm_polled:
  assumes ok: "serve_ok st"
  shows "polled st (chan_rearm n st)"
proof -
  have shape: "sup_shape st" using ok by (simp add: serve_ok_def)
  have plain: "polled st (Event 0 st)" "polled st (Event 3 (st\<lparr>wire := w\<rparr>))" for w
    using shape by (auto intro: polled_same [OF ok])
  have "polled st (Event 3 ((status_inc S_REARM (status_set S_NSLOT slot
      ((nat_update slot f st)\<lparr>g_nat_live := slot, g_nat_retired := 0\<rparr>)))\<lparr>wire := w\<rparr>))"
    if "\<not> slot > 1" for slot f w
  proof (rule polled_same [OF ok])
    have "sup_shape ((nat_update slot f st)\<lparr>g_nat_live := slot\<rparr>)"
      by (rule sup_shape_updates(3)) (use shape that in simp_all)
    then show "sup_shape ((status_inc S_REARM (status_set S_NSLOT slot
      ((nat_update slot f st)\<lparr>g_nat_live := slot, g_nat_retired := 0\<rparr>)))\<lparr>wire := w\<rparr>)" by simp
  qed (simp_all add: status_inc_def status_set_def nat_update_def S_REARM_def status_index)
  with plain show ?thesis
    by (simp add: chan_rearm_def Let_def status_inc_def status_set_def)
qed

lemma chan_native_polled:
  assumes ok: "serve_ok st" and n: "unat n \<le> 2696"
  shows "polled st (chan_native n st)"
proof -
  have shape: "sup_shape st" using ok by (simp add: serve_ok_def)
  then have len: "length (g_chan_stage st) = 2696" "length (pend st) = 0x240" by (simp_all add: sup_shape_def)
  have plain: "polled st (Event 0 st)" using polled_same [OF ok shape] by simp
  show ?thesis
  proof (cases "n < 16 \<or> n > 0x200")
    case True
    with plain show ?thesis by (auto simp: chan_native_def)
  next
    case False
    then have un: "unat n \<le> 0x200" by (simp add: word_less_nat_alt not_less)
    then have "length (blit 0 (take (unat n) (g_chan_stage st)) (pend st)) = length (pend st)" using len by simp
    from sup_shape_buffers(1) [OF shape this]
    have "polled st (Event 2 (st\<lparr>pend := blit 0 (take (unat n) (g_chan_stage st)) (pend st),
        pend_ok := PROG_PEND_MAGIC\<rparr>))"
      by (intro polled_same [OF ok]) simp_all
    then show ?thesis using False un len by (simp add: chan_native_def)
  qed
qed

lemma chan_poll_polled:
  assumes ok: "serve_ok st" and rx: "rx_wf 2696 rx"
  shows "polled st (fst (chan_poll now arrivals rx st)) \<and> rx_wf 2696 (snd (chan_poll now arrivals rx st))"
proof -
  have shape: "sup_shape st" using ok by (simp add: serve_ok_def)
  then have len: "length (g_chan_stage st) = 2696" by (simp add: sup_shape_def)
  obtain n stage rx' rest where poll: "uart_poll_frame now arrivals (g_chan_stage st) 2696 rx = Some (n, stage, rx', rest)"
    "rx_wf 2696 rx'" "length stage = 2696" "n \<le> 2696"
    using uart_poll_frame_safe [OF rx, of "g_chan_stage st" now arrivals] len by auto
  let ?st = "st\<lparr>g_chan_stage := stage\<rparr>"
  have shape1: "sup_shape ?st" using sup_shape_buffers(3) [OF shape, of stage] poll(3) len by simp
  have ok1: "serve_ok ?st" using ok shape1 quiet_cong [of st ?st] by (simp add: serve_ok_def)
  have un: "unat n \<le> 2696" using poll(4) by (simp add: word_le_nat_alt)
  have same: "polled ?st ev \<Longrightarrow> polled st ev" for ev by (cases ev) (simp_all add: polled_def)
  have "polled ?st (Event 0 ?st)" using polled_same [OF ok1 shape1] by simp
  then have "polled ?st (if n = 0 then Event 0 ?st else chan_frame (rx_type rx') n ?st)"
    using chan_update_polled [OF ok1 un] chan_program_polled [OF ok1 un] chan_mailbox_polled [OF ok1 un]
      chan_status_polled [OF ok1] chan_rearm_polled [OF ok1] chan_native_polled [OF ok1 un]
    by (simp add: chan_frame_def)
  then show ?thesis using poll(1,2) len same by (simp add: chan_poll_def Let_def)
qed


subsection \<open>One turn\<close>

lemma one_moved:
  assumes "h' = h + 1 \<and> r' = r \<or> h' = (h::u32) \<and> r' = r + (1::u32)"
  shows "h' \<noteq> h \<and> r' = r \<longleftrightarrow> h' \<noteq> h" "\<not> (h' = h \<and> r' = r)"
  using assms by auto

lemma finish_wf:
  "update_wf w \<Longrightarrow> u_state (w_rx w) = UPDATE_STATE_STAGED \<Longrightarrow>
    update_wf \<lparr>w_rx = update_finish (w_rx w) acc, w_pend = p, w_magic = m\<rparr> \<longleftrightarrow> 552 \<le> length p"
  by (auto simp: update_wf_def update_finish_def update_consts)

text \<open>
  After the swap a staged transaction is settled in the same turn, with the verdict of the gate.
\<close>

lemma turn_settles:
  assumes poll: "polled st (Event e st1)" and ok: "serve_ok st"
    and swap: "hot_swap t st1 = Some st2" and final: "hot_update_finalize st2 = Some (r, st3)"
  shows "serve_ok st3" "box st3 = box st2" "status st3 = status st2"
    "e = 5 \<Longrightarrow> u_state (g_update st3) = UPDATE_STATE_DONE \<and>
      u_final (g_update st3) = (if status st2 ! S_HLOAD \<noteq> status st1 ! S_HLOAD then UPDATE_ACCEPT else UPDATE_REJECT)"
proof -
  from poll have p: "sup_shape st1" "box st1 = box st" "update_wf (world st1)"
    "u_state (g_update st1) = UPDATE_STATE_STAGED \<longleftrightarrow> e = 5"
    "e = 5 \<Longrightarrow> pend_ok st1 = PROG_PEND_MAGIC \<and> g_update_hload st1 = status st1 ! S_HLOAD \<and>
       g_update_hrej st1 = status st1 ! S_HREJ"
    by (auto simp: polled_def)
  from ok p(2) have progs: "progs_ok (box st1)" by (simp add: serve_ok_def)
  note keep = hot_swap_keeps [OF p(1) swap]
  have k: "sup_shape st2" "progs_ok (box st2)" "g_update st2 = g_update st1"
    "g_update_hload st2 = g_update_hload st1" "g_update_hrej st2 = g_update_hrej st1"
    using keep progs by auto
  have len: "length (pend st2) = 0x240" "length (pend st1) = 0x240" using k(1) p(1) by (simp_all add: sup_shape_def)
  have "serve_ok st3 \<and> box st3 = box st2 \<and> status st3 = status st2 \<and>
    (e = 5 \<longrightarrow> u_state (g_update st3) = UPDATE_STATE_DONE \<and>
      u_final (g_update st3) = (if status st2 ! S_HLOAD \<noteq> status st1 ! S_HLOAD then UPDATE_ACCEPT else UPDATE_REJECT))"
  proof (cases "e = 5")
    case False
    then have idle: "u_state (g_update st2) \<noteq> UPDATE_STATE_STAGED" using k(3) p(4) by simp
    then have "st3 = st2" using final by (simp add: hot_update_finalize_def Let_def)
    moreover have "quiet st1" using p(3,4) False by (simp add: quiet_def)
    from quiet_cong [OF this k(3)] have "quiet st2" using len by simp
    ultimately show ?thesis using k False by (simp add: serve_ok_def)
  next
    case True
    note noted = p(5) [OF True]
    have staged: "u_state (g_update st2) = UPDATE_STATE_STAGED" using p(4) True k(3) by simp
    have moved: "status st2 ! S_HLOAD = status st1 ! S_HLOAD + 1 \<and> status st2 ! S_HREJ = status st1 ! S_HREJ \<or>
        status st2 ! S_HLOAD = status st1 ! S_HLOAD \<and> status st2 ! S_HREJ = status st1 ! S_HREJ + 1"
      using keep noted by (metis (full_types))
    let ?acc = "status st2 ! S_HLOAD \<noteq> status st1 ! S_HLOAD"
    have "?acc \<and> status st2 ! S_HREJ = status st1 ! S_HREJ \<longleftrightarrow> ?acc"
      "\<not> (status st2 ! S_HLOAD = status st1 ! S_HLOAD \<and> status st2 ! S_HREJ = status st1 ! S_HREJ)"
      by (rule one_moved [OF moved])+
    then obtain reply where "update_send_reply reply (st2\<lparr>g_update := update_finish (g_update st2) ?acc\<rparr>) = Some st3"
      using final staged noted k(4,5)
      by (auto simp: hot_update_finalize_def Let_def split: option.splits)
    then obtain n m v where st3: "st3 = st2\<lparr>g_update := update_finish (g_update st2) ?acc, reads := n, sends := m, wire := v\<rparr>"
      by (rule update_reply_frame) simp
    have "quiet st3"
      using finish_wf [OF p(3), of ?acc "pend st2" "pend_ok st2"] p(4) True len k(3)
      by (simp add: st3 quiet_def world_def) (simp add: update_finish_def update_consts)
    then show ?thesis
      using k(1,2) by (simp add: serve_ok_def st3 update_finish_def)
  qed
  then show "serve_ok st3" "box st3 = box st2" "status st3 = status st2"
    "e = 5 \<Longrightarrow> u_state (g_update st3) = UPDATE_STATE_DONE \<and>
      u_final (g_update st3) = (if status st2 ! S_HLOAD \<noteq> status st1 ! S_HLOAD then UPDATE_ACCEPT else UPDATE_REJECT)"
    by auto
qed

text \<open>The outcomes of a turn of the service loop.\<close>

definition oversized :: "sup \<Rightarrow> bool" where
  "oversized st \<longleftrightarrow>
     (\<exists>body. staged_body PEND_NATIVE (le32 (pend st) 0) = Some body \<and> pinned (pend st) body \<and>
        240 < unat (le32 (pend st) 0))"

lemma hot_swap_None: "sup_shape st \<Longrightarrow> hot_swap t st = None \<Longrightarrow> oversized st"
  using hot_swap_idle [of st t] hot_swap_outcome [of st t]
  by (cases "pend_ok st = PROG_PEND_MAGIC") (auto simp: swap_outcome_def Let_def oversized_def)

lemma service_turn:
  assumes ok: "serve_ok st" and rx: "rx_wf 2696 rx" and seen: "status st ! S_HLOAD = seen"
  shows "service_step t rom now arrivals rx seen st = Waiting \<or>
    (service_step t rom now arrivals rx seen st = Crashes \<and>
      (\<exists>e st1. fst (chan_poll now arrivals rx st) = Event e st1 \<and> oversized st1)) \<or>
    (\<exists>st'. service_step t rom now arrivals rx seen st = hot_round t rom st' \<and> serve_ok st') \<or>
    (\<exists>rx' st'. service_step t rom now arrivals rx seen st = Serves rx' seen st' \<and> serve_ok st' \<and>
       rx_wf 2696 rx' \<and> status st' ! S_HLOAD = seen)"
proof -
  obtain ev rx' where poll: "chan_poll now arrivals rx st = (ev, rx')" by (cases "chan_poll now arrivals rx st")
  with chan_poll_polled [OF ok rx, of now arrivals] have p: "polled st ev" "rx_wf 2696 rx'" by simp_all
  show ?thesis
  proof (cases ev)
    case Stalled
    then show ?thesis using poll by (simp add: service_step_def)
  next
    case Wild
    then show ?thesis using p(1) by (simp add: polled_def)
  next
    case (Event e st1)
    have shape: "sup_shape st1" using p(1) Event by (simp add: polled_def)
    show ?thesis
    proof (cases "hot_swap t st1")
      case None
      then show ?thesis using poll Event hot_swap_None [OF shape] by (simp add: service_step_def)
    next
      case (Some st2)
      show ?thesis
      proof (cases "hot_update_finalize st2")
        case None
        then show ?thesis using poll Event Some by (simp add: service_step_def)
      next
        case fin: (Some out)
        obtain r st3 where out: "out = (r, st3)" by (cases out)
        note t = turn_settles [OF p(1) [unfolded Event] ok Some fin [unfolded out]]
        let ?idle = "status_inc 3 st3"
        have "serve_ok ?idle"
          using t(1) quiet_cong [of st3 ?idle]
          by (simp add: serve_ok_def) (simp add: status_inc_def status_set_def)
        moreover have "status ?idle ! S_HLOAD = status st3 ! S_HLOAD"
          by (simp add: status_inc_def status_set_def status_index)
        ultimately show ?thesis
          using poll Event Some fin out t(1) p(2) by (auto simp: service_step_def)
      qed
    qed
  qed
qed


subsection \<open>What the loop promises\<close>

text \<open>
  C11: the service loop is safe against the wire.  From a state with the supervisor's shape, accepted
  programs and no staged transaction, a turn over any arriving bytes either waits for the transmitter,
  starts a round, or is back at the head of the loop with all of that intact; the only way out of
  the objects is a pinned native image of more than 240 bytes.
\<close>

theorem service_turn_safe:
  assumes "serve_ok st" "rx_wf 2696 rx" "status st ! S_HLOAD = seen"
  shows "service_step t rom now arrivals rx seen st = Waiting \<or>
    (service_step t rom now arrivals rx seen st = Crashes \<and>
      (\<exists>e st1. fst (chan_poll now arrivals rx st) = Event e st1 \<and> oversized st1)) \<or>
    (\<exists>st'. service_step t rom now arrivals rx seen st = hot_round t rom st' \<and> serve_ok st') \<or>
    (\<exists>rx' st'. service_step t rom now arrivals rx seen st = Serves rx' seen st' \<and> serve_ok st' \<and>
       rx_wf 2696 rx' \<and> status st' ! S_HLOAD = seen)"
  using assms by (rule service_turn)

lemma idle_sup_serves: "serve_ok idle_sup"
proof -
  have "quiet idle_sup"
    by (simp add: quiet_def world_def idle_sup_def update_wf_def update_reset_def update_consts)
  moreover have "progs_ok (box idle_sup)" by (simp add: progs_ok_def idle_sup_def sample_box_def)
  ultimately show ?thesis using idle_sup_shape by (simp add: serve_ok_def)
qed

theorem service_turn_safe_witness:
  "\<exists>rx' st'. service_step Board \<lparr>monitor_entry = 0, atk_vec = [], native_demo = []\<rparr> 7 [(0x55, 1, 2)] rx_init 0 idle_sup =
      Serves rx' 0 st' \<and> status st' ! 3 = 1"
proof -
  let ?rom = "\<lparr>monitor_entry = 0, atk_vec = [], native_demo = []\<rparr>"
  have "chan_poll 7 [(0x55, 1, 2)] rx_init idle_sup = (Event 0 idle_sup, rx_init\<lparr>rx_tick := 1\<rparr>)"
    by (simp add: chan_poll_def uart_poll_frame_def rx_init_def uart_frame_step_def Let_def)
  moreover from this have "service_step Board ?rom 7 [(0x55, 1, 2)] rx_init 0 idle_sup =
      Serves (rx_init\<lparr>rx_tick := 1\<rparr>) 0 (status_inc 3 idle_sup)"
    by (simp add: service_step_def hot_swap_def hot_update_finalize_def Let_def)
      (simp add: idle_sup_def PROG_PEND_MAGIC_def update_reset_def update_consts status_index)
  ultimately show ?thesis
    using service_turn_safe [OF idle_sup_serves rx_wf_init, of 0 Board ?rom 7 "[(0x55, 1, 2)]"]
    by (auto simp: status_inc_def status_set_def idle_sup_def)
qed


definition staged_example :: sup where
  "staged_example = idle_sup\<lparr>pend_ok := PROG_PEND_MAGIC, tx_polls := (\<lambda>_. replicate 40 (True, 0)),
     g_update := \<lparr>u_id = 1, u_total = 48, u_received = 48, u_next_seq = 1,
       u_sha = sha_spec (replicate 48 0), u_state = UPDATE_STATE_STAGED, u_final = 0\<rparr>\<rparr>"

lemma puts_ready:
  "length cs \<le> n \<Longrightarrow> puts_bounded cs t0 b (replicate n (True, k)) out =
     Some (True, replicate (n - length cs) (True, k), out @ cs)"
proof (induction cs arbitrary: n out)
  case (Cons c cs)
  then obtain m where "n = Suc m" by (cases n) auto
  with Cons show ?case by simp
qed simp

lemma send_ready:
  assumes "unat n \<le> length p" "unat n \<le> 34"
  shows "uart_send_frame_limited ty p n b t0 (replicate 40 (True, k)) \<noteq> None"
proof -
  let ?h = "length (frame_header ty n)"
  have h: "?h = 4 \<or> ?h = 5" by (simp add: frame_header_def)
  have len: "length (take (unat n) p) = unat n" using assms(1) by simp
  obtain m where m: "40 - ?h - unat n = Suc m"
    using h assms(2) by (cases "40 - ?h - unat n") auto
  have "putc_bounded c t0 b (replicate (40 - ?h - unat n) (True, k)) out \<noteq> None" for c out
    unfolding m by simp
  moreover have "?h \<le> 40" "unat n \<le> 40 - ?h" using h assms(2) by auto
  ultimately show ?thesis
    using len by (simp add: uart_send_frame_limited_def puts_ready del: length_take)
qed


end
