(* ===== verification/Inputs.thy ===== *)
theory Inputs
  imports Service
begin

text \<open>
  What a round starts from: the six demo packets in the monitor's input window, and a swarm, from the
  mailbox or built in, in its data window.
\<close>

subsection \<open>The packets\<close>

definition packets_loaded :: "mon_box \<Rightarrow> bool" where
  "packets_loaded b \<longleftrightarrow>
     mon_off b = [0, 42, 63, 105, 147, 189] \<and> mon_sizes b = [42, 21, 42, 42, 42, 42] \<and>
     take 231 (mon_input b) = concat bao"

lemma pkt_lengths [simp]:
  "length PKT_GPI = 42" "length PKT_HB = 21" "length PKT_BADMAGIC = 42" "length PKT_BADMSGID = 42"
  "length PKT_BIGLEN = 42" "length PKT_BADLAT = 42"
  by (simp_all add: PKT_GPI_def PKT_HB_def PKT_BADMAGIC_def PKT_BADMSGID_def PKT_BIGLEN_def PKT_BADLAT_def)

lemma blit_blit: "i \<le> length buf \<Longrightarrow> blit (i + length p) q (blit i p buf) = blit i (p @ q) buf"
  by (simp add: blit_def ac_simps)

lemma length_6E:
  assumes "length xs = 6"
  obtains a b c d e f where "xs = [a, b, c, d, e, f]"
  using assms by (auto simp: numeral_eq_Suc length_Suc_conv)

lemma load_packets_bao:
  assumes "box_wf b"
  shows "load_packets 0 0 bao b = b\<lparr>mon_off := [0, 42, 63, 105, 147, 189], mon_sizes := [42, 21, 42, 42, 42, 42],
    mon_input := blit 0 (concat bao) (mon_input b)\<rparr>"
proof -
  have len: "length (mon_input b) = 256" "length (mon_off b) = 6" "length (mon_sizes b) = 6"
    using assms by (simp_all add: box_wf_def)
  obtain o0 o1 o2 o3 o4 o5 where os: "mon_off b = [o0, o1, o2, o3, o4, o5]" using len(2) by (rule length_6E)
  obtain s0 s1 s2 s3 s4 s5 where ss: "mon_sizes b = [s0, s1, s2, s3, s4, s5]" using len(3) by (rule length_6E)
  let ?buf = "mon_input b"
  have b1: "blit 42 PKT_HB (blit 0 PKT_GPI ?buf) = blit 0 (PKT_GPI @ PKT_HB) ?buf"
    using blit_blit [of 0 ?buf PKT_GPI PKT_HB] by simp
  have b2: "blit 63 PKT_BADMAGIC (blit 0 (PKT_GPI @ PKT_HB) ?buf) = blit 0 (PKT_GPI @ PKT_HB @ PKT_BADMAGIC) ?buf"
    using blit_blit [of 0 ?buf "PKT_GPI @ PKT_HB" PKT_BADMAGIC] by simp
  have b3: "blit 105 PKT_BADMSGID (blit 0 (PKT_GPI @ PKT_HB @ PKT_BADMAGIC) ?buf) =
      blit 0 (PKT_GPI @ PKT_HB @ PKT_BADMAGIC @ PKT_BADMSGID) ?buf"
    using blit_blit [of 0 ?buf "PKT_GPI @ PKT_HB @ PKT_BADMAGIC" PKT_BADMSGID] by simp
  have b4: "blit 147 PKT_BIGLEN (blit 0 (PKT_GPI @ PKT_HB @ PKT_BADMAGIC @ PKT_BADMSGID) ?buf) =
      blit 0 (PKT_GPI @ PKT_HB @ PKT_BADMAGIC @ PKT_BADMSGID @ PKT_BIGLEN) ?buf"
    using blit_blit [of 0 ?buf "PKT_GPI @ PKT_HB @ PKT_BADMAGIC @ PKT_BADMSGID" PKT_BIGLEN] by simp
  have b5: "blit 189 PKT_BADLAT (blit 0 (PKT_GPI @ PKT_HB @ PKT_BADMAGIC @ PKT_BADMSGID @ PKT_BIGLEN) ?buf) =
      blit 0 (concat bao) ?buf"
    using blit_blit [of 0 ?buf "PKT_GPI @ PKT_HB @ PKT_BADMAGIC @ PKT_BADMSGID @ PKT_BIGLEN" PKT_BADLAT]
    by (simp add: bao_def)
  have "load_packets 0 0 [PKT_GPI, PKT_HB, PKT_BADMAGIC, PKT_BADMSGID, PKT_BIGLEN, PKT_BADLAT] b =
    b\<lparr>mon_off := [0, 42, 63, 105, 147, 189], mon_sizes := [42, 21, 42, 42, 42, 42],
      mon_input := blit 0 (concat bao) (mon_input b)\<rparr>"
    by (simp add: os ss b1 b2 b3 b4 b5)
  then show ?thesis by (simp add: bao_def)
qed

lemma length_bao: "length (concat bao) = 231"
  by (simp add: bao_def)

lemma load_packets_ok:
  assumes "box_wf b"
  shows "packets_loaded (load_packets 0 0 bao b)" "box_wf (load_packets 0 0 bao b)"
  using assms by (simp_all add: load_packets_bao packets_loaded_def length_bao box_wf_def blit_def)

lemma packets_loaded_ok:
  assumes loaded: "packets_loaded b" and wf: "box_wf b"
  shows "packets_ok b"
proof -
  have "\<forall>i \<in> set [0..<6]. 14 \<le> unat (mon_sizes b ! i) \<and> unat (mon_off b ! i) + unat (mon_sizes b ! i) \<le> 256"
    using loaded by (simp add: packets_loaded_def upt_rec)
  then show ?thesis using wf by (auto simp: packets_ok_def)
qed

lemma native_verdict_cong: "(\<And>j. j < 14 \<Longrightarrow> p ! j = q ! j) \<Longrightarrow> native_verdict p = native_verdict q"
  by (simp add: native_verdict_def Let_def)

text \<open>The verdicts the round should reach.\<close>

lemma packets_loaded_verdicts:
  assumes "packets_loaded b"
  shows "packet_verdicts b = want"
proof -
  have off: "mon_off b = [0, 42, 63, 105, 147, 189]" and inp: "take 231 (mon_input b) = concat bao"
    using assms by (simp_all add: packets_loaded_def)
  define pos where "pos = [0, 42, 63, 105, 147, 189::nat]"
  have same: "native_verdict (drop k (mon_input b)) = native_verdict (drop k (concat bao))" if "k \<le> 217" for k
  proof -
    have "drop k (mon_input b) ! j = drop k (concat bao) ! j" if j: "j < 14" for j
    proof -
      have "k + j < 231" using j \<open>k \<le> 217\<close> by simp
      moreover have "231 \<le> length (mon_input b)" using inp length_bao by (metis length_take min.absorb_iff1 min.commute)
      ultimately show ?thesis using inp length_bao by (metis add_leD1 le_trans less_imp_le nth_drop nth_take)
    qed
    then show ?thesis by (rule native_verdict_cong)
  qed
  have "map (\<lambda>k. native_verdict (drop k (concat bao))) pos = want" unfolding pos_def by code_simp
  moreover have "packet_verdicts b = map (\<lambda>k. native_verdict (drop k (mon_input b))) pos"
    by (simp add: packet_verdicts_def packet_at_def off pos_def upt_rec)
  ultimately show ?thesis using same same [of 0] by (simp add: pos_def)
qed

text \<open>The checksum of the input windows depends on the packets only.\<close>

lemma input_sum_loaded:
  assumes "packets_loaded b" "packets_loaded b'" "box_wf b" "box_wf b'"
  shows "input_sum b = input_sum b'" "input_sum b \<noteq> None"
proof -
  have b: "mon_off b = [0, 42, 63, 105, 147, 189]" "mon_sizes b = [42, 21, 42, 42, 42, 42]" "length (mon_input b) = 256"
      "take 231 (mon_input b) = concat bao"
    and b': "mon_off b' = [0, 42, 63, 105, 147, 189]" "mon_sizes b' = [42, 21, 42, 42, 42, 42]" "length (mon_input b') = 256"
      "take 231 (mon_input b') = concat bao"
    using assms by (simp_all add: packets_loaded_def box_wf_def)
  have eq: "take n (drop k (mon_input b)) = take n (drop k (mon_input b'))" if "k + n \<le> 231" for k n
  proof -
    have "take n (drop k xs) = take n (drop k (take 231 xs))" for xs :: "u8 list"
      using that by (simp add: drop_take min_def)
    from this [of "mon_input b"] this [of "mon_input b'"] show ?thesis using b(4) b'(4) by simp
  qed
  show "input_sum b = input_sum b'" "input_sum b \<noteq> None"
    using b b' eq eq [of 0 42] by (simp_all add: input_sum_def upt_rec)
qed


subsection \<open>The swarm\<close>

lemma drop_blit_other:
  assumes "j + length q \<le> length buf" "i + n \<le> j \<or> j + length q \<le> i"
  shows "take n (drop i (blit j q buf)) = take n (drop i buf)"
  using assms(2)
proof
  assume le: "i + n \<le> j"
  have "take n (drop i (blit j q buf)) = drop i (take (i + n) (blit j q buf))" by (simp add: take_drop add.commute)
  also have "take (i + n) (blit j q buf) = take (i + n) buf" using le assms(1) by (simp add: blit_def min_def)
  finally show ?thesis by (simp add: take_drop add.commute)
next
  assume "j + length q \<le> i"
  then have "drop i (blit j q buf) = drop i buf" using assms(1) by (simp add: blit_def)
  then show ?thesis by simp
qed

lemma load_swarm_fields:
  assumes "box_wf b" "distinct is" "\<forall>i \<in> set is. i < 64 \<and> length (f i) = 42"
  shows "\<exists>so ss da. load_swarm f is b = b\<lparr>mon_soff := so, mon_ssizes := ss, mon_data := da\<rparr> \<and>
    length so = 64 \<and> length ss = 64 \<and> length da = 2688 \<and>
    (\<forall>i < 64. so ! i = (if i \<in> set is then word_of_nat (i * 42) else mon_soff b ! i)) \<and>
    (\<forall>i < 64. ss ! i = (if i \<in> set is then 42 else mon_ssizes b ! i)) \<and>
    (\<forall>i < 64. take 42 (drop (i * 42) da) = (if i \<in> set is then f i else take 42 (drop (i * 42) (mon_data b))))"
  using assms
proof (induction "is" arbitrary: b)
  case Nil
  then show ?case
    by - (rule exI [of _ "mon_soff b"], rule exI [of _ "mon_ssizes b"], rule exI [of _ "mon_data b"], simp add: box_wf_def)
next
  case (Cons k ks)
  let ?b = "b\<lparr>mon_soff := (mon_soff b)[k := word_of_nat (k * 42)], mon_ssizes := (mon_ssizes b)[k := 42],
    mon_data := blit (k * 42) (f k) (mon_data b)\<rparr>"
  have k: "k < 64" "length (f k) = 42" "k \<notin> set ks" using Cons.prems(2,3) by auto
  have fit: "k * 42 + length (f k) \<le> length (mon_data b)" using k Cons.prems(1) by (simp add: box_wf_def)
  then have wf: "box_wf ?b" using Cons.prems(1) by (simp add: box_wf_def)
  from Cons.IH [OF wf] Cons.prems(2,3) obtain so ss da where
    ih: "load_swarm f ks ?b = ?b\<lparr>mon_soff := so, mon_ssizes := ss, mon_data := da\<rparr>"
      "length so = 64" "length ss = 64" "length da = 2688"
      "\<forall>i < 64. so ! i = (if i \<in> set ks then word_of_nat (i * 42) else mon_soff ?b ! i)"
      "\<forall>i < 64. ss ! i = (if i \<in> set ks then 42 else mon_ssizes ?b ! i)"
      "\<forall>i < 64. take 42 (drop (i * 42) da) = (if i \<in> set ks then f i else take 42 (drop (i * 42) (mon_data ?b)))"
    by auto
  have len: "length (mon_soff b) = 64" "length (mon_ssizes b) = 64" using Cons.prems(1) by (simp_all add: box_wf_def)
  have data: "take 42 (drop (i * 42) (blit (k * 42) (f k) (mon_data b))) =
      (if i = k then f k else take 42 (drop (i * 42) (mon_data b)))" for i
  proof (cases "i = k")
    case True
    then show ?thesis using fit k(2) by simp
  next
    case False
    then have "i * 42 + 42 \<le> k * 42 \<or> k * 42 + length (f k) \<le> i * 42" using k(2) by presburger
    from drop_blit_other [OF fit this] False show ?thesis by simp
  qed
  have "load_swarm f (k # ks) b = b\<lparr>mon_soff := so, mon_ssizes := ss, mon_data := da\<rparr>" using ih(1) by simp
  moreover have "\<forall>i < 64. so ! i = (if i \<in> set (k # ks) then word_of_nat (i * 42) else mon_soff b ! i)"
    "\<forall>i < 64. ss ! i = (if i \<in> set (k # ks) then 42 else mon_ssizes b ! i)"
    using ih(5,6) len k by (auto simp: nth_list_update)
  moreover have "\<forall>i < 64. take 42 (drop (i * 42) da) =
      (if i \<in> set (k # ks) then f i else take 42 (drop (i * 42) (mon_data b)))"
    using ih(7) data k(3) by auto
  ultimately show ?case using ih(2-4) by blast
qed

text \<open>The packets a round screens, as the mailbox or the built-in demo gives them.\<close>

definition mailed :: "sup \<Rightarrow> bool" where
  "mailed st \<longleftrightarrow> le32 (mailbox st) 0 = MO_SHU \<and> 1 \<le> le32 (mailbox st) 4 \<and> le32 (mailbox st) 4 \<le> 64"

definition round_swarm :: "sup \<Rightarrow> u8 list list" where
  "round_swarm st =
     (if mailed st then map (mailbox_packet (mailbox st)) [0..<unat (le32 (mailbox st) 4)]
      else map demo_packet [0..<8])"

lemma mailbox_packet_length: "length mb = 2696 \<Longrightarrow> i < 64 \<Longrightarrow> length (mailbox_packet mb i) = 42"
  by (simp add: mailbox_packet_def)

lemma demo_packet_length: "length (demo_packet i) = 42"
  by (simp add: demo_packet_def SWARM_LON33_def SWARM_LON34_def)

text \<open>The box a round starts with: the packets and a swarm whose packets are those of \<open>round_swarm\<close>.\<close>

definition inputs_ok :: "mon_box \<Rightarrow> bool" where
  "inputs_ok b \<longleftrightarrow> packets_loaded b \<and> swarm_ok b"

lemma load_inputs_ok:
  assumes shape: "sup_shape st"
  shows "\<exists>b n s. load_inputs st = st\<lparr>box := b, g_conflict_n := n, g_source := s\<rparr> \<and> inputs_ok b \<and>
    mon_confn b = n \<and> map (take 42) (swarm b) = round_swarm st \<and>
    mon_prog b = mon_prog (box st) \<and> mon_prog_cnt b = mon_prog_cnt (box st) \<and>
    mon_prog_b b = mon_prog_b (box st) \<and> mon_prog_b_cnt b = mon_prog_b_cnt (box st)"
proof -
  let ?b0 = "load_packets 0 0 bao (box st)"
  let ?f = "if mailed st then mailbox_packet (mailbox st) else demo_packet"
  let ?n = "if mailed st then le32 (mailbox st) 4 else 8"
  have wf: "box_wf (box st)" and mb: "length (mailbox st) = 2696" using shape by (simp_all add: sup_shape_def)
  note pk = load_packets_ok [OF wf]
  have n: "?n \<le> 64" by (simp add: mailed_def)
  then have un: "unat ?n \<le> 64" by (simp add: word_le_nat_alt)
  have f: "\<forall>i \<in> set [0..<unat ?n]. i < 64 \<and> length (?f i) = 42"
    using un mb by (auto simp: mailbox_packet_length demo_packet_length split: if_splits)
  from load_swarm_fields [OF pk(2) distinct_upt f] obtain so ss da where
    sw: "load_swarm ?f [0..<unat ?n] ?b0 = ?b0\<lparr>mon_soff := so, mon_ssizes := ss, mon_data := da\<rparr>"
    and len: "length so = 64" "length ss = 64" "length da = 2688"
    and val: "\<forall>i < 64. so ! i = (if i \<in> set [0..<unat ?n] then word_of_nat (i * 42) else mon_soff ?b0 ! i)"
      "\<forall>i < 64. ss ! i = (if i \<in> set [0..<unat ?n] then 42 else mon_ssizes ?b0 ! i)"
      "\<forall>i < 64. take 42 (drop (i * 42) da) = (if i \<in> set [0..<unat ?n] then ?f i else take 42 (drop (i * 42) (mon_data ?b0)))"
    by blast
  let ?b = "?b0\<lparr>mon_soff := so, mon_ssizes := ss, mon_data := da, mon_confn := ?n, mon_map := replicate 64 0\<rparr>"
  have off: "unat (word_of_nat i * 42 :: u32) = i * 42" if "i < 64" for i
    using that by (simp add: unat_word_ariths unat_of_nat take_bit_nat_eq_self)
  have "load_inputs st = st\<lparr>box := ?b, g_conflict_n := ?n, g_source := (if mailed st then 1 else 0)\<rparr>"
    using sw by (simp add: load_inputs_def Let_def mailed_def MAX_SWARM_def)
  moreover have "swarm_ok ?b"
    using pk(2) len n un val(1,2) off by (auto simp: swarm_ok_def box_wf_def)
  moreover have "packets_loaded ?b" using pk(1) by (simp add: packets_loaded_def)
  moreover have "map (take 42) (swarm ?b) = round_swarm st"
    using un val off by (auto simp: swarm_def round_swarm_def intro!: nth_equalityI)
  moreover have "mon_prog ?b = mon_prog (box st)" "mon_prog_cnt ?b = mon_prog_cnt (box st)"
    "mon_prog_b ?b = mon_prog_b (box st)" "mon_prog_b_cnt ?b = mon_prog_b_cnt (box st)"
    using load_packets_bao [OF wf] by simp_all
  ultimately show ?thesis
    by - (rule exI [of _ ?b], rule exI [of _ ?n], rule exI [of _ "if mailed st then 1 else 0"], simp add: inputs_ok_def)
qed

subsection \<open>From the mailbox to the verdicts\<close>

lemma msgid_take: "msgid_of (take 42 p) = msgid_of p" "swarm_cell (take 42 p) = swarm_cell p"
  by (simp_all add: msgid_of_def swarm_cell_def le32_def)

lemma reports_take: "reports (map (take 42) ps) k = reports ps k"
  by (simp add: reports_def filter_map comp_def msgid_take)

lemma crowded_take: "crowded (map (take 42) ps) (take 42 p) = crowded ps p"
  by (simp add: crowded_def reports_take msgid_take)

lemma screen_verdict_take: "i < length ps \<Longrightarrow> screen_verdict (map (take 42) ps) i = screen_verdict ps i"
  by (simp add: screen_verdict_def take_map crowded_take)

lemma alerts_take: "alerts (map (take 42) ps) k = alerts ps k"
proof -
  have "filter (\<lambda>i. screen_verdict (map (take 42) ps) i = 5) [k..<length ps] =
      filter (\<lambda>i. screen_verdict ps i = 5) [k..<length ps]"
    by (rule filter_cong) (simp_all add: screen_verdict_take)
  then show ?thesis by (simp add: alerts_def)
qed

lemma round_swarm_length: "length (round_swarm st) \<le> 64"
  by (auto simp: round_swarm_def mailed_def word_le_nat_alt)


lemma demo_alerts: "alerts (map demo_packet [0..<8]) 0 = 5"
proof -
  define ds where "ds = map demo_packet [0..<8]"
  define cells where "cells = [33, 33, 33, 33, 32, 32, 32, 32::nat]"
  have p: "msgid_of (demo_packet i) = 33" "grid_index (swarm_cell (demo_packet i)) = (if i < 4 then 33 else 32)" for i
    by (simp_all add: demo_packet_def PKT_GPI_def SWARM_LON33_def SWARM_LON34_def msgid_of_def swarm_cell_def le32_def
        grid_index_def)
  have upt: "[0..<8] = [0, 1, 2, 3, 4, 5, 6, 7::nat]" by (simp add: upt_rec)
  have c: "map (\<lambda>d. grid_index (swarm_cell d)) ds = cells" "\<forall>d \<in> set ds. msgid_of d = 33" "length ds = 8"
    by (simp_all add: ds_def cells_def upt p)
  have r: "reports (take n ds) k = length (filter (\<lambda>x. x = k) (take n cells))" for n k
  proof -
    have "filter (\<lambda>d. msgid_of d = 33 \<and> grid_index (swarm_cell d) = k) (take n ds) =
        filter (\<lambda>d. grid_index (swarm_cell d) = k) (take n ds)"
      by (rule filter_cong) (use c(2) in \<open>auto dest: in_set_takeD\<close>)
    then show ?thesis by (simp add: reports_def c(1) [symmetric] take_map filter_map comp_def)
  qed
  define flag where "flag i \<longleftrightarrow> 3 < length (filter (\<lambda>x. x = cells ! i) (take (Suc i) cells)) \<or>
      3 < length (filter (\<lambda>x. x = (cells ! i + 63) mod 64) (take (Suc i) cells)) \<or>
      3 < length (filter (\<lambda>x. x = (cells ! i + 1) mod 64) (take (Suc i) cells))" for i
  have v: "screen_verdict ds i = 5 \<longleftrightarrow> flag i" if "i < 8" for i
    using that c by (simp add: screen_verdict_def crowded_def r Let_def flag_def c(1) [symmetric])
  have fl: "map flag [0, 1, 2, 3, 4, 5, 6, 7] = [False, False, False, True, True, True, True, True]"
    by (simp add: flag_def cells_def)
  have "length (filter (\<lambda>i. screen_verdict ds i = 5) [0..<8]) = length (filter flag [0..<8])"
    by (rule arg_cong [where f = length], rule filter_cong) (simp_all add: v)
  also have "\<dots> = 5" unfolding upt using fl by simp
  finally have "alerts ds 0 = 5" by (simp only: alerts_def c(3))
  then show ?thesis by (simp add: ds_def)
qed


end
