(* ===== verification/Schedule.thy ===== *)
theory Schedule
  imports Inputs
begin

text \<open>
  The invariant of a round and what the supervisor does between two activations: every function that
  hands the CPU over is shown to enter the right compartment with its rights, or to end the round.
\<close>

subsection \<open>The invariant\<close>

lemmas status_words = S_CAIJUE_def S_INSNS_def S_VINTACT_def S_IINTACT_def S_OWNOOK_def S_INTER_def
  S_LOG0C_def S_DONE_def S_BAN_CAIJUE_def S_CINSNS_def S_CYC0_def S_CYC1_def S_CYC2_def S_JINGBAO_def
  S_CHONGTU_N_def S_LAIYUAN_def S_NATOK_def S_RDROK_def S_NAT2_def S_HLOAD_def S_HREJ_def S_ROLL_def
  S_NSLOT_def S_PREEMPT_def S_TXABORT_def S_HALT_def S_HALTC_def

text \<open>The compartment table describes the three compartments of the map, slot \<open>live\<close> in the last.\<close>

definition wired :: "target \<Rightarrow> u32 \<Rightarrow> comp_state \<Rightarrow> bool" where
  "wired t live tab \<longleftrightarrow>
     c_spec (comps tab ! 0) = ic_comp_monitor t \<and> c_spec (comps tab ! 1) = ic_comp_attacker t \<and>
     c_spec (comps tab ! 2) = nat_spec t live"

definition core_ok :: "target \<Rightarrow> sup \<Rightarrow> bool" where
  "core_ok t st \<longleftrightarrow>
     serve_ok st \<and> inputs_ok (box st) \<and> mon_confn (box st) = g_conflict_n st \<and>
     wired t (g_nat_live st) (table st) \<and> c_evicted (comps (table st) ! 2) = 0"

text \<open>The verdicts on show are the monitor's, and the checksum is that of the inputs.\<close>

definition kept :: "sup \<Rightarrow> bool" where
  "kept st \<longleftrightarrow>
     (\<forall>i < 6. status st ! (16 + i) = mon_verdicts (box st) ! i) \<and>
     input_sum (box st) = Some (g_input_sum st)"

definition finalized :: "sup \<Rightarrow> bool" where
  "finalized st \<longleftrightarrow>
     kept st \<and> status st ! S_NATOK = 1 \<and> status st ! S_IINTACT = 1 \<and>
     status st ! S_VINTACT = (if mon_verdicts (box st) = want then 1 else 0)"

definition phase_ok :: "u32 \<Rightarrow> sup \<Rightarrow> bool" where
  "phase_ok i st \<longleftrightarrow>
     (i = 0 \<and> c_evicted (comps (table st) ! 0) = 0 \<and>
       (g_phase st = 1 \<and> mon_mode (box st) = 0 \<or>
        g_phase st = 2 \<and> mon_mode (box st) = 1 \<and> kept st \<or>
        g_phase st = 3 \<and> mon_mode (box st) = 2 \<and> kept st)) \<or>
     (i = 1 \<and> c_evicted (comps (table st) ! 1) = 0 \<and> g_phase st = 4 \<and> g_atk_vec st \<le> 6 \<and> kept st \<and>
       status st ! S_NATOK = 1) \<or>
     (i = 2 \<and> g_phase st = 5 \<and> finalized st)"

definition run_ok :: "target \<Rightarrow> cpu \<Rightarrow> sup \<Rightarrow> bool" where
  "run_ok t cpu st \<longleftrightarrow>
     core_ok t st \<and> phase_ok (cur_comp (table st)) st \<and>
     pmp_holds (csrs (table st)) (c_spec (comps (table st) ! unat (cur_comp (table st)))) \<and>
     cur_tcb (table st) = Some (unat (cur_comp (table st)))"

text \<open>How many activations a round has left.\<close>

definition rank :: "sup \<Rightarrow> nat" where
  "rank st =
     (if g_phase st = 1 then 11 else if g_phase st = 2 then 10 else if g_phase st = 3 then 9
      else if g_phase st = 4 then 8 - unat (g_atk_vec st) else 1)"

text \<open>A round that is over: the marker is set, and what it recorded is what happened.\<close>

definition over :: "sup \<Rightarrow> bool" where
  "over st \<longleftrightarrow> serve_ok st \<and> finalized st \<and> status st ! S_DONE = 0x600DF00D"

definition goes :: "target \<Rightarrow> nat \<Rightarrow> ctl \<Rightarrow> bool" where
  "goes t n c \<longleftrightarrow>
     (case c of
        Runs cpu st \<Rightarrow> run_ok t cpu st \<and> rank st \<le> n
      | Serves rx seen st \<Rightarrow> t = Board \<and> rx = rx_init \<and> over st \<and> status st ! S_HLOAD = seen
      | Reports st \<Rightarrow> t = Qemu \<and> over st
      | Halts st \<Rightarrow> False
      | Parked st \<Rightarrow> False
      | Waiting \<Rightarrow> False
      | Crashes \<Rightarrow> False)"

subsection \<open>Entering\<close>

lemma compartment_enter_runs:
  assumes wf: "comp_wf tab" and i: "unat i < 4" and live: "c_evicted (comps tab ! unat i) = 0"
  shows "\<exists>cpu tab'. compartment_enter i regs ms tab = Enters cpu tab' \<and> comp_wf tab' \<and>
    pmp_holds (csrs tab') (c_spec (comps tab ! unat i)) \<and> cur_comp tab' = i \<and> cur_tcb tab' = Some (unat i) \<and>
    (\<forall>j < 4. c_spec (comps tab' ! j) = c_spec (comps tab ! j) \<and>
       c_evicted (comps tab' ! j) = c_evicted (comps tab ! j))"
proof -
  let ?tab = "(compartment_arm i tab)\<lparr>cur_comp := i, cur_tcb := Some (unat i)\<rparr>"
  have len: "length (comps tab) = 4" using wf by (simp add: comp_wf_def)
  have "comp_wf ?tab" using compartment_arm_wf [OF wf, of i] by (simp add: comp_wf_def)
  then show ?thesis
    using i live len compartment_arm_armed [OF wf i] compartment_arm_table [OF wf i]
    by (simp add: compartment_enter_def Let_def)
qed

lemma sup_shape_table:
  "sup_shape (st\<lparr>table := tab\<rparr>) \<longleftrightarrow> sup_shape (st\<lparr>table := comp_init\<rparr>) \<and> comp_wf tab"
  by (auto simp: sup_shape_def comp_init_wf)

lemma serve_ok_table: "serve_ok st \<Longrightarrow> comp_wf tab \<Longrightarrow> serve_ok (st\<lparr>table := tab\<rparr>)"
  using quiet_cong [of st "st\<lparr>table := tab\<rparr>"] by (simp add: serve_ok_def sup_shape_updates)

lemma core_wf: "core_ok t st \<Longrightarrow> comp_wf (table st)"
  by (simp add: core_ok_def serve_ok_def sup_shape_def)

lemma enter_run:
  assumes core: "core_ok t st" and ph: "phase_ok i st" and rank: "rank st \<le> n"
  shows "goes t n (enter_checked i st)"
proof -
  have i: "unat i < 4" and live: "c_evicted (comps (table st) ! unat i) = 0"
    using ph core by (auto simp: phase_ok_def core_ok_def)
  from compartment_enter_runs [OF core_wf [OF core] i live, of "m_regs st" "m_mstatus st"] obtain cpu tab where
    e: "compartment_enter i (m_regs st) (m_mstatus st) (table st) = Enters cpu tab" "comp_wf tab"
      "pmp_holds (csrs tab) (c_spec (comps (table st) ! unat i))" "cur_comp tab = i" "cur_tcb tab = Some (unat i)"
      "\<forall>j < 4. c_spec (comps tab ! j) = c_spec (comps (table st) ! j) \<and>
       c_evicted (comps tab ! j) = c_evicted (comps (table st) ! j)" by blast
  let ?st = "st\<lparr>table := tab\<rparr>"
  have "serve_ok ?st" using core e(2) by (simp add: core_ok_def serve_ok_table)
  then have "core_ok t ?st" using core e(6) by (simp add: core_ok_def wired_def)
  moreover have "phase_ok i ?st" using ph e(6) by (simp add: phase_ok_def kept_def finalized_def)
  ultimately have "run_ok t cpu ?st" using e(3-6) i by (simp add: run_ok_def)
  moreover have "enter_checked i st = Runs cpu ?st"
    using e(1) live i by (simp add: enter_checked_def compartment_evicted_def comp_index)
  moreover have "rank ?st = rank st" by (simp add: rank_def)
  ultimately show ?thesis using rank by (simp add: goes_def)
qed


subsection \<open>Starting a round\<close>

lemma timer_now_simps [simp]: "fst (timer_now st) = clock st (reads st)"
  "snd (timer_now st) = st\<lparr>reads := reads st + 1\<rparr>"
  by (simp_all add: timer_now_def)

lemma live_slot: "(k::u32) \<le> 1 \<Longrightarrow> k = 0 \<or> k = 1"
  using slot_cases by (simp add: not_less)

lemma inputs_ok_box: "inputs_ok b \<Longrightarrow> box_wf b"
  by (simp add: inputs_ok_def swarm_ok_def)

lemma inputs_ok_same:
  "inputs_ok b \<Longrightarrow> box_wf b' \<Longrightarrow> mon_off b' = mon_off b \<Longrightarrow> mon_sizes b' = mon_sizes b \<Longrightarrow>
    mon_input b' = mon_input b \<Longrightarrow> mon_confn b' = mon_confn b \<Longrightarrow> mon_soff b' = mon_soff b \<Longrightarrow>
    mon_ssizes b' = mon_ssizes b \<Longrightarrow> inputs_ok b'"
  by (simp add: inputs_ok_def packets_loaded_def swarm_ok_def)

lemma serve_ok_box:
  assumes "serve_ok st" "box_wf b" "progs_ok b"
  shows "serve_ok (st\<lparr>box := b\<rparr>)"
  using assms quiet_cong [of st "st\<lparr>box := b\<rparr>"] by (simp add: serve_ok_def sup_shape_updates)

lemma serve_ok_frame [simp]:
  "serve_ok (st\<lparr>g_phase := a\<rparr>) = serve_ok st" "serve_ok (st\<lparr>g_input_sum := a\<rparr>) = serve_ok st"
  "serve_ok (st\<lparr>g_stk0 := a\<rparr>) = serve_ok st" "serve_ok (st\<lparr>g_alerts := a\<rparr>) = serve_ok st"
  "serve_ok (st\<lparr>g_conflict_n := a\<rparr>) = serve_ok st" "serve_ok (st\<lparr>g_source := a\<rparr>) = serve_ok st"
  "serve_ok (st\<lparr>g_atk_vec := a\<rparr>) = serve_ok st" "serve_ok (st\<lparr>reads := n\<rparr>) = serve_ok st"
  "serve_ok (st\<lparr>g_nat_retired := a\<rparr>) = serve_ok st"
  "serve_ok (st\<lparr>wire := w\<rparr>) = serve_ok st" "serve_ok (status_set k v st) = serve_ok st"
  "serve_ok (status_inc k st) = serve_ok st" "serve_ok (nat_update j f st) = serve_ok st"
  by (simp_all add: serve_ok_def quiet_def world_def)
    (simp_all add: status_set_def status_inc_def nat_update_def)

lemma serve_ok_sram: "serve_ok st \<Longrightarrow> serve_ok (st\<lparr>nat_sram := (nat_sram st)[n := v]\<rparr>)"
  by (simp add: serve_ok_def quiet_def world_def sup_shape_updates)

lemma compartment_set_comps:
  "unat i < 4 \<Longrightarrow> comps (compartment_set i sp e tab) =
    (comps tab)[unat i := \<lparr>c_spec = sp, c_entry = e, c_armed = 0, c_evicted = 0, c_tcb = replicate 32 0\<rparr>]"
  by (simp add: compartment_set_def comp_index)

lemma schedule_round_enters:
  assumes ok: "serve_ok st"
  shows "\<exists>s. schedule_round t rom st = enter_checked 0 s \<and> goes t 11 (enter_checked 0 s) \<and> g_phase s = 1 \<and>
    mon_prog_cnt (box s) = mon_prog_cnt (box st)"
proof -
  have shape: "sup_shape st" using ok by (simp add: serve_ok_def)
  from load_inputs_ok [OF shape] obtain b n s where
    load: "load_inputs st = st\<lparr>box := b, g_conflict_n := n, g_source := s\<rparr>" and b: "inputs_ok b" "mon_confn b = n"
    and progs: "mon_prog b = mon_prog (box st)" "mon_prog_cnt b = mon_prog_cnt (box st)"
      "mon_prog_b b = mon_prog_b (box st)" "mon_prog_b_cnt b = mon_prog_b_cnt (box st)"
    by blast
  let ?live = "g_nat_live st"
  let ?tab = "compartment_arm 0 (compartment_set 2 (nat_spec t ?live) (n_entry (g_nat st ! unat ?live))
      (compartment_set 1 (ic_comp_attacker t) (atk_vec rom ! 0 - ATK_TEXT t)
        (compartment_set 0 (ic_comp_monitor t) (monitor_entry rom - MON_TEXT t) (table st))))"
  let ?b = "b\<lparr>mon_mode := 0\<rparr>"
  let ?sram = "(nat_sram st)[(if ?live \<noteq> 0 then 1 else 0) := 0]"
  let ?st = "st\<lparr>box := ?b, g_conflict_n := n, g_source := s, table := ?tab, nat_sram := ?sram, g_phase := 1,
      reads := reads st + 1, g_stk0 := clock st (reads st)\<rparr>"
  have wf0: "comp_wf (table st)" using shape by (simp add: sup_shape_def)
  let ?set = "compartment_set 2 (nat_spec t ?live) (n_entry (g_nat st ! unat ?live))
      (compartment_set 1 (ic_comp_attacker t) (atk_vec rom ! 0 - ATK_TEXT t)
        (compartment_set 0 (ic_comp_monitor t) (monitor_entry rom - MON_TEXT t) (table st)))"
  have wf1: "comp_wf ?set" using wf0 by (simp add: compartment_set_wf)
  have tab: "comp_wf ?tab" by (rule compartment_arm_wf [OF wf1])
  have len: "length (comps (table st)) = 4" using wf0 by (simp add: comp_wf_def)
  have specs: "wired t ?live ?tab" "c_evicted (comps ?tab ! 0) = 0" "c_evicted (comps ?tab ! 2) = 0"
    using compartment_arm_table(2,5) [OF wf1, of 0] len
    by (simp_all add: wired_def compartment_set_comps)
  have box: "box_wf ?b" "progs_ok ?b" "inputs_ok ?b"
    using b ok progs inputs_ok_box [OF b(1)] inputs_ok_same [OF b(1), of ?b]
    by (simp_all add: serve_ok_def progs_ok_def box_wf_def)
  have "serve_ok (st\<lparr>box := ?b, table := ?tab, nat_sram := ?sram\<rparr>)"
    using serve_ok_sram [OF serve_ok_table [OF serve_ok_box [OF ok box(1,2)] tab], of "if ?live \<noteq> 0 then 1 else 0" 0]
    by simp
  then have "serve_ok ?st"
    using serve_ok_frame by (simp add: serve_ok_def quiet_def world_def sup_shape_def)
  then have "core_ok t ?st" using box(3) b(2) specs by (simp add: core_ok_def)
  moreover have "phase_ok 0 ?st" using specs(2) by (simp add: phase_ok_def)
  ultimately have "goes t 11 (enter_checked 0 ?st)" by (rule enter_run) (simp add: rank_def)
  moreover have "schedule_round t rom st = enter_checked 0 ?st"
    unfolding schedule_round_def load Let_def
    by (simp add: case_prod_unfold split del: if_split) (rule arg_cong [where f = "enter_checked 0"], simp)
  ultimately show ?thesis using progs(2) by (intro exI [of _ ?st]) simp
qed

lemma schedule_round_goes: "serve_ok st \<Longrightarrow> goes t 11 (schedule_round t rom st)"
  using schedule_round_enters [of st t rom] by auto

lemma hot_round_goes:
  assumes "serve_ok st"
  shows "goes t 11 (hot_round t rom st)"
proof -
  have "serve_ok (supervisor_reset st)"
    using assms by (simp add: serve_ok_def quiet_def world_def sup_shape_def supervisor_reset_def)
  then show ?thesis unfolding hot_round_def by (rule schedule_round_goes)
qed


subsection \<open>Between two activations\<close>

lemma core_ok_frame [simp]:
  "core_ok t (st\<lparr>g_phase := a\<rparr>) = core_ok t st" "core_ok t (st\<lparr>g_input_sum := a\<rparr>) = core_ok t st"
  "core_ok t (st\<lparr>g_stk0 := a\<rparr>) = core_ok t st" "core_ok t (st\<lparr>g_alerts := a\<rparr>) = core_ok t st"
  "core_ok t (st\<lparr>g_atk_vec := a\<rparr>) = core_ok t st" "core_ok t (st\<lparr>reads := n\<rparr>) = core_ok t st"
  "core_ok t (status_set k v st) = core_ok t st" "core_ok t (status_inc k st) = core_ok t st"
  unfolding core_ok_def by simp_all (simp_all add: status_set_def status_inc_def)

lemma core_ok_copy: "core_ok t st \<Longrightarrow> n + length ws \<le> 106 \<Longrightarrow> core_ok t (status_copy n ws st)"
  by (simp add: core_ok_def serve_ok_def quiet_def world_def sup_shape_updates) (simp add: status_copy_def)

lemma core_ok_box:
  assumes "core_ok t st" "inputs_ok b" "progs_ok b" "mon_confn b = mon_confn (box st)"
  shows "core_ok t (st\<lparr>box := b\<rparr>)"
  using assms serve_ok_box [of st b] inputs_ok_box by (simp add: core_ok_def)

lemma arm_keeps:
  assumes "comp_wf tab" "unat i < 4"
  shows "wired t l (compartment_arm i tab) = wired t l tab"
    "j < 4 \<Longrightarrow> c_evicted (comps (compartment_arm i tab) ! j) = c_evicted (comps tab ! j)"
  using compartment_arm_table [OF assms] by (simp_all add: wired_def)

lemma core_ok_arm:
  assumes core: "core_ok t st" and i: "unat i < 4"
  shows "core_ok t (st\<lparr>table := compartment_arm i (table st)\<rparr>)"
  using core serve_ok_table [of st "compartment_arm i (table st)"] compartment_arm_wf [OF core_wf [OF core], of i]
    arm_keeps [OF core_wf [OF core] i]
  by (simp add: core_ok_def)

text \<open>Words of STATUS outside the verdicts do not matter to \<open>kept\<close>.\<close>

lemma kept_set: "kept st \<Longrightarrow> k < 16 \<or> 22 \<le> k \<Longrightarrow> kept (status_set k v st)"
  by (auto simp: kept_def status_set_def nth_list_update_neq)

lemma kept_frame [simp]:
  "kept (st\<lparr>g_phase := a\<rparr>) = kept st" "kept (st\<lparr>g_stk0 := a\<rparr>) = kept st" "kept (st\<lparr>g_alerts := a\<rparr>) = kept st"
  "kept (st\<lparr>g_atk_vec := a\<rparr>) = kept st" "kept (st\<lparr>reads := n\<rparr>) = kept st" "kept (st\<lparr>table := tab\<rparr>) = kept st"
  "kept (st\<lparr>wire := w\<rparr>) = kept st"
  by (simp_all add: kept_def)

lemma kept_copy:
  "kept st \<Longrightarrow> 22 \<le> n \<Longrightarrow> n + length ws \<le> length (status st) \<Longrightarrow> kept (status_copy n ws st)"
  by (simp add: kept_def status_copy_def nth_blit)

lemma kept_box:
  assumes "kept st" "mon_verdicts b = mon_verdicts (box st)" "inputs_ok b" "inputs_ok (box st)"
  shows "kept (st\<lparr>box := b\<rparr>)"
  using assms input_sum_loaded(1) [of b "box st"] by (simp add: kept_def inputs_ok_def swarm_ok_def)

lemma next_activation_goes:
  assumes core: "core_ok t st" and ev: "c_evicted (comps (table st) ! 0) = 0" and k: "kept st"
    and ph: "phase = 2 \<and> mode = 1 \<and> n = 10 \<or> phase = 3 \<and> mode = 2 \<and> n = 9"
  shows "goes t n (next_activation phase mode st)"
proof -
  let ?b = "(box st)\<lparr>mon_mode := mode\<rparr>"
  let ?st = "st\<lparr>table := compartment_arm 0 (table st), g_phase := phase, box := ?b,
      reads := reads st + 1, g_stk0 := clock st (reads st)\<rparr>"
  have ok: "inputs_ok (box st)" "progs_ok (box st)" using core by (simp_all add: core_ok_def serve_ok_def)
  have b: "inputs_ok ?b" "progs_ok ?b"
    using ok inputs_ok_box [OF ok(1)] inputs_ok_same [OF ok(1), of ?b] by (simp_all add: progs_ok_def box_wf_def)
  have "core_ok t (st\<lparr>table := compartment_arm 0 (table st), box := ?b\<rparr>)"
    using core_ok_box [OF core_ok_arm [OF core] b] by simp
  then have "core_ok t ?st" using core_ok_frame by (simp add: core_ok_def serve_ok_def sup_shape_def quiet_def world_def)
  moreover have "kept ?st"
    using kept_box [OF k _ b(1) ok(1)] by (simp add: kept_def)
  then have "phase_ok 0 ?st"
    using ph ev arm_keeps(2) [OF core_wf [OF core], of 0 0] by (auto simp: phase_ok_def)
  ultimately have "goes t n (enter_checked 0 ?st)" by (rule enter_run) (use ph in \<open>auto simp: rank_def\<close>)
  moreover have "next_activation phase mode st = enter_checked 0 ?st"
    unfolding next_activation_def Let_def by (simp add: case_prod_unfold)
  ultimately show ?thesis by simp
qed


subsection \<open>Rollback\<close>

text \<open>The fields the rollback touches, and that it keeps the accepted programs accepted.\<close>

lemma rollback_cases:
  "rollback_program st = st \<or>
   (\<exists>b. rollback_program st = status_inc S_ROLL (st\<lparr>box := b\<rparr>) \<and>
      (mon_prog_b_cnt (box st) \<noteq> 0 \<and> b = (box st)\<lparr>mon_prog := mon_prog_b (box st),
         mon_prog_cnt := mon_prog_b_cnt (box st), mon_prog_b_cnt := 0, mon_prog_fault := 0\<rparr> \<or>
       mon_prog_b_cnt (box st) = 0 \<and> b = (box st)\<lparr>mon_prog_cnt := 0, mon_prog_fault := 0\<rparr>))"
  by (auto simp: rollback_program_def Let_def)

lemma rollback_ok:
  assumes core: "core_ok t st" and k: "kept st"
  shows "core_ok t (rollback_program st) \<and> kept (rollback_program st) \<and>
    table (rollback_program st) = table st"
proof -
  have ok: "inputs_ok (box st)" "progs_ok (box st)" using core by (simp_all add: core_ok_def serve_ok_def)
  have res: "core_ok t (status_inc S_ROLL (st\<lparr>box := b\<rparr>)) \<and> kept (status_inc S_ROLL (st\<lparr>box := b\<rparr>)) \<and>
      table (status_inc S_ROLL (st\<lparr>box := b\<rparr>)) = table st"
    if "inputs_ok b" "progs_ok b" "mon_confn b = mon_confn (box st)" "mon_verdicts b = mon_verdicts (box st)" for b
    using core_ok_box [OF core that(1-3)] kept_box [OF k that(4,1) ok(1)]
    by (simp add: status_inc_def kept_set S_ROLL_def) (simp add: status_set_def)
  from rollback_cases [of st] show ?thesis
  proof (elim disjE exE conjE)
    assume "rollback_program st = st"
    then show ?thesis using core k by simp
  next
    fix b assume r: "rollback_program st = status_inc S_ROLL (st\<lparr>box := b\<rparr>)" and c: "mon_prog_b_cnt (box st) \<noteq> 0"
      and b: "b = (box st)\<lparr>mon_prog := mon_prog_b (box st), mon_prog_cnt := mon_prog_b_cnt (box st),
        mon_prog_b_cnt := 0, mon_prog_fault := 0\<rparr>"
    have "inputs_ok b" using inputs_ok_box [OF ok(1)] inputs_ok_same [OF ok(1), of b] by (simp add: b box_wf_def)
    moreover have "progs_ok b" using ok(2) c by (simp add: b progs_ok_def)
    ultimately show ?thesis unfolding r by (rule res) (simp_all add: b)
  next
    fix b assume r: "rollback_program st = status_inc S_ROLL (st\<lparr>box := b\<rparr>)" and c: "mon_prog_b_cnt (box st) = 0"
      and b: "b = (box st)\<lparr>mon_prog_cnt := 0, mon_prog_fault := 0\<rparr>"
    have "inputs_ok b" using inputs_ok_box [OF ok(1)] inputs_ok_same [OF ok(1), of b] by (simp add: b box_wf_def)
    moreover have "progs_ok b" using c by (simp add: b progs_ok_def)
    ultimately show ?thesis unfolding r by (rule res) (simp_all add: b)
  qed
qed

subsection \<open>The phases\<close>

lemma resume_packets_goes:
  assumes core: "core_ok t st" and ev: "c_evicted (comps (table st) ! 0) = 0"
  shows "goes t 10 (resume_packets st)"
proof -
  let ?b = "box st"
  let ?s1 = "st\<lparr>reads := reads st + 1\<rparr>"
  let ?s2 = "status_copy S_CAIJUE (take 6 (mon_verdicts ?b)) ?s1"
  let ?s3 = "status_set S_CYC0 (clock st (reads st) - g_stk0 st) (status_copy S_INSNS (take 6 (mon_insns ?b)) ?s2)"
  have wf: "box_wf ?b" and ok: "inputs_ok ?b" using core by (simp_all add: core_ok_def inputs_ok_box)
  have len: "length (mon_verdicts ?b) = 6" "length (mon_insns ?b) = 6" "length (status st) = 106"
    using wf core by (simp_all add: box_wf_def core_ok_def serve_ok_def sup_shape_def)
  obtain s where sum: "input_sum ?b = Some s"
    using input_sum_loaded(2) [of ?b ?b] ok wf by (auto simp: inputs_ok_def)
  let ?s4 = "?s3\<lparr>g_input_sum := s\<rparr>"
  have "core_ok t ?s1" using core by simp
  from core_ok_copy [OF this] len have "core_ok t ?s2" by (simp add: S_CAIJUE_def)
  from core_ok_copy [OF this] len have "core_ok t (status_copy S_INSNS (take 6 (mon_insns ?b)) ?s2)"
    by (simp add: S_INSNS_def)
  then have c4: "core_ok t ?s4" by simp
  have "kept (?s2\<lparr>g_input_sum := s\<rparr>)"
    using len sum by (simp add: kept_def status_copy_def S_CAIJUE_def nth_blit)
  from kept_copy [OF this] len have "kept (status_copy S_INSNS (take 6 (mon_insns ?b)) (?s2\<lparr>g_input_sum := s\<rparr>))"
    by (simp add: S_INSNS_def status_copy_def S_CAIJUE_def)
  then have k4: "kept ?s4"
    using len by (simp add: kept_def status_set_def status_copy_def S_CYC0_def nth_list_update_neq)
  have t4: "table ?s4 = table st" by (simp add: status_set_def status_copy_def)
  note rb = rollback_ok [OF c4 k4]
  have "goes t 10 (next_activation 2 1 (rollback_program ?s4))"
    by (rule next_activation_goes) (use rb ev t4 in simp_all)
  moreover have "resume_packets st = next_activation 2 1 (rollback_program ?s4)"
    using sum by (simp add: resume_packets_def Let_def case_prod_unfold)
      (simp add: status_copy_def status_set_def)
  ultimately show ?thesis by simp
qed


lemma length_status_copy [simp]:
  "n + length ws \<le> length (status st) \<Longrightarrow> length (status (status_copy n ws st)) = length (status st)"
  by (simp add: status_copy_def)

lemma length_status_set [simp]: "length (status (status_set k v st)) = length (status st)"
  by (simp add: status_set_def)

lemma box_status [simp]: "box (status_copy n ws st) = box st" "box (status_set k v st) = box st"
  "table (status_copy n ws st) = table st" "table (status_set k v st) = table st"
  by (simp_all add: status_copy_def status_set_def)

lemma resume_screen_goes:
  assumes core: "core_ok t st" and ev: "c_evicted (comps (table st) ! 0) = 0" and k: "kept st"
  shows "goes t 9 (resume_screen st)"
proof -
  let ?n = "unat (g_conflict_n st)"
  let ?verd = "take ?n (mon_screen_verd (box st))"
  let ?s1 = "st\<lparr>reads := reads st + 1\<rparr>"
  let ?s2 = "status_copy S_BAN_CAIJUE (take 8 ?verd) ?s1"
  let ?s3 = "status_copy S_CINSNS (take (min ?n 8) (mon_screen_insns (box st))) ?s2"
  let ?s4 = "?s3\<lparr>g_alerts := word_of_nat (length (filter (\<lambda>v. v = 5) ?verd))\<rparr>"
  let ?s5 = "status_set S_LAIYUAN (g_source st) (status_set S_CHONGTU_N (g_conflict_n st)
      (status_set S_JINGBAO (word_of_nat (length (filter (\<lambda>v. v = 5) ?verd)))
        (status_set S_CYC1 (clock st (reads st) - g_stk0 st) ?s4)))"
  have len: "length (status st) = 106" "length (mon_screen_verd (box st)) = 64"
    using core inputs_ok_box [of "box st"] by (simp_all add: core_ok_def serve_ok_def sup_shape_def box_wf_def)
  have n: "?n \<le> 64" using core by (auto simp: core_ok_def inputs_ok_def swarm_ok_def word_le_nat_alt)
  have "core_ok t ?s1" "kept ?s1" using core k by simp_all
  from core_ok_copy [OF this(1)] kept_copy [OF this(2)] len have c2: "core_ok t ?s2" "kept ?s2"
    by (simp_all add: S_BAN_CAIJUE_def)
  from core_ok_copy [OF c2(1)] kept_copy [OF c2(2)] len have c3: "core_ok t ?s3" "kept ?s3"
    by (simp_all add: S_CINSNS_def S_BAN_CAIJUE_def)
  have c5: "core_ok t ?s5" "kept ?s5"
    using c3 by (simp_all add: kept_set status_words)
  have "goes t 9 (next_activation 3 2 ?s5)"
    by (rule next_activation_goes) (use c5 ev in simp_all)
  moreover have "resume_screen st = next_activation 3 2 ?s5"
    using len n by (simp add: resume_screen_def Let_def case_prod_unfold)
      (simp add: status_copy_def status_set_def)
  ultimately show ?thesis by simp
qed

lemma compartment_set_keeps:
  assumes "comp_wf tab"
  shows "comp_wf (compartment_set 1 (ic_comp_attacker t) e tab)"
    "wired t l tab \<Longrightarrow> wired t l (compartment_set 1 (ic_comp_attacker t) e tab)"
    "c_evicted (comps (compartment_set 1 (ic_comp_attacker t) e tab) ! 1) = 0"
    "c_evicted (comps (compartment_set 1 (ic_comp_attacker t) e tab) ! 2) = c_evicted (comps tab ! 2)"
proof -
  have len: "length (comps tab) = 4" using assms by (simp add: comp_wf_def)
  show "comp_wf (compartment_set 1 (ic_comp_attacker t) e tab)" using assms by (rule compartment_set_wf)
  show "wired t l tab \<Longrightarrow> wired t l (compartment_set 1 (ic_comp_attacker t) e tab)"
    "c_evicted (comps (compartment_set 1 (ic_comp_attacker t) e tab) ! 1) = 0"
    "c_evicted (comps (compartment_set 1 (ic_comp_attacker t) e tab) ! 2) = c_evicted (comps tab ! 2)"
    using len by (simp_all add: wired_def compartment_set_comps)
qed

lemma atk_schedule_goes:
  assumes core: "core_ok t st" and ph: "g_phase st = 4" "g_atk_vec st \<le> 6" and k: "kept st"
    and nat: "status st ! S_NATOK = 1"
  shows "goes t (8 - unat (g_atk_vec st)) (atk_schedule t rom v st)"
proof -
  let ?set = "compartment_set 1 (ic_comp_attacker t) (atk_vec rom ! unat v - ATK_TEXT t) (table st)"
  let ?tab = "compartment_arm 1 ?set"
  let ?st = "st\<lparr>table := ?tab\<rparr>"
  note set = compartment_set_keeps [OF core_wf [OF core]]
  have one: "unat (1::u32) < 4" by simp
  note arm = arm_keeps [OF set(1) one]
  have "serve_ok ?st"
    using core set(1) by (simp add: core_ok_def serve_ok_table compartment_arm_wf)
  then have "core_ok t ?st"
    using core set arm by (simp add: core_ok_def)
  moreover have "phase_ok 1 ?st"
    using ph k nat set(3) arm(2) by (simp add: phase_ok_def)
  ultimately have "goes t (8 - unat (g_atk_vec st)) (enter_checked 1 ?st)"
    by (rule enter_run) (use ph in \<open>simp add: rank_def\<close>)
  then show ?thesis by (simp add: atk_schedule_def Let_def)
qed

lemma resume_native_goes:
  assumes core: "core_ok t st" and k: "kept st" and v: "mon_native_verd (box st) = want"
  shows "goes t 8 (resume_native t rom st)"
proof -
  let ?s = "status_set S_NATOK 1 (status_set S_CYC2 (clock st (reads st) - g_stk0 st) (st\<lparr>reads := reads st + 1\<rparr>))"
  let ?st = "?s\<lparr>g_phase := 4, g_atk_vec := 0\<rparr>"
  have len: "length (status st) = 106" using core by (simp add: core_ok_def serve_ok_def sup_shape_def)
  have "core_ok t ?st" "kept ?st" "status ?st ! S_NATOK = 1"
    using core k len by (simp_all add: kept_set status_words) (simp add: status_set_def)
  from atk_schedule_goes [OF this(1) _ _ this(2,3), of rom 0] show ?thesis
    using v by (simp add: resume_native_def Let_def case_prod_unfold want_def)
qed

lemma native_done_goes:
  assumes ok: "serve_ok st" and fin: "finalized st"
  shows "goes t n (native_done t p st)"
proof -
  have len: "length (status st) = 106" using ok by (simp add: serve_ok_def sup_shape_def)
  let ?w = "if p \<noteq> 0 then nat_sram st ! (if g_nat_live st \<noteq> 0 then 1 else 0) else 0"
  let ?st = "status_set S_DONE 0x600DF00D (status_set S_NAT2 ?w st)"
  have "over ?st"
    using ok fin len
    by (simp add: over_def finalized_def kept_set status_words) (simp add: status_set_def)
  moreover from this have "over (?st\<lparr>wire := w\<rparr>)" for w by (simp add: over_def finalized_def kept_def)
  ultimately show ?thesis by (cases t) (simp_all add: native_done_def Let_def goes_def)
qed


lemma verdicts_want:
  assumes "kept st" "length (mon_verdicts (box st)) = 6"
  shows "(\<exists>i \<in> set [0..<6]. mon_verdicts (box st) ! i \<noteq> want ! i \<or> status st ! (S_CAIJUE + i) \<noteq> want ! i) \<longleftrightarrow>
    mon_verdicts (box st) \<noteq> want"
proof -
  have "length want = 6" by (simp add: want_def)
  then have "mon_verdicts (box st) = want \<longleftrightarrow> (\<forall>i < 6. mon_verdicts (box st) ! i = want ! i)"
    using assms(2) by (auto simp: list_eq_iff_nth_eq)
  moreover have "\<forall>i < 6. status st ! (S_CAIJUE + i) = mon_verdicts (box st) ! i"
    using assms(1) by (simp add: kept_def S_CAIJUE_def)
  ultimately show ?thesis by auto
qed

lemma finalize_round_ok:
  assumes core: "core_ok t st" and k: "kept st" and nat: "status st ! S_NATOK = 1"
    and sum: "input_sum (box st) = Some s"
  shows "core_ok t (finalize_round s st) \<and> finalized (finalize_round s st) \<and>
    g_nat (finalize_round s st) = g_nat st \<and> g_nat_live (finalize_round s st) = g_nat_live st \<and>
    g_nat_retired (finalize_round s st) = g_nat_retired st \<and> table (finalize_round s st) = table st"
proof -
  let ?log = "concat (map (\<lambda>i. [g_ri_cause st ! i, g_ri_addr st ! i]) [0..<5])"
  let ?s1 = "status_set S_INTER (g_ri_index st) (status_set S_IINTACT 1
      (status_set S_VINTACT (if mon_verdicts (box st) = want then 1 else 0) st))"
  let ?s2 = "status_copy S_LOG0C ?log ?s1"
  have len: "length (status st) = 106" "length (mon_verdicts (box st)) = 6"
    using core inputs_ok_box [of "box st"] by (simp_all add: core_ok_def serve_ok_def sup_shape_def box_wf_def)
  have s: "s = g_input_sum st" using k sum by (simp add: kept_def)
  have log: "length ?log = 10" by (simp add: upt_rec)
  have c1: "core_ok t ?s1" "kept ?s1" using core k by (simp_all add: kept_set status_words)
  from core_ok_copy [OF c1(1)] kept_copy [OF c1(2)] len log
  have c2: "core_ok t ?s2" "kept ?s2" by (simp_all add: S_LOG0C_def)
  have "finalize_round s st = status_set S_NAT2 0 ?s2"
    using verdicts_want [OF k len(2)] s
    by (simp add: finalize_round_def Let_def) (simp add: status_set_def)
  moreover have "core_ok t (status_set S_NAT2 0 ?s2)" using c2(1) by simp
  moreover have "finalized (status_set S_NAT2 0 ?s2)"
    using c2(2) nat len log
    by (simp add: finalized_def kept_set status_words)
      (simp add: status_set_def status_copy_def nth_blit)
  ultimately show ?thesis by (simp add: status_set_def status_copy_def)
qed

lemma finalized_slot: "finalized st \<Longrightarrow> finalized (status_set S_NSLOT w st)"
  using kept_set [of st S_NSLOT w]
  by (simp add: finalized_def status_words) (simp add: status_set_def)

lemma atk_advance_goes:
  assumes core: "core_ok t st" and ph: "g_phase st = 4" "g_atk_vec st \<le> 6" and k: "kept st"
    and nat: "status st ! S_NATOK = 1"
  shows "goes t (7 - unat (g_atk_vec st)) (atk_advance t rom st)"
proof -
  let ?v = "g_atk_vec st"
  let ?s1 = "if ?v = 0 then status_set S_OWNOOK (if atk_own st = 0xBEEF5EED then 1 else 0) st else st"
  let ?s2 = "if ?v = 6 then status_set S_RDROK (if atk_proof st = 0x5EEDC0DE then 1 else 0) ?s1 else ?s1"
  let ?st = "?s2\<lparr>g_atk_vec := ?v + 1\<rparr>"
  have len: "length (status st) = 106" using core by (simp add: core_ok_def serve_ok_def sup_shape_def)
  have st: "core_ok t ?st" "kept ?st" "status ?st ! S_NATOK = 1" "g_phase ?st = 4"
    using core k nat ph len by (simp_all add: kept_set status_words) (simp_all add: status_set_def)
  have v: "unat ?v \<le> 6" using ph(2) by (simp add: word_le_nat_alt)
  then have suc: "unat (?v + 1) = unat ?v + 1" by (simp add: unat_word_ariths)
  show ?thesis
  proof (cases "unat ?v < 6")
    case True
    then have "?v + 1 \<le> 6" "?v + 1 < 7" using suc by (simp_all add: word_le_nat_alt word_less_nat_alt)
    from atk_schedule_goes [OF st(1,4) _ st(2,3), of rom "?v + 1"] this
    have "goes t (8 - unat (?v + 1)) (atk_schedule t rom (?v + 1) ?st)" by simp
    moreover have "?v \<noteq> 6" using True by auto
    ultimately show ?thesis using \<open>?v + 1 < 7\<close> suc by (simp add: atk_advance_def Let_def split del: if_split)
  next
    case False
    then have "unat ?v = 6" using v by simp
    then have v6: "?v = 6" by (simp add: word_unat_eq_iff)
    from input_sum_loaded(2) [of "box st" "box st"] core obtain s where sum: "input_sum (box ?st) = Some s"
      by (auto simp: core_ok_def inputs_ok_def swarm_ok_def v6)
    let ?f = "finalize_round s ?st"
    note f = finalize_round_ok [OF st(1-3) sum]
    have ser: "serve_ok ?f" using f by (simp add: core_ok_def)
    let ?live = "g_nat ?f ! unat (g_nat_live ?f)"
    have adv: "atk_advance t rom st =
        (if g_nat_retired ?f \<noteq> 0 \<or> n_valid ?live = 0 \<or> n_evicted ?live \<noteq> 0
         then native_done t 0 (status_set S_NSLOT 0xFFFFFFFF ?f)
         else enter_checked 2 (status_set S_NSLOT (g_nat_live ?f) ?f\<lparr>g_phase := 5\<rparr>))"
      using sum v6 by (simp add: atk_advance_def Let_def)
    have slot: "serve_ok (status_set S_NSLOT w ?f)" "finalized (status_set S_NSLOT w ?f)" for w
      using ser f finalized_slot by simp_all
    have "core_ok t (status_set S_NSLOT w ?f\<lparr>g_phase := 5\<rparr>)" for w using f by simp
    moreover have "phase_ok 2 (status_set S_NSLOT w ?f\<lparr>g_phase := 5\<rparr>)" for w
      using slot(2) [of w] by (simp add: phase_ok_def finalized_def)
    ultimately have "goes t 1 (enter_checked 2 (status_set S_NSLOT w ?f\<lparr>g_phase := 5\<rparr>))" for w
      by (rule enter_run) (simp add: rank_def)
    moreover have "goes t 1 (native_done t 0 (status_set S_NSLOT w ?f))" for w
      by (rule native_done_goes [OF slot])
    ultimately show ?thesis unfolding adv by (simp add: v6)
  qed
qed

end
