(* ===== verification/System.thy ===== *)
theory System
  imports Schedule
begin

text \<open>
  The whole machine as a step relation: the monitor runs its code, every other compartment runs
  arbitrary code inside the rights the PMP grants it and may yield or trap at any moment with any cause, and the
  supervisor answers.  \<open>sys_ok\<close> is the invariant of the reachable states.
\<close>

subsection \<open>Memory objects\<close>

text \<open>
  Where the objects of the state live: the supervisor's RAM (its statics, STATUS, mailbox, program area
  and staging buffers), the flash mirror, the boxes, and the native windows.
\<close>

datatype obj = Sup_ram | Mirror | Mon_box | Atk_box | Nat_text nat | Nat_sram nat

fun extent :: "target \<Rightarrow> obj \<Rightarrow> u32 \<times> u32" where
  "extent Qemu Sup_ram = (0x80000000, 0x100000)"
| "extent Board Sup_ram = (0x20000000, 0x4000)"
| "extent Qemu Mirror = (0x80214000, 0x800)"
| "extent Board Mirror = (0x0800A000, 0x800)"
| "extent t Mon_box = (MON_BOX t, 0x2000)"
| "extent t Atk_box = (ATK_BOX t, 0x2000)"
| "extent t (Nat_text k) = (if k = 0 then NAT_TEXT t else NAT2_TEXT t, 0x1000)"
| "extent t (Nat_sram k) = (if k = 0 then NAT_SRAM t else NAT2_SRAM t, 0x1000)"

text \<open>Two states agree in an object.  What no compartment object holds is the supervisor's.\<close>

fun same_in :: "obj \<Rightarrow> sup \<Rightarrow> sup \<Rightarrow> bool" where
  "same_in Sup_ram st st' \<longleftrightarrow>
     st' = st\<lparr>box := box st', nat_text := nat_text st', nat_sram := nat_sram st', mirror := mirror st',
              atk_own := atk_own st', atk_proof := atk_proof st'\<rparr>"
| "same_in Mirror st st' \<longleftrightarrow> mirror st' = mirror st"
| "same_in Mon_box st st' \<longleftrightarrow> box st' = box st"
| "same_in Atk_box st st' \<longleftrightarrow> atk_own st' = atk_own st \<and> atk_proof st' = atk_proof st"
| "same_in (Nat_text k) st st' \<longleftrightarrow> nat_text st' ! k = nat_text st ! k"
| "same_in (Nat_sram k) st st' \<longleftrightarrow> nat_sram st' ! k = nat_sram st ! k"

definition may_write :: "target \<Rightarrow> sup \<Rightarrow> obj \<Rightarrow> bool" where
  "may_write t st ob \<longleftrightarrow>
     (\<exists>x. in_region (fst (extent t ob)) (snd (extent t ob)) x \<and> pmp_allows (csrs (table st)) Write x)"

text \<open>What user code can have done to the state: anything, in the objects it may write to.\<close>

definition user_effect :: "target \<Rightarrow> sup \<Rightarrow> sup \<Rightarrow> bool" where
  "user_effect t st st' \<longleftrightarrow> sup_shape st' \<and> (\<forall>ob. may_write t st ob \<or> same_in ob st st')"

subsection \<open>Traps\<close>

text \<open>
  What a trap finds besides the interrupted registers: the scratch frame, addresses and left-over values, and the
  machine-mode registers at the next \<^verbatim>\<open>compartment_enter\<close>.
\<close>

record trap_env =
  te_sp0 :: u32
  te_tcb :: u32
  te_frame :: "nat \<Rightarrow> u32"
  te_junk :: "nat \<Rightarrow> u32"
  te_reload :: "nat \<Rightarrow> u32"
  te_regs :: "nat \<Rightarrow> u32"
  te_mstatus :: u32

text \<open>\<^verbatim>\<open>cur_tcb\<close> null: the register file is not saved.\<close>

definition park :: "(u32 list \<Rightarrow> u32 list) \<Rightarrow> comp_state \<Rightarrow> comp_state" where
  "park f tab =
     (case cur_tcb tab of
        None \<Rightarrow> tab
      | Some k \<Rightarrow> tab\<lparr>comps := (comps tab)[k := (comps tab ! k)\<lparr>c_tcb := f (c_tcb (comps tab ! k))\<rparr>]\<rparr>)"

definition yield_trap :: "trap_env \<Rightarrow> (nat \<Rightarrow> u32) \<Rightarrow> sup \<Rightarrow> sup" where
  "yield_trap e regs st =
     st\<lparr>table := park (\<lambda>tcb. t_tcb (trap_ecall (te_sp0 e) (te_tcb e) (te_reload e)
                    \<lparr>t_regs = regs, t_frame = te_frame e, t_tcb = tcb\<rparr>)) (table st),
        m_regs := te_regs e, m_mstatus := te_mstatus e\<rparr>"

text \<open>The forensics ring: the index counts faults and stops at the last entry, which is then overwritten.\<close>

definition ring_record :: "u32 \<Rightarrow> u32 \<Rightarrow> sup \<Rightarrow> sup" where
  "ring_record cause addr st =
     (let i = unat (g_ri_index st); n = g_ri_index st + 1
      in st\<lparr>g_ri_index := (if n <s 8 then n else 7), g_ri_cause := (g_ri_cause st)[i := cause],
            g_ri_addr := (g_ri_addr st)[i := addr]\<rparr>)"

definition fault_trap :: "trap_env \<Rightarrow> u32 \<Rightarrow> u32 \<Rightarrow> (nat \<Rightarrow> u32) \<Rightarrow> sup \<Rightarrow> sup" where
  "fault_trap e cause addr regs st =
     (let st = ring_record cause addr st
      in st\<lparr>table := park (\<lambda>tcb. t_tcb (trap_fault cause addr (te_sp0 e) (te_tcb e) (te_junk e) (te_reload e)
                    \<lparr>t_regs = regs, t_frame = te_frame e, t_tcb = tcb\<rparr>)) (table st),
            m_regs := te_regs e, m_mstatus := te_mstatus e\<rparr>)"

subsection \<open>Steps\<close>

inductive sys_step :: "target \<Rightarrow> rom \<Rightarrow> ctl \<Rightarrow> ctl \<Rightarrow> bool" for t rom where
  monitor_yields:
    "cur_comp (table st) = 0 \<Longrightarrow> monitor_main t (box st) = Some (Inr b) \<Longrightarrow>
      sys_step t rom (Runs cpu st) (supervisor_resume t rom (yield_trap e regs (st\<lparr>box := b\<rparr>)))"
| user_yields:
    "cur_comp (table st) \<noteq> 0 \<Longrightarrow> user_effect t st st' \<Longrightarrow>
      sys_step t rom (Runs cpu st) (supervisor_resume t rom (yield_trap e regs st'))"
| traps:
    "user_effect t st st' \<Longrightarrow> cause \<noteq> 8 \<Longrightarrow>
      sys_step t rom (Runs cpu st) (supervisor_fault t rom cause (fault_trap e cause addr regs st'))"
| serves:
    "sys_step t rom (Serves rx seen st) (service_step t rom now arrivals rx seen st)"

inductive_cases runs_stepE: "sys_step t rom (Runs cpu st) c"
inductive_cases serves_stepE: "sys_step t rom (Serves rx seen st) c"

text \<open>Boot over arbitrary memory; the built-in module has to fit its window.\<close>

inductive reachable :: "target \<Rightarrow> rom \<Rightarrow> ctl \<Rightarrow> bool" for t rom where
  boots: "sup_shape st \<Longrightarrow> length (native_demo rom) \<le> 0x1000 \<Longrightarrow> reachable t rom (boot_main t rom env st)"
| steps: "reachable t rom c \<Longrightarrow> sys_step t rom c c' \<Longrightarrow> reachable t rom c'"

text \<open>A fail-stop names the phase of the monitor and the cause.\<close>

definition halted :: "sup \<Rightarrow> bool" where
  "halted st \<longleftrightarrow>
     status st ! S_HALT = 0x48414C54 \<and>
     (\<exists>p cause. p \<in> {1, 2, 3} \<and> status st ! S_HALTC = push_bit 24 p OR (cause AND 0xFFFFFF))"

definition sys_ok :: "target \<Rightarrow> ctl \<Rightarrow> bool" where
  "sys_ok t c \<longleftrightarrow>
     (case c of
        Runs cpu st \<Rightarrow> run_ok t cpu st
      | Serves rx seen st \<Rightarrow> t = Board \<and> serve_ok st \<and> rx_wf 2696 rx \<and> status st ! S_HLOAD = seen
      | Reports st \<Rightarrow> t = Qemu \<and> over st
      | Halts st \<Rightarrow> halted st
      | Parked st \<Rightarrow> False
      | Waiting \<Rightarrow> True
      | Crashes \<Rightarrow> True)"

subsection \<open>User code is confined\<close>

lemma sup_shape_ring:
  "sup_shape st \<Longrightarrow> sup_shape (ring_record cause addr st)"
proof -
  assume s: "sup_shape st"
  have "unat (if g_ri_index st + 1 <s 8 then g_ri_index st + 1 else 7) \<le> 7"
  proof (cases "unat (g_ri_index st) \<le> 6")
    case True
    then have "unat (g_ri_index st + 1) \<le> 7" by (simp add: unat_word_ariths)
    then show ?thesis by simp
  next
    case False
    then have "unat (g_ri_index st) = unat (7::u32)" using s by (simp add: sup_shape_def)
    then have "g_ri_index st = 7" by (simp only: word_unat_eq_iff)
    then show ?thesis by simp
  qed
  then show ?thesis using s by (simp add: ring_record_def sup_shape_def Let_def)
qed

definition objs :: "obj list" where
  "objs = [Sup_ram, Mirror, Mon_box, Atk_box, Nat_text 0, Nat_text 1, Nat_sram 0, Nat_sram 1]"

definition own_obj :: "nat \<Rightarrow> obj" where
  "own_obj i = [Mon_box, Atk_box, Nat_sram 0, Nat_sram 1] ! i"

lemma extents_apart:
  assumes "i < 4" "ob \<in> set objs" "ob \<noteq> own_obj i"
  shows "apart (sram_base (shipped_specs t ! i), sram_size (shipped_specs t ! i)) (extent t ob)"
proof -
  have "\<forall>t \<in> set [Qemu, Board]. \<forall>i \<in> set [0..<4]. \<forall>ob \<in> set objs. ob = own_obj i \<or>
      apart (sram_base (shipped_specs t ! i), sram_size (shipped_specs t ! i)) (extent t ob)"
    by code_simp
  moreover have "t \<in> set [Qemu, Board]" by (cases t) simp_all
  moreover have "i \<in> set [0..<4]" using assms(1) by simp
  ultimately show ?thesis using assms(2,3) by blast
qed

lemma writes_own:
  assumes pmp: "pmp_holds (csrs (table st)) (shipped_specs t ! i)" and i: "i < 4"
    and ob: "ob \<in> set objs" "ob \<noteq> own_obj i"
  shows "\<not> may_write t st ob"
proof
  assume "may_write t st ob"
  then obtain x where x: "in_region (fst (extent t ob)) (snd (extent t ob)) x" "pmp_allows (csrs (table st)) Write x"
    by (auto simp: may_write_def)
  from pmp_holds_allows [OF pmp shipped_regular [OF i], of Write x] x(2)
  have "in_region (sram_base (shipped_specs t ! i)) (sram_size (shipped_specs t ! i)) x"
    by (simp split: if_splits)
  with apart_regions [OF extents_apart [OF i ob, of t], of x] x(1) show False by simp
qed

lemma length_2_eq: "length xs = 2 \<Longrightarrow> length ys = 2 \<Longrightarrow> ys ! 0 = xs ! 0 \<Longrightarrow> ys ! 1 = xs ! 1 \<Longrightarrow> ys = xs"
  by (simp add: list_eq_iff_nth_eq less_2_cases_iff)

text \<open>What is left to user code: the fields of its own object.\<close>

lemma user_confined:
  assumes pmp: "pmp_holds (csrs (table st)) (shipped_specs t ! i)" and i: "i < 4"
    and shape: "sup_shape st" and eff: "user_effect t st st'"
  shows "i = 0 \<and> (\<exists>b. box_wf b \<and> st' = st\<lparr>box := b\<rparr>) \<or>
    i = 1 \<and> (\<exists>a p. st' = st\<lparr>atk_own := a, atk_proof := p\<rparr>) \<or>
    2 \<le> i \<and> (\<exists>v. st' = st\<lparr>nat_sram := (nat_sram st)[i - 2 := v]\<rparr>)"
proof -
  have same: "ob \<in> set objs \<Longrightarrow> ob \<noteq> own_obj i \<Longrightarrow> same_in ob st st'" for ob
    using writes_own [OF pmp i] eff by (auto simp: user_effect_def)
  have len: "length (nat_text st) = 2" "length (nat_text st') = 2" "length (nat_sram st) = 2" "length (nat_sram st') = 2"
    and wf: "box_wf (box st')"
    using shape eff by (simp_all add: user_effect_def sup_shape_def)
  have own: "own_obj i \<in> {Mon_box, Atk_box, Nat_sram 0, Nat_sram 1}"
    using i by (simp add: own_obj_def less_Suc_eq numeral_eq_Suc) auto
  have "nat_text st' ! 0 = nat_text st ! 0" "nat_text st' ! 1 = nat_text st ! 1"
    using same [of "Nat_text 0"] same [of "Nat_text 1"] own by (auto simp: objs_def)
  then have "nat_text st' = nat_text st" by (rule length_2_eq [OF len(1,2)])
  moreover have "mirror st' = mirror st" "same_in Sup_ram st st'"
    using same [of Mirror] same [of Sup_ram] own by (auto simp: objs_def)
  ultimately have st': "st' = st\<lparr>box := box st', nat_sram := nat_sram st', atk_own := atk_own st', atk_proof := atk_proof st'\<rparr>"
    by simp
  have box: "i \<noteq> 0 \<Longrightarrow> box st' = box st" and atk: "i \<noteq> 1 \<Longrightarrow> atk_own st' = atk_own st \<and> atk_proof st' = atk_proof st"
    and sram: "i \<noteq> 2 \<Longrightarrow> nat_sram st' ! 0 = nat_sram st ! 0" "i \<noteq> 3 \<Longrightarrow> nat_sram st' ! 1 = nat_sram st ! 1"
    using same [of Mon_box] same [of Atk_box] same [of "Nat_sram 0"] same [of "Nat_sram 1"] i
    by (auto simp: objs_def own_obj_def less_Suc_eq numeral_eq_Suc)
  have both: "i < 2 \<Longrightarrow> nat_sram st' = nat_sram st"
    using sram by (intro length_2_eq [OF len(3,4)]) simp_all
  consider "i = 0" | "i = 1" | "i = 2" | "i = 3" using i by linarith
  then show ?thesis
  proof cases
    case 1
    then have "st' = st\<lparr>box := box st'\<rparr>" using st' both atk by simp
    then show ?thesis using 1 wf by blast
  next
    case 2
    then have "st' = st\<lparr>atk_own := atk_own st', atk_proof := atk_proof st'\<rparr>" using st' both box by simp
    then show ?thesis using 2 by blast
  next
    case 3
    then have "nat_sram st' = (nat_sram st)[0 := nat_sram st' ! 0]"
      using len sram by (intro length_2_eq) simp_all
    then have "st' = st\<lparr>nat_sram := (nat_sram st)[0 := nat_sram st' ! 0]\<rparr>" using 3 st' box atk by simp
    then show ?thesis using 3 by auto
  next
    case 4
    then have "nat_sram st' = (nat_sram st)[1 := nat_sram st' ! 1]"
      using len sram by (intro length_2_eq) simp_all
    then have "st' = st\<lparr>nat_sram := (nat_sram st)[1 := nat_sram st' ! 1]\<rparr>" using 4 st' box atk by simp
    then show ?thesis using 4 by auto
  qed
qed

subsection \<open>A trap keeps the round\<close>

lemma nth_update_if: "(xs[k := x]) ! j = (if k = j \<and> j < length xs then x else xs ! j)"
  by (cases "k < length xs") (auto simp: nth_list_update list_update_beyond)

lemma park_keeps:
  assumes wf: "comp_wf tab" and f: "\<And>tcb. length (f tcb) = length tcb"
  shows "comp_wf (park f tab)" "csrs (park f tab) = csrs tab" "cur_comp (park f tab) = cur_comp tab"
    "j < 4 \<Longrightarrow> c_spec (comps (park f tab) ! j) = c_spec (comps tab ! j)"
    "j < 4 \<Longrightarrow> c_evicted (comps (park f tab) ! j) = c_evicted (comps tab ! j)"
proof -
  have len: "length (comps tab) = 4" using wf by (simp add: comp_wf_def)
  show "csrs (park f tab) = csrs tab" "cur_comp (park f tab) = cur_comp tab"
    by (simp_all add: park_def split: option.split)
  show "j < 4 \<Longrightarrow> c_spec (comps (park f tab) ! j) = c_spec (comps tab ! j)"
    "j < 4 \<Longrightarrow> c_evicted (comps (park f tab) ! j) = c_evicted (comps tab ! j)"
    using len by (auto simp: park_def nth_update_if split: option.split)
  have tcbs: "\<forall>c \<in> set (comps (park f tab)). length (c_tcb c) = 32"
  proof
    fix c assume "c \<in> set (comps (park f tab))"
    then obtain j where j: "j < 4" "c = comps (park f tab) ! j"
      using len by (auto simp: park_def in_set_conv_nth split: option.splits)
    have "length (c_tcb (comps tab ! j)) = 32" using wf j(1) by (simp add: comp_wf_def)
    then show "length (c_tcb c) = 32"
      using j len f by (auto simp: park_def nth_update_if split: option.splits)
  qed
  have "c_armed (comps (park f tab) ! j) = c_armed (comps tab ! j) \<and> c_spec (comps (park f tab) ! j) = c_spec (comps tab ! j)"
    if "j < 4" for j
    using len that by (auto simp: park_def nth_update_if split: option.split)
  then show "comp_wf (park f tab)"
    using wf tcbs \<open>csrs (park f tab) = csrs tab\<close> len
    by (simp add: comp_wf_def) (simp add: park_def split: option.split)
qed

lemma trap_keeps:
  assumes core: "core_ok t st" and f: "\<And>tcb. length (f tcb) = length tcb"
    and ring: "unat i \<le> 7" "length cs = 8" "length as = 8"
  shows "core_ok t (st\<lparr>g_ri_index := i, g_ri_cause := cs, g_ri_addr := as, table := park f (table st),
    m_regs := r, m_mstatus := m\<rparr>)" (is "core_ok t ?st")
proof -
  note p = park_keeps [OF core_wf [OF core] f]
  have "serve_ok (st\<lparr>table := park f (table st)\<rparr>)"
    using core p(1) by (simp add: core_ok_def serve_ok_table)
  then have "serve_ok ?st"
    using ring by (simp add: serve_ok_def sup_shape_def quiet_def world_def)
  then show ?thesis using core p by (simp add: core_ok_def wired_def)
qed

lemma length_saved_trap [simp]:
  "length (t_tcb (trap_ecall sp0 a m \<lparr>t_regs = r, t_frame = fr, t_tcb = tcb\<rparr>)) = length tcb"
  "length (t_tcb (trap_fault cause addr sp0 a j m \<lparr>t_regs = r, t_frame = fr, t_tcb = tcb\<rparr>)) = length tcb"
  by (simp_all add: trap_ecall_tcb trap_fault_tcb)

text \<open>Everything the round depends on, through both traps.\<close>

definition same_round :: "target \<Rightarrow> sup \<Rightarrow> sup \<Rightarrow> bool" where
  "same_round t st st' \<longleftrightarrow>
     core_ok t st' \<and> box st' = box st \<and> status st' = status st \<and> g_phase st' = g_phase st \<and>
     g_atk_vec st' = g_atk_vec st \<and> g_input_sum st' = g_input_sum st \<and>
     cur_comp (table st') = cur_comp (table st) \<and>
     (\<forall>j < 4. c_evicted (comps (table st') ! j) = c_evicted (comps (table st) ! j))"

lemma same_round_keeps:
  assumes "same_round t st st'"
  shows "kept st' = kept st" "finalized st' = finalized st" "unat i < 4 \<Longrightarrow> phase_ok i st' = phase_ok i st"
    "rank st' = rank st"
proof -
  show kept: "kept st' = kept st" using assms by (simp add: same_round_def kept_def)
  then show fin: "finalized st' = finalized st" using assms by (simp add: same_round_def finalized_def)
  show "unat i < 4 \<Longrightarrow> phase_ok i st' = phase_ok i st"
    using assms kept fin by (simp add: phase_ok_def same_round_def)
  show "rank st' = rank st" using assms by (simp add: same_round_def rank_def)
qed

lemma yield_same_round:
  assumes "core_ok t st"
  shows "same_round t st (yield_trap e regs st)"
proof -
  have wf: "comp_wf (table st)" using assms by (rule core_wf)
  let ?f = "\<lambda>tcb. t_tcb (trap_ecall (te_sp0 e) (te_tcb e) (te_reload e) \<lparr>t_regs = regs, t_frame = te_frame e, t_tcb = tcb\<rparr>)"
  have ring: "unat (g_ri_index st) \<le> 7" "length (g_ri_cause st) = 8" "length (g_ri_addr st) = 8"
    using assms by (simp_all add: core_ok_def serve_ok_def sup_shape_def)
  have "core_ok t (yield_trap e regs st)"
    using trap_keeps [OF assms _ ring, where f = ?f and r = "te_regs e" and m = "te_mstatus e"] by (simp add: yield_trap_def)
  then show ?thesis using park_keeps [OF wf, of ?f] by (simp add: same_round_def yield_trap_def)
qed

lemma fault_same_round:
  assumes "core_ok t st"
  shows "same_round t st (fault_trap e cause addr regs st)"
proof -
  have wf: "comp_wf (table st)" using assms by (rule core_wf)
  let ?f = "\<lambda>tcb. t_tcb (trap_fault cause addr (te_sp0 e) (te_tcb e) (te_junk e) (te_reload e)
     \<lparr>t_regs = regs, t_frame = te_frame e, t_tcb = tcb\<rparr>)"
  let ?i = "if g_ri_index st + 1 <s 8 then g_ri_index st + 1 else 7"
  have "sup_shape (ring_record cause addr st)"
    using assms sup_shape_ring by (simp add: core_ok_def serve_ok_def)
  then have ring: "unat ?i \<le> 7" "length ((g_ri_cause st)[unat (g_ri_index st) := cause]) = 8"
    "length ((g_ri_addr st)[unat (g_ri_index st) := addr]) = 8"
    by (simp_all add: sup_shape_def ring_record_def Let_def)
  have "core_ok t (fault_trap e cause addr regs st)"
    using trap_keeps [OF assms _ ring, where f = ?f and r = "te_regs e" and m = "te_mstatus e"] by (simp add: fault_trap_def ring_record_def Let_def split del: if_split)
  then show ?thesis using park_keeps [OF wf, of ?f] by (simp add: same_round_def fault_trap_def ring_record_def Let_def)
qed


subsection \<open>Yields\<close>

lemma monitor_result:
  assumes core: "core_ok t st" and ph: "phase_ok 0 st" and run: "monitor_main t (box st) = Some (Inr b)"
  shows "core_ok t (st\<lparr>box := b\<rparr>)" "g_phase st \<noteq> 1 \<Longrightarrow> kept (st\<lparr>box := b\<rparr>)"
    "g_phase st = 3 \<Longrightarrow> mon_native_verd b = want" "g_phase st = 1 \<or> g_phase st = 2 \<or> g_phase st = 3"
proof -
  have ok: "inputs_ok (box st)" "progs_ok (box st)" "box_wf (box st)"
    using core inputs_ok_box by (simp_all add: core_ok_def serve_ok_def)
  have pk: "packets_ok (box st)" using packets_loaded_ok ok by (simp add: inputs_ok_def)
  have res: "core_ok t (st\<lparr>box := b\<rparr>) \<and> (kept st \<longrightarrow> mon_verdicts b = mon_verdicts (box st) \<longrightarrow> kept (st\<lparr>box := b\<rparr>))"
    if "inputs_ok b" "progs_ok b" "mon_confn b = mon_confn (box st)"
    using core_ok_box [OF core that] kept_box [OF _ _ that(1) ok(1)] by blast
  have same: "inputs_ok b'" if "box_wf b'" "mon_off b' = mon_off (box st)" "mon_sizes b' = mon_sizes (box st)"
      "mon_input b' = mon_input (box st)" "mon_confn b' = mon_confn (box st)" "mon_soff b' = mon_soff (box st)"
      "mon_ssizes b' = mon_ssizes (box st)" for b'
    using inputs_ok_same [OF ok(1) that] .
  from ph consider (packets) "g_phase st = 1" "mon_mode (box st) = 0"
    | (screen) "g_phase st = 2" "mon_mode (box st) = 1" "kept st"
    | (native) "g_phase st = 3" "mon_mode (box st) = 2" "kept st"
    by (auto simp: phase_ok_def)
  then have "core_ok t (st\<lparr>box := b\<rparr>) \<and> (g_phase st \<noteq> 1 \<longrightarrow> kept (st\<lparr>box := b\<rparr>)) \<and>
    (g_phase st = 3 \<longrightarrow> mon_native_verd b = want) \<and> (g_phase st = 1 \<or> g_phase st = 2 \<or> g_phase st = 3)"
  proof cases
    case packets
    have "\<exists>vs ns pf. b = (box st)\<lparr>mon_verdicts := vs, mon_insns := ns, mon_prog_fault := pf\<rparr> \<and> length vs = 6 \<and> length ns = 6"
    proof (cases "mon_prog_cnt (box st) = 0")
      case True
      have six: "length (packet_verdicts (box st)) = 6" by (simp add: packet_verdicts_def)
      obtain ns where ns: "b = (box st)\<lparr>mon_verdicts := packet_verdicts (box st), mon_insns := ns, mon_prog_fault := 0\<rparr>" "length ns = 6"
        using builtin_round [OF pk True, of t] packets(2) run by auto
      with six show ?thesis by blast
    next
      case False
      then have "ic_program_check (Some (mon_prog (box st))) (mon_prog_cnt (box st)) = IC_OK"
        using ok(2) by (simp add: progs_ok_def)
      with loaded_round [OF pk, of t] packets(2) run show ?thesis by auto
    qed
    then obtain vs ns pf where b: "b = (box st)\<lparr>mon_verdicts := vs, mon_insns := ns, mon_prog_fault := pf\<rparr>"
      "length vs = 6" "length ns = 6" by blast
    have "inputs_ok b" by (rule same) (use ok(3) b in \<open>simp_all add: box_wf_def\<close>)
    moreover have "progs_ok b" using ok(2) b(1) by (simp add: progs_ok_def)
    ultimately show ?thesis using res b(1) packets(1) by simp
  next
    case screen
    have "swarm_ok (box st)" using ok(1) by (simp add: inputs_ok_def)
    from screening_round [OF this screen(2), of t] run obtain m vs ns al where
      b: "b = (box st)\<lparr>mon_map := m, mon_screen_verd := vs, mon_screen_insns := ns,
        diag_runs := diag_runs (box st) + 1, diag_alrt := al\<rparr>" "length m = 64" "length vs = 64" "length ns = 64"
      by (auto simp del: of_nat_numeral)
    have "inputs_ok b" by (rule same) (use ok(3) b in \<open>simp_all add: box_wf_def\<close>)
    moreover have "progs_ok b" using ok(2) b(1) by (simp add: progs_ok_def)
    ultimately show ?thesis using res b(1) screen by simp
  next
    case native
    from native_filter_runs [OF pk] packets_loaded_verdicts [of "box st"] ok(1) native(2) run
    have b: "b = (box st)\<lparr>mon_native_verd := want\<rparr>"
      by (simp add: monitor_main_def inputs_ok_def)
    have "length want = 6" by (simp add: want_def)
    then have "inputs_ok b" by (intro same) (use ok(3) b in \<open>simp_all add: box_wf_def\<close>)
    moreover have "progs_ok b" using ok(2) b by (simp add: progs_ok_def)
    ultimately show ?thesis using res b native by simp
  qed
  then show "core_ok t (st\<lparr>box := b\<rparr>)" "g_phase st \<noteq> 1 \<Longrightarrow> kept (st\<lparr>box := b\<rparr>)"
    "g_phase st = 3 \<Longrightarrow> mon_native_verd b = want" "g_phase st = 1 \<or> g_phase st = 2 \<or> g_phase st = 3"
    by auto
qed


text \<open>What a yield may find, and that the round then goes on with one activation less to come.\<close>

definition yield_ok :: "target \<Rightarrow> sup \<Rightarrow> bool" where
  "yield_ok t st \<longleftrightarrow>
     core_ok t st \<and>
     (c_evicted (comps (table st) ! 0) = 0 \<and>
        (g_phase st = 1 \<or> g_phase st = 2 \<and> kept st \<or>
         g_phase st = 3 \<and> kept st \<and> mon_native_verd (box st) = want) \<or>
      phase_ok 1 st \<or> phase_ok 2 st)"

lemma yield_ok_same: "yield_ok t st \<Longrightarrow> same_round t st st' \<Longrightarrow> yield_ok t st'"
  using same_round_keeps [of t st st'] by (auto simp: yield_ok_def) (auto simp: same_round_def)

lemma resume_goes:
  assumes ok: "yield_ok t st"
  shows "goes t (rank st - 1) (supervisor_resume t rom st)"
proof -
  have core: "core_ok t st" using ok by (simp add: yield_ok_def)
  from ok consider
    (packets) "c_evicted (comps (table st) ! 0) = 0" "g_phase st = 1"
    | (screen) "c_evicted (comps (table st) ! 0) = 0" "g_phase st = 2" "kept st"
    | (native) "g_phase st = 3" "kept st" "mon_native_verd (box st) = want"
    | (attack) "phase_ok 1 st" | (module) "phase_ok 2 st"
    by (auto simp: yield_ok_def)
  then show ?thesis
  proof cases
    case packets
    with resume_packets_goes [OF core] show ?thesis by (simp add: supervisor_resume_def rank_def)
  next
    case screen
    with resume_screen_goes [OF core] show ?thesis by (simp add: supervisor_resume_def rank_def)
  next
    case native
    with resume_native_goes [OF core] show ?thesis by (simp add: supervisor_resume_def rank_def)
  next
    case attack
    then have "g_phase st = 4" "g_atk_vec st \<le> 6" "kept st" "status st ! S_NATOK = 1" by (simp_all add: phase_ok_def)
    with atk_advance_goes [OF core] show ?thesis by (simp add: supervisor_resume_def rank_def)
  next
    case module
    then have "g_phase st = 5" "finalized st" by (simp_all add: phase_ok_def)
    moreover have "serve_ok st" using core by (simp add: core_ok_def)
    ultimately show ?thesis using native_done_goes by (simp add: supervisor_resume_def rank_def)
  qed
qed

lemma monitor_yield_ok:
  assumes run: "run_ok t cpu st" and cur: "cur_comp (table st) = 0"
    and mon: "monitor_main t (box st) = Some (Inr b)"
  shows "yield_ok t (st\<lparr>box := b\<rparr>)"
proof -
  have core: "core_ok t st" and ph: "phase_ok 0 st" using run cur by (simp_all add: run_ok_def)
  note r = monitor_result [OF core ph mon]
  then show ?thesis using ph by (auto simp: yield_ok_def phase_ok_def)
qed

text \<open>Untrusted code cannot touch what the round depends on.\<close>

lemma wired_spec:
  assumes "wired t live tab" "live \<le> 1" "i = 1 \<or> i = 2"
  shows "c_spec (comps tab ! i) = shipped_specs t ! (if i = 2 then i + unat live else i)"
  using assms live_slot [OF assms(2)] by (auto simp: wired_def shipped_specs_def)

definition spec_no :: "sup \<Rightarrow> nat" where
  "spec_no st = (if cur_comp (table st) = 2 then 2 + unat (g_nat_live st) else unat (cur_comp (table st)))"

lemma run_spec:
  assumes run: "run_ok t cpu st"
  shows "spec_no st < 4" "pmp_holds (csrs (table st)) (shipped_specs t ! spec_no st)"
    "c_spec (comps (table st) ! unat (cur_comp (table st))) = shipped_specs t ! spec_no st"
    "cur_comp (table st) = 0 \<or> cur_comp (table st) = 1 \<or> cur_comp (table st) = 2"
proof -
  have core: "core_ok t st" and pmp: "pmp_holds (csrs (table st)) (c_spec (comps (table st) ! unat (cur_comp (table st))))"
    and i: "cur_comp (table st) = 0 \<or> cur_comp (table st) = 1 \<or> cur_comp (table st) = 2"
    using run by (auto simp: run_ok_def phase_ok_def)
  have w: "wired t (g_nat_live st) (table st)" and live: "g_nat_live st \<le> 1"
    using core by (simp_all add: core_ok_def serve_ok_def sup_shape_def)
  have l: "unat (g_nat_live st) \<le> 1" using live by (simp add: word_le_nat_alt)
  show "spec_no st < 4" using i l by (auto simp: spec_no_def)
  show spec: "c_spec (comps (table st) ! unat (cur_comp (table st))) = shipped_specs t ! spec_no st"
    using i
  proof (elim disjE)
    assume "cur_comp (table st) = 0"
    then show ?thesis using w by (simp add: wired_def shipped_specs_def spec_no_def)
  next
    assume "cur_comp (table st) = 1"
    then show ?thesis using wired_spec [OF w live, of 1] by (simp add: spec_no_def)
  next
    assume "cur_comp (table st) = 2"
    then show ?thesis using wired_spec [OF w live, of 2] by (simp add: spec_no_def)
  qed
  show "pmp_holds (csrs (table st)) (shipped_specs t ! spec_no st)" using pmp spec by simp
  show "cur_comp (table st) = 0 \<or> cur_comp (table st) = 1 \<or> cur_comp (table st) = 2" by (rule i)
qed

lemma run_confined:
  assumes run: "run_ok t cpu st" and eff: "user_effect t st st'"
  shows "cur_comp (table st) = 0 \<and> (\<exists>b. box_wf b \<and> st' = st\<lparr>box := b\<rparr>) \<or>
    cur_comp (table st) = 1 \<and> (\<exists>a p. st' = st\<lparr>atk_own := a, atk_proof := p\<rparr>) \<or>
    cur_comp (table st) = 2 \<and> (\<exists>v. st' = st\<lparr>nat_sram := (nat_sram st)[unat (g_nat_live st) := v]\<rparr>)"
proof -
  have "sup_shape st" using run by (simp add: run_ok_def core_ok_def serve_ok_def)
  note u = user_confined [OF run_spec(2,1) [OF run] this eff]
  from run_spec(4) [OF run] show ?thesis
  proof (elim disjE)
    assume c: "cur_comp (table st) = 0"
    then have "spec_no st = 0" by (simp add: spec_no_def)
    with u c show ?thesis by (simp only:) simp
  next
    assume c: "cur_comp (table st) = 1"
    then have "spec_no st = 1" by (simp add: spec_no_def)
    with u c show ?thesis by (simp only:) simp
  next
    assume c: "cur_comp (table st) = 2"
    then have "spec_no st = 2 + unat (g_nat_live st)" by (simp add: spec_no_def)
    with u c show ?thesis by (simp only:) simp
  qed
qed

lemma user_keeps:
  assumes run: "run_ok t cpu st" and cur: "cur_comp (table st) \<noteq> 0" and eff: "user_effect t st st'"
  shows "same_round t st st'" "table st' = table st"
proof -
  have core: "core_ok t st" using run by (simp add: run_ok_def)
  from run_confined [OF run eff] cur consider
    (atk) a p where "st' = st\<lparr>atk_own := a, atk_proof := p\<rparr>"
    | (sram) k v where "st' = st\<lparr>nat_sram := (nat_sram st)[k := v]\<rparr>" by blast
  then have "same_round t st st' \<and> table st' = table st"
  proof cases
    case atk
    then have "core_ok t st'" using core by (simp add: core_ok_def serve_ok_def sup_shape_def quiet_def world_def)
    then show ?thesis using atk by (simp add: same_round_def)
  next
    case sram
    have "core_ok t st'" using core serve_ok_sram [of st k v] sram by (simp add: core_ok_def)
    then show ?thesis using sram by (simp add: same_round_def)
  qed
  then show "same_round t st st'" "table st' = table st" by simp_all
qed

lemma same_round_trans: "same_round t st st' \<Longrightarrow> same_round t st' st'' \<Longrightarrow> same_round t st st''"
  by (simp add: same_round_def)

lemma user_yield_ok:
  assumes run: "run_ok t cpu st" and cur: "cur_comp (table st) \<noteq> 0"
  shows "yield_ok t st"
  using run cur by (auto simp: run_ok_def yield_ok_def phase_ok_def)


subsection \<open>Faults\<close>

lemma finalized_set: "finalized st \<Longrightarrow> 87 \<le> k \<Longrightarrow> finalized (status_set k v st)"
  using kept_set [of st k v]
  by (simp add: finalized_def status_words) (simp add: status_set_def nth_list_update_neq)

lemma finalized_frame [simp]:
  "finalized (st\<lparr>g_nat_live := a\<rparr>) = finalized st" "finalized (st\<lparr>g_nat_retired := a\<rparr>) = finalized st"
  "finalized (st\<lparr>reads := n\<rparr>) = finalized st" "finalized (st\<lparr>sends := n\<rparr>) = finalized st"
  "finalized (st\<lparr>wire := w\<rparr>) = finalized st" "finalized (st\<lparr>table := tab\<rparr>) = finalized st"
  "finalized (nat_update j f st) = finalized st"
  by (simp_all add: finalized_def kept_def nat_update_def)

lemma serve_ok_send: "serve_ok st \<Longrightarrow> serve_ok (st\<lparr>reads := r, sends := k, wire := w\<rparr>)"
  by (simp add: serve_ok_def quiet_def world_def)

lemma serve_ok_live: "serve_ok st \<Longrightarrow> l \<le> 1 \<Longrightarrow> serve_ok (st\<lparr>g_nat_live := l\<rparr>)"
  by (simp add: serve_ok_def quiet_def world_def sup_shape_updates)

lemma status_inc_set: "status_inc k st = status_set k (status st ! k + 1) st"
  by (simp add: status_inc_def)

lemma native_strike_ok:
  assumes ok: "serve_ok st" and fin: "finalized st" and run: "native_strike st = Some st'"
  shows "serve_ok st' \<and> finalized st'"
proof -
  let ?dead = "g_nat_live st"
  let ?s1 = "status_set S_NAT2 0 (nat_update ?dead (\<lambda>n. n\<lparr>n_evicted := 1\<rparr>) st)"
  have dead: "?dead = 0 \<or> ?dead = 1" using ok live_slot by (simp add: serve_ok_def sup_shape_def)
  have s1: "serve_ok ?s1" "finalized ?s1" using ok fin finalized_set by (simp_all add: status_words)
  obtain s2 where tele: "tele_fault ?dead ?s1 = Some s2"
    using run by (auto simp: native_strike_def Let_def split: option.splits)
  then obtain sent s where send: "send_limited FRAME_TELE (tele_bytes ?dead ?s1) 16 50000 ?s1 = Some (sent, s)"
    and s2: "s2 = (if sent then s else status_inc S_TXABORT s)"
    by (auto simp: tele_fault_def split: option.splits)
  from send obtain r k w where s: "s = ?s1\<lparr>reads := r, sends := k, wire := w\<rparr>" by (rule send_limited_frame)
  have "serve_ok s" "finalized s" using serve_ok_send [OF s1(1)] s1(2) by (simp_all add: s)
  then have s2ok: "serve_ok s2" "finalized s2" using s2 finalized_set by (simp_all add: status_inc_set status_words)
  have o: "?dead XOR 1 \<le> 1" using dead by auto
  let ?s3 = "if n_valid (g_nat s2 ! unat (?dead XOR 1)) \<noteq> 0 \<and> n_evicted (g_nat s2 ! unat (?dead XOR 1)) = 0
    then status_inc S_ROLL (s2\<lparr>g_nat_live := ?dead XOR 1, g_nat_retired := 0\<rparr>) else s2\<lparr>g_nat_retired := 1\<rparr>"
  have "serve_ok ?s3" "finalized ?s3"
    using s2ok serve_ok_live [OF s2ok(1) o] finalized_set by (simp_all add: status_inc_set status_words)
  moreover have "st' = status_set S_NSLOT (if g_nat_retired ?s3 \<noteq> 0 then 0xFFFFFFFF else g_nat_live ?s3) ?s3"
    using run tele by (simp add: native_strike_def Let_def)
  ultimately show ?thesis using finalized_set [of ?s3 S_NSLOT] by (simp add: status_words)
qed

lemma evict_keeps:
  assumes "comp_wf tab" "unat i < 4"
  shows "comp_wf (compartment_evict i tab)" "wired t l tab \<Longrightarrow> wired t l (compartment_evict i tab)"
    "j < 4 \<Longrightarrow> j \<noteq> unat i \<Longrightarrow> c_evicted (comps (compartment_evict i tab) ! j) = c_evicted (comps tab ! j)"
    "cur_comp (compartment_evict i tab) = cur_comp tab"
proof -
  show "comp_wf (compartment_evict i tab)" using assms(1) by (rule compartment_evict_wf)
  show "wired t l tab \<Longrightarrow> wired t l (compartment_evict i tab)"
    "j < 4 \<Longrightarrow> j \<noteq> unat i \<Longrightarrow> c_evicted (comps (compartment_evict i tab) ! j) = c_evicted (comps tab ! j)"
    "cur_comp (compartment_evict i tab) = cur_comp tab"
    using assms(2) by (simp_all add: wired_def compartment_evict_def comp_index nth_update_if)
qed

definition preempted :: "u32 \<Rightarrow> sup \<Rightarrow> sup" where
  "preempted cause st = (if cause AND 0x80000000 \<noteq> 0 then status_inc S_PREEMPT st else st)"

lemma preempted_ok:
  assumes "core_ok t st"
  shows "core_ok t (preempted cause st)" "kept st \<Longrightarrow> kept (preempted cause st)"
    "finalized st \<Longrightarrow> finalized (preempted cause st)" "k \<noteq> S_PREEMPT \<Longrightarrow> status (preempted cause st) ! k = status st ! k"
    "g_phase (preempted cause st) = g_phase st" "g_atk_vec (preempted cause st) = g_atk_vec st"
    "table (preempted cause st) = table st" "length (status (preempted cause st)) = length (status st)"
  using assms kept_set [of st S_PREEMPT] finalized_set [of st S_PREEMPT]
  by (simp_all add: preempted_def status_inc_set status_words) (simp_all add: status_set_def)

text \<open>A fault of the attacker or of the native module ends its activation, and the round goes on.\<close>

lemma fault_goes:
  assumes core: "core_ok t st" and cur: "cur_comp (table st) = 1 \<and> phase_ok 1 st \<or> cur_comp (table st) = 2 \<and> phase_ok 2 st"
  shows "goes t (rank st - 1) (supervisor_fault t rom cause st) \<or> supervisor_fault t rom cause st = Waiting"
proof -
  let ?p = "preempted cause st"
  note p = preempted_ok [OF core, where cause = cause]
  let ?i = "cur_comp (table st)"
  let ?s = "?p\<lparr>table := compartment_evict ?i (table st)\<rparr>"
  have wf: "comp_wf (table st)" by (rule core_wf [OF core])
  have i: "unat ?i < 4" using cur by auto
  note ev = evict_keeps [OF wf i]
  have serve: "serve_ok ?s" using p(1) ev(1) by (simp add: core_ok_def serve_ok_table)
  from cur show ?thesis
  proof (elim disjE conjE)
    assume a: "?i = 1" "phase_ok 1 st"
    then have ph: "g_phase st = 4" "g_atk_vec st \<le> 6" "kept st" "status st ! S_NATOK = 1" by (simp_all add: phase_ok_def)
    have "core_ok t ?s" using serve p(1,7) ev a(1) by (simp add: core_ok_def)
    moreover have "kept ?s" "status ?s ! S_NATOK = 1" "g_phase ?s = 4" "g_atk_vec ?s = g_atk_vec st"
      using p ph by (simp_all add: status_words)
    ultimately have "goes t (7 - unat (g_atk_vec st)) (atk_advance t rom ?s)"
      using atk_advance_goes [of t ?s rom] ph(2) by simp
    moreover have "supervisor_fault t rom cause st = atk_advance t rom ?s"
      using ph(1) p(5,7) by (simp add: supervisor_fault_def preempted_def Let_def)
    ultimately show ?thesis using ph(1) by (simp add: rank_def)
  next
    assume n: "?i = 2" "phase_ok 2 st"
    then have ph: "g_phase st = 5" "finalized st" by (simp_all add: phase_ok_def)
    have fin: "finalized ?s" using p(3) ph(2) by simp
    have eq: "supervisor_fault t rom cause st =
        (case native_strike ?s of None \<Rightarrow> Waiting | Some st \<Rightarrow> native_done t 0 st)"
      using ph(1) p(5,7) n(1) ev(4) by (simp add: supervisor_fault_def preempted_def Let_def)
    show ?thesis
    proof (cases "native_strike ?s")
      case None
      then show ?thesis using eq by simp
    next
      case (Some s')
      with native_strike_ok [OF serve fin Some] native_done_goes show ?thesis using eq by simp
    qed
  qed
qed

text \<open>A fault of the monitor is fatal.\<close>

lemma monitor_fault_halts:
  assumes ph: "g_phase st = 1 \<or> g_phase st = 2 \<or> g_phase st = 3" and len: "length (status st) = 106"
  shows "\<exists>s. supervisor_fault t rom cause st = Halts s \<and> halted s"
proof -
  let ?s = "(preempted cause st)\<lparr>table := compartment_evict (cur_comp (table st)) (table st)\<rparr>"
  let ?h = "status_set S_HALTC (push_bit 24 (g_phase st AND 0xFF) OR (cause AND 0xFFFFFF)) (status_set S_HALT 0x48414C54 ?s)"
  have l: "length (status (preempted cause st)) = 106"
    using len by (simp add: preempted_def status_inc_def status_set_def)
  have "g_phase ?s = g_phase st" "table (preempted cause st) = table st" by (simp_all add: preempted_def status_inc_def status_set_def)
  moreover have "\<not> 5 \<le> g_phase st" "g_phase st \<noteq> 4" "g_phase st AND 0xFF = g_phase st"
    using ph by (auto simp: word_le_nat_alt)
  ultimately have "supervisor_fault t rom cause st = Halts ?h"
    by (simp add: supervisor_fault_def preempted_def Let_def)
  moreover have "status ?h ! S_HALT = 0x48414C54"
    "status ?h ! S_HALTC = push_bit 24 (g_phase st) OR (cause AND 0xFFFFFF)"
    using l ph by (auto simp: status_words status_set_def)
  then have "halted ?h" using ph unfolding halted_def by (intro conjI exI [of _ "g_phase st"] exI [of _ cause]) auto
  ultimately show ?thesis by blast
qed


subsection \<open>Boot\<close>

lemma length_put_status [simp]: "length (put_status_bytes off bs ws) = length ws"
  by (induction off bs ws rule: put_status_bytes.induct) simp_all

lemma boot_status_shape:
  assumes "sup_shape st" "boot_status t env st = Some st'"
  shows "sup_shape st'"
proof -
  let ?s0 = "status_set 1 0xC0DE0008 (status_set 0 0xDEADBEEF (status_set S_GATE 0xC0DE0000
    (st\<lparr>status := replicate STATUS_WORDS 0\<rparr>)))"
  have s0: "sup_shape ?s0" using assms(1) by (simp add: sup_shape_def status_set_def STATUS_WORDS_def)
  have shape: "sup_shape (?s0\<lparr>status := put_status_bytes n bs (status ?s0), wire := w, reads := r\<rparr>)" for n bs w r
    using s0 by (simp add: sup_shape_def)
  show ?thesis
    using assms(2) shape
    by (simp add: boot_status_def Let_def timer_now_def split: target.splits option.splits) auto
qed

lemma step_length: "uart_frame_step b dst cap rx = Some (n, dst', rx') \<Longrightarrow> length dst' = length dst"
  by (auto simp: uart_frame_step_def Let_def split: if_splits)

lemma recv_loop_length:
  "recv_loop t0 polls dst cap rx = RDone n dst' rx' \<Longrightarrow> length dst' = length dst"
proof (induction t0 polls dst cap rx rule: recv_loop.induct)
  case (2 t0 now c polls dst cap st)
  then show ?case
    by (auto simp: step_length split: if_splits option.splits)
qed simp_all

lemma uart_load_shape:
  assumes shape: "sup_shape st" and run: "uart_load t0 polls st = Some st'"
  shows "sup_shape st'"
proof -
  have area: "length (prog_area st) = 0x800" using shape by (simp add: sup_shape_def)
  obtain n stage rx where r: "uart_recv t0 polls (drop 0x400 (prog_area st)) UART_FRAME_MAX = RDone n stage rx"
    and st': "st' = st\<lparr>prog_area := blit 0 (take (unat n) stage) (blit 0x400 stage (prog_area st))\<rparr>"
    using run by (auto simp: uart_load_def Let_def split: recv_result.splits)
  have "length stage = 0x400" using recv_loop_length [OF r [unfolded uart_recv_def]] area by simp
  then show ?thesis using shape by (simp add: st' sup_shape_def)
qed

text \<open>The state after the counters are cleared, and the load from there.\<close>

definition cleared :: "sup \<Rightarrow> sup" where
  "cleared st = fold (\<lambda>k. status_set k 0) [S_LOAD, S_HLOAD, S_HREJ, S_ROLL, S_REARM, S_PREEMPT, S_TXABORT]
     (st\<lparr>box := (box st)\<lparr>mon_prog_cnt := 0, mon_prog_b_cnt := 0, mon_prog_fault := 0\<rparr>\<rparr>)"

lemma load_program_cleared:
  "load_program t st =
     (let st = cleared st; cnt = le32 (prog_area st) 4; p = blit 0 (area_insns (prog_area st) cnt) (mon_prog (box st))
      in if le32 (prog_area st) 0 \<noteq> PROG_MAGIC then st
         else if cnt = 0 \<or> cnt > IC_PROG_MAX_INSNS then status_set S_LOAD 2 st
         else if ic_module_check (Some (ebpf_desc t cnt)) \<noteq> IC_OK then status_set S_LOAD 3 st
         else if ic_program_check (Some p) cnt \<noteq> IC_OK then status_set S_LOAD 4 (st\<lparr>box := (box st)\<lparr>mon_prog := p\<rparr>\<rparr>)
         else status_set S_LOAD 1 (st\<lparr>box := (box st)\<lparr>mon_prog := p, mon_prog_cnt := cnt\<rparr>\<rparr>))"
  unfolding load_program_def cleared_def [symmetric] Let_def by simp

lemma load_program_ok:
  assumes shape: "sup_shape st"
  shows "sup_shape (load_program t st) \<and> progs_ok (box (load_program t st))"
proof -
  define s where "s = cleared st"
  define cnt where "cnt = le32 (prog_area s) 4"
  define p where "p = blit 0 (area_insns (prog_area s) cnt) (mon_prog (box s))"
  have "box_wf ((box st)\<lparr>mon_prog_cnt := 0, mon_prog_b_cnt := 0, mon_prog_fault := 0\<rparr>)"
    using shape by (simp add: sup_shape_def box_wf_def)
  from sup_shape_updates(6) [OF shape this] have s: "sup_shape s" by (simp add: s_def cleared_def)
  have zero: "mon_prog_cnt (box s) = 0" "mon_prog_b_cnt (box s) = 0"
    by (simp_all add: s_def cleared_def status_set_def)
  have eq: "load_program t st =
      (if le32 (prog_area s) 0 \<noteq> PROG_MAGIC then s
       else if cnt = 0 \<or> cnt > IC_PROG_MAX_INSNS then status_set S_LOAD 2 s
       else if ic_module_check (Some (ebpf_desc t cnt)) \<noteq> IC_OK then status_set S_LOAD 3 s
       else if ic_program_check (Some p) cnt \<noteq> IC_OK then status_set S_LOAD 4 (s\<lparr>box := (box s)\<lparr>mon_prog := p\<rparr>\<rparr>)
       else status_set S_LOAD 1 (s\<lparr>box := (box s)\<lparr>mon_prog := p, mon_prog_cnt := cnt\<rparr>\<rparr>))"
    by (simp only: load_program_cleared Let_def s_def cnt_def p_def)
  define Q where "Q x \<longleftrightarrow> sup_shape x \<and> progs_ok (box x)" for x
  have keep: "Q s" "Q (status_set S_LOAD v s)" for v
    using s zero by (simp_all add: Q_def progs_ok_def)
  have small: "box_wf ((box s)\<lparr>mon_prog := p\<rparr>)" "box_wf ((box s)\<lparr>mon_prog := p, mon_prog_cnt := cnt\<rparr>)"
    if "\<not> cnt > IC_PROG_MAX_INSNS"
    using that s by (simp_all add: p_def sup_shape_def box_wf_def area_insns_def IC_PROG_MAX_INSNS_def word_le_nat_alt not_less)
  have load: "Q (status_set S_LOAD 4 (s\<lparr>box := (box s)\<lparr>mon_prog := p\<rparr>\<rparr>))" if "\<not> cnt > IC_PROG_MAX_INSNS"
    using sup_shape_updates(6) [OF s small(1) [OF that]] zero by (simp add: Q_def progs_ok_def)
  have live: "Q (status_set S_LOAD 1 (s\<lparr>box := (box s)\<lparr>mon_prog := p, mon_prog_cnt := cnt\<rparr>\<rparr>))"
    if "\<not> cnt > IC_PROG_MAX_INSNS" "ic_program_check (Some p) cnt = IC_OK"
    using sup_shape_updates(6) [OF s small(2) [OF that(1)]] that(2) zero by (simp add: Q_def progs_ok_def)
  have "Q (load_program t st)" using keep load live by (simp add: eq)
  then show ?thesis by (simp add: Q_def)
qed

lemma install_demo_shape:
  assumes "sup_shape st" "length (native_demo rom) \<le> 0x1000"
  shows "\<exists>st'. install_demo rom st = Some st' \<and> sup_shape st' \<and> box st' = box st \<and> g_update st' = g_update st"
proof -
  have "length (nat_text st ! 0) = 0x1000" using assms(1) by (simp add: sup_shape_def)
  moreover from this have "length (blit 0 (native_demo rom) (nat_text st ! 0)) = 0x1000" using assms(2) by simp
  from sup_shape_updates(1) [OF assms(1) this, of 0]
  have "sup_shape (st\<lparr>g_nat := [a, b], nat_text := (nat_text st)[0 := blit 0 (native_demo rom) (nat_text st ! 0)],
      g_nat_live := 0, g_nat_retired := r\<rparr>)" for a b r
    by (simp add: sup_shape_def)
  ultimately show ?thesis using assms(2) by (simp add: install_demo_def)
qed

lemma restore_slot_update: "restore_slot t k st = Some st' \<Longrightarrow> g_update st' = g_update st"
  by (auto simp: restore_slot_def Let_def nat_update_def split: option.splits if_splits)

lemma boot_enters:
  assumes shape: "sup_shape st" and fits: "length (native_demo rom) \<le> 0x1000"
    and s1: "boot_status t env st = Some st1" and s2: "uart_load (load_t0 env) (load_polls env) st1 = Some st2"
  shows "\<exists>st'. boot_main t rom env st = schedule_round t rom st' \<and> serve_ok st' \<and> box st' = box (load_program t st2)"
proof -
  have sh2: "sup_shape st2" using boot_status_shape [OF shape s1] s2 by (rule uart_load_shape)
  let ?st3 = "boot_reset (load_program t st2)"
  have st3: "sup_shape ?st3" "box ?st3 = box (load_program t st2)" "g_update ?st3 = update_reset"
    using load_program_ok [OF sh2, of t]
    by (simp_all add: boot_reset_def Let_def case_prod_unfold) (simp add: status_set_def)
  from install_demo_shape [OF st3(1) fits] obtain st4 where
    st4: "install_demo rom ?st3 = Some st4" "sup_shape st4" "box st4 = box ?st3" "g_update st4 = g_update ?st3" by blast
  obtain st5 where st5: "restore_slot t 0 st4 = Some st5" "sup_shape st5" "box st5 = box st4"
    using restore_slot_total [OF st4(2), of 0 t] by auto
  obtain st6 where st6: "restore_slot t 1 st5 = Some st6" "sup_shape st6" "box st6 = box st5"
    using restore_slot_total [OF st5(2), of 1 t] by auto
  have upd: "g_update st6 = update_reset"
    using st3(3) st4(4) restore_slot_update [OF st5(1)] restore_slot_update [OF st6(1)] by simp
  have "552 \<le> length (pend st6)" using st6(2) by (simp add: sup_shape_def)
  then have "serve_ok st6"
    using load_program_ok [OF sh2, of t] st3(2) st4(3) st5(3) st6(2,3) upd
    by (simp add: serve_ok_def quiet_def world_def update_wf_def update_reset_def update_consts)
  moreover have "boot_main t rom env st = schedule_round t rom st6"
    using s1 s2 st4(1) st5(1) st6(1) boot_gate_clear
    by (cases t) (simp_all add: boot_main_def restore_slots_def Let_def)
  ultimately show ?thesis using st6(3) st5(3) st4(3) st3(2) by auto
qed

lemma boot_goes:
  assumes shape: "sup_shape st" and fits: "length (native_demo rom) \<le> 0x1000"
  shows "boot_main t rom env st = Waiting \<or> goes t 11 (boot_main t rom env st)"
proof (cases "boot_status t env st")
  case None
  then show ?thesis using boot_gate_clear by (cases t) (simp_all add: boot_main_def)
next
  case s1: (Some st1)
  show ?thesis
  proof (cases "uart_load (load_t0 env) (load_polls env) st1")
    case None
    then show ?thesis using s1 boot_gate_clear by (cases t) (simp_all add: boot_main_def)
  next
    case (Some st2)
    then show ?thesis using boot_enters [OF shape fits s1] schedule_round_goes by metis
  qed
qed

subsection \<open>The invariant\<close>

lemma goes_sys_ok: "goes t n c \<Longrightarrow> sys_ok t c"
  by (cases c) (auto simp: goes_def sys_ok_def over_def rx_wf_init)

lemma fault_trap_frame [simp]:
  "g_phase (fault_trap e cause addr regs st) = g_phase st" "status (fault_trap e cause addr regs st) = status st"
  by (simp_all add: fault_trap_def ring_record_def Let_def)

lemma run_step_cases [consumes 1, case_names yields user monitor_traps user_traps]:
  assumes "sys_step t rom (Runs cpu st) c"
  obtains
    b e regs where "cur_comp (table st) = 0" "monitor_main t (box st) = Some (Inr b)"
      "c = supervisor_resume t rom (yield_trap e regs (st\<lparr>box := b\<rparr>))"
  | st' e regs where "cur_comp (table st) \<noteq> 0" "user_effect t st st'"
      "c = supervisor_resume t rom (yield_trap e regs st')"
  | st' cause e addr regs where "cur_comp (table st) = 0" "user_effect t st st'"
      "c = supervisor_fault t rom cause (fault_trap e cause addr regs st')"
  | st' cause e addr regs where "cur_comp (table st) \<noteq> 0" "user_effect t st st'"
      "c = supervisor_fault t rom cause (fault_trap e cause addr regs st')"
  using assms by (rule runs_stepE) (blast intro: that)+

lemma monitor_trap_halts:
  assumes run: "run_ok t cpu st" and cur: "cur_comp (table st) = 0" and eff: "user_effect t st st'"
  shows "\<exists>s. supervisor_fault t rom cause (fault_trap e cause addr regs st') = Halts s \<and> halted s"
proof -
  have core: "core_ok t st" and ph: "phase_ok 0 st" using run cur by (simp_all add: run_ok_def)
  then have shape: "sup_shape st" by (simp add: core_ok_def serve_ok_def)
  from run_confined [OF run eff] cur obtain b where "st' = st\<lparr>box := b\<rparr>" by auto
  then have "g_phase st' = 1 \<or> g_phase st' = 2 \<or> g_phase st' = 3" "length (status st') = 106"
    using ph shape by (auto simp: phase_ok_def sup_shape_def)
  then show ?thesis by (intro monitor_fault_halts) simp_all
qed

lemma run_step_goes:
  assumes run: "run_ok t cpu st" and step: "sys_step t rom (Runs cpu st) c"
  shows "goes t (rank st - 1) c \<or> c = Waiting \<or> cur_comp (table st) = 0 \<and> (\<exists>s. c = Halts s \<and> halted s)"
  using step
proof (cases rule: run_step_cases)
  case (yields b e regs)
  let ?s = "st\<lparr>box := b\<rparr>"
  have ok: "yield_ok t ?s" using monitor_yield_ok [OF run] yields by simp
  then have "core_ok t ?s" by (simp add: yield_ok_def)
  note same = yield_same_round [OF this, of e regs]
  have "rank (yield_trap e regs ?s) = rank st" using same_round_keeps(4) [OF same] by (simp add: rank_def)
  with resume_goes [OF yield_ok_same [OF ok same], of rom] yields show ?thesis by simp
next
  case (user st' e regs)
  note keep = user_keeps [OF run user(1,2)]
  have "core_ok t st'" using keep(1) by (simp add: same_round_def)
  note same = same_round_trans [OF keep(1) yield_same_round [OF this, of e regs]]
  from resume_goes [OF yield_ok_same [OF user_yield_ok [OF run user(1)] same], of rom]
  show ?thesis using same_round_keeps(4) [OF same] user(3) by simp
next
  case (monitor_traps st' cause e addr regs)
  with monitor_trap_halts [OF run monitor_traps(1,2)] show ?thesis by simp
next
  case (user_traps st' cause e addr regs)
  note keep = user_keeps [OF run user_traps(1,2)]
  have "core_ok t st'" using keep(1) by (simp add: same_round_def)
  note same = same_round_trans [OF keep(1) fault_same_round [OF this, of e cause addr regs]]
  let ?s = "fault_trap e cause addr regs st'"
  have "cur_comp (table st) = 1 \<and> phase_ok 1 st \<or> cur_comp (table st) = 2 \<and> phase_ok 2 st"
    using run user_traps(1) by (auto simp: run_ok_def phase_ok_def)
  then have "cur_comp (table ?s) = 1 \<and> phase_ok 1 ?s \<or> cur_comp (table ?s) = 2 \<and> phase_ok 2 ?s"
    using same_round_keeps(3) [OF same, of 1] same_round_keeps(3) [OF same, of 2] same by (auto simp: same_round_def)
  moreover have "core_ok t ?s" using same by (simp add: same_round_def)
  ultimately have "goes t (rank st - 1) c \<or> c = Waiting"
    using fault_goes [of t ?s rom cause] same_round_keeps(4) [OF same] user_traps(3) by simp
  then show ?thesis by blast
qed

lemma step_ok:
  assumes ok: "sys_ok t c" and step: "sys_step t rom c c'"
  shows "sys_ok t c'"
proof (cases c)
  case (Runs cpu st)
  then have "run_ok t cpu st" using ok by (simp add: sys_ok_def)
  from run_step_goes [OF this step [unfolded Runs]] show ?thesis
    using goes_sys_ok by (auto simp: sys_ok_def [of t Waiting] sys_ok_def [of t "Halts _"])
next
  case (Serves rx seen st)
  then have s: "serve_ok st" "rx_wf 2696 rx" "status st ! S_HLOAD = seen" "t = Board" using ok by (simp_all add: sys_ok_def)
  from step obtain now arrivals where c': "c' = service_step t rom now arrivals rx seen st"
    unfolding Serves by (rule serves_stepE)
  from service_turn [OF s(1-3), of t rom now arrivals] show ?thesis
    unfolding c' using hot_round_goes goes_sys_ok s(4) by (fastforce simp: sys_ok_def)
qed (use step in \<open>auto elim: sys_step.cases\<close>)

interpretation sys: guarded_steps "sys_step t rom" "sys_ok t"
  by unfold_locales (rule step_ok)

lemma reachable_ok: "reachable t rom c \<Longrightarrow> sys_ok t c"
proof (induction rule: reachable.induct)
  case (boots st env)
  from boot_goes [OF this, of t env] show ?case by (auto simp: goes_sys_ok sys_ok_def [of t Waiting])
next
  case (steps c c')
  then show ?case using step_ok by blast
qed


end
