(* ===== verification/Guarantees.thy ===== *)
theory Guarantees
  imports System
begin

text \<open>
  What the firmware guarantees in every reachable state: isolation, an unforgeable record of the round,
  the end of every round, and fail-stop only for the monitor.
\<close>

subsection \<open>Activations\<close>

definition act_step :: "target \<Rightarrow> rom \<Rightarrow> ctl \<Rightarrow> ctl \<Rightarrow> bool" where
  "act_step t rom c c' \<longleftrightarrow> (\<exists>cpu st. c = Runs cpu st) \<and> sys_step t rom c c'"

fun sup_of :: "ctl \<Rightarrow> sup option" where
  "sup_of (Runs cpu st) = Some st"
| "sup_of (Serves rx seen st) = Some st"
| "sup_of (Reports st) = Some st"
| "sup_of (Halts st) = Some st"
| "sup_of (Parked st) = Some st"
| "sup_of Waiting = None"
| "sup_of Crashes = None"

lemma reachable_run: "reachable t rom (Runs cpu st) \<Longrightarrow> run_ok t cpu st"
  by (drule reachable_ok) (simp add: sys_ok_def)

lemma rank_pos: "run_ok t cpu st \<Longrightarrow> 1 \<le> rank st" "run_ok t cpu st \<Longrightarrow> rank st \<le> 11"
  by (auto simp: run_ok_def phase_ok_def rank_def word_le_nat_alt)

lemma act_reachable: "(act_step t rom ^^ n) c c' \<Longrightarrow> reachable t rom c \<Longrightarrow> reachable t rom c'"
proof (induction n arbitrary: c')
  case (Suc n)
  then obtain d where "reachable t rom d" "sys_step t rom d c'" by (auto simp: act_step_def)
  then show ?case by (rule reachable.steps)
qed simp

lemma act_rank:
  assumes "act_step t rom c (Runs cpu' st')" "reachable t rom c"
  shows "\<exists>cpu st. c = Runs cpu st \<and> rank st' < rank st"
proof -
  obtain cpu st where c: "c = Runs cpu st" "sys_step t rom c (Runs cpu' st')" using assms(1) by (auto simp: act_step_def)
  have ok: "run_ok t cpu st" using reachable_run assms(2) c(1) by blast
  from run_step_goes [OF ok c(2) [unfolded c(1)]] have "goes t (rank st - 1) (Runs cpu' st')" by auto
  then have "rank st' \<le> rank st - 1" by (simp add: goes_def)
  then show ?thesis using c(1) rank_pos(1) [OF ok] by auto
qed

lemma act_count:
  "(act_step t rom ^^ n) c (Runs cpu' st') \<Longrightarrow> reachable t rom c \<Longrightarrow> rank st' + n \<le> 11"
proof (induction n arbitrary: cpu' st')
  case 0
  then show ?case using reachable_run [of t rom cpu' st'] rank_pos(2) [of t cpu' st'] by simp
next
  case (Suc n)
  then obtain d where d: "(act_step t rom ^^ n) c d" "act_step t rom d (Runs cpu' st')" by auto
  from act_rank [OF d(2) act_reachable [OF d(1) Suc.prems(2)]] obtain cpu st where
    "d = Runs cpu st" "rank st' < rank st" by blast
  with Suc.IH [of cpu st] d(1) Suc.prems(2) show ?case by simp
qed

lemma act_bound:
  assumes "(act_step t rom ^^ n) c c'" "reachable t rom c"
  shows "n \<le> 11"
proof (cases n)
  case (Suc k)
  then obtain d where d: "(act_step t rom ^^ k) c d" "act_step t rom d c'" using assms(1) by auto
  then obtain cpu st where "d = Runs cpu st" by (auto simp: act_step_def)
  with act_count [of k t rom c cpu st] d(1) assms(2) act_reachable [OF d(1) assms(2)] reachable_run [of t rom cpu st]
    rank_pos(1) [of t cpu st] Suc
  show ?thesis by simp
qed simp

subsection \<open>A concrete boot\<close>

lemma enter_cur: "compartment_enter i r m tab = Enters cpu tab' \<Longrightarrow> cur_comp tab' = i"
  by (simp add: compartment_enter_def Let_def split: if_splits) force

lemma enter_is_run:
  assumes "goes t n (enter_checked i st)"
  shows "\<exists>cpu tab. enter_checked i st = Runs cpu (st\<lparr>table := tab\<rparr>) \<and> cur_comp tab = i"
proof -
  have "compartment_evicted i (table st) = 0" using assms by (simp add: enter_checked_def goes_def split: if_splits)
  then show ?thesis
    using assms enter_cur [of i "m_regs st" "m_mstatus st" "table st"]
    by (cases "compartment_enter i (m_regs st) (m_mstatus st) (table st)") (simp_all add: enter_checked_def goes_def, blast)
qed

lemma schedule_round_run:
  assumes "serve_ok st"
  shows "\<exists>cpu st'. schedule_round t rom st = Runs cpu st' \<and> cur_comp (table st') = 0 \<and> g_phase st' = 1 \<and>
    mon_prog_cnt (box st') = mon_prog_cnt (box st)"
proof -
  obtain s where s: "schedule_round t rom st = enter_checked 0 s" "goes t 11 (enter_checked 0 s)" "g_phase s = 1"
      "mon_prog_cnt (box s) = mon_prog_cnt (box st)"
    using schedule_round_enters [OF assms] by blast
  from enter_is_run [OF s(2)] show ?thesis using s by auto
qed

definition demo_rom :: rom where
  "demo_rom = \<lparr>monitor_entry = 0x80100000, atk_vec = replicate 7 0x80102000, native_demo = [0x73, 0, 0, 0]\<rparr>"

definition demo_env :: boot_env where
  "demo_env = \<lparr>loop_t0 = 0, loop_polls = [], load_t0 = 0, load_polls = [(1000001, None)]\<rparr>"

lemma demo_boot:
  "\<exists>cpu st. boot_main Qemu demo_rom demo_env idle_sup = Runs cpu st \<and> cur_comp (table st) = 0 \<and> g_phase st = 1 \<and>
    mon_prog_cnt (box st) = 0"
proof -
  obtain st1 where s1: "boot_status Qemu demo_env idle_sup = Some st1" "prog_area st1 = replicate 0x800 0"
    by (simp add: boot_status_def Let_def timer_now_def) (simp add: status_set_def idle_sup_def)
  obtain st2 where s2: "uart_load (load_t0 demo_env) (load_polls demo_env) st1 = Some st2"
      "prog_area st2 = blit 0 [] (blit 0x400 (drop 0x400 (prog_area st1)) (prog_area st1))"
    by (simp add: uart_load_def demo_env_def uart_recv_def UART_WINDOW_def Let_def)
  have area: "prog_area st2 = replicate 0x800 0" using s2(2) s1(2) by (simp add: blit_def replicate_add [symmetric])
  have fits: "length (native_demo demo_rom) \<le> 0x1000" by (simp add: demo_rom_def)
  obtain st6 where s6: "boot_main Qemu demo_rom demo_env idle_sup = schedule_round Qemu demo_rom st6" "serve_ok st6"
      "box st6 = box (load_program Qemu st2)"
    using boot_enters [OF idle_sup_shape fits s1(1) s2(1)] by blast
  have c: "prog_area (cleared st2) = replicate 0x800 0" "mon_prog_cnt (box (cleared st2)) = 0"
    using area by (simp_all add: cleared_def status_set_def)
  have "le32 (replicate 0x800 0) 0 \<noteq> PROG_MAGIC" by (simp add: le32_def PROG_MAGIC_def)
  then have "load_program Qemu st2 = cleared st2" using c(1) by (simp add: load_program_cleared Let_def)
  then have "mon_prog_cnt (box st6) = 0" using s6(3) c(2) by simp
  then show ?thesis using schedule_round_run [OF s6(2), of Qemu demo_rom] s6(1) by auto
qed

subsection \<open>Progress\<close>

lemma user_effect_same: "sup_shape st \<Longrightarrow> user_effect t st st"
proof -
  assume "sup_shape st"
  moreover have "same_in ob st st" for ob by (cases ob) simp_all
  ultimately show ?thesis by (simp add: user_effect_def)
qed

lemma monitor_runs:
  assumes run: "run_ok t cpu st" and cur: "cur_comp (table st) = 0"
  shows "(\<exists>b. monitor_main t (box st) = Some (Inr b)) \<or>
    g_phase st = 1 \<and> mon_prog_cnt (box st) \<noteq> 0 \<and>
    (\<exists>u. monitor_main t (box st) = Some (Inl u) \<and> has_hazard (box st) u)"
proof -
  have core: "core_ok t st" and ph: "phase_ok 0 st" using run cur by (simp_all add: run_ok_def)
  have ok: "inputs_ok (box st)" "progs_ok (box st)" using core by (simp_all add: core_ok_def serve_ok_def)
  have pk: "packets_ok (box st)" using packets_loaded_ok ok(1) inputs_ok_box by (simp add: inputs_ok_def)
  from ph consider "g_phase st = 1" "mon_mode (box st) = 0" | "mon_mode (box st) = 1" | "mon_mode (box st) = 2"
    by (auto simp: phase_ok_def)
  then show ?thesis
  proof cases
    case 1
    show ?thesis
    proof (cases "mon_prog_cnt (box st) = 0")
      case True
      then show ?thesis using builtin_round [OF pk True, of t] 1 by auto
    next
      case False
      then have "ic_program_check (Some (mon_prog (box st))) (mon_prog_cnt (box st)) = IC_OK"
        using ok(2) by (simp add: progs_ok_def)
      then show ?thesis using loaded_round [OF pk, of t] 1 False by auto
    qed
  next
    case 2
    then show ?thesis using screening_round [of "box st" t] ok(1) by (auto simp: inputs_ok_def)
  next
    case 3
    then show ?thesis using native_filter_runs [OF pk] by (simp add: monitor_main_def)
  qed
qed

lemma can_step:
  assumes run: "run_ok t cpu st" and calm: "g_phase st = 1 \<longrightarrow> mon_prog_cnt (box st) = 0"
  shows "\<exists>c. sys_step t rom (Runs cpu st) c \<and> goes t (rank st - 1) c"
proof (cases "cur_comp (table st) = 0")
  case True
  from monitor_runs [OF run True] calm obtain b where b: "monitor_main t (box st) = Some (Inr b)" by auto
  let ?s = "st\<lparr>box := b\<rparr>"
  have ok: "yield_ok t ?s" by (rule monitor_yield_ok [OF run True b])
  then have "core_ok t ?s" by (simp add: yield_ok_def)
  note same = yield_same_round [OF this, of undefined undefined]
  have "rank (yield_trap undefined undefined ?s) = rank st" using same_round_keeps(4) [OF same] by (simp add: rank_def)
  with resume_goes [OF yield_ok_same [OF ok same], of rom] sys_step.monitor_yields [OF True b] show ?thesis by metis
next
  case False
  have core: "core_ok t st" using run by (simp add: run_ok_def)
  then have eff: "user_effect t st st" by (intro user_effect_same) (simp add: core_ok_def serve_ok_def)
  note same = yield_same_round [OF core, of undefined undefined]
  from resume_goes [OF yield_ok_same [OF user_yield_ok [OF run False] same], of rom]
    sys_step.user_yields [OF False eff, of rom cpu undefined undefined] same_round_keeps(4) [OF same]
  show ?thesis by auto
qed

text \<open>The round is over: the service loop on the board, the report on the emulator.\<close>

definition ended :: "ctl \<Rightarrow> bool" where
  "ended c \<longleftrightarrow> (\<exists>st. c = Reports st) \<or> (\<exists>rx seen st. c = Serves rx seen st)"

lemma can_end:
  assumes "goes t n c" "n \<le> 10"
  shows "\<exists>m c'. m \<le> n \<and> (act_step t rom ^^ m) c c' \<and> ended c' \<and> goes t 0 c'"
  using assms
proof (induction n arbitrary: c)
  case 0
  then show ?case
    using rank_pos(1) by (intro exI [of _ 0] exI [of _ c]) (fastforce simp: goes_def ended_def split: ctl.splits)
next
  case (Suc n)
  show ?case
  proof (cases "\<exists>cpu st. c = Runs cpu st")
    case True
    then obtain cpu st where c: "c = Runs cpu st" by blast
    then have run: "run_ok t cpu st" "rank st \<le> Suc n" using Suc.prems(1) by (simp_all add: goes_def)
    then have "g_phase st \<noteq> 1" using Suc.prems(2) by (auto simp: rank_def)
    with can_step [OF run(1), of rom] obtain d where d: "sys_step t rom c d" "goes t (rank st - 1) d" using c by auto
    have "goes t n d" using d(2) run(2) by (auto simp: goes_def split: ctl.splits)
    from Suc.IH [OF this] Suc.prems(2) obtain m c' where m: "m \<le> n" "(act_step t rom ^^ m) d c'" "ended c'" "goes t 0 c'" by auto
    have "act_step t rom c d" using d(1) c by (auto simp: act_step_def)
    with m(2) have "(act_step t rom ^^ Suc m) c c'" by (metis relpowp_Suc_I2)
    with m show ?thesis by (intro exI [of _ "Suc m"] exI [of _ c']) simp
  next
    case False
    then have "ended c \<and> goes t 0 c" using Suc.prems(1) by (auto simp: goes_def ended_def split: ctl.splits)
    then show ?thesis by (intro exI [of _ 0] exI [of _ c]) simp
  qed
qed


subsection \<open>The verdicts are frozen after the first activation\<close>

definition shows_verdicts :: "u32 list \<Rightarrow> ctl \<Rightarrow> bool" where
  "shows_verdicts vs c \<longleftrightarrow> (\<forall>st. sup_of c = Some st \<longrightarrow> mon_verdicts (box st) = vs)"

lemma shows_enter: "shows_verdicts vs (enter_checked i st) \<longleftrightarrow> mon_verdicts (box st) = vs \<or> enter_checked i st = Crashes"
  by (cases "compartment_enter i (m_regs st) (m_mstatus st) (table st)")
    (auto simp: enter_checked_def shows_verdicts_def status_set_def)

lemma shows_done: "mon_verdicts (box st) = vs \<Longrightarrow> shows_verdicts vs (native_done t p st)"
  by (cases t) (simp_all add: native_done_def shows_verdicts_def Let_def)

lemma shows_next: "mon_verdicts (box st) = vs \<Longrightarrow> shows_verdicts vs (next_activation ph mode st)"
  by (simp add: next_activation_def Let_def timer_now_def shows_enter)

lemma shows_atk: "mon_verdicts (box st) = vs \<Longrightarrow> shows_verdicts vs (atk_schedule t rom v st)"
  by (simp add: atk_schedule_def Let_def shows_enter)

lemma finalize_box: "box (finalize_round s st) = box st"
  by (simp add: finalize_round_def Let_def)

text \<open>What \<open>atk_advance\<close> notes about the lifetime that ended.\<close>

definition atk_noted :: "sup \<Rightarrow> sup" where
  "atk_noted st =
     (let v = g_atk_vec st;
          st = (if v = 0 then status_set S_OWNOOK (if atk_own st = 0xBEEF5EED then 1 else 0) st else st);
          st = (if v = 6 then status_set S_RDROK (if atk_proof st = 0x5EEDC0DE then 1 else 0) st else st)
      in st\<lparr>g_atk_vec := v + 1\<rparr>)"

lemma atk_noted_box: "box (atk_noted st) = box st"
  by (simp add: atk_noted_def Let_def)

lemma atk_advance_noted:
  "atk_advance t rom st =
     (let st = atk_noted st in
      if g_atk_vec st < 7 then atk_schedule t rom (g_atk_vec st) st
      else (case input_sum (box st) of
              None \<Rightarrow> Crashes
            | Some s \<Rightarrow>
                (let st = finalize_round s st; live = g_nat st ! unat (g_nat_live st) in
                 if g_nat_retired st \<noteq> 0 \<or> n_valid live = 0 \<or> n_evicted live \<noteq> 0
                 then native_done t 0 (status_set S_NSLOT 0xFFFFFFFF st)
                 else enter_checked 2 ((status_set S_NSLOT (g_nat_live st) st)\<lparr>g_phase := 5\<rparr>))))"
  by (simp only: atk_advance_def atk_noted_def Let_def)

lemma shows_advance:
  assumes "mon_verdicts (box st) = vs"
  shows "shows_verdicts vs (atk_advance t rom st)"
proof -
  have "mon_verdicts (box (atk_noted st)) = vs" using assms by (simp add: atk_noted_box)
  moreover have "shows_verdicts vs Crashes" by (simp add: shows_verdicts_def)
  ultimately show ?thesis
    unfolding atk_advance_noted Let_def
    by (simp add: shows_done shows_atk shows_enter finalize_box split: option.split)
qed

lemma shows_if: "(\<not> b \<Longrightarrow> shows_verdicts vs c) \<Longrightarrow> shows_verdicts vs (if b then Crashes else c)"
  by (simp add: shows_verdicts_def)

lemma shows_screen:
  assumes "mon_verdicts (box st) = vs"
  shows "shows_verdicts vs (resume_screen st)"
  unfolding resume_screen_def Let_def timer_now_def prod.case
  by (rule shows_if, rule shows_next) (simp add: assms)

lemma shows_native: "mon_verdicts (box st) = vs \<Longrightarrow> shows_verdicts vs (resume_native t rom st)"
  by (simp add: resume_native_def Let_def timer_now_def shows_atk)

text \<open>After the first activation no step changes what the monitor decided.\<close>

lemma shows_resume:
  assumes "mon_verdicts (box st) = vs" "g_phase st \<noteq> 1"
  shows "shows_verdicts vs (supervisor_resume t rom st)"
  using assms by (simp add: supervisor_resume_def shows_screen shows_native shows_advance shows_done)

lemma native_strike_box: "native_strike st = Some st' \<Longrightarrow> box st' = box st"
  by (auto simp: native_strike_def tele_fault_def Let_def nat_update_def status_inc_def elim!: send_limited_frame
      split: option.splits if_splits)

lemma preempted_box: "box (preempted cause st) = box st" "g_phase (preempted cause st) = g_phase st"
  by (simp_all add: preempted_def status_inc_def) (simp add: status_set_def)

lemma shows_fault:
  assumes vs: "mon_verdicts (box st) = vs" and ph: "g_phase st = 4 \<or> g_phase st = 5"
  shows "shows_verdicts vs (supervisor_fault t rom cause st)"
proof -
  let ?s = "(preempted cause st)\<lparr>table := compartment_evict (cur_comp (table (preempted cause st))) (table (preempted cause st))\<rparr>"
  have s: "mon_verdicts (box ?s) = vs" "g_phase ?s = g_phase st" using vs by (simp_all add: preempted_box)
  have wait: "shows_verdicts vs Waiting" by (simp add: shows_verdicts_def)
  have strike: "shows_verdicts vs (case (if q then native_strike ?s else Some ?s) of None \<Rightarrow> Waiting | Some st \<Rightarrow> native_done t 0 st)" for q
    using s(1) wait native_strike_box [of ?s] by (auto simp: shows_done split: option.split)
  have "supervisor_fault t rom cause st =
      (if g_phase ?s = 4 then atk_advance t rom ?s
       else (case (if cur_comp (table ?s) = 2 then native_strike ?s else Some ?s) of None \<Rightarrow> Waiting | Some st \<Rightarrow> native_done t 0 st))"
    using ph s(2) by (auto simp: supervisor_fault_def preempted_def Let_def)
  then show ?thesis using strike shows_advance [OF s(1)] by simp
qed

lemma trap_box [simp]: "box (yield_trap e regs st) = box st" "box (fault_trap e cause addr regs st) = box st"
  "g_phase (yield_trap e regs st) = g_phase st"
  by (simp_all add: yield_trap_def fault_trap_def ring_record_def Let_def)

lemma kept_verdicts:
  assumes "kept st" "kept (st\<lparr>box := b\<rparr>)" "box_wf (box st)" "box_wf b"
  shows "mon_verdicts b = mon_verdicts (box st)"
  using assms by (auto simp: kept_def box_wf_def intro!: nth_equalityI)

lemma step_shows:
  assumes run: "run_ok t cpu st" and ph: "g_phase st \<noteq> 1" and step: "sys_step t rom (Runs cpu st) c"
    and go: "\<And>s. c \<noteq> Halts s"
  shows "shows_verdicts (mon_verdicts (box st)) c"
  using step
proof (cases rule: run_step_cases)
  case (yields b e regs)
  have core: "core_ok t st" and p0: "phase_ok 0 st" using run yields(1) by (simp_all add: run_ok_def)
  note r = monitor_result [OF core p0 yields(2)]
  have k: "kept st" using p0 ph by (auto simp: phase_ok_def)
  have "box_wf (box st)" "box_wf b"
    using core r(1) by (simp_all add: core_ok_def inputs_ok_box)
  then have "mon_verdicts b = mon_verdicts (box st)" using kept_verdicts [OF k r(2)] ph by simp
  then show ?thesis using shows_resume [of "yield_trap e regs (st\<lparr>box := b\<rparr>)"] yields(3) ph by simp
next
  case (user st' e regs)
  note keep = user_keeps [OF run user(1,2)]
  then show ?thesis using shows_resume [of "yield_trap e regs st'"] user(3) ph by (simp add: same_round_def)
next
  case (monitor_traps st' cause e addr regs)
  with monitor_trap_halts [OF run monitor_traps(1,2)] go show ?thesis by metis
next
  case (user_traps st' cause e addr regs)
  note keep = user_keeps [OF run user_traps(1,2)]
  then have "box st' = box st" "g_phase st' = g_phase st" by (simp_all add: same_round_def)
  moreover have "g_phase st = 4 \<or> g_phase st = 5" using run user_traps(1) by (auto simp: run_ok_def phase_ok_def)
  ultimately show ?thesis using shows_fault [of "fault_trap e cause addr regs st'"] user_traps(3) by simp
qed

lemma goes_halts: "\<not> goes t n (Halts s)"
  by (simp add: goes_def)

lemma reachable_shape: "reachable t rom (Runs cpu st) \<Longrightarrow> sup_shape st"
  by (drule reachable_run) (simp add: run_ok_def core_ok_def serve_ok_def)

lemma later_phase: "goes t n (Runs cpu st) \<Longrightarrow> n \<le> 10 \<Longrightarrow> g_phase st \<noteq> 1"
  by (auto simp: goes_def rank_def)

text \<open>Along the activations after the first, the verdicts stay what they were.\<close>

definition settled :: "target \<Rightarrow> u32 list \<Rightarrow> ctl \<Rightarrow> bool" where
  "settled t vs c \<longleftrightarrow> goes t 10 c \<and> shows_verdicts vs c"

lemma settled_step:
  assumes "settled t vs c" "act_step t rom c c'"
  shows "settled t vs c' \<or> c' = Waiting \<or> (\<exists>s. c' = Halts s)"
proof -
  obtain cpu st where c: "c = Runs cpu st" "sys_step t rom (Runs cpu st) c'" using assms(2) by (auto simp: act_step_def)
  have run: "run_ok t cpu st" "rank st \<le> 10" "mon_verdicts (box st) = vs"
    using assms(1) c(1) by (simp_all add: settled_def goes_def shows_verdicts_def)
  have ph: "g_phase st \<noteq> 1" using run(2) by (auto simp: rank_def)
  from run_step_goes [OF run(1) c(2)] step_shows [OF run(1) ph c(2)] run(2,3) show ?thesis
    by (cases c') (auto simp: settled_def goes_def)
qed

lemma settled_path:
  "(act_step t rom ^^ n) c c' \<Longrightarrow> settled t vs c \<Longrightarrow> settled t vs c' \<or> c' = Waiting \<or> (\<exists>s. c' = Halts s)"
proof (induction n arbitrary: c')
  case 0
  then show ?case by simp
next
  case (Suc n)
  then obtain d where d: "(act_step t rom ^^ n) c d" "act_step t rom d c'" by auto
  then have "\<exists>cpu st. d = Runs cpu st" by (simp add: act_step_def)
  then have "settled t vs d" using Suc.IH [OF d(1) Suc.prems(2)] by auto
  then show ?case using d(2) by (rule settled_step)
qed

lemma run_settled:
  assumes "run_ok t cpu st" "g_phase st \<noteq> 1"
  shows "settled t (mon_verdicts (box st)) (Runs cpu st)"
  using assms by (auto simp: settled_def shows_verdicts_def goes_def rank_def run_ok_def phase_ok_def word_le_nat_alt)

text \<open>The first activation with the built-in policy.\<close>

lemma shows_packets:
  assumes "mon_verdicts (box st) = vs"
  shows "shows_verdicts vs (resume_packets st)"
proof -
  have rb: "mon_verdicts (box (rollback_program s)) = vs" if "mon_verdicts (box s) = vs" for s
    using rollback_cases [of s] that by (auto simp: status_inc_def)
  have "shows_verdicts vs (next_activation 2 1 (rollback_program s))" if "mon_verdicts (box s) = vs" for s
    by (rule shows_next) (rule rb [OF that])
  moreover have "shows_verdicts vs Crashes" by (simp add: shows_verdicts_def)
  ultimately show ?thesis
    using assms by (simp add: resume_packets_def Let_def timer_now_def split: option.split)
qed

lemma first_step:
  assumes run: "run_ok t cpu st" and ph: "g_phase st = 1" and builtin: "mon_prog_cnt (box st) = 0"
    and step: "sys_step t rom (Runs cpu st) c"
  shows "settled t want c \<or> c = Waiting \<or> (\<exists>s. c = Halts s)"
proof -
  have cur: "cur_comp (table st) = 0" and p0: "phase_ok 0 st" using run ph by (auto simp: run_ok_def phase_ok_def)
  have goes: "goes t 10 c \<or> c = Waiting \<or> (\<exists>s. c = Halts s)"
    using run_step_goes [OF run step] ph by (auto simp: rank_def)
  have core: "core_ok t st" using run by (simp add: run_ok_def)
  then have ok: "inputs_ok (box st)" by (simp add: core_ok_def)
  then have pk: "packets_ok (box st)" using packets_loaded_ok inputs_ok_box by (simp add: inputs_ok_def)
  show ?thesis
    using step
  proof (cases rule: run_step_cases)
    case (yields b e regs)
    have "mon_mode (box st) = 0" using p0 ph by (auto simp: phase_ok_def)
    then have "mon_verdicts b = want"
      using builtin_round [OF pk builtin, of t] yields(2) packets_loaded_verdicts [of "box st"] ok
      by (auto simp: inputs_ok_def)
    then have "shows_verdicts want (resume_packets (yield_trap e regs (st\<lparr>box := b\<rparr>)))"
      by (intro shows_packets) simp
    then show ?thesis using goes yields(3) ph by (simp add: supervisor_resume_def settled_def)
  next
    case (monitor_traps st' cause e addr regs)
    with monitor_trap_halts [OF run monitor_traps(1,2)] show ?thesis by metis
  qed (use cur in simp_all)
qed


subsection \<open>Isolation\<close>

lemma sup_objs_apart:
  assumes "i < 4" "p \<in> set (spec_regions (shipped_specs t ! i))" "ob = Sup_ram \<or> ob = Mirror"
  shows "apart p (extent t ob)"
proof -
  have "\<forall>t \<in> set [Qemu, Board]. \<forall>i \<in> set [0..<4]. \<forall>p \<in> set (spec_regions (shipped_specs t ! i)).
      apart p (extent t Sup_ram) \<and> apart p (extent t Mirror)"
    by code_simp
  moreover have "t \<in> set [Qemu, Board]" by (cases t) simp_all
  moreover have "i \<in> set [0..<4]" using assms(1) by simp
  ultimately show ?thesis using assms(2,3) by blast
qed

lemma run_rights:
  assumes run: "run_ok t cpu st" and sp: "sp = c_spec (comps (table st) ! unat (cur_comp (table st)))"
  shows "sp \<in> set (shipped_specs t)"
    "pmp_allows (csrs (table st)) acc x \<longleftrightarrow>
      (if in_region (sram_base sp) (sram_size sp) x then acc \<noteq> Exec
       else in_region (text_base sp) (text_size sp) x \<and> acc \<noteq> Write)"
    "pmp_allows (csrs (table st)) acc x \<Longrightarrow> ob = Sup_ram \<or> ob = Mirror \<Longrightarrow>
      \<not> in_region (fst (extent t ob)) (snd (extent t ob)) x"
proof -
  note r = run_spec [OF run]
  have s: "sp = shipped_specs t ! spec_no st" using r(3) sp by simp
  have "length (shipped_specs t) = 4" by (simp add: shipped_specs_def)
  then show "sp \<in> set (shipped_specs t)" using r(1) s by simp
  show al: "pmp_allows (csrs (table st)) acc x \<longleftrightarrow>
      (if in_region (sram_base sp) (sram_size sp) x then acc \<noteq> Exec
       else in_region (text_base sp) (text_size sp) x \<and> acc \<noteq> Write)"
    unfolding s by (rule pmp_holds_allows [OF r(2) shipped_regular [OF r(1)]])
  assume a: "pmp_allows (csrs (table st)) acc x" and ob: "ob = Sup_ram \<or> ob = Mirror"
  then have "\<exists>p \<in> set (spec_regions sp). in_region (fst p) (snd p) x"
    using al by (auto simp: spec_regions_def split: if_splits)
  then obtain p where "p \<in> set (spec_regions sp)" "in_region (fst p) (snd p) x" by blast
  with sup_objs_apart [OF r(1) _ ob] s show "\<not> in_region (fst (extent t ob)) (snd (extent t ob)) x"
    by (metis apart_regions)
qed

text \<open>
  C1: whoever runs has exactly the rights of its entry in the memory map.  In every reachable state with
  user code on the CPU, the PMP lets it read and write its SRAM, read and execute its text, and nothing
  else; no byte of the supervisor's RAM or of the flash mirror is accessible in any way.
\<close>

theorem running_rights:
  assumes "reachable t rom (Runs cpu st)" and "sp = c_spec (comps (table st) ! unat (cur_comp (table st)))"
  shows "sp \<in> set (shipped_specs t) \<and>
    (pmp_allows (csrs (table st)) acc x \<longleftrightarrow>
      (if in_region (sram_base sp) (sram_size sp) x then acc \<noteq> Exec
       else in_region (text_base sp) (text_size sp) x \<and> acc \<noteq> Write)) \<and>
    \<not> (pmp_allows (csrs (table st)) acc x \<and>
       (in_region (fst (extent t Sup_ram)) (snd (extent t Sup_ram)) x \<or>
        in_region (fst (extent t Mirror)) (snd (extent t Mirror)) x))"
  using run_rights [OF reachable_run [OF assms(1)] assms(2)] by blast

text \<open>The demonstration boot is a reachable state.\<close>

lemma demo_reachable:
  "\<exists>cpu st. reachable Qemu demo_rom (Runs cpu st) \<and> cur_comp (table st) = 0 \<and> g_phase st = 1 \<and> mon_prog_cnt (box st) = 0"
proof -
  obtain cpu st where d: "boot_main Qemu demo_rom demo_env idle_sup = Runs cpu st" "cur_comp (table st) = 0"
      "g_phase st = 1" "mon_prog_cnt (box st) = 0"
    using demo_boot by blast
  have "length (native_demo demo_rom) \<le> 0x1000" by (simp add: demo_rom_def)
  from reachable.boots [OF idle_sup_shape this, of Qemu demo_env] show ?thesis using d by auto
qed

theorem running_rights_witness:
  "\<exists>cpu st. reachable Qemu demo_rom (Runs cpu st) \<and> pmp_allows (csrs (table st)) Write 0x80200004 \<and>
    \<not> pmp_allows (csrs (table st)) Read 0x80010000"
proof -
  obtain cpu st where d: "reachable Qemu demo_rom (Runs cpu st)" "cur_comp (table st) = 0" using demo_reachable by blast
  have sp: "c_spec (comps (table st) ! unat (cur_comp (table st))) = ic_comp_monitor Qemu"
    using run_spec(3) [OF reachable_run [OF d(1)]] d(2) by (simp add: spec_no_def shipped_specs_def)
  note r = running_rights [OF d(1) refl, unfolded sp]
  have "pmp_allows (csrs (table st)) Write 0x80200004" "\<not> pmp_allows (csrs (table st)) Read 0x80010000"
    using r [of Write "0x80200004"] r [of Read "0x80010000"] by (simp_all add: in_region_def)
  then show ?thesis using d(1) by blast
qed

text \<open>
  C2: user code is confined.  Whatever the code on the CPU does before its next trap, in memory it can have
  changed only the monitor's box when it is the monitor, two words of its own box when it is the attacker,
  and the SRAM of the live slot when it is the native module; every other byte and register the supervisor
  relies on is as it was.
\<close>

theorem user_code_confined:
  assumes "reachable t rom (Runs cpu st)" "user_effect t st st'"
  shows "cur_comp (table st) = 0 \<and> (\<exists>b. box_wf b \<and> st' = st\<lparr>box := b\<rparr>) \<or>
    cur_comp (table st) = 1 \<and> (\<exists>a p. st' = st\<lparr>atk_own := a, atk_proof := p\<rparr>) \<or>
    cur_comp (table st) = 2 \<and> (\<exists>v. st' = st\<lparr>nat_sram := (nat_sram st)[unat (g_nat_live st) := v]\<rparr>)"
  using assms reachable_run run_confined by blast

theorem user_code_confined_witness:
  "\<exists>cpu st b. reachable Qemu demo_rom (Runs cpu st) \<and> user_effect Qemu st st \<and> st = st\<lparr>box := b\<rparr>"
proof -
  obtain cpu st where d: "reachable Qemu demo_rom (Runs cpu st)" "cur_comp (table st) = 0" using demo_reachable by blast
  have "user_effect Qemu st st" using reachable_shape [OF d(1)] by (rule user_effect_same)
  from user_code_confined [OF d(1) this] this show ?thesis using d by auto
qed

subsection \<open>Rounds\<close>

text \<open>
  C8: every round ends.  From any reachable state at most eleven activations follow before the round is
  over, whatever the attacker and the native module do: three of the monitor, seven of the attacker, one of
  the native module.
\<close>

theorem round_bounded:
  assumes "reachable t rom c" "(act_step t rom ^^ n) c c'"
  shows "n \<le> 11"
  using act_bound [OF assms(2,1)] .

lemma demo_first:
  assumes "reachable t rom (Runs cpu st)" "mon_prog_cnt (box st) = 0"
  shows "\<exists>c. act_step t rom (Runs cpu st) c \<and> goes t (rank st - 1) c"
  using can_step [OF reachable_run [OF assms(1)], of rom] assms(2) by (auto simp: act_step_def)

lemma demo_round:
  "\<exists>cpu st n st'. reachable Qemu demo_rom (Runs cpu st) \<and> g_phase st = 1 \<and> mon_prog_cnt (box st) = 0 \<and>
    (act_step Qemu demo_rom ^^ n) (Runs cpu st) (Reports st')"
proof -
  obtain cpu st where d: "reachable Qemu demo_rom (Runs cpu st)" "g_phase st = 1" "mon_prog_cnt (box st) = 0"
    using demo_reachable by blast
  obtain c where c: "act_step Qemu demo_rom (Runs cpu st) c" "goes Qemu 10 c"
    using demo_first [OF d(1,3)] d(2) by (auto simp: rank_def)
  from can_end [OF c(2) order_refl, of demo_rom] obtain m e where
    m: "(act_step Qemu demo_rom ^^ m) c e" "ended e" "goes Qemu 0 e" by blast
  then obtain st' where "e = Reports st'" by (auto simp: ended_def goes_def)
  moreover have "(act_step Qemu demo_rom ^^ Suc m) (Runs cpu st) e" using c(1) m(1) by (metis relpowp_Suc_I2)
  ultimately show ?thesis using d by blast
qed

theorem round_bounded_witness:
  "\<exists>cpu st n st'. (act_step Qemu demo_rom ^^ n) (Runs cpu st) (Reports st') \<and> n \<le> 11"
  using demo_round round_bounded by metis




text \<open>
  C5: what the monitor decided cannot be changed.  Once the first activation of a round is over, no code of
  the attacker or of the native module, no trap and no later activation changes the verdicts in the monitor's
  box or those on show in STATUS, up to and including the state in which the round is over.
\<close>

theorem verdicts_unforgeable:
  assumes "reachable t rom (Runs cpu st)" "g_phase st \<noteq> 1"
    and "(act_step t rom ^^ n) (Runs cpu st) c" "ended c" "sup_of c = Some st'"
  shows "mon_verdicts (box st') = mon_verdicts (box st) \<and>
    (\<forall>i \<in> {0..<6}. status st' ! (S_CAIJUE + i) = status st ! (S_CAIJUE + i))"
proof -
  have run: "run_ok t cpu st" by (rule reachable_run [OF assms(1)])
  have "settled t (mon_verdicts (box st)) c"
    using settled_path [OF assms(3) run_settled [OF run assms(2)]] assms(4) by (auto simp: ended_def)
  then have v: "mon_verdicts (box st') = mon_verdicts (box st)" and g: "goes t 10 c"
    using assms(5) by (simp_all add: settled_def shows_verdicts_def)
  have "kept st'" using g assms(4,5) by (auto simp: ended_def goes_def over_def finalized_def)
  moreover have "kept st" using run assms(2) by (auto simp: run_ok_def phase_ok_def finalized_def)
  ultimately show ?thesis using v by (simp add: kept_def S_CAIJUE_def)
qed

lemma packets_run:
  assumes "goes t n (resume_packets st)"
  shows "\<exists>cpu s. resume_packets st = Runs cpu s"
proof -
  have "resume_packets st = Crashes \<or> (\<exists>s. resume_packets st = next_activation 2 1 s)"
    by (auto simp: resume_packets_def Let_def timer_now_def split: option.split)
  moreover have "\<exists>r. next_activation 2 1 s = enter_checked 0 r" for s
    by (auto simp: next_activation_def Let_def timer_now_def)
  moreover have "\<not> goes t n Crashes" by (simp add: goes_def)
  ultimately show ?thesis using assms enter_is_run by metis
qed

lemma packets_next:
  assumes run: "run_ok t cpu st" and ph: "g_phase st = 1" and step: "sys_step t rom (Runs cpu st) c"
    and go: "goes t n c"
  shows "\<exists>cpu s. c = Runs cpu s"
  using step
proof (cases rule: run_step_cases)
  case (yields b e regs)
  then have "c = resume_packets (yield_trap e regs (st\<lparr>box := b\<rparr>))" using ph by (simp add: supervisor_resume_def)
  with packets_run go show ?thesis by metis
next
  case (monitor_traps st' cause e addr regs)
  with monitor_trap_halts [OF run monitor_traps(1,2)] go show ?thesis by (metis goes_halts)
qed (use run ph in \<open>auto simp: run_ok_def phase_ok_def\<close>)

lemma demo_settled:
  "\<exists>cpu st n st'. reachable Qemu demo_rom (Runs cpu st) \<and> g_phase st \<noteq> 1 \<and>
    (act_step Qemu demo_rom ^^ n) (Runs cpu st) (Reports st')"
proof -
  obtain cpu st where d: "reachable Qemu demo_rom (Runs cpu st)" "g_phase st = 1" "mon_prog_cnt (box st) = 0"
    using demo_reachable by blast
  obtain c where c: "act_step Qemu demo_rom (Runs cpu st) c" "goes Qemu 10 c"
    using demo_first [OF d(1,3)] d(2) by (auto simp: rank_def)
  from d(1) c(1) have rc: "reachable Qemu demo_rom c" by (auto simp: act_step_def intro: reachable.steps)
  have "sys_step Qemu demo_rom (Runs cpu st) c" using c(1) by (simp add: act_step_def)
  from packets_next [OF reachable_run [OF d(1)] d(2) this c(2)] obtain cpu' s where s: "c = Runs cpu' s" by blast
  have ph: "g_phase s \<noteq> 1" using later_phase [of Qemu 10 cpu' s] c(2) s by simp
  from can_end [OF c(2) order_refl, of demo_rom] obtain m e where
    m: "(act_step Qemu demo_rom ^^ m) c e" "ended e" "goes Qemu 0 e" by blast
  then obtain st' where "e = Reports st'" by (auto simp: ended_def goes_def)
  then show ?thesis using m(1) s rc ph by blast
qed

theorem verdicts_unforgeable_witness:
  "\<exists>cpu st n st'. (act_step Qemu demo_rom ^^ n) (Runs cpu st) (Reports st') \<and>
    mon_verdicts (box st') = mon_verdicts (box st)"
  using demo_settled verdicts_unforgeable [where c = "Reports _"] by (metis ended_def sup_of.simps(3))

lemma builtin_verdicts:
  assumes run: "run_ok t cpu st" and "g_phase st = 1" "mon_prog_cnt (box st) = 0"
    and "(act_step t rom ^^ n) (Runs cpu st) c" "ended c" "sup_of c = Some st'"
  shows "map (\<lambda>i. status st' ! (S_CAIJUE + i)) [0..<6] = want \<and>
    status st' ! S_VINTACT = 1 \<and> status st' ! S_IINTACT = 1 \<and> status st' ! S_NATOK = 1 \<and>
    status st' ! S_DONE = 0x600DF00D"
proof -
  have "n \<noteq> 0" using assms(4,5) by (cases n) (auto simp: ended_def)
  then obtain m d where d: "act_step t rom (Runs cpu st) d" "(act_step t rom ^^ m) d c"
    using assms(4) by (metis not0_implies_Suc relpowp_Suc_D2)
  have "settled t want d \<or> d = Waiting \<or> (\<exists>s. d = Halts s)"
    using first_step [OF run assms(2,3)] d(1) by (auto simp: act_step_def)
  moreover have "d \<noteq> Waiting \<and> (\<forall>s. d \<noteq> Halts s)"
  proof (cases m)
    case 0
    then show ?thesis using d(2) assms(5) by (auto simp: ended_def)
  next
    case (Suc k)
    then obtain e where "act_step t rom d e" using d(2) by (metis relpowp_Suc_D2)
    then show ?thesis by (auto simp: act_step_def)
  qed
  ultimately have "settled t want d" by blast
  from settled_path [OF d(2) this] assms(5) have s: "settled t want c" by (auto simp: ended_def)
  then have v: "mon_verdicts (box st') = want" using assms(6) by (simp add: settled_def shows_verdicts_def)
  have ov: "over st'" using s assms(5,6) by (auto simp: settled_def ended_def goes_def)
  then have "\<forall>i < 6. status st' ! (S_CAIJUE + i) = want ! i"
    using v by (simp add: over_def finalized_def kept_def S_CAIJUE_def)
  moreover have "length want = 6" by (simp add: want_def)
  ultimately have "map (\<lambda>i. status st' ! (S_CAIJUE + i)) [0..<6] = want" by (auto intro!: nth_equalityI)
  then show ?thesis using ov v by (simp add: over_def finalized_def)
qed

text \<open>
  C6: the demonstration round always passes.  When a round starts with no program loaded and reaches its end,
  then, whatever the attacker and the native module did in their activations, STATUS shows the six verdicts
  expected of the demonstration packets, and the three flags that the verdicts, the inputs and the native
  filter are intact, and the completion marker.
\<close>

theorem demo_round_passes:
  assumes "reachable t rom (Runs cpu st)" "g_phase st = 1" "mon_prog_cnt (box st) = 0"
    and "(act_step t rom ^^ n) (Runs cpu st) c" "ended c" "sup_of c = Some st'"
  shows "map (\<lambda>i. status st' ! (S_CAIJUE + i)) [0..<6] = want \<and>
    status st' ! S_VINTACT = 1 \<and> status st' ! S_IINTACT = 1 \<and> status st' ! S_NATOK = 1 \<and>
    status st' ! S_DONE = 0x600DF00D"
  using builtin_verdicts [OF reachable_run [OF assms(1)] assms(2-6)] .

theorem demo_round_passes_witness:
  "\<exists>cpu st n st'. (act_step Qemu demo_rom ^^ n) (Runs cpu st) (Reports st') \<and> status st' ! S_VINTACT = 1"
  using demo_round demo_round_passes [where c = "Reports _"] by (metis ended_def sup_of.simps(3))


subsection \<open>Failures\<close>

text \<open>
  C9: only the monitor can stop the machine.  A step from user code never leaves the supervisor's objects,
  never parks the core and never ends in a fail-stop, except that a trap of the monitor itself halts
  with a record of the phase and the cause; it otherwise runs the next compartment, ends the round, or
  waits for the transmitter.
\<close>

theorem only_monitor_halts:
  assumes "reachable t rom (Runs cpu st)" "sys_step t rom (Runs cpu st) c"
  shows "(\<exists>cpu' st'. c = Runs cpu' st') \<or> ended c \<or> c = Waiting \<or>
    cur_comp (table st) = 0 \<and> (\<exists>s. c = Halts s \<and> status s ! S_HALT = 0x48414C54 \<and>
      (\<exists>p cause. p \<in> {1, 2, 3} \<and> status s ! S_HALTC = push_bit 24 p OR (cause AND 0xFFFFFF)))"
proof -
  from run_step_goes [OF reachable_run [OF assms(1)] assms(2)] show ?thesis
  proof (elim disjE conjE exE)
    assume "goes t (rank st - 1) c"
    then show ?thesis by (cases c) (auto simp: goes_def ended_def)
  qed (auto simp: halted_def)
qed

theorem only_monitor_halts_witness:
  "\<exists>cpu st c. reachable Qemu demo_rom (Runs cpu st) \<and> sys_step Qemu demo_rom (Runs cpu st) c \<and>
    ((\<exists>cpu' st'. c = Runs cpu' st') \<or> ended c \<or> c = Waiting \<or> (\<exists>s. c = Halts s))"
proof -
  obtain cpu st where d: "reachable Qemu demo_rom (Runs cpu st)" "mon_prog_cnt (box st) = 0" using demo_reachable by blast
  then obtain c where "sys_step Qemu demo_rom (Runs cpu st) c" using demo_first [OF d] by (auto simp: act_step_def)
  with only_monitor_halts [OF d(1) this] d(1) show ?thesis by blast
qed

text \<open>
  C23: a monitor activation is defined.  In every reachable state with the monitor on the CPU, its code returns
  a box, or the loaded program, accepted by the verifier, runs in packet mode into one of the two arithmetic
  hazards and contains such an instruction; the built-in policies never do.
\<close>

theorem monitor_activation_defined:
  assumes "reachable t rom (Runs cpu st)" "cur_comp (table st) = 0"
  shows "(\<exists>b. monitor_main t (box st) = Some (Inr b)) \<or>
    g_phase st = 1 \<and> mon_prog_cnt (box st) \<noteq> 0 \<and>
    (\<exists>u. monitor_main t (box st) = Some (Inl u) \<and> has_hazard (box st) u)"
  using assms reachable_run monitor_runs by blast

theorem monitor_activation_defined_witness:
  "\<exists>cpu st b. reachable Qemu demo_rom (Runs cpu st) \<and> monitor_main Qemu (box st) = Some (Inr b)"
  using demo_reachable monitor_activation_defined by metis

text \<open>
  C10: the supervisor's state stays well formed.  In every reachable state but the fail-stop, every object has
  its size and every index is in its range, and each program slot of the monitor is empty or holds a program
  the verifier accepts, whatever came over the wire and whatever the compartments did.
\<close>

theorem state_stays_well_formed:
  assumes "reachable t rom c" "sup_of c = Some st" "\<nexists>s. c = Halts s"
  shows "sup_shape st \<and>
    (mon_prog_cnt (box st) = 0 \<or> ic_program_check (Some (mon_prog (box st))) (mon_prog_cnt (box st)) = IC_OK) \<and>
    (mon_prog_b_cnt (box st) = 0 \<or> ic_program_check (Some (mon_prog_b (box st))) (mon_prog_b_cnt (box st)) = IC_OK)"
proof -
  have "serve_ok st"
    using reachable_ok [OF assms(1)] assms(2,3)
    by (cases c) (auto simp: sys_ok_def run_ok_def core_ok_def over_def)
  then show ?thesis by (auto simp: serve_ok_def progs_ok_def)
qed

theorem state_stays_well_formed_witness:
  "\<exists>cpu st. reachable Qemu demo_rom (Runs cpu st) \<and> length (pend st) = 0x240"
proof -
  obtain cpu st where d: "reachable Qemu demo_rom (Runs cpu st)" using demo_reachable by blast
  with state_stays_well_formed [OF d, of st] show ?thesis by (auto simp: sup_shape_def)
qed


end
