(* ===== verification/Recovery.thy ===== *)
theory Recovery
  imports Guarantees
begin

text \<open>
  How the firmware recovers: the two program slots as a stack of versions, the strike that takes a native
  slot out of the schedule, the forensics ring, and the swarm a round screens.
\<close>

subsection \<open>Program versions\<close>

text \<open>The live program, and below it the one to fall back to; with neither, the built-in policy runs.\<close>

definition versions :: "mon_box \<Rightarrow> u64 list list" where
  "versions b =
     (if mon_prog_cnt b = 0 then [] else [take (unat (mon_prog_cnt b)) (mon_prog b)]) @
     (if mon_prog_b_cnt b = 0 then [] else [take (unat (mon_prog_b_cnt b)) (mon_prog_b b)])"

definition stacked :: "mon_box \<Rightarrow> bool" where
  "stacked b \<longleftrightarrow> mon_prog_cnt b = 0 \<longrightarrow> mon_prog_b_cnt b = 0"

lemma program_live_versions:
  assumes "program_live st st'" "stacked (box st)" "0 < unat (le32 (pend st) 0)"
  shows "versions (box st') = staged_insns (pend st) (le32 (pend st) 0) # take 1 (versions (box st))"
    "stacked (box st')"
proof -
  let ?w = "le32 (pend st) 0"
  have w: "?w \<noteq> 0" using assms(3) by auto
  have eq: "box st' = (box st)\<lparr>mon_prog := mon_prog (box st'), mon_prog_cnt := ?w, mon_prog_fault := 0,
      mon_prog_b := mon_prog (box st), mon_prog_b_cnt := mon_prog_cnt (box st)\<rparr>"
    and new: "mon_prog (box st') = staged_insns (pend st) ?w @ drop (unat ?w) (mon_prog (box st))"
    using assms(1) unfolding program_live_def Let_def by blast+
  have b: "mon_prog (box st') = staged_insns (pend st) ?w @ drop (unat ?w) (mon_prog (box st))"
    "mon_prog_cnt (box st') = ?w" "mon_prog_b (box st') = mon_prog (box st)" "mon_prog_b_cnt (box st') = mon_prog_cnt (box st)"
    using eq new arg_cong [OF eq, of mon_prog_b] arg_cong [OF eq, of mon_prog_b_cnt] arg_cong [OF eq, of mon_prog_cnt]
    by simp_all
  have "length (staged_insns (pend st) ?w) = unat ?w" by (simp add: staged_insns_def)
  then show "versions (box st') = staged_insns (pend st) ?w # take 1 (versions (box st))"
    using b w assms(2) by (simp add: versions_def stacked_def)
  show "stacked (box st')" using b w by (simp add: stacked_def)
qed

lemma rollback_versions:
  assumes "stacked (box st)"
  shows "versions (box (rollback_program st)) =
      (if mon_prog_cnt (box st) \<noteq> 0 \<and> mon_prog_fault (box st) \<noteq> 0 then tl (versions (box st)) else versions (box st))"
    "stacked (box (rollback_program st))"
  using assms by (simp_all add: rollback_program_def versions_def stacked_def Let_def status_inc_def)

text \<open>
  C30: the program slots are a stack of at most two versions.  Installing a staged program either leaves
  them alone or pushes it and forgets all but the one that was live; the rollback after a faulting round pops
  exactly the faulting program; so a faulting update brings back the program, or the built-in policy, that ran
  before it.
\<close>

theorem program_versions:
  assumes "sup_shape st" "stacked (box st)" "le32 (pend st) 0 = w0" "0 < unat w0" "unat w0 \<le> 64"
  shows "(versions (box (install_ebpf t w0 st)) = versions (box st) \<or>
      versions (box (install_ebpf t w0 st)) = staged_insns (pend st) w0 # take 1 (versions (box st))) \<and>
    stacked (box (install_ebpf t w0 st)) \<and>
    versions (box (rollback_program st)) =
      (if mon_prog_cnt (box st) \<noteq> 0 \<and> mon_prog_fault (box st) \<noteq> 0 then tl (versions (box st))
       else versions (box st)) \<and>
    stacked (box (rollback_program st))"
proof -
  note rb = rollback_versions [OF assms(2)]
  have same: "box (swap_reject st) = box st" by (simp add: swap_reject_def status_inc_def)
  from install_ebpf_cases [OF assms(1,3-5), of t] show ?thesis
  proof
    assume "install_ebpf t w0 st = swap_reject st"
    then show ?thesis using same rb assms(2) by simp
  next
    assume live: "program_live st (install_ebpf t w0 st)"
    from program_live_versions [OF live assms(2)] assms(3,4) rb show ?thesis by simp
  qed
qed

definition two_versions :: sup where
  "two_versions = idle_sup\<lparr>box := sample_box\<lparr>mon_prog := replicate 64 0x95, mon_prog_cnt := 1, mon_prog_b := replicate 64 0xB7,
     mon_prog_b_cnt := 2, mon_prog_fault := 4\<rparr>, pend := [1, 0, 0, 0] @ replicate 572 0\<rparr>"

theorem program_versions_witness:
  "versions (box (rollback_program two_versions)) = [[0xB7, 0xB7]]"
proof -
  have f: "mon_prog (box two_versions) = replicate 64 0x95" "mon_prog_cnt (box two_versions) = 1"
    "mon_prog_b (box two_versions) = replicate 64 0xB7" "mon_prog_b_cnt (box two_versions) = 2"
    "mon_prog_fault (box two_versions) = 4" "pend two_versions = [1, 0, 0, 0] @ replicate 572 0"
    by (simp_all add: two_versions_def)
  have "box_wf (box two_versions)" using sample_box_ok by (simp add: packets_ok_def box_wf_def two_versions_def)
  then have "sup_shape two_versions" using idle_sup_shape by (simp add: sup_shape_def two_versions_def)
  moreover have "stacked (box two_versions)" "le32 (pend two_versions) 0 = 1"
    by (simp_all add: stacked_def f le32_def)
  ultimately have "versions (box (rollback_program two_versions)) = tl (versions (box two_versions))"
    using program_versions [of two_versions 1 Board] f by simp
  moreover have "replicate 2 x = [x, x]" for x :: u64 by (simp add: numeral_2_eq_2)
  ultimately show ?thesis using f by (simp add: versions_def)
qed

subsection \<open>The forensics ring\<close>

definition record_all :: "(u32 \<times> u32) list \<Rightarrow> sup \<Rightarrow> sup" where
  "record_all faults st = fold (\<lambda>(c, a). ring_record c a) faults st"

lemma record_all_snoc: "record_all (fs @ [(c, a)]) st = ring_record c a (record_all fs st)"
  by (simp add: record_all_def)

lemma ring_signed: "unat (w::u32) \<le> 7 \<Longrightarrow> w <s 8" 
proof -
  assume "unat w \<le> 7"
  then have "uint w \<le> 7" unfolding uint_nat by linarith
  then have "sint w = uint w"
    by (simp add: sint_uint, intro signed_take_bit_int_eq_self) (simp_all add: order_trans [OF _ uint_nonnegative])
  then show ?thesis using \<open>uint w \<le> 7\<close> by (simp add: word_sless_alt)
qed

lemma ring_step:
  assumes "unat (g_ri_index st) \<le> 7"
  shows "unat (g_ri_index (ring_record c a st)) = min (unat (g_ri_index st) + 1) 7"
proof (cases "unat (g_ri_index st) \<le> 6")
  case True
  then have u: "unat (g_ri_index st + 1) = unat (g_ri_index st) + 1" by (simp add: unat_word_ariths)
  then have "g_ri_index st + 1 <s 8" using True ring_signed [of "g_ri_index st + 1"] by simp
  then show ?thesis using u True by (simp add: ring_record_def Let_def)
next
  case False
  then have "unat (g_ri_index st) = unat (7::u32)" using assms by simp
  then have "g_ri_index st = 7" by (simp only: word_unat_eq_iff)
  then show ?thesis by (simp add: ring_record_def Let_def)
qed

lemma record_all_ring:
  assumes "g_ri_index st = 0" "length (g_ri_cause st) = 8" "length (g_ri_addr st) = 8"
  shows "unat (g_ri_index (record_all fs st)) = min (length fs) 7 \<and>
    length (g_ri_cause (record_all fs st)) = 8 \<and> length (g_ri_addr (record_all fs st)) = 8 \<and>
    (\<forall>i < min (length fs) 7. g_ri_cause (record_all fs st) ! i = fst (fs ! i) \<and>
       g_ri_addr (record_all fs st) ! i = snd (fs ! i)) \<and>
    (8 \<le> length fs \<longrightarrow> g_ri_cause (record_all fs st) ! 7 = fst (last fs) \<and> g_ri_addr (record_all fs st) ! 7 = snd (last fs))"
proof (induction fs rule: rev_induct)
  case Nil
  then show ?case using assms by (simp add: record_all_def)
next
  case (snoc f fs)
  obtain c a where f: "f = (c, a)" by (cases f)
  let ?s = "record_all fs st"
  have idx: "unat (g_ri_index ?s) = min (length fs) 7" and len: "length (g_ri_cause ?s) = 8" "length (g_ri_addr ?s) = 8"
    using snoc.IH by auto
  have i7: "unat (g_ri_index ?s) \<le> 7" using idx by simp
  have new: "g_ri_cause (ring_record c a ?s) = (g_ri_cause ?s)[min (length fs) 7 := c]"
    "g_ri_addr (ring_record c a ?s) = (g_ri_addr ?s)[min (length fs) 7 := a]"
    using idx by (simp_all add: ring_record_def Let_def)
  have "unat (g_ri_index (ring_record c a ?s)) = min (length (fs @ [f])) 7" using ring_step [OF i7] idx by simp
  moreover have "\<forall>i < min (length (fs @ [f])) 7. g_ri_cause (ring_record c a ?s) ! i = fst ((fs @ [f]) ! i) \<and>
      g_ri_addr (ring_record c a ?s) ! i = snd ((fs @ [f]) ! i)"
    using snoc.IH len by (auto simp: new nth_update_if nth_append f less_Suc_eq)
  moreover have "8 \<le> length (fs @ [f]) \<longrightarrow> g_ri_cause (ring_record c a ?s) ! 7 = fst (last (fs @ [f])) \<and>
      g_ri_addr (ring_record c a ?s) ! 7 = snd (last (fs @ [f]))"
    using len by (auto simp: new f min_def)
  ultimately show ?case using len new by (simp add: f record_all_snoc)
qed

text \<open>
  C32: the ring holds the first seven faults since it was cleared in its first seven places, and the last
  of the later ones in its eighth; the telemetry of a fault carries the cause and the address of that very fault
  for the first seven, but of the seventh for every later one.
\<close>

theorem fault_evidence:
  assumes "g_ri_index st = 0" "length (g_ri_cause st) = 8" "length (g_ri_addr st) = 8" "fs \<noteq> []"
  shows "unat (g_ri_index (record_all fs st)) = min (length fs) 7 \<and>
    (\<forall>i < min (length fs) 7. (g_ri_cause (record_all fs st) ! i, g_ri_addr (record_all fs st) ! i) = fs ! i) \<and>
    (length fs \<le> 7 \<or> (g_ri_cause (record_all fs st) ! 7, g_ri_addr (record_all fs st) ! 7) = last fs) \<and>
    take 8 (drop 4 (tele_bytes slot (record_all fs st))) =
      (if length fs \<le> 7 then le32_bytes (fst (last fs)) @ le32_bytes (snd (last fs))
       else le32_bytes (fst (fs ! 6)) @ le32_bytes (snd (fs ! 6)))"
proof -
  let ?s = "record_all fs st"
  note r = record_all_ring [OF assms(1-3), of fs]
  have idx: "unat (g_ri_index ?s) = min (length fs) 7" using r by simp
  have pos: "0 < length fs" using assms(4) by simp
  have "g_ri_index ?s \<noteq> 0"
  proof
    assume "g_ri_index ?s = 0"
    then show False using idx pos by (simp add: min_def split: if_splits)
  qed
  then have "unat (g_ri_index ?s - 1) = min (length fs) 7 - 1" using idx by (simp add: unat_minus_one)
  moreover have "min (length fs) 7 - 1 < min (length fs) 7" using pos by linarith
  moreover have "length fs \<le> 7 \<longrightarrow> last fs = fs ! (min (length fs) 7 - 1)" using assms(4) by (simp add: last_conv_nth min_def)
  moreover have "\<not> length fs \<le> 7 \<longrightarrow> min (length fs) 7 - 1 = 6" by simp
  ultimately show ?thesis
    using r \<open>g_ri_index ?s \<noteq> 0\<close> by (auto simp: tele_bytes_def Let_def le32_bytes_def prod_eq_iff not_le)
qed

definition seven_faults :: "(u32 \<times> u32) list" where
  "seven_faults = map (\<lambda>i. (7, word_of_nat i)) [0..<7]"

theorem fault_evidence_witness:
  "take 4 (drop 8 (tele_bytes 0 (record_all (seven_faults @ [(5, 99)]) idle_sup))) = [6, 0, 0, 0]"
proof -
  have "take 8 (drop 4 (tele_bytes 0 (record_all (seven_faults @ [(5, 99)]) idle_sup))) =
      le32_bytes (fst ((seven_faults @ [(5, 99)]) ! 6)) @ le32_bytes (snd ((seven_faults @ [(5, 99)]) ! 6))"
    using fault_evidence [of idle_sup "seven_faults @ [(5, 99)]" 0]
    by (simp add: idle_sup_def seven_faults_def)
  then have "drop 4 (take 8 (drop 4 (tele_bytes 0 (record_all (seven_faults @ [(5, 99)]) idle_sup)))) = [6, 0, 0, 0]"
    by (simp add: seven_faults_def le32_bytes_def upt_rec)
  then show ?thesis by (simp add: drop_take)
qed

subsection \<open>The strike\<close>

text \<open>
  C31: a fault of the native module costs its slot.  If the supervisor gets past the telemetry, the slot
  is marked evicted; the other slot goes live exactly when it is valid and not evicted, counted as a rollback,
  and otherwise the native phase is retired and the live slot stays; STATUS shows which, the proof
  word is cleared, and the text, SRAM and validity of both slots are as they were.
\<close>

theorem native_strike_switches:
  assumes "sup_shape st" "native_strike st = Some st'"
  shows "n_evicted (g_nat st' ! unat (g_nat_live st)) = 1 \<and>
    map n_valid (g_nat st') = map n_valid (g_nat st) \<and> nat_text st' = nat_text st \<and> nat_sram st' = nat_sram st \<and>
    box st' = box st \<and> status st' ! S_NAT2 = 0 \<and>
    (let other = 1 - g_nat_live st; n = g_nat st ! unat other in
     if n_valid n \<noteq> 0 \<and> n_evicted n = 0
     then g_nat_live st' = other \<and> g_nat_retired st' = 0 \<and> status st' ! S_ROLL = status st ! S_ROLL + 1 \<and>
       status st' ! S_NSLOT = other
     else g_nat_live st' = g_nat_live st \<and> g_nat_retired st' = 1 \<and> status st' ! S_ROLL = status st ! S_ROLL \<and>
       status st' ! S_NSLOT = 0xFFFFFFFF)"
proof -
  let ?dead = "g_nat_live st"
  let ?s1 = "status_set S_NAT2 0 (nat_update ?dead (\<lambda>n. n\<lparr>n_evicted := 1\<rparr>) st)"
  have len: "length (g_nat st) = 2" "length (status st) = 106" using assms(1) by (simp_all add: sup_shape_def)
  have dead: "?dead = 0 \<or> ?dead = 1" using assms(1) live_slot by (simp add: sup_shape_def)
  then have other: "?dead XOR 1 = 1 - ?dead" "unat (1 - ?dead) \<noteq> unat ?dead" "unat ?dead < 2" by auto
  obtain s2 where tele: "tele_fault ?dead ?s1 = Some s2"
    using assms(2) by (auto simp: native_strike_def Let_def split: option.splits)
  then obtain sent s where send: "send_limited FRAME_TELE (tele_bytes ?dead ?s1) 16 50000 ?s1 = Some (sent, s)"
    and s2: "s2 = (if sent then s else status_inc S_TXABORT s)"
    by (auto simp: tele_fault_def split: option.splits)
  from send obtain r k w where s: "s = ?s1\<lparr>reads := r, sends := k, wire := w\<rparr>" by (rule send_limited_frame)
  have f: "g_nat s2 = (g_nat st)[unat ?dead := (g_nat st ! unat ?dead)\<lparr>n_evicted := 1\<rparr>]" "g_nat_live s2 = ?dead"
    "nat_text s2 = nat_text st" "nat_sram s2 = nat_sram st" "box s2 = box st"
    "length (status s2) = 106" "status s2 ! S_NAT2 = 0" "status s2 ! S_ROLL = status st ! S_ROLL"
    using len by (simp_all add: s2 s status_inc_def nat_update_def) (simp_all add: status_set_def status_words)
  have n: "g_nat s2 ! unat (1 - ?dead) = g_nat st ! unat (1 - ?dead)" using f(1) other by simp
  have v: "map n_valid (g_nat s2) = map n_valid (g_nat st)" using f(1) len other by (auto simp: map_update list_eq_iff_nth_eq nth_update_if)
  have ev: "n_evicted (g_nat s2 ! unat ?dead) = 1" using f(1) len other by simp
  have g: "g_nat_live (status_inc k x) = g_nat_live x" "g_nat_retired (status_inc k x) = g_nat_retired x" for k x
    by (simp_all add: status_inc_def status_set_def)
  show ?thesis
  proof (cases "n_valid (g_nat st ! unat (1 - ?dead)) \<noteq> 0 \<and> n_evicted (g_nat st ! unat (1 - ?dead)) = 0")
    case True
    then have "st' = status_set S_NSLOT (1 - ?dead) (status_inc S_ROLL (s2\<lparr>g_nat_live := 1 - ?dead, g_nat_retired := 0\<rparr>))"
      using assms(2) tele n other(1) g by (simp add: native_strike_def Let_def)
    then show ?thesis using True f v ev by (simp add: status_inc_def Let_def) (simp add: status_set_def status_words)
  next
    case False
    then have "st' = status_set S_NSLOT 0xFFFFFFFF (s2\<lparr>g_nat_retired := 1\<rparr>)"
      using assms(2) tele n other(1) by (simp add: native_strike_def Let_def) auto
    then show ?thesis using False f v ev by (simp add: Let_def) (simp add: status_set_def status_words)
  qed
qed


definition struck :: sup where
  "struck = idle_sup\<lparr>tx_polls := (\<lambda>_. replicate 40 (True, 0)),
     g_nat := [\<lparr>n_len = 4, n_entry = 0, n_valid = 1, n_evicted = 0\<rparr>, \<lparr>n_len = 4, n_entry = 2, n_valid = 1, n_evicted = 0\<rparr>]\<rparr>"

theorem native_strike_switches_witness:
  "\<exists>st'. native_strike struck = Some st' \<and> g_nat_live st' = 1 \<and> n_evicted (g_nat st' ! 0) = 1"
proof -
  have ready: "uart_send_frame_limited ty (tele_bytes d s) 16 b t0 (replicate 40 (True, 0)) = None \<longleftrightarrow> False" for ty d s b t0
    using send_ready [of 16 "tele_bytes d s" ty b t0 0] by (simp add: tele_bytes_def le32_bytes_def Let_def)
  have polls: "tx_polls (status_set k v (nat_update d f struck)) n = replicate 40 (True, 0)" for k v d f n
    by (simp add: status_set_def nat_update_def struck_def)
  have "native_strike struck \<noteq> None"
    by (simp add: native_strike_def Let_def tele_fault_def send_limited_def timer_now_def ready polls split: option.split)
  then obtain st' where st': "native_strike struck = Some st'" by blast
  have "sup_shape struck" using idle_sup_shape by (simp add: sup_shape_def struck_def)
  from native_strike_switches [OF this st'] st' show ?thesis by (simp add: struck_def idle_sup_def)
qed

end
