(* ===== verification/Shipped.thy ===== *)
theory Shipped
  imports Recovery
begin

text \<open>
  The compartments the repository ships, running in the system: the seven attack vectors of
  \<^verbatim>\<open>modules/attacker.c\<close>, one per lifetime, and the native demonstration module of
  \<^verbatim>\<open>modules/examples/native_demo.c\<close>.  Each is the sequence of its memory accesses outside its stack; the PMP registers decide
  how far it gets.
\<close>

subsection \<open>The code of the compartments\<close>

datatype uop = Store u32 u32 | Load u32 | Jump u32 | Yield

definition ATK_OWN :: "target \<Rightarrow> u32" where "ATK_OWN t = ATK_BOX t + 0"

definition ATK_PROOF :: "target \<Rightarrow> u32" where "ATK_PROOF t = ATK_BOX t + 8"

definition MON_RESULTS :: "target \<Rightarrow> u32" where "MON_RESULTS t = MON_BOX t + 0x200"

definition MON_INPUT_W :: "target \<Rightarrow> u32" where "MON_INPUT_W t = MON_BOX t + 0x80"

definition vec_own :: "target \<Rightarrow> uop list" where
  "vec_own t = [Store (ATK_OWN t) 0xBEEF5EED, Yield]"

definition vec_st_res :: "target \<Rightarrow> uop list" where
  "vec_st_res t = [Store (MON_RESULTS t) 0x77777777]"

definition vec_st_in :: "target \<Rightarrow> uop list" where
  "vec_st_in t = [Store (MON_INPUT_W t) 0x88888888]"

definition vec_ld_res :: "target \<Rightarrow> uop list" where
  "vec_ld_res t = [Load (MON_RESULTS t)]"

definition vec_spv :: "target \<Rightarrow> uop list" where
  "vec_spv t = [Load (MON_TEXT t)]"

definition vec_jmp :: "target \<Rightarrow> uop list" where
  "vec_jmp t = [Jump (MON_TEXT t)]"

definition vec_proof :: "target \<Rightarrow> uop list" where
  "vec_proof t = [Store (ATK_PROOF t) 0x5EEDC0DE, Yield]"

text \<open>The stub of lifetime \<open>v\<close> calls vector \<open>v\<close>.\<close>

definition attack_vectors :: "target \<Rightarrow> uop list list" where
  "attack_vectors t = [vec_own t, vec_st_res t, vec_st_in t, vec_ld_res t, vec_spv t, vec_jmp t, vec_proof t]"

definition native_main :: "target \<Rightarrow> uop list" where
  "native_main t = [Store (NAT_SRAM t) 0xC0DE0002, Yield]"

text \<open>
  A store changes the word of the state at its address, if the supervisor looks at that word at all.  \<open>Stays\<close>: the
  code goes on without a trap; \<open>Leaves\<close>: it jumped to code it may execute.
\<close>

definition poke :: "target \<Rightarrow> u32 \<Rightarrow> u32 \<Rightarrow> sup \<Rightarrow> sup" where
  "poke t x v st =
     (if x = ATK_OWN t then st\<lparr>atk_own := v\<rparr>
      else if x = ATK_PROOF t then st\<lparr>atk_proof := v\<rparr>
      else if x = NAT_SRAM t then st\<lparr>nat_sram := (nat_sram st)[0 := v]\<rparr>
      else if x = NAT2_SRAM t then st\<lparr>nat_sram := (nat_sram st)[1 := v]\<rparr>
      else st)"

datatype uout = Yields sup | Faults u32 u32 sup | Stays sup | Leaves sup

fun user_run :: "target \<Rightarrow> uop list \<Rightarrow> sup \<Rightarrow> uout" where
  "user_run t [] st = Stays st"
| "user_run t (Store x v # ops) st =
     (if pmp_allows (csrs (table st)) Write x then user_run t ops (poke t x v st) else Faults 7 x st)"
| "user_run t (Load x # ops) st =
     (if pmp_allows (csrs (table st)) Read x then user_run t ops st else Faults 5 x st)"
| "user_run t (Jump x # ops) st =
     (if pmp_allows (csrs (table st)) Exec x then Leaves st else Faults 1 x st)"
| "user_run t (Yield # ops) st = Yields st"

text \<open>The code on the CPU; the native slot runs the demonstration module when it holds its image.\<close>

definition shipped_code :: "target \<Rightarrow> rom \<Rightarrow> sup \<Rightarrow> uop list option" where
  "shipped_code t rom st =
     (if cur_comp (table st) = 1 then
        (if unat (g_atk_vec st) < 7 then Some (attack_vectors t ! unat (g_atk_vec st)) else None)
      else if cur_comp (table st) = 2 \<and> g_nat_live st = 0 \<and>
              take (length (native_demo rom)) (nat_text st ! 0) = native_demo rom
      then Some (native_main t)
      else None)"

inductive ship_step :: "target \<Rightarrow> rom \<Rightarrow> ctl \<Rightarrow> ctl \<Rightarrow> bool" for t rom where
  monitor:
    "cur_comp (table st) = 0 \<Longrightarrow> monitor_main t (box st) = Some (Inr b) \<Longrightarrow>
      ship_step t rom (Runs cpu st) (supervisor_resume t rom (yield_trap e regs (st\<lparr>box := b\<rparr>)))"
| yields:
    "shipped_code t rom st = Some ops \<Longrightarrow> user_run t ops st = Yields st' \<Longrightarrow>
      ship_step t rom (Runs cpu st) (supervisor_resume t rom (yield_trap e regs st'))"
| faults:
    "shipped_code t rom st = Some ops \<Longrightarrow> user_run t ops st = Faults cause addr st' \<Longrightarrow>
      ship_step t rom (Runs cpu st) (supervisor_fault t rom cause (fault_trap e cause addr regs st'))"

inductive_cases ship_runsE: "ship_step t rom (Runs cpu st) c"

lemma ship_cases [consumes 1, case_names monitor yields faults]:
  assumes "ship_step t rom (Runs cpu st) c"
  obtains
    b e regs where "cur_comp (table st) = 0" "monitor_main t (box st) = Some (Inr b)"
      "c = supervisor_resume t rom (yield_trap e regs (st\<lparr>box := b\<rparr>))"
  | ops st' e regs where "shipped_code t rom st = Some ops" "user_run t ops st = Yields st'"
      "c = supervisor_resume t rom (yield_trap e regs st')"
  | ops cause addr st' e regs where "shipped_code t rom st = Some ops" "user_run t ops st = Faults cause addr st'"
      "c = supervisor_fault t rom cause (fault_trap e cause addr regs st')"
  using assms by (rule ship_runsE) (blast intro: that)+

subsection \<open>Shipped code is user code\<close>

lemma poke_table [simp]: "table (poke t x v st) = table st"
  by (simp add: poke_def)

lemma same_in_trans:
  assumes "same_in ob st0 st" "same_in ob st st'"
  shows "same_in ob st0 st'"
proof (cases ob)
  case Sup_ram
  from assms Sup_ram obtain b nt ns m a p b' nt' ns' m' a' p' where
    st: "st = st0\<lparr>box := b, nat_text := nt, nat_sram := ns, mirror := m, atk_own := a, atk_proof := p\<rparr>" and
    st': "st' = st\<lparr>box := b', nat_text := nt', nat_sram := ns', mirror := m', atk_own := a', atk_proof := p'\<rparr>"
    unfolding Sup_ram same_in.simps by blast
  show ?thesis unfolding Sup_ram same_in.simps st' st by simp
qed (use assms in simp_all)

lemma poke_effect:
  assumes "user_effect t st0 st" "table st = table st0" "pmp_allows (csrs (table st0)) Write x"
  shows "user_effect t st0 (poke t x v st)"
proof -
  have shape: "sup_shape (poke t x v st)" using assms(1) by (auto simp: user_effect_def poke_def sup_shape_def)
  have in_own: "in_region (fst (extent t Atk_box)) (snd (extent t Atk_box)) (ATK_OWN t)"
    "in_region (fst (extent t Atk_box)) (snd (extent t Atk_box)) (ATK_PROOF t)"
    "in_region (fst (extent t (Nat_sram 0))) (snd (extent t (Nat_sram 0))) (NAT_SRAM t)"
    "in_region (fst (extent t (Nat_sram 1))) (snd (extent t (Nat_sram 1))) (NAT2_SRAM t)"
    by (cases t; simp add: in_region_def ATK_OWN_def ATK_PROOF_def)+
  have "may_write t st0 ob \<or> same_in ob st (poke t x v st)" for ob
    using assms(3) in_own unfolding may_write_def poke_def
    by (cases ob) (auto simp: nth_list_update)
  then show ?thesis using shape assms(1) same_in_trans unfolding user_effect_def by blast
qed

lemma user_run_effect:
  assumes "user_effect t st0 st" "table st = table st0"
  shows "user_run t ops st = Yields st' \<Longrightarrow> user_effect t st0 st'"
    "user_run t ops st = Faults cause addr st' \<Longrightarrow> user_effect t st0 st' \<and> cause \<noteq> 8"
  using assms
  by (induction t ops st rule: user_run.induct) (auto simp: poke_effect split: if_splits)

lemma ship_is_step:
  assumes "sup_shape st" "ship_step t rom (Runs cpu st) c"
  shows "sys_step t rom (Runs cpu st) c"
proof -
  have eff: "user_effect t st st" using assms(1) by (rule user_effect_same)
  from assms(2) show ?thesis
  proof (cases rule: ship_cases)
    case (monitor b e regs)
    then show ?thesis by (auto intro: sys_step.intros)
  next
    case (yields ops st' e regs)
    then have "cur_comp (table st) \<noteq> 0" by (auto simp: shipped_code_def split: if_splits)
    with yields user_run_effect(1) [OF eff refl yields(2)] show ?thesis by (auto intro: sys_step.intros)
  next
    case (faults ops cause addr st' e regs)
    with user_run_effect(2) [OF eff refl faults(2)] show ?thesis by (auto intro: sys_step.intros)
  qed
qed

text \<open>Every run of the shipped code is a run of the system with arbitrary user code.\<close>

lemma shape_of_run: "sys_ok t (Runs cpu st) \<Longrightarrow> sup_shape st"
  by (simp add: sys_ok_def run_ok_def core_ok_def serve_ok_def)

interpretation ship: instance_steps "sys_step t rom" "sys_ok t" "ship_step t rom"
proof
  fix c c'
  assume ok: "sys_ok t c" and step: "ship_step t rom c c'"
  from step obtain cpu st where c: "c = Runs cpu st" by (auto elim: ship_step.cases)
  have "sup_shape st" using ok shape_of_run unfolding c by blast
  then show "sys_step t rom c c'" using step ship_is_step unfolding c by blast
qed

lemma attack_runs:
  assumes run: "run_ok t cpu st" and cur: "cur_comp (table st) = 1"
  shows "map (\<lambda>ops. user_run t ops st) (attack_vectors t) =
    [Yields (st\<lparr>atk_own := 0xBEEF5EED\<rparr>), Faults 7 (MON_BOX t + 0x200) st, Faults 7 (MON_BOX t + 0x80) st,
     Faults 5 (MON_BOX t + 0x200) st, Faults 5 (MON_TEXT t) st, Faults 1 (MON_TEXT t) st,
     Yields (st\<lparr>atk_proof := 0x5EEDC0DE\<rparr>)]"
proof -
  have sp: "c_spec (comps (table st) ! unat (cur_comp (table st))) = ic_comp_attacker t"
    using run_spec(3) [OF run] cur by (simp add: spec_no_def shipped_specs_def)
  note r = run_rights(2) [OF run refl, unfolded sp]
  have "pmp_allows (csrs (table st)) Write (ATK_BOX t)" "pmp_allows (csrs (table st)) Write (ATK_BOX t + 8)"
    "\<not> pmp_allows (csrs (table st)) Write (MON_BOX t + 0x200)" "\<not> pmp_allows (csrs (table st)) Write (MON_BOX t + 0x80)"
    "\<not> pmp_allows (csrs (table st)) Read (MON_BOX t + 0x200)" "\<not> pmp_allows (csrs (table st)) Read (MON_TEXT t)"
    "\<not> pmp_allows (csrs (table st)) Exec (MON_TEXT t)"
    unfolding r by (cases t; simp add: in_region_def)+
  then show ?thesis
    by (simp add: attack_vectors_def vec_own_def vec_st_res_def vec_st_in_def vec_ld_res_def vec_spv_def vec_jmp_def
        vec_proof_def poke_def ATK_OWN_def ATK_PROOF_def MON_RESULTS_def MON_INPUT_W_def)
qed

end
