(* ===== verification/ShipRound.thy ===== *)
theory ShipRound
  imports Shipped
begin

text \<open>
  A whole round of the shipped code: the invariant that follows the three activations of the monitor, the seven
  lifetimes of the attacker and the native module, and what STATUS shows at the end of it.
\<close>

subsection \<open>A round of the shipped code\<close>

definition expected_faults :: "target \<Rightarrow> (u32 \<times> u32) list" where
  "expected_faults t =
     [(7, MON_RESULTS t), (7, MON_INPUT_W t), (5, MON_RESULTS t), (5, MON_TEXT t), (1, MON_TEXT t)]"

definition ring_holds :: "(u32 \<times> u32) list \<Rightarrow> sup \<Rightarrow> bool" where
  "ring_holds fs st \<longleftrightarrow>
     unat (g_ri_index st) = length fs \<and>
     (\<forall>i < length fs. g_ri_cause st ! i = fst (fs ! i) \<and> g_ri_addr st ! i = snd (fs ! i))"

text \<open>Nothing is stored in the device: no program in the boot area, no image in the flash mirror.\<close>

definition blank_store :: "sup \<Rightarrow> bool" where
  "blank_store st \<longleftrightarrow>
     le32 (prog_area st) 0 \<noteq> PROG_MAGIC \<and>
     le32 (drop (mir_off 0) (mirror st)) 0 \<noteq> MIR_MAGIC \<and> le32 (drop (mir_off 1) (mirror st)) 0 \<noteq> MIR_MAGIC"

text \<open>The demonstration module is live in slot 0.\<close>

definition demo_live :: "rom \<Rightarrow> sup \<Rightarrow> bool" where
  "demo_live rom st \<longleftrightarrow>
     blank_store st \<and> g_nat_live st = 0 \<and> g_nat_retired st = 0 \<and> n_valid (g_nat st ! 0) \<noteq> 0 \<and> n_evicted (g_nat st ! 0) = 0 \<and>
     take (length (native_demo rom)) (nat_text st ! 0) = native_demo rom"

definition on_show :: "sup \<Rightarrow> bool" where
  "on_show st \<longleftrightarrow>
     status st ! S_CHONGTU_N = word_of_nat (length (round_swarm st)) \<and>
     status st ! S_JINGBAO = word_of_nat (alerts (round_swarm st) 0) \<and>
     (\<forall>i < 8. status st ! (S_BAN_CAIJUE + i) \<le> 5)"

definition attack_logged :: "target \<Rightarrow> sup \<Rightarrow> bool" where
  "attack_logged t st \<longleftrightarrow>
     status st ! S_OWNOOK = 1 \<and> status st ! S_RDROK = 1 \<and> status st ! S_INTER = 5 \<and>
     (\<forall>i < 5. status st ! (S_LOG0C + 2 * i) = fst (expected_faults t ! i) \<and>
        status st ! (S_LOG0C + 2 * i + 1) = snd (expected_faults t ! i))"

text \<open>Where a round of the shipped code is: the swarm in the box, then its outcome and the faults so far in STATUS and the ring.\<close>

definition progress :: "target \<Rightarrow> sup \<Rightarrow> bool" where
  "progress t st \<longleftrightarrow>
     (if g_phase st = 1 \<or> g_phase st = 2
      then map (take 42) (swarm (box st)) = round_swarm st \<and> ring_holds [] st \<and>
        (g_phase st = 1 \<longrightarrow> mon_prog_cnt (box st) = 0)
      else on_show st \<and>
        (if g_phase st = 3 then ring_holds [] st
         else if g_phase st = 4
         then ring_holds (take (unat (g_atk_vec st) - 1) (expected_faults t)) st \<and>
           (g_atk_vec st \<noteq> 0 \<longrightarrow> status st ! S_OWNOOK = 1)
         else attack_logged t st))"

definition tracks :: "target \<Rightarrow> rom \<Rightarrow> sup \<Rightarrow> bool" where
  "tracks t rom st \<longleftrightarrow> demo_live rom st \<and> 8 \<le> length (round_swarm st) \<and> progress t st"

lemma round_swarm_same: "mailbox st' = mailbox st \<Longrightarrow> round_swarm st' = round_swarm st"
  by (simp add: round_swarm_def mailed_def)

lemma tracks_table: "tracks t rom (st\<lparr>table := tab\<rparr>) = tracks t rom st"
  by (simp add: tracks_def demo_live_def blank_store_def progress_def on_show_def ring_holds_def attack_logged_def
      round_swarm_same [of "st\<lparr>table := tab\<rparr>" st])

lemma enter_tracks:
  assumes "goes t n (enter_checked i st)" "tracks t rom st"
  shows "\<exists>cpu st'. enter_checked i st = Runs cpu st' \<and> tracks t rom st'"
  using enter_is_run [OF assms(1)] assms(2) tracks_table by metis

lemma status_words_set:
  assumes "length (status st) = 106" "k < 106"
  shows "status (status_set k v st) ! j = (if j = k then v else status st ! j)" "length (status (status_set k v st)) = 106"
  using assms by (simp_all add: status_set_def)

lemma status_words_copy:
  assumes "length (status st) = 106" "k + length vs \<le> 106"
  shows "j < 106 \<Longrightarrow> status (status_copy k vs st) ! j = (if k \<le> j \<and> j < k + length vs then vs ! (j - k) else status st ! j)"
    "length (status (status_copy k vs st)) = 106"
proof -
  show "length (status (status_copy k vs st)) = 106" using assms by simp
  show "j < 106 \<Longrightarrow> status (status_copy k vs st) ! j = (if k \<le> j \<and> j < k + length vs then vs ! (j - k) else status st ! j)"
    using assms by (auto simp: status_copy_def nth_blit)
qed

text \<open>What the supervisor does not touch between two activations.\<close>

definition carried :: "sup \<Rightarrow> sup \<Rightarrow> bool" where
  "carried st x \<longleftrightarrow>
     g_nat_live x = g_nat_live st \<and> g_nat_retired x = g_nat_retired st \<and> g_nat x = g_nat st \<and>
     nat_text x = nat_text st \<and> mailbox x = mailbox st \<and>
     prog_area x = prog_area st \<and> mirror x = mirror st \<and> g_ri_index x = g_ri_index st \<and>
     g_ri_cause x = g_ri_cause st \<and> g_ri_addr x = g_ri_addr st"

lemma carried_keeps:
  assumes "carried st x"
  shows "demo_live rom x = demo_live rom st" "round_swarm x = round_swarm st" "ring_holds fs x = ring_holds fs st"
    "mailbox x = mailbox st"
  using assms round_swarm_same [of x st] by (simp_all add: carried_def demo_live_def blank_store_def ring_holds_def)

lemma carried_trans: "carried st x \<Longrightarrow> carried x y \<Longrightarrow> carried st y"
  by (simp add: carried_def)

lemma next_enters:
  "\<exists>x. next_activation ph mode st = enter_checked 0 x \<and> carried st x \<and> g_phase x = ph \<and> status x = status st \<and>
    box x = (box st)\<lparr>mon_mode := mode\<rparr>"
  unfolding next_activation_def Let_def timer_now_def prod.case
  by (rule exI, rule conjI, rule refl) (simp add: carried_def)

lemma packets_enters:
  assumes "mon_prog_cnt (box st) = 0" "goes t n (resume_packets st)"
  shows "\<exists>x. resume_packets st = enter_checked 0 x \<and> carried st x \<and> g_phase x = 2 \<and> box x = (box st)\<lparr>mon_mode := 1\<rparr>"
proof -
  define s1 where "s1 = status_copy S_INSNS (take 6 (mon_insns (box st)))
      (status_copy S_CAIJUE (take 6 (mon_verdicts (box st))) (st\<lparr>reads := reads st + 1\<rparr>))"
  define s2 where "s2 = status_set S_CYC0 (clock st (reads st) - g_stk0 st) s1"
  have b1: "box s1 = box st" "carried st s1" by (simp_all add: s1_def status_copy_def carried_def)
  have b: "box s2 = box st" "carried st s2" using b1 by (simp_all add: s2_def status_set_def carried_def)
  have eq: "resume_packets st = (case input_sum (box s2) of None \<Rightarrow> Crashes
      | Some s \<Rightarrow> next_activation 2 1 (rollback_program (s2\<lparr>g_input_sum := s\<rparr>)))"
    unfolding resume_packets_def Let_def timer_now_def prod.case s2_def s1_def by (simp cong: option.case_cong)
  then obtain s where s: "input_sum (box s2) = Some s" using assms(2) by (cases "input_sum (box s2)") (auto simp: goes_def)
  have "rollback_program (s2\<lparr>g_input_sum := s\<rparr>) = s2\<lparr>g_input_sum := s\<rparr>" using assms(1) b(1) by (simp add: rollback_program_def)
  then have "resume_packets st = next_activation 2 1 (s2\<lparr>g_input_sum := s\<rparr>)" using eq s by simp
  moreover have "carried st (s2\<lparr>g_input_sum := s\<rparr>)" "box (s2\<lparr>g_input_sum := s\<rparr>) = box st"
    using b by (simp_all add: carried_def)
  ultimately show ?thesis using next_enters [of 2 1 "s2\<lparr>g_input_sum := s\<rparr>"] carried_trans by fastforce
qed

lemma screen_enters:
  assumes len: "length (status st) = 106" "length (mon_screen_verd (box st)) = 64" and n: "unat (g_conflict_n st) \<le> 64"
    and insns: "length (mon_screen_insns (box st)) = 64"
    and v: "take (unat (g_conflict_n st)) (mon_screen_verd (box st)) = vs"
  shows "\<exists>x. resume_screen st = enter_checked 0 x \<and> carried st x \<and> g_phase x = 3 \<and>
    status x ! S_CHONGTU_N = g_conflict_n st \<and>
    status x ! S_JINGBAO = word_of_nat (length (filter (\<lambda>v. v = 5) vs)) \<and>
    (\<forall>i < 8. i < length vs \<longrightarrow> status x ! (S_BAN_CAIJUE + i) = vs ! i)"
proof -
  let ?n = "unat (g_conflict_n st)"
  define s1 where "s1 = status_copy S_CINSNS (take (min ?n 8) (mon_screen_insns (box st)))
      (status_copy S_BAN_CAIJUE (take 8 vs) (st\<lparr>reads := reads st + 1\<rparr>))"
  define al where "al = (word_of_nat (length (filter (\<lambda>v. v = 5) vs)) :: u32)"
  define s2 where "s2 = status_set S_LAIYUAN (g_source st) (status_set S_CHONGTU_N (g_conflict_n st)
      (status_set S_JINGBAO al (status_set S_CYC1 (clock st (reads st) - g_stk0 st) (s1\<lparr>g_alerts := al\<rparr>))))"
  have "resume_screen st = (if length (mon_screen_verd (box st)) < ?n then Crashes else next_activation 3 2 s2)"
    unfolding resume_screen_def Let_def timer_now_def prod.case s2_def s1_def al_def
    by (simp add: v [symmetric] status_set_def status_copy_def)
  then have eq: "resume_screen st = next_activation 3 2 s2" using len n by simp
  have c: "carried st s2" by (simp add: s2_def s1_def carried_def status_set_def status_copy_def)
  have l1: "length (status s1) = 106"
    using len insns by (simp add: s1_def status_copy_def S_CINSNS_def S_BAN_CAIJUE_def)
  have ban: "status s1 ! (64 + i) = vs ! i" if "i < 8" "i < length vs" for i
    using len insns that by (simp add: s1_def status_words_copy S_CINSNS_def S_BAN_CAIJUE_def)
  have f: "status s2 ! S_CHONGTU_N = g_conflict_n st" "status s2 ! S_JINGBAO = al"
    "\<And>i. i < 8 \<Longrightarrow> i < length vs \<Longrightarrow> status s2 ! (S_BAN_CAIJUE + i) = vs ! i"
    using l1 ban by (simp_all add: s2_def status_words_set status_words)
  from next_enters [of 3 2 s2] obtain x where x: "next_activation 3 2 s2 = enter_checked 0 x" "carried s2 x" "g_phase x = 3"
      "status x = status s2" by blast
  show ?thesis
    using eq x f carried_trans [OF c x(2)] unfolding al_def by (intro exI [of _ x]) simp
qed

lemma native_enters:
  "\<exists>x. resume_native t rom st = enter_checked 1 x \<and> carried st x \<and> g_phase x = 4 \<and> g_atk_vec x = 0 \<and>
    (\<forall>k. k \<noteq> S_CYC2 \<longrightarrow> k \<noteq> S_NATOK \<longrightarrow> status x ! k = status st ! k)"
  unfolding resume_native_def atk_schedule_def Let_def timer_now_def prod.case
  by (rule exI, rule conjI, rule refl) (simp add: carried_def status_set_def)

lemma atk_enters:
  assumes len: "length (status st) = 106" and v: "unat (g_atk_vec st) < 6"
  shows "\<exists>x. atk_advance t rom st = enter_checked 1 x \<and> carried st x \<and> g_phase x = g_phase st \<and> box x = box st \<and>
    unat (g_atk_vec x) = unat (g_atk_vec st) + 1 \<and> (\<forall>k. k \<noteq> S_OWNOOK \<longrightarrow> status x ! k = status st ! k) \<and>
    status x ! S_OWNOOK = (if g_atk_vec st = 0 then if atk_own st = 0xBEEF5EED then 1 else 0 else status st ! S_OWNOOK)"
proof -
  have u: "unat (g_atk_vec st + 1) = unat (g_atk_vec st) + 1" using v by (simp add: unat_word_ariths)
  then have lt: "g_atk_vec st + 1 < 7" using v by (simp add: word_less_nat_alt)
  have no6: "g_atk_vec st \<noteq> 6" using v by auto
  have n: "carried st (atk_noted st)" "g_phase (atk_noted st) = g_phase st" "g_atk_vec (atk_noted st) = g_atk_vec st + 1"
    "\<forall>k. k \<noteq> S_OWNOOK \<longrightarrow> status (atk_noted st) ! k = status st ! k"
    "status (atk_noted st) ! S_OWNOOK = (if g_atk_vec st = 0 then if atk_own st = 0xBEEF5EED then 1 else 0 else status st ! S_OWNOOK)"
    using no6 len by (simp_all add: atk_noted_def Let_def carried_def status_set_def S_OWNOOK_def)
  have "atk_advance t rom st = atk_schedule t rom (g_atk_vec st + 1) (atk_noted st)"
    using lt n(3) by (simp add: atk_advance_noted Let_def)
  moreover obtain tab where "atk_schedule t rom (g_atk_vec st + 1) (atk_noted st) = enter_checked 1 ((atk_noted st)\<lparr>table := tab\<rparr>)"
    by (simp add: atk_schedule_def Let_def)
  ultimately show ?thesis
    using n u by - (rule exI [of _ "(atk_noted st)\<lparr>table := tab\<rparr>"], simp add: carried_def atk_noted_box)
qed

lemma final_words:
  assumes len: "length (status st) = 106"
  shows "\<And>k. k < 106 \<Longrightarrow> k \<notin> {32, 33, 92} \<Longrightarrow> k < 40 \<or> 50 < k \<Longrightarrow> status (finalize_round s st) ! k = status st ! k"
    "status (finalize_round s st) ! S_INTER = g_ri_index st"
    "\<And>i. i < 5 \<Longrightarrow> status (finalize_round s st) ! (S_LOG0C + 2 * i) = g_ri_cause st ! i"
    "\<And>i. i < 5 \<Longrightarrow> status (finalize_round s st) ! (S_LOG0C + 2 * i + 1) = g_ri_addr st ! i"
    "carried st (finalize_round s st)" "length (status (finalize_round s st)) = 106"
    "g_phase (finalize_round s st) = g_phase st" "box (finalize_round s st) = box st"
proof -
  define ws where "ws = concat (map (\<lambda>i. [g_ri_cause st ! i, g_ri_addr st ! i]) [0..<5])"
  have ws: "ws = [g_ri_cause st ! 0, g_ri_addr st ! 0, g_ri_cause st ! 1, g_ri_addr st ! 1, g_ri_cause st ! 2,
      g_ri_addr st ! 2, g_ri_cause st ! 3, g_ri_addr st ! 3, g_ri_cause st ! 4, g_ri_addr st ! 4]"
    by (simp add: ws_def upt_rec eval_nat_numeral)
  define vok where "vok = (if \<exists>i \<in> set [0..<6]. mon_verdicts (box st) ! i \<noteq> want ! i \<or>
                     status st ! (S_CAIJUE + i) \<noteq> want ! i then 0 else (1 :: u32))"
  define s1 where "s1 = status_set S_INTER (g_ri_index st) (status_set S_IINTACT (if s = g_input_sum st then 1 else 0)
      (status_set S_VINTACT vok st))"
  have f: "finalize_round s st = status_set S_NAT2 0 (status_copy S_LOG0C ws s1)"
    unfolding finalize_round_def Let_def s1_def vok_def ws_def by (simp add: status_set_def)
  have l1: "length (status s1) = 106" using len by (simp add: s1_def)
  have l10: "length ws = 10" by (simp add: ws)
  note w = f status_words status_words_set [of "status_copy S_LOG0C ws s1"] status_words_copy [OF l1] l10
  have l2: "length (status (status_copy 41 ws s1)) = 106" using status_words_copy(2) [OF l1, of 41 ws] l10 by simp
  have out: "status (finalize_round s st) ! k = (if k = 92 then 0 else if 41 \<le> k \<and> k < 51 then ws ! (k - 41) else status s1 ! k)"
    if "k < 106" for k
    using status_words_set(1) [OF l2, of 92 0 k] status_words_copy(1) [OF l1, of 41 ws k] l10 that
    by (simp add: f S_NAT2_def S_LOG0C_def)
  show "status (finalize_round s st) ! k = status st ! k" if "k < 106" "k \<notin> {32, 33, 92}" "k < 40 \<or> 50 < k" for k
    using that len by (simp add: out) (auto simp: s1_def status_set_def status_words)
  show "status (finalize_round s st) ! S_INTER = g_ri_index st"
    using len out [of 40] by (simp add: s1_def status_set_def status_words)
  have i5: "i = 0 \<or> i = 1 \<or> i = 2 \<or> i = 3 \<or> i = 4" if "i < 5" for i :: nat using that by linarith
  show "status (finalize_round s st) ! (S_LOG0C + 2 * i) = g_ri_cause st ! i"
    "status (finalize_round s st) ! (S_LOG0C + 2 * i + 1) = g_ri_addr st ! i" if "i < 5" for i
    using i5 [OF that] out [of 41] out [of 42] out [of 43] out [of 44] out [of 45] out [of 46] out [of 47] out [of 48] out [of 49] out [of 50]
    by (auto simp: S_LOG0C_def ws)
  show "carried st (finalize_round s st)" "g_phase (finalize_round s st) = g_phase st"
    by (simp_all add: f s1_def carried_def status_set_def status_copy_def)
  show "length (status (finalize_round s st)) = 106" using l1 l10 by (simp add: f S_LOG0C_def)
  show "box (finalize_round s st) = box st" by (rule finalize_box)
qed

lemma atk_finishes:
  assumes len: "length (status st) = 106" and v: "g_atk_vec st = 6" and live: "demo_live rom st"
    and goes: "goes t n (atk_advance t rom st)"
  shows "\<exists>x. atk_advance t rom st = enter_checked 2 x \<and> carried st x \<and> g_phase x = 5 \<and> box x = box st \<and>
    (\<forall>k < 106. k \<notin> {32, 33, 87, 92, 97} \<longrightarrow> k < 40 \<or> 50 < k \<longrightarrow> status x ! k = status st ! k) \<and>
    status x ! S_RDROK = (if atk_proof st = 0x5EEDC0DE then 1 else 0) \<and> status x ! S_INTER = g_ri_index st \<and>
    (\<forall>i < 5. status x ! (S_LOG0C + 2 * i) = g_ri_cause st ! i \<and> status x ! (S_LOG0C + 2 * i + 1) = g_ri_addr st ! i)"
proof -
  let ?a = "atk_noted st"
  have n: "carried st ?a" "g_atk_vec ?a = 7" "box ?a = box st" "length (status ?a) = 106"
    "\<forall>k. k \<noteq> 87 \<longrightarrow> status ?a ! k = status st ! k" "status ?a ! 87 = (if atk_proof st = 0x5EEDC0DE then 1 else 0)"
    using v len by (simp_all add: atk_noted_def Let_def carried_def status_set_def S_RDROK_def)
  have lv: "g_nat_live ?a = 0" "g_nat_retired ?a = 0" "g_nat ?a = g_nat st" "n_valid (g_nat st ! 0) \<noteq> 0" "n_evicted (g_nat st ! 0) = 0"
    "g_ri_index ?a = g_ri_index st" "g_ri_cause ?a = g_ri_cause st" "g_ri_addr ?a = g_ri_addr st"
    using live n(1) by (simp_all add: demo_live_def carried_def)
  have "atk_advance t rom st = (case input_sum (box ?a) of None \<Rightarrow> Crashes
      | Some s \<Rightarrow>
          (let st = finalize_round s ?a; live = g_nat st ! unat (g_nat_live st) in
           if g_nat_retired st \<noteq> 0 \<or> n_valid live = 0 \<or> n_evicted live \<noteq> 0
           then native_done t 0 (status_set S_NSLOT 0xFFFFFFFF st)
           else enter_checked 2 ((status_set S_NSLOT (g_nat_live st) st)\<lparr>g_phase := 5\<rparr>)))"
    using n(2) by (simp add: atk_advance_noted Let_def)
  moreover from this obtain s where "input_sum (box ?a) = Some s"
    using goes by (cases "input_sum (box ?a)") (auto simp: goes_def)
  moreover define f where "f = finalize_round s ?a"
  note w = final_words [OF n(4), where s = s, folded f_def]
  have lf: "g_nat_live f = 0" "g_nat_retired f = 0" "g_nat f = g_nat st" "carried st f"
    using w(5) lv carried_trans [OF n(1) w(5)] by (simp_all add: carried_def)
  ultimately have "atk_advance t rom st = enter_checked 2 ((status_set S_NSLOT 0 f)\<lparr>g_phase := 5\<rparr>)"
    using lv(4,5) by (simp add: f_def Let_def)
  moreover have "carried st ((status_set S_NSLOT 0 f)\<lparr>g_phase := 5\<rparr>)" using lf(4) by (simp add: carried_def status_set_def)
  moreover have "status f ! k = status st ! k" if "k < 106" "k \<notin> {32, 33, 87, 92, 97}" "k < 40 \<or> 50 < k" for k
    using w(1) [of k] n(5) that by auto
  moreover have "status f ! 87 = (if atk_proof st = 0x5EEDC0DE then 1 else 0)" using w(1) [of 87] n(6) by simp
  ultimately show ?thesis
    using w(2-4,6,8) lv(6-8) n(3)
    by (intro exI [of _ "(status_set S_NSLOT 0 f)\<lparr>g_phase := 5\<rparr>"])
      (simp add: status_words_set status_words)
qed

text \<open>What a trap of user code leaves of the round.\<close>

lemma carried_yield: "carried st (yield_trap e regs st)" "status (yield_trap e regs st) = status st"
  "atk_own (yield_trap e regs st) = atk_own st" "atk_proof (yield_trap e regs st) = atk_proof st"
  "g_conflict_n (yield_trap e regs st) = g_conflict_n st" "g_atk_vec (yield_trap e regs st) = g_atk_vec st"
  "nat_sram (yield_trap e regs st) = nat_sram st"
  by (simp_all add: yield_trap_def carried_def)

lemma fault_keeps:
  "demo_live rom (fault_trap e c a regs st) = demo_live rom st" "round_swarm (fault_trap e c a regs st) = round_swarm st"
  "status (fault_trap e c a regs st) = status st" "g_atk_vec (fault_trap e c a regs st) = g_atk_vec st"
  "g_phase (fault_trap e c a regs st) = g_phase st" "mailbox (fault_trap e c a regs st) = mailbox st"
  using round_swarm_same [of "fault_trap e c a regs st" st]
  by (simp_all add: fault_trap_def ring_record_def Let_def demo_live_def blank_store_def)

lemma ring_grows:
  assumes "ring_holds fs st" "length fs < 7" "length (g_ri_cause st) = 8" "length (g_ri_addr st) = 8"
  shows "ring_holds (fs @ [(c, a)]) (fault_trap e c a regs st)"
proof -
  have u: "unat (g_ri_index st) = length fs" using assms(1) by (simp add: ring_holds_def)
  then have "unat (g_ri_index (ring_record c a st)) = length fs + 1" using ring_step [of st c a] assms(2) by simp
  moreover have "g_ri_cause (ring_record c a st) = (g_ri_cause st)[length fs := c]"
    "g_ri_addr (ring_record c a st) = (g_ri_addr st)[length fs := a]"
    using u by (simp_all add: ring_record_def Let_def)
  moreover have "g_ri_index (fault_trap e c a regs st) = g_ri_index (ring_record c a st)"
    "g_ri_cause (fault_trap e c a regs st) = g_ri_cause (ring_record c a st)"
    "g_ri_addr (fault_trap e c a regs st) = g_ri_addr (ring_record c a st)"
    by (simp_all add: fault_trap_def Let_def)
  ultimately show ?thesis
    using assms by (simp add: ring_holds_def less_Suc_eq nth_list_update nth_append)
qed

lemma enters_tracked:
  assumes "c = enter_checked i x" "goes t n c" "tracks t rom x" "rank x = r"
  shows "\<exists>cpu st'. c = Runs cpu st' \<and> tracks t rom st' \<and> rank st' = r \<and> mailbox st' = mailbox x"
proof -
  obtain cpu tab where "c = Runs cpu (x\<lparr>table := tab\<rparr>)" using enter_is_run assms(1,2) by blast
  moreover have "rank (x\<lparr>table := tab\<rparr>) = rank x" by (simp add: rank_def)
  moreover have "mailbox (x\<lparr>table := tab\<rparr>) = mailbox x" by simp
  ultimately show ?thesis using assms(3,4) tracks_table by metis
qed

lemma screen_words:
  assumes "status x ! S_CHONGTU_N = word_of_nat n" "n = length ps"
    "status x ! S_JINGBAO = word_of_nat (length (filter (\<lambda>v. v = 5) (map (screen_verdict ps) [0..<n])))"
    "\<forall>i < 8. i < n \<longrightarrow> status x ! (S_BAN_CAIJUE + i) = map (screen_verdict ps) [0..<n] ! i" "8 \<le> n" "round_swarm x = ps"
  shows "on_show x"
proof -
  have "screen_verdict ps i \<le> 5" for i by (simp add: screen_verdict_def)
  then have "\<forall>i < 8. status x ! (S_BAN_CAIJUE + i) \<le> 5" using assms(4,5) by simp
  moreover have "length (filter (\<lambda>v. v = 5) (map (screen_verdict ps) [0..<n])) = alerts ps 0"
    using assms(2) by (simp add: alerts_def filter_map comp_def)
  ultimately show ?thesis using assms by (simp add: on_show_def)
qed

lemma on_show_keeps:
  assumes "on_show st" "round_swarm x = round_swarm st"
    "\<forall>k \<in> {S_CHONGTU_N, S_JINGBAO} \<union> (+) S_BAN_CAIJUE ` {..<8}. status x ! k = status st ! k"
  shows "on_show x"
  using assms by (auto simp: on_show_def)

lemma monitor_tracks:
  assumes run: "run_ok t cpu st" and tr: "tracks t rom st" and cur: "cur_comp (table st) = 0"
    and mon: "monitor_main t (box st) = Some (Inr b)"
    and go: "goes t (rank st - 1) (supervisor_resume t rom (yield_trap e regs (st\<lparr>box := b\<rparr>)))"
  shows "\<exists>cpu st'. supervisor_resume t rom (yield_trap e regs (st\<lparr>box := b\<rparr>)) = Runs cpu st' \<and> tracks t rom st' \<and>
    rank st' = rank st - 1 \<and> mailbox st' = mailbox st"
proof -
  let ?y = "yield_trap e regs (st\<lparr>box := b\<rparr>)"
  have core: "core_ok t st" and ph: "phase_ok 0 st" using run cur by (simp_all add: run_ok_def)
  have ok: "inputs_ok (box st)" "mon_confn (box st) = g_conflict_n st" "length (status st) = 106"
    using core by (simp_all add: core_ok_def serve_ok_def sup_shape_def)
  have pk: "packets_ok (box st)" using packets_loaded_ok ok(1) inputs_ok_box by (simp add: inputs_ok_def)
  have t: "demo_live rom st" "8 \<le> length (round_swarm st)" "progress t st" using tr by (simp_all add: tracks_def)
  have c: "carried st ?y" "box ?y = b" "g_phase ?y = g_phase st" "status ?y = status st" "g_conflict_n ?y = g_conflict_n st"
    by (simp_all add: carried_def yield_trap_def)
  from ph consider (packets) "g_phase st = 1" "mon_mode (box st) = 0" | (screen) "g_phase st = 2" "mon_mode (box st) = 1"
    | (native) "g_phase st = 3" "mon_mode (box st) = 2"
    by (auto simp: phase_ok_def)
  then show ?thesis
  proof cases
    case packets
    have p: "map (take 42) (swarm (box st)) = round_swarm st" "ring_holds [] st" "mon_prog_cnt (box st) = 0"
      using t(3) packets(1) by (simp_all add: progress_def)
    obtain vs ns where b: "b = (box st)\<lparr>mon_verdicts := vs, mon_insns := ns, mon_prog_fault := 0\<rparr>"
      using builtin_round [OF pk p(3), of t] packets(2) mon by auto
    have r: "supervisor_resume t rom ?y = resume_packets ?y" using c(3) packets(1) by (simp add: supervisor_resume_def)
    have "mon_prog_cnt (box ?y) = 0" using p(3) c(2) b by simp
    from packets_enters [OF this go [unfolded r]] obtain x where
      x: "resume_packets ?y = enter_checked 0 x" "carried ?y x" "g_phase x = 2" "box x = b\<lparr>mon_mode := 1\<rparr>" using c(2) by auto
    note k = carried_keeps [OF carried_trans [OF c(1) x(2)]]
    have "swarm (box x) = swarm (box st)" using x(4) b by (simp add: swarm_def)
    then have "tracks t rom x" using k t p x(3) by (simp add: tracks_def progress_def)
    from enters_tracked [OF x(1) go [unfolded r] this refl] show ?thesis using r k(4) x(3) packets(1) by (simp add: rank_def)
  next
    case screen
    have p: "map (take 42) (swarm (box st)) = round_swarm st" "ring_holds [] st"
      using t(3) screen(1) by (simp_all add: progress_def)
    have sw: "swarm_ok (box st)" using ok(1) by (simp add: inputs_ok_def)
    let ?n = "unat (g_conflict_n st)"
    have ls: "length (swarm (box st)) = ?n" using ok(2) by (simp add: swarm_def)
    then have n: "?n = length (round_swarm st)" using p(1) by (metis length_map)
    from screening_round [OF sw screen(2), of t] mon obtain vs ns where
      b: "mon_screen_verd b = vs" "mon_screen_insns b = ns" "length vs = 64" "length ns = 64"
        "take ?n vs = map (screen_verdict (swarm (box st))) [0..<?n]"
      using ok(2) by auto
    have v: "take ?n vs = map (screen_verdict (round_swarm st)) [0..<?n]"
      using b(5) screen_verdict_take [of _ "swarm (box st)"] ls by (simp add: p(1) [symmetric])
    have r: "supervisor_resume t rom ?y = resume_screen ?y" using c(3) screen(1) by (simp add: supervisor_resume_def)
    have "?n \<le> 64" using n round_swarm_length [of st] by simp
    with screen_enters [of ?y "map (screen_verdict (round_swarm st)) [0..<?n]"] b v c ok(3) obtain x where
      x: "resume_screen ?y = enter_checked 0 x" "carried ?y x" "g_phase x = 3" "status x ! S_CHONGTU_N = g_conflict_n st"
        "status x ! S_JINGBAO = word_of_nat (length (filter (\<lambda>v. v = 5) (map (screen_verdict (round_swarm st)) [0..<?n])))"
        "\<forall>i < 8. i < ?n \<longrightarrow> status x ! (S_BAN_CAIJUE + i) = map (screen_verdict (round_swarm st)) [0..<?n] ! i" by auto
    note k = carried_keeps [OF carried_trans [OF c(1) x(2)]]
    have "on_show x" 
    proof (rule screen_words)
      show "status x ! S_CHONGTU_N = word_of_nat ?n" using x(4) by simp
      show "8 \<le> ?n" using n t(2) by simp
    qed (use n x(5,6) k(2) in blast)+
    then have "tracks t rom x" using k t p x(3) by (simp add: tracks_def progress_def)
    from enters_tracked [OF x(1) go [unfolded r] this refl] show ?thesis using r k(4) x(3) screen(1) by (simp add: rank_def)
  next
    case native
    have p: "on_show st" "ring_holds [] st" using t(3) native(1) by (simp_all add: progress_def)
    have r: "supervisor_resume t rom ?y = resume_native t rom ?y" using c(3) native(1) by (simp add: supervisor_resume_def)
    from native_enters [of t rom ?y] obtain x where
      x: "resume_native t rom ?y = enter_checked 1 x" "carried ?y x" "g_phase x = 4" "g_atk_vec x = 0"
        "\<forall>k. k \<noteq> S_CYC2 \<longrightarrow> k \<noteq> S_NATOK \<longrightarrow> status x ! k = status st ! k" using c(4) by auto
    note k = carried_keeps [OF carried_trans [OF c(1) x(2)]]
    have "on_show x" using on_show_keeps [OF p(1) k(2)] x(5) by (auto simp: status_words)
    then have "tracks t rom x" using k t p x(3,4) by (simp add: tracks_def progress_def)
    from enters_tracked [OF x(1) go [unfolded r] this refl] show ?thesis using r k(4) x(3,4) native(1) by (simp add: rank_def)
  qed
qed

lemma enter_no_wait: "enter_checked i x \<noteq> Waiting"
  by (simp add: enter_checked_def split: enter_result.split)

lemma yield_goes:
  assumes run: "run_ok t cpu st" and cur: "cur_comp (table st) \<noteq> 0" and eff: "user_effect t st st'"
  shows "goes t (rank st - 1) (supervisor_resume t rom (yield_trap e regs st'))"
proof -
  note keep = user_keeps [OF run cur eff]
  have "core_ok t st'" using keep(1) by (simp add: same_round_def)
  note same = same_round_trans [OF keep(1) yield_same_round [OF this, of e regs]]
  from resume_goes [OF yield_ok_same [OF user_yield_ok [OF run cur] same], of rom]
  show ?thesis using same_round_keeps(4) [OF same] by simp
qed

text \<open>The attacker's lifetimes: the first and the last yield, the five between them fault and are recorded.\<close>

definition expected :: "target \<Rightarrow> nat \<Rightarrow> sup \<Rightarrow> uout" where
  "expected t v st =
     (if v = 0 then Yields (st\<lparr>atk_own := 0xBEEF5EED\<rparr>)
      else if v = 6 then Yields (st\<lparr>atk_proof := 0x5EEDC0DE\<rparr>)
      else Faults (fst (expected_faults t ! (v - 1))) (snd (expected_faults t ! (v - 1))) st)"

lemma attack_expected:
  assumes run: "run_ok t cpu st" and cur: "cur_comp (table st) = 1" and v: "unat (g_atk_vec st) = v" "v \<le> 6"
  shows "shipped_code t rom st = Some (attack_vectors t ! v)" "user_run t (attack_vectors t ! v) st = expected t v st"
proof -
  show "shipped_code t rom st = Some (attack_vectors t ! v)" using cur v by (simp add: shipped_code_def)
  have l: "v < length (attack_vectors t)" using v(2) by (simp add: attack_vectors_def)
  then have "user_run t (attack_vectors t ! v) st = map (\<lambda>ops. user_run t ops st) (attack_vectors t) ! v" by simp
  also have "\<dots> = expected t v st"
  proof -
    have "v = 0 \<or> v = 1 \<or> v = 2 \<or> v = 3 \<or> v = 4 \<or> v = 5 \<or> v = 6" using v(2) by linarith
    then show ?thesis
      unfolding attack_runs [OF run cur]
      by (elim disjE) (simp_all add: expected_def expected_faults_def MON_RESULTS_def MON_INPUT_W_def)
  qed
  finally show "user_run t (attack_vectors t ! v) st = expected t v st" .
qed

lemma expected_causes: "v < 5 \<Longrightarrow> fst (expected_faults t ! v) AND 0x80000000 = 0"
proof -
  assume "v < 5"
  then have "v = 0 \<or> v = 1 \<or> v = 2 \<or> v = 3 \<or> v = 4" by linarith
  then show ?thesis by (elim disjE) (simp_all add: expected_faults_def)
qed

lemma length_expected [simp]: "length (expected_faults t) = 5"
  by (simp add: expected_faults_def)

lemma attack_next:
  assumes x: "g_phase x = 4" "unat (g_atk_vec x) = v + 1" "round_swarm x = round_swarm st" "demo_live rom x"
      "\<forall>k. k \<noteq> S_OWNOOK \<longrightarrow> status x ! k = status st ! k" "status x ! S_OWNOOK = 1"
    and on: "on_show st" and ring: "ring_holds (take v (expected_faults t)) x" and n: "8 \<le> length (round_swarm st)"
  shows "tracks t rom x" "rank x = 7 - v"
proof -
  have "on_show x" using on_show_keeps [OF on x(3)] x(5) by (auto simp: status_words)
  then show "tracks t rom x" using x ring n by (auto simp: tracks_def progress_def)
  show "rank x = 7 - v" using x(1,2) by (simp add: rank_def)
qed

lemma attack_fault:
  assumes "cause AND 0x80000000 = 0" "g_phase y = 4"
  shows "supervisor_fault t rom cause y = atk_advance t rom (y\<lparr>table := compartment_evict (cur_comp (table y)) (table y)\<rparr>)"
  using assms by (simp add: supervisor_fault_def Let_def)

lemma attack_tracks:
  assumes run: "run_ok t cpu st" and tr: "tracks t rom st" and cur: "cur_comp (table st) = 1"
    and step: "ship_step t rom (Runs cpu st) c"
  shows "\<exists>cpu st'. c = Runs cpu st' \<and> tracks t rom st' \<and> rank st' = rank st - 1 \<and>
    mailbox st' = mailbox st"
proof -
  define v where "v = unat (g_atk_vec st)"
  have core: "core_ok t st" and ph: "g_phase st = 4" "g_atk_vec st \<le> 6"
    using run cur by (simp_all add: run_ok_def phase_ok_def)
  have shape: "sup_shape st" using core by (simp add: core_ok_def serve_ok_def)
  then have len: "length (status st) = 106" "length (g_ri_cause st) = 8" "length (g_ri_addr st) = 8" by (simp_all add: sup_shape_def)
  have v6: "v \<le> 6" using ph(2) by (simp add: v_def word_le_nat_alt)
  have t: "demo_live rom st" "8 \<le> length (round_swarm st)" "on_show st"
      "ring_holds (take (v - 1) (expected_faults t)) st" "v \<noteq> 0 \<Longrightarrow> status st ! S_OWNOOK = 1"
    using tr ph(1) by (auto simp: tracks_def progress_def v_def unat_eq_0)
  have rk: "rank st = 8 - v" using ph(1) by (simp add: rank_def v_def)
  note ex = attack_expected [OF run cur v_def [symmetric] v6]
  have eff0: "user_effect t st st" using shape by (rule user_effect_same)
  from step show ?thesis
  proof (cases rule: ship_cases)
    case (monitor b e regs)
    then show ?thesis using cur by simp
  next
    case (yields ops st' e regs)
    then have u: "Yields st' = expected t v st" "user_run t (attack_vectors t ! v) st = Yields st'" using ex by simp_all
    have goes: "goes t (rank st - 1) c"
      using yield_goes [OF run _ user_run_effect(1) [OF eff0 refl u(2)], of rom e regs] cur yields(3) by simp
    let ?y = "yield_trap e regs st'"
    have same: "carried st ?y" "status ?y = status st" "g_phase ?y = 4" "g_atk_vec ?y = g_atk_vec st" "box ?y = box st"
      using u(1) ph(1) by (auto simp: expected_def yield_trap_def carried_def split: if_splits)
    have r: "c = atk_advance t rom ?y" using yields(3) same(3) by (simp add: supervisor_resume_def)
    have "v = 0 \<or> v = 6" using u(1) by (simp add: expected_def split: if_splits)
    then show ?thesis
    proof
      assume v0: "v = 0"
      then have own: "atk_own ?y = 0xBEEF5EED" using u(1) by (simp add: expected_def yield_trap_def)
      have a0: "g_atk_vec st = 0" using v0 by (simp add: v_def unat_eq_0)
      from atk_enters [of ?y t rom] obtain x where
        x: "c = enter_checked 1 x" "carried ?y x" "g_phase x = 4" "unat (g_atk_vec x) = 0 + 1"
          "\<forall>k. k \<noteq> S_OWNOOK \<longrightarrow> status x ! k = status st ! k" "status x ! S_OWNOOK = 1"
        using same own r len a0 by auto
      note k = carried_keeps [OF carried_trans [OF same(1) x(2)]]
      have "ring_holds (take 0 (expected_faults t)) x" using k(3) t(4) v0 by simp
      note nx = attack_next [OF x(3,4) k(2) _ x(5,6) t(3) this t(2)]
      show ?thesis using enters_tracked [OF x(1) goes nx [OF k(1) [THEN iffD2, OF t(1)]]] rk v0 k(4) by simp
    next
      assume v6: "v = 6"
      then have pr: "atk_proof ?y = 0x5EEDC0DE" using u(1) by (simp add: expected_def yield_trap_def)
      have a6: "g_atk_vec ?y = 6" using v6 same(4) by (simp add: v_def word_unat_eq_iff)
      have "demo_live rom ?y" using carried_keeps(1) [OF same(1)] t(1) by simp
      from atk_finishes [OF _ a6 this goes [unfolded r]] obtain x where
        x: "c = enter_checked 2 x" "carried ?y x" "g_phase x = 5"
          "\<forall>k < 106. k \<notin> {32, 33, 87, 92, 97} \<longrightarrow> k < 40 \<or> 50 < k \<longrightarrow> status x ! k = status st ! k"
          "status x ! S_RDROK = 1" "status x ! S_INTER = g_ri_index ?y"
          "\<forall>i < 5. status x ! (S_LOG0C + 2 * i) = g_ri_cause ?y ! i \<and> status x ! (S_LOG0C + 2 * i + 1) = g_ri_addr ?y ! i"
        using same(2) pr r len(1) by auto
      note k = carried_keeps [OF carried_trans [OF same(1) x(2)]]
      have "ring_holds (expected_faults t) ?y" using carried_keeps(3) [OF same(1)] t(4) v6 by simp
      then have ring: "unat (g_ri_index ?y) = 5"
        "\<forall>i < 5. g_ri_cause ?y ! i = fst (expected_faults t ! i) \<and> g_ri_addr ?y ! i = snd (expected_faults t ! i)"
        by (simp_all add: ring_holds_def)
      then have "g_ri_index ?y = 5" by (simp add: word_unat_eq_iff)
      moreover have "status x ! S_OWNOOK = 1" using x(4) t(5) v6 by (simp add: status_words)
      ultimately have "attack_logged t x" using x(5-7) ring(2) by (simp add: attack_logged_def)
      moreover have "on_show x" using on_show_keeps [OF t(3) k(2)] x(4) by (auto simp: status_words)
      ultimately have "tracks t rom x" using k t(1,2) x(3) by (simp add: tracks_def progress_def)
      from enters_tracked [OF x(1) goes this refl] show ?thesis using x(3) rk v6 k(4) by (simp add: rank_def)
    qed
  next
    case (faults ops cause addr st' e regs)
    then have u: "Faults cause addr st' = expected t v st" using ex by simp
    then have v: "v \<noteq> 0" "v \<noteq> 6" and st': "st' = st"
      and ca: "cause = fst (expected_faults t ! (v - 1))" "addr = snd (expected_faults t ! (v - 1))"
      by (auto simp: expected_def split: if_splits)
    have v5: "v - 1 < 5" "v < 6" using v v6 by linarith+
    let ?y = "fault_trap e cause addr regs st"
    define z where "z = ?y\<lparr>table := compartment_evict (cur_comp (table ?y)) (table ?y)\<rparr>"
    have z: "carried ?y z" "status z = status st" "g_phase z = 4" "g_atk_vec z = g_atk_vec st"
      using fault_keeps [where st = st] ph(1) by (simp_all add: z_def carried_def)
    have mask: "cause AND 0x80000000 = 0" using expected_causes [OF v5(1), of t] ca(1) by simp
    have "c = supervisor_fault t rom cause ?y" using faults(3) st' by simp
    also have "\<dots> = atk_advance t rom z" unfolding z_def by (rule attack_fault [OF mask]) (simp only: fault_keeps ph(1))
    finally have r: "c = atk_advance t rom z" .
    have a0: "g_atk_vec st \<noteq> 0" using v(1) by (auto simp: v_def)
    from atk_enters [of z t rom] obtain x where
      x: "c = enter_checked 1 x" "carried z x" "g_phase x = 4" "unat (g_atk_vec x) = v + 1"
        "\<forall>k. k \<noteq> S_OWNOOK \<longrightarrow> status x ! k = status st ! k" "status x ! S_OWNOOK = 1"
      using z r len a0 v5 t(5) [OF v(1)] by (auto simp: v_def)
    have nowait: "c \<noteq> Waiting" using x(1) enter_no_wait by simp
    have "goes t (rank st - 1) c"
      using run_step_goes [OF run ship_is_step [OF shape step]] nowait cur by auto
    note k = carried_keeps [OF carried_trans [OF z(1) x(2)]]
    have l7: "length (take (v - 1) (expected_faults t)) < 7" using v5 by simp
    have "ring_holds (take (v - 1) (expected_faults t) @ [(cause, addr)]) ?y"
      using ring_grows [OF t(4) l7 len(2,3)] .
    moreover have "take (v - 1) (expected_faults t) @ [(cause, addr)] = take v (expected_faults t)"
      using ca v5 v(1) take_Suc_conv_app_nth [of "v - 1" "expected_faults t"] by simp
    ultimately have "ring_holds (take v (expected_faults t)) x" using k(3) by simp
    note nx = attack_next [OF x(3,4) _ _ x(5,6) t(3) this t(2)]
    have "round_swarm x = round_swarm st" "demo_live rom x" using k t(1) fault_keeps [where st = st] by simp_all
    from enters_tracked [OF x(1) \<open>goes t (rank st - 1) c\<close> nx [OF this]] show ?thesis using rk v5 k(4) fault_keeps(6) by simp
  qed
qed

subsection \<open>The end of the round\<close>

text \<open>What STATUS shows after a round of the shipped code.\<close>

definition shown :: "target \<Rightarrow> rom \<Rightarrow> sup \<Rightarrow> sup \<Rightarrow> bool" where
  "shown t rom st x \<longleftrightarrow>
     over x \<and> demo_live rom x \<and> mailbox x = mailbox st \<and> on_show x \<and> attack_logged t x \<and>
     status x ! S_NAT2 = 0xC0DE0002"

definition ends_with :: "target \<Rightarrow> sup \<Rightarrow> ctl \<Rightarrow> bool" where
  "ends_with t x c \<longleftrightarrow> (case t of Qemu \<Rightarrow> c = Reports x | Board \<Rightarrow> (\<exists>seen. c = Serves rx_init seen x))"

lemma ends_with_ended: "ends_with t x c \<Longrightarrow> ended c" "ends_with t x c \<Longrightarrow> sup_of c = Some x"
  by (cases t; auto simp: ends_with_def ended_def)+

lemma native_runs:
  assumes run: "run_ok t cpu st" and live: "demo_live rom st" and cur: "cur_comp (table st) = 2"
  shows "shipped_code t rom st = Some (native_main t)"
    "user_run t (native_main t) st = Yields (st\<lparr>nat_sram := (nat_sram st)[0 := 0xC0DE0002]\<rparr>)"
proof -
  show "shipped_code t rom st = Some (native_main t)"
    using cur live by (simp add: shipped_code_def demo_live_def)
  have l0: "g_nat_live st = 0" using live by (simp add: demo_live_def)
  have sp: "c_spec (comps (table st) ! unat (cur_comp (table st))) = nat_spec t 0"
    using run_spec(3) [OF run] cur l0 by (simp add: spec_no_def shipped_specs_def)
  have "pmp_allows (csrs (table st)) Write (NAT_SRAM t)"
    unfolding run_rights(2) [OF run refl, unfolded sp] by (cases t; simp add: in_region_def nat_spec_def)
  moreover have "NAT_SRAM t \<noteq> ATK_OWN t" "NAT_SRAM t \<noteq> ATK_PROOF t"
    by (cases t; simp add: ATK_OWN_def ATK_PROOF_def)+
  ultimately show "user_run t (native_main t) st = Yields (st\<lparr>nat_sram := (nat_sram st)[0 := 0xC0DE0002]\<rparr>)"
    by (simp add: native_main_def poke_def)
qed

lemma native_ends:
  assumes run: "run_ok t cpu st" and tr: "tracks t rom st" and cur: "cur_comp (table st) = 2"
    and step: "ship_step t rom (Runs cpu st) c"
  shows "\<exists>x. ends_with t x c \<and> shown t rom st x"
proof -
  have core: "core_ok t st" and ph: "g_phase st = 5" using run cur by (simp_all add: run_ok_def phase_ok_def)
  have shape: "sup_shape st" using core by (simp add: core_ok_def serve_ok_def)
  then have len: "length (status st) = 106" "length (nat_sram st) = 2" by (simp_all add: sup_shape_def)
  have t: "demo_live rom st" "on_show st" "attack_logged t st"
    using tr ph by (simp_all add: tracks_def progress_def)
  note nr = native_runs [OF run t(1) cur]
  let ?s = "st\<lparr>nat_sram := (nat_sram st)[0 := 0xC0DE0002]\<rparr>"
  from step show ?thesis
  proof (cases rule: ship_cases)
    case (monitor b e regs)
    then show ?thesis using cur by simp
  next
    case (faults ops cause addr st' e regs)
    then show ?thesis using nr by simp
  next
    case (yields ops st' e regs)
    then have st': "st' = ?s" using nr by simp
    have "user_effect t st ?s" using user_run_effect(1) [OF user_effect_same [OF shape] refl nr(2)] .
    then have goes: "goes t (rank st - 1) c" using yield_goes [OF run] cur yields(3) st' by simp
    define y where "y = yield_trap e regs ?s"
    have y: "carried st y" "status y = status st" "g_phase y = 5" "nat_sram y ! 0 = 0xC0DE0002" "g_nat_live y = 0"
      using ph len t(1) by (simp_all add: y_def yield_trap_def carried_def demo_live_def)
    define x where "x = status_set S_DONE 0x600DF00D (status_set S_NAT2 0xC0DE0002 y)"
    have c: "c = native_done t 1 y" using yields(3) y(3) st' by (simp add: y_def supervisor_resume_def)
    have cx: "carried st x" using y(1) by (simp add: x_def carried_def status_set_def)
    note k = carried_keeps [OF cx]
    have w: "\<forall>j. j \<noteq> 56 \<longrightarrow> j \<noteq> 92 \<longrightarrow> status x ! j = status st ! j" "status x ! 92 = 0xC0DE0002"
      using y(2) len by (simp_all add: x_def status_set_def status_words)
    have on: "on_show x" using on_show_keeps [OF t(2) k(2)] w(1) by (auto simp: status_words)
    have i: "41 + 2 * i \<noteq> 56 \<and> 41 + 2 * i \<noteq> 92 \<and> Suc (41 + 2 * i) \<noteq> 56 \<and> Suc (41 + 2 * i) \<noteq> 92" if "i < 5" for i :: nat
      using that by linarith
    have log: "attack_logged t x" using t(3) w(1) i by (simp add: attack_logged_def status_words)
    show ?thesis
    proof (cases t)
      case Qemu
      then have "c = Reports x" using c y(4,5) by (simp add: native_done_def x_def Let_def)
      then show ?thesis using goes k t(1) cx on log w(2) by (simp add: ends_with_def shown_def goes_def carried_def S_NAT2_def)
    next
      case Board
      let ?x = "x\<lparr>wire := wire x @ verdict_line x\<rparr>"
      have e: "c = Serves rx_init (status x ! S_HLOAD) ?x"
        using Board c y(4,5) by (simp add: native_done_def x_def Let_def)
      have cw: "carried st ?x" using cx by (simp add: carried_def)
      note kw = carried_keeps [OF cw]
      have "on_show ?x" using on_show_keeps [OF t(2) kw(2)] w(1) by (auto simp: status_words)
      moreover have "attack_logged t ?x" using log by (simp add: attack_logged_def)
      ultimately show ?thesis
        using goes kw t(1) cw w(2) e by (simp add: ends_with_def shown_def goes_def carried_def S_NAT2_def)
    qed
  qed
qed

text \<open>One activation of a tracked round, and that there is always one.\<close>

lemma ship_next:
  assumes run: "run_ok t cpu st" and tr: "tracks t rom st" and step: "ship_step t rom (Runs cpu st) c"
  shows "(\<exists>cpu' st'. c = Runs cpu' st' \<and> run_ok t cpu' st' \<and> tracks t rom st' \<and> rank st' = rank st - 1 \<and>
      mailbox st' = mailbox st) \<or>
    rank st = 1 \<and> (\<exists>x. ends_with t x c \<and> shown t rom st x)"
proof -
  have shape: "sup_shape st" using run by (simp add: run_ok_def core_ok_def serve_ok_def)
  have sys: "sys_step t rom (Runs cpu st) c" using shape step by (rule ship_is_step)
  have runs: "run_ok t cpu' st'" if "c = Runs cpu' st'" for cpu' st'
    using run_step_goes [OF run sys] that by (auto simp: goes_def)
  from run_spec(4) [OF run] consider "cur_comp (table st) = 0" | "cur_comp (table st) = 1" | "cur_comp (table st) = 2" by blast
  then show ?thesis
  proof cases
    case 1
    from step show ?thesis
    proof (cases rule: ship_cases)
      case (monitor b e regs)
      have ok: "yield_ok t (st\<lparr>box := b\<rparr>)" using monitor_yield_ok [OF run] monitor by simp
      then have "core_ok t (st\<lparr>box := b\<rparr>)" by (simp add: yield_ok_def)
      note same = yield_same_round [OF this, of e regs]
      have "rank (yield_trap e regs (st\<lparr>box := b\<rparr>)) = rank st" using same_round_keeps(4) [OF same] by (simp add: rank_def)
      then have "goes t (rank st - 1) (supervisor_resume t rom (yield_trap e regs (st\<lparr>box := b\<rparr>)))"
        using resume_goes [OF yield_ok_same [OF ok same], of rom] by simp
      from monitor_tracks [OF run tr 1 monitor(2) this] runs monitor(3) show ?thesis by blast
    qed (use 1 in \<open>simp_all add: shipped_code_def\<close>)
  next
    case 2
    from attack_tracks [OF run tr 2 step] runs show ?thesis by blast
  next
    case 3
    then have "rank st = 1" using run by (simp add: run_ok_def phase_ok_def rank_def)
    with native_ends [OF run tr 3 step] show ?thesis by blast
  qed
qed

lemma ship_can:
  assumes run: "run_ok t cpu st" and tr: "tracks t rom st"
  shows "\<exists>c. ship_step t rom (Runs cpu st) c"
proof -
  from run_spec(4) [OF run] consider "cur_comp (table st) = 0" | "cur_comp (table st) = 1" | "cur_comp (table st) = 2" by blast
  then show ?thesis
  proof cases
    case 1
    have "g_phase st = 1 \<longrightarrow> mon_prog_cnt (box st) = 0" using tr by (simp add: tracks_def progress_def)
    with monitor_runs [OF run 1] obtain b where "monitor_main t (box st) = Some (Inr b)" by auto
    with 1 show ?thesis by (blast intro: ship_step.monitor)
  next
    case 2
    then have "g_atk_vec st \<le> 6" using run by (simp add: run_ok_def phase_ok_def)
    then have "unat (g_atk_vec st) \<le> 6" by (simp add: word_le_nat_alt)
    note ex = attack_expected [OF run 2 refl this]
    then have "(\<exists>st'. user_run t (attack_vectors t ! unat (g_atk_vec st)) st = Yields st') \<or>
        (\<exists>a b st'. user_run t (attack_vectors t ! unat (g_atk_vec st)) st = Faults a b st')"
      by (simp add: expected_def)
    with ex(1) show ?thesis by (blast intro: ship_step.yields ship_step.faults)
  next
    case 3
    have "demo_live rom st" using tr by (simp add: tracks_def)
    from native_runs [OF run this 3] show ?thesis by (blast intro: ship_step.yields)
  qed
qed

subsection \<open>Whole rounds\<close>

lemma ship_acts:
  assumes "run_ok t cpu st" "ship_step t rom (Runs cpu st) c"
  shows "act_step t rom (Runs cpu st) c"
  using ship_is_step [OF _ assms(2)] assms(1) by (simp add: act_step_def run_ok_def core_ok_def serve_ok_def)

lemma ship_path:
  assumes run: "run_ok t cpu st" and tr: "tracks t rom st" and path: "(ship_step t rom ^^ m) (Runs cpu st) c"
    and m: "m \<le> rank st"
  shows "(act_step t rom ^^ m) (Runs cpu st) c \<and>
    (if m < rank st
     then \<exists>cpu' st'. c = Runs cpu' st' \<and> run_ok t cpu' st' \<and> tracks t rom st' \<and> rank st' = rank st - m \<and> mailbox st' = mailbox st
     else \<exists>x. ends_with t x c \<and> shown t rom st x)"
  using path m
proof (induction m arbitrary: c)
  case 0
  moreover have "0 < rank st" using rank_pos(1) [OF run] by simp
  ultimately show ?case using run tr by auto
next
  case (Suc m)
  then obtain d where d: "(ship_step t rom ^^ m) (Runs cpu st) d" "ship_step t rom d c" by auto
  have "m < rank st" using Suc.prems(2) by simp
  with Suc.IH [OF d(1)] obtain cpu' st' where
    r: "d = Runs cpu' st'" "run_ok t cpu' st'" "tracks t rom st'" "rank st' = rank st - m" "mailbox st' = mailbox st"
      "(act_step t rom ^^ m) (Runs cpu st) d" by auto
  have a: "act_step t rom d c" using ship_acts [OF r(2)] d(2) r(1) by simp
  then have act: "(act_step t rom ^^ Suc m) (Runs cpu st) c" using r(6) by auto
  from ship_next [OF r(2,3) d(2) [unfolded r(1)]] show ?case
  proof (elim disjE conjE exE)
    fix cpu2 st2
    assume n: "c = Runs cpu2 st2" "run_ok t cpu2 st2" "tracks t rom st2" "rank st2 = rank st' - 1" "mailbox st2 = mailbox st'"
    then have "rank st - m - 1 \<noteq> 0" using rank_pos(1) [OF n(2)] r(4) by simp
    then have "Suc m < rank st" by simp
    then show ?thesis using act n r(4,5) by auto
  next
    fix x
    assume n: "rank st' = 1" "ends_with t x c" "shown t rom st' x"
    then have "Suc m = rank st" using r(4) Suc.prems(2) by simp
    moreover have "shown t rom st x" using n(3) r(5) by (simp add: shown_def)
    ultimately show ?thesis using act n(2) by auto
  qed
qed

lemma ship_path_exists:
  assumes run: "run_ok t cpu st" and tr: "tracks t rom st"
  shows "m \<le> rank st \<Longrightarrow> \<exists>c. (ship_step t rom ^^ m) (Runs cpu st) c"
proof (induction m)
  case 0
  then show ?case by auto
next
  case (Suc m)
  then obtain d where d: "(ship_step t rom ^^ m) (Runs cpu st) d" by auto
  then obtain cpu' st' where "d = Runs cpu' st'" "run_ok t cpu' st'" "tracks t rom st'"
    using ship_path [OF run tr d] Suc.prems by auto
  with ship_can d show ?case by fastforce
qed

lemma round_reported:
  assumes run: "run_ok t cpu st" and ph: "g_phase st = 1" and tr: "tracks t rom st"
  shows "\<exists>c. (ship_step t rom ^^ 11) (Runs cpu st) c"
    "(ship_step t rom ^^ 11) (Runs cpu st) c \<Longrightarrow>
      \<exists>x. ends_with t x c \<and> shown t rom st x \<and> map (\<lambda>i. status x ! (S_CAIJUE + i)) [0..<6] = want \<and>
        status x ! S_VINTACT = 1 \<and> status x ! S_IINTACT = 1 \<and> status x ! S_NATOK = 1"
proof -
  have rk: "rank st = 11" using ph by (simp add: rank_def)
  show "\<exists>c. (ship_step t rom ^^ 11) (Runs cpu st) c" using ship_path_exists [OF run tr, of 11] rk by simp
  assume "(ship_step t rom ^^ 11) (Runs cpu st) c"
  from ship_path [OF run tr this] rk obtain x where
    act: "(act_step t rom ^^ 11) (Runs cpu st) c" and e: "ends_with t x c" "shown t rom st x" by auto
  have "mon_prog_cnt (box st) = 0" using tr ph by (simp add: tracks_def progress_def)
  from builtin_verdicts [OF run ph this act ends_with_ended [OF e(1)]] e
  show "\<exists>x. ends_with t x c \<and> shown t rom st x \<and> map (\<lambda>i. status x ! (S_CAIJUE + i)) [0..<6] = want \<and>
        status x ! S_VINTACT = 1 \<and> status x ! S_IINTACT = 1 \<and> status x ! S_NATOK = 1" by blast
qed

end
