(* ===== verification/BootShip.thy ===== *)
theory BootShip
  imports ShipRound
begin

text \<open>
  A round of the shipped code from power-on: the boot leads into a tracked round when nothing is stored in the device, and
  what the attack vectors then come to.
\<close>

subsection \<open>From boot to the first activation\<close>

lemma schedule_tracks:
  assumes ok: "serve_ok st" and live: "demo_live rom st" and ring: "ring_holds [] st" and n: "8 \<le> length (round_swarm st)"
    and builtin: "mon_prog_cnt (box st) = 0"
  shows "\<exists>cpu st'. schedule_round t rom st = Runs cpu st' \<and> run_ok t cpu st' \<and> tracks t rom st' \<and> g_phase st' = 1 \<and>
    mailbox st' = mailbox st"
proof -
  have shape: "sup_shape st" using ok by (simp add: serve_ok_def)
  from load_inputs_ok [OF shape] obtain b k s where
    load: "load_inputs st = st\<lparr>box := b, g_conflict_n := k, g_source := s\<rparr>" and
    b: "map (take 42) (swarm b) = round_swarm st" "mon_prog_cnt b = mon_prog_cnt (box st)" by blast
  define live where "live = g_nat_live st"
  define tab where "tab = compartment_arm 0 (compartment_set 2 (nat_spec t live) (n_entry (g_nat st ! unat live))
      (compartment_set 1 (ic_comp_attacker t) (atk_vec rom ! 0 - ATK_TEXT t)
        (compartment_set 0 (ic_comp_monitor t) (monitor_entry rom - MON_TEXT t) (table st))))"
  define x where "x = st\<lparr>box := b\<lparr>mon_mode := 0\<rparr>, g_conflict_n := k, g_source := s, table := tab,
      nat_sram := (nat_sram st)[(if live \<noteq> 0 then 1 else 0) := 0], g_phase := 1,
      reads := reads st + 1, g_stk0 := clock st (reads st)\<rparr>"
  have e: "schedule_round t rom st = enter_checked 0 x"
    unfolding schedule_round_def load Let_def x_def tab_def live_def
    by (simp add: case_prod_unfold split del: if_split) (rule arg_cong [where f = "enter_checked 0"], simp)
  have c: "carried st x" "g_phase x = 1" "mon_prog_cnt (box x) = 0" by (simp_all add: x_def carried_def b(2) builtin)
  note kp = carried_keeps [OF c(1)]
  have "swarm (box x) = swarm b" by (simp add: x_def swarm_def)
  then have tr: "tracks t rom x" using kp c live ring n b(1) by (simp add: tracks_def progress_def)
  have go: "goes t 11 (schedule_round t rom st)" using ok by (rule schedule_round_goes)
  from enter_is_run [of t 11 0 x] go e obtain cpu tb where r: "schedule_round t rom st = Runs cpu (x\<lparr>table := tb\<rparr>)" by auto
  then have "run_ok t cpu (x\<lparr>table := tb\<rparr>)" using go by (simp add: goes_def)
  then show ?thesis
    using r tr c(2) kp(4) by (intro exI [of _ cpu] exI [of _ "x\<lparr>table := tb\<rparr>"]) (simp add: tracks_table)
qed

text \<open>What a boot finds in memory that survived the reset.\<close>

definition stored :: "sup \<Rightarrow> sup \<Rightarrow> bool" where
  "stored st x \<longleftrightarrow>
     prog_area x = prog_area st \<and> mirror x = mirror st \<and> mailbox x = mailbox st \<and> g_ri_index x = g_ri_index st"

lemma stored_trans: "stored st x \<Longrightarrow> stored x y \<Longrightarrow> stored st y"
  by (simp add: stored_def)

lemma stored_keeps:
  assumes "stored st x"
  shows "blank_store x = blank_store st" "round_swarm x = round_swarm st" "ring_holds [] x = ring_holds [] st"
  using assms round_swarm_same [of x st] by (simp_all add: stored_def blank_store_def ring_holds_def)

lemma status_stored: "boot_status t env st = Some st1 \<Longrightarrow> stored st st1"
  by (auto simp: boot_status_def Let_def timer_now_def status_set_def stored_def split: target.splits option.splits)

text \<open>No byte arrives in the console window.\<close>

definition quiet_console :: "boot_env \<Rightarrow> bool" where
  "quiet_console env \<longleftrightarrow> (\<forall>p \<in> set (load_polls env). snd p = None)"

lemma recv_quiet:
  "\<forall>p \<in> set polls. snd p = None \<Longrightarrow> recv_loop t0 polls dst cap rx = RPending \<or> recv_loop t0 polls dst cap rx = RDone 0 dst rx"
  by (induction t0 polls dst cap rx rule: recv_loop.induct) auto

lemma load_stored:
  assumes shape: "sup_shape st" and quiet: "quiet_console env"
    and run: "uart_load (load_t0 env) (load_polls env) st = Some st2"
  shows "stored st st2"
proof -
  have "uart_recv (load_t0 env) (load_polls env) (drop 0x400 (prog_area st)) UART_FRAME_MAX =
      RDone 0 (drop 0x400 (prog_area st)) rx_init"
    using recv_quiet quiet run
    by (auto simp: uart_load_def uart_recv_def quiet_console_def split: recv_result.splits) (metis prod.collapse recv_quiet recv_result.distinct(1) recv_result.inject)+
  then have "st2 = st\<lparr>prog_area := blit 0 (take (unat (0::u32)) (drop 0x400 (prog_area st))) (blit 0x400 (drop 0x400 (prog_area st)) (prog_area st))\<rparr>"
    using run by (simp add: uart_load_def Let_def)
  moreover have "length (prog_area st) = 0x800" using shape by (simp add: sup_shape_def)
  then have "blit 0x400 (drop 0x400 (prog_area st)) (prog_area st) = prog_area st" by (simp add: blit_def)
  ultimately show ?thesis by (simp add: stored_def blit_def)
qed

lemma restore_blank:
  assumes shape: "sup_shape st" and k: "k = 0 \<or> k = 1" and blank: "le32 (drop (mir_off k) (mirror st)) 0 \<noteq> MIR_MAGIC"
  shows "restore_slot t k st = Some st"
proof -
  have "\<not> 16 > length (drop (mir_off k) (mirror st))" using shape k by (auto simp: sup_shape_def)
  moreover have "\<not> k > 1" using k by auto
  ultimately have "flash_mirror_read k (nat_text st ! unat k) 0x1F0 (n_entry (g_nat st ! unat k)) (mirror st) =
      Some (0, nat_text st ! unat k, n_entry (g_nat st ! unat k))"
    using blank by (simp add: flash_mirror_read_def Let_def)
  then show ?thesis by (simp add: restore_slot_def nat_update_def)
qed

lemma boot_tracks:
  assumes shape: "sup_shape st" and fits: "length (native_demo rom) \<le> 0x1000" and blank: "blank_store st"
    and quiet: "quiet_console env" and ring: "g_ri_index st = 0" and n: "8 \<le> length (round_swarm st)"
    and nw: "boot_main t rom env st \<noteq> Waiting"
  shows "\<exists>cpu st'. boot_main t rom env st = Runs cpu st' \<and> run_ok t cpu st' \<and> tracks t rom st' \<and> g_phase st' = 1 \<and>
    mailbox st' = mailbox st"
proof -
  have gate: "boot_gate t = 0" using boot_gate_clear by (cases t) auto
  obtain st1 where s1: "boot_status t env st = Some st1"
    using nw gate by (cases "boot_status t env st") (simp_all add: boot_main_def)
  obtain st2 where s2: "uart_load (load_t0 env) (load_polls env) st1 = Some st2"
    using nw gate s1 by (cases "uart_load (load_t0 env) (load_polls env) st1") (simp_all add: boot_main_def)
  have sh1: "sup_shape st1" using boot_status_shape [OF shape s1] .
  have sh2: "sup_shape st2" using sh1 s2 by (rule uart_load_shape)
  have st2: "stored st st2" using status_stored [OF s1] load_stored [OF sh1 quiet s2] by (rule stored_trans)
  define x where "x = boot_reset (load_program t st2)"
  have "stored st2 (cleared st2)" "mon_prog_cnt (box (cleared st2)) = 0" by (simp_all add: cleared_def stored_def status_set_def)
  moreover have "le32 (prog_area (cleared st2)) 0 \<noteq> PROG_MAGIC"
    using blank st2 calculation(1) by (simp add: stored_def blank_store_def)
  then have "load_program t st2 = cleared st2" by (simp add: load_program_cleared Let_def)
  moreover have "stored s (boot_reset s)" "box (boot_reset s) = box s" for s
    by (simp_all add: boot_reset_def Let_def case_prod_unfold) (simp_all add: stored_def status_set_def)
  ultimately have x: "stored st x" "mon_prog_cnt (box x) = 0"
    using st2 stored_trans unfolding x_def by metis+
  have shx: "sup_shape x" using load_program_ok [OF sh2, of t]
    by (simp add: x_def boot_reset_def Let_def case_prod_unfold)
  have lt: "length (nat_text x) = 2" "length (nat_text x ! 0) = 0x1000" using shx by (simp_all add: sup_shape_def)
  from install_demo_shape [OF shx fits] obtain y where
    y: "install_demo rom x = Some y" "sup_shape y" "box y = box x" by blast
  have yd: "y = x\<lparr>g_nat := [\<lparr>n_len = word_of_nat (length (native_demo rom)), n_entry = 0, n_valid = 1, n_evicted = 0\<rparr>,
                           \<lparr>n_len = 0, n_entry = 0, n_valid = 0, n_evicted = 0\<rparr>],
                 nat_text := (nat_text x)[0 := blit 0 (native_demo rom) (nat_text x ! 0)],
                 g_nat_live := 0, g_nat_retired := 0\<rparr>"
    using y(1) fits lt by (simp add: install_demo_def Let_def)
  have sy: "stored st y" using x(1) by (simp add: yd stored_def)
  note k = stored_keeps [OF sy]
  have bl: "blank_store y" using k(1) blank by simp
  have "restore_slot t 0 y = Some y" "restore_slot t 1 y = Some y"
    using restore_blank [OF y(2)] bl by (simp_all add: blank_store_def)
  then have boot: "boot_main t rom env st = schedule_round t rom y"
    using gate s1 s2 y(1) by (simp add: boot_main_def restore_slots_def Let_def x_def)
  have upd: "g_update y = update_reset" "progs_ok (box y)"
    using load_program_ok [OF sh2, of t] y(3)
    by (simp_all add: yd x_def boot_reset_def Let_def case_prod_unfold) (simp_all add: status_set_def)
  have "552 \<le> length (pend y)" using y(2) by (simp add: sup_shape_def)
  then have "serve_ok y"
    using upd y(2) by (simp add: serve_ok_def quiet_def world_def update_wf_def update_reset_def update_consts)
  have "take (length (native_demo rom)) (nat_text y ! 0) = native_demo rom" using lt fits by (simp add: yd blit_def)
  then have "demo_live rom y" using bl by (simp add: demo_live_def) (simp add: yd)
  moreover have "ring_holds [] y" using sy ring by (simp add: stored_def ring_holds_def)
  moreover have "8 \<le> length (round_swarm y)" using k(2) n by simp
  moreover have "mon_prog_cnt (box y) = 0" using x(2) y(3) by simp
  ultimately show ?thesis using schedule_tracks [OF \<open>serve_ok y\<close>] boot sy by (simp add: stored_def)
qed

subsection \<open>Reaching the attacker\<close>

lemma demo_tracks:
  "\<exists>cpu st. boot_main Qemu demo_rom demo_env idle_sup = Runs cpu st \<and> run_ok Qemu cpu st \<and> tracks Qemu demo_rom st \<and>
    g_phase st = 1"
proof -
  have "blank_store idle_sup" by (simp add: blank_store_def idle_sup_def le32_def PROG_MAGIC_def MIR_MAGIC_def)
  moreover have "quiet_console demo_env" by (simp add: quiet_console_def demo_env_def)
  moreover have "g_ri_index idle_sup = 0" by (simp add: idle_sup_def)
  moreover have "\<not> mailed idle_sup" by (simp add: mailed_def idle_sup_def le32_def MO_SHU_def)
  then have "8 \<le> length (round_swarm idle_sup)" by (simp add: round_swarm_def)
  moreover have "boot_main Qemu demo_rom demo_env idle_sup \<noteq> Waiting" using demo_boot by auto
  moreover have "length (native_demo demo_rom) \<le> 0x1000" by (simp add: demo_rom_def)
  ultimately show ?thesis using boot_tracks [OF idle_sup_shape] by blast
qed

lemma reachable_path: "(sys_step t rom ^^ n) c c' \<Longrightarrow> reachable t rom c \<Longrightarrow> reachable t rom c'"
  by (induction n arbitrary: c') (auto intro: reachable.steps)

lemma ship_reachable: "(ship_step t rom ^^ n) c c' \<Longrightarrow> reachable t rom c \<Longrightarrow> reachable t rom c'"
  using ship.sub_path reachable_ok reachable_path by blast

lemma attacker_reachable:
  "\<exists>cpu st. reachable Qemu demo_rom (Runs cpu st) \<and> cur_comp (table st) = 1"
proof -
  obtain cpu st where b: "boot_main Qemu demo_rom demo_env idle_sup = Runs cpu st" "run_ok Qemu cpu st"
      "tracks Qemu demo_rom st" "g_phase st = 1" using demo_tracks by blast
  have "length (native_demo demo_rom) \<le> 0x1000" by (simp add: demo_rom_def)
  from reachable.boots [OF idle_sup_shape this, of Qemu demo_env] b(1) have r: "reachable Qemu demo_rom (Runs cpu st)" by simp
  have rk: "rank st = 11" using b(4) by (simp add: rank_def)
  obtain c where c: "(ship_step Qemu demo_rom ^^ 3) (Runs cpu st) c"
    using ship_path_exists [OF b(2,3), of 3] rk by auto
  from ship_path [OF b(2,3) c] rk obtain cpu' st' where n: "c = Runs cpu' st'" "run_ok Qemu cpu' st'" "rank st' = 8" by auto
  then have "g_phase st' = 4" by (auto simp: rank_def split: if_splits)
  then have "cur_comp (table st') = 1" using n(2) by (auto simp: run_ok_def phase_ok_def)
  then show ?thesis using ship_reachable [OF c r] n(1) by blast
qed

text \<open>
  C18: every attack vector comes to the end its author expects.  In every reachable state with the attacker on
  the CPU, the first vector and the last write their word and yield; the two stores into the monitor's box and
  the load from it, the load and the jump into its text are denied, with the cause and the address the
  vector aims at, and change nothing.
\<close>

theorem attack_outcomes:
  assumes "reachable t rom (Runs cpu st)" "cur_comp (table st) = 1"
  shows "map (\<lambda>ops. user_run t ops st) (attack_vectors t) =
    [Yields (st\<lparr>atk_own := 0xBEEF5EED\<rparr>), Faults 7 (MON_BOX t + 0x200) st, Faults 7 (MON_BOX t + 0x80) st,
     Faults 5 (MON_BOX t + 0x200) st, Faults 5 (MON_TEXT t) st, Faults 1 (MON_TEXT t) st,
     Yields (st\<lparr>atk_proof := 0x5EEDC0DE\<rparr>)]"
  using reachable_run [OF assms(1)] assms(2) by (rule attack_runs)

theorem attack_outcomes_witness:
  "\<exists>st. user_run Qemu (vec_jmp Qemu) st = Faults 1 0x80100000 st \<and> cur_comp (table st) = 1"
proof -
  obtain cpu st where r: "reachable Qemu demo_rom (Runs cpu st)" "cur_comp (table st) = 1" using attacker_reachable by blast
  from attack_outcomes [OF r] have "user_run Qemu (attack_vectors Qemu ! 5) st = Faults 1 (MON_TEXT Qemu) st"
    by (simp add: attack_vectors_def)
  then show ?thesis using r(2) by (auto simp: attack_vectors_def)
qed

end
