(* ===== verification/Report.thy ===== *)
theory Report
  imports BootShip
begin

text \<open>
  The emulator build around the firmware: the report of \<^verbatim>\<open>qemu/report.c\<close> over STATUS and the mailbox, which counts
  the swarm once more in C, and the sweep of \<^verbatim>\<open>qemu/main_qemu.c\<close>, which boots the firmware once per fixture and exits
  with the verdict.
\<close>

subsection \<open>The report\<close>

text \<open>One turn per packet: the cell of its coordinates, the count, and whether the cell or a neighbour is over three.\<close>

definition report_cell :: "u8 list \<Rightarrow> nat \<Rightarrow> u32" where
  "report_cell mb i =
     (let lat = le32 mb (8 + i * 42 + 10); lon = le32 mb (8 + i * 42 + 14)
      in (drop_bit 26 lat AND 7) * 8 + (drop_bit 26 lon AND 7))"

fun mirror_loop :: "u8 list \<Rightarrow> nat list \<Rightarrow> u32 list \<Rightarrow> u32 \<Rightarrow> u32" where
  "mirror_loop mb [] m al = al"
| "mirror_loop mb (i # is) m al =
     (let c = report_cell mb i;
          m = m[unat c := m ! unat c + 1];
          left = m ! unat ((c - 1) AND 63); right = m ! unat ((c + 1) AND 63)
      in mirror_loop mb is m (if m ! unat c > 3 \<or> left > 3 \<or> right > 3 then al + 1 else al))"

definition mirror_alerts :: "sup \<Rightarrow> u32" where
  "mirror_alerts st = mirror_loop (mailbox st) [0..<unat (status st ! S_CHONGTU_N)] (replicate 64 0) 0"

definition wcause :: "u32 list" where "wcause = [7, 7, 5, 5, 1]"

definition wmtval :: "u32 list" where
  "wmtval = [MON_RESULTS Qemu, MON_INPUT_W Qemu, MON_RESULTS Qemu, MON_TEXT Qemu, MON_TEXT Qemu]"

definition svok :: "sup \<Rightarrow> bool" where
  "svok st \<longleftrightarrow> \<not> (\<exists>i \<in> set [0..<8]. status st ! (S_BAN_CAIJUE + i) > 5)"

definition report_ok :: "sup \<Rightarrow> bool" where
  "report_ok st \<longleftrightarrow>
     status st ! S_JINGBAO = mirror_alerts st \<and> status st ! S_NATOK \<noteq> 0 \<and> status st ! S_VINTACT \<noteq> 0 \<and>
     status st ! S_IINTACT \<noteq> 0 \<and> status st ! S_OWNOOK \<noteq> 0 \<and> status st ! S_RDROK \<noteq> 0 \<and>
     status st ! S_NAT2 = 0xC0DE0002 \<and> status st ! S_INTER = 5 \<and>
     \<not> (\<exists>i \<in> set [0..<6]. status st ! (S_CAIJUE + i) \<noteq> want ! i) \<and> svok st \<and>
     \<not> (\<exists>i \<in> set [0..<5]. status st ! (S_LOG0C + i * 2) \<noteq> wcause ! i \<or> status st ! (S_LOG0C + 1 + i * 2) \<noteq> wmtval ! i)"

definition newline :: "u8 list" where "newline = [10]"

definition status_line :: "sup \<Rightarrow> nat \<Rightarrow> nat \<Rightarrow> u8 list" where
  "status_line st k n = concat (map (\<lambda>i. uart_puts '' '' @ uart_putdec (status st ! (k + i))) [0..<n])"

definition report_text :: "sup \<Rightarrow> u8 list" where
  "report_text st =
     uart_puts ''verdicts:'' @ status_line st S_CAIJUE 6 @ newline @
     uart_puts ''insns:   '' @ status_line st S_INSNS 6 @ newline @
     uart_puts ''alerts:  board='' @ uart_putdec (status st ! S_JINGBAO) @
     uart_puts '' mirror='' @ uart_putdec (mirror_alerts st) @ newline @
     uart_puts ''attack:  n='' @ uart_putdec (status st ! S_INTER) @
     uart_puts '' mtval:'' @
       concat (map (\<lambda>i. uart_puts '' 0x'' @ uart_puthex (status st ! (S_LOG0C + 1 + i * 2))) [0..<5]) @ newline @
     uart_puts ''integrity: verdicts='' @ uart_putdec (status st ! S_VINTACT) @
     uart_puts '' checksum='' @ uart_putdec (status st ! S_IINTACT) @
     uart_puts '' own='' @ uart_putdec (status st ! S_OWNOOK) @
     uart_puts '' native='' @ uart_putdec (status st ! S_NATOK) @
     uart_puts '' proof='' @ uart_putdec (status st ! S_RDROK) @
     uart_puts '' sv='' @ uart_putdec (if svok st then 1 else 0) @
     uart_puts '' nat2='' @ uart_putdec (if status st ! S_NAT2 = 0xC0DE0002 then 1 else 0) @ newline @
     uart_puts (if report_ok st then ''== MATCH =='' else ''== MISMATCH =='') @ newline"

text \<open>\<^verbatim>\<open>g_report_ok\<close> and the state with the text sent.\<close>

definition report :: "sup \<Rightarrow> u32 \<times> sup" where
  "report st = (if report_ok st then 1 else 0, st\<lparr>wire := wire st @ report_text st\<rparr>)"

subsection \<open>The mirror counts what the policy counts\<close>

lemma three_bits:
  obtains k :: nat where "k < 8" "(w :: u32) AND 7 = word_of_nat k"
proof
  have "w AND 7 \<le> 7" by (rule word_and_le1)
  then show "unat (w AND 7) < 8" by (simp add: word_le_nat_alt)
qed simp

lemma low_three: "(w :: 'a :: len word) AND 7 = take_bit 3 w"
  by (simp add: take_bit_eq_mask mask_eq_exp_minus_1)

lemma wide_bits: "drop_bit 26 (ucast (x :: u32) :: u64) AND 7 = ucast (drop_bit 26 x AND 7)"
  unfolding low_three by (rule bit_word_eqI) (auto simp: bit_simps)

lemma cell_word:
  assumes "a < 8" "b < 8"
  shows "grid_index (push_bit 3 (ucast (word_of_nat a :: u32)) OR ucast (word_of_nat b :: u32)) =
    unat (word_of_nat a * 8 + word_of_nat b :: u32)"
proof -
  have "a = 0 \<or> a = 1 \<or> a = 2 \<or> a = 3 \<or> a = 4 \<or> a = 5 \<or> a = 6 \<or> a = 7" using assms(1) by linarith
  moreover have "b = 0 \<or> b = 1 \<or> b = 2 \<or> b = 3 \<or> b = 4 \<or> b = 5 \<or> b = 6 \<or> b = 7" using assms(2) by linarith
  ultimately show ?thesis by (elim disjE) (simp_all add: grid_index_def)
qed

lemma report_cell_grid:
  assumes "length mb = 2696" "i < 64"
  shows "unat (report_cell mb i) = grid_index (swarm_cell (mailbox_packet mb i))"
proof -
  let ?p = "mailbox_packet mb i"
  have nth: "?p ! j = mb ! (8 + i * 42 + j)" if "j < 42" for j
    using assms that by (simp add: mailbox_packet_def)
  have le: "le32 ?p 10 = le32 mb (8 + i * 42 + 10)" "le32 ?p 14 = le32 mb (8 + i * 42 + 14)"
    by (simp_all add: le32_def nth)
  obtain a b where ab: "a < 8" "drop_bit 26 (le32 ?p 10) AND 7 = (word_of_nat a :: u32)"
      "b < 8" "drop_bit 26 (le32 ?p 14) AND 7 = (word_of_nat b :: u32)"
    using three_bits by metis
  show ?thesis
    unfolding swarm_cell_def wide_bits report_cell_def Let_def le [symmetric] ab(2,4) by (rule cell_word [OF ab(1,3), symmetric])
qed

lemma cell_neighbours:
  assumes "unat (c :: u32) = k" "k < 64"
  shows "unat ((c - 1) AND 63) = (k + 63) mod 64" "unat ((c + 1) AND 63) = (k + 1) mod 64"
proof -
  have m: "unat (w AND 63) = unat w mod 64" for w :: u32
  proof -
    have "w AND 63 = take_bit 6 w" by (simp add: take_bit_eq_mask mask_eq_exp_minus_1)
    then show ?thesis by (simp add: unsigned_take_bit_eq take_bit_nat_def)
  qed
  have "c - 1 = c + 4294967295" by simp
  then have "unat ((c - 1) AND 63) = (unat c + 4294967295) mod 64"
    by (simp only: m unat_word_ariths) (simp add: mod_mod_cancel)
  also have "unat c + 4294967295 = k + 63 + 64 * 67108863" using assms(1) by simp
  also have "\<dots> mod 64 = (k + 63) mod 64" by (rule mod_mult_self2)
  finally show "unat ((c - 1) AND 63) = (k + 63) mod 64" .
  show "unat ((c + 1) AND 63) = (k + 1) mod 64"
    using assms by (simp add: m unat_word_ariths mod_mod_cancel)
qed

lemma mirror_loop_alerts:
  assumes mb: "length mb = 2696" and n: "n \<le> 64" and ids: "\<forall>i < n. msgid_of (mailbox_packet mb i) = 33"
    and k: "k + d = n"
  shows "mirror_loop mb [k..<n] (grid_of (take k (map (mailbox_packet mb) [0..<n]))) al =
    al + word_of_nat (alerts (map (mailbox_packet mb) [0..<n]) k)"
  using k
proof (induction d arbitrary: k al)
  case 0
  then show ?case by (simp add: alerts_def)
next
  case (Suc d)
  let ?ps = "map (mailbox_packet mb) [0..<n]"
  let ?c = "report_cell mb k"
  let ?g = "grid_index (swarm_cell (mailbox_packet mb k))"
  have kn: "k < n" "k < 64" using Suc.prems n by simp_all
  have p: "?ps ! k = mailbox_packet mb k" "k < length ?ps" using kn by simp_all
  have c: "unat ?c = ?g" using report_cell_grid [OF mb kn(2)] .
  have g: "?g < 64" by simp
  note nb = cell_neighbours [OF c g]
  have id: "msgid_of (?ps ! k) = 33" using ids kn p by simp
  have tk: "take (Suc k) ?ps = take k ?ps @ [mailbox_packet mb k]" using p by (metis take_Suc_conv_app_nth)
  have bump: "(grid_of (take k ?ps))[?g := grid_of (take k ?ps) ! ?g + 1] = grid_of (take (Suc k) ?ps)"
    using id p g unfolding tk by (simp add: grid_of_snoc grid_bump_def)
  have small: "reports (take (Suc k) ?ps) j < 4294967296" for j
    using reports_le [of "take (Suc k) ?ps" j] kn n by simp
  let ?al = "if screen_verdict ?ps k = 5 then al + 1 else al"
  have al: "word_of_nat (alerts ?ps k) = (if screen_verdict ?ps k = 5 then 1 else 0) + (word_of_nat (alerts ?ps (Suc k)) :: u32)"
    using p(2) by (simp add: alerts_def upt_conv_Cons)
  have flag: "(3 < (grid_of (take (Suc k) ?ps) ! ?g) \<or> 3 < grid_of (take (Suc k) ?ps) ! ((?g + 63) mod 64) \<or>
      3 < grid_of (take (Suc k) ?ps) ! ((?g + 1) mod 64)) \<longleftrightarrow> screen_verdict ?ps k = 5"
    using small g id p three_less_word by (simp add: screen_verdict_def crowded_def Let_def)
  have upt: "[k..<n] = k # [Suc k..<n]" using kn by (simp add: upt_conv_Cons)
  have "mirror_loop mb [k..<n] (grid_of (take k ?ps)) al =
      mirror_loop mb [Suc k..<n] (grid_of (take (Suc k) ?ps)) ?al"
    unfolding upt mirror_loop.simps Let_def c bump nb by (simp only: flag)
  also have "\<dots> = al + word_of_nat (alerts ?ps k)"
    using Suc.IH [of "Suc k" ?al] Suc.prems al by simp
  finally show ?case .
qed

lemma mirror_counts:
  assumes mb: "length (mailbox st) = 2696" and mail: "mailed st" and ids: "\<forall>p \<in> set (round_swarm st). msgid_of p = 33"
    and cnt: "status st ! S_CHONGTU_N = word_of_nat (length (round_swarm st))"
  shows "mirror_alerts st = word_of_nat (alerts (round_swarm st) 0)"
proof -
  define n where "n = unat (le32 (mailbox st) 4)"
  have sw: "round_swarm st = map (mailbox_packet (mailbox st)) [0..<n]" using mail by (simp add: round_swarm_def n_def)
  have n: "n \<le> 64" using mail by (simp add: n_def mailed_def word_le_nat_alt)
  have "grid_of [] = replicate 64 0" by (rule nth_equalityI) (simp_all add: reports_def)
  moreover have "unat (status st ! S_CHONGTU_N) = n" using cnt sw n by (simp add: unat_of_nat take_bit_nat_eq_self)
  moreover have "\<forall>i < n. msgid_of (mailbox_packet (mailbox st) i) = 33" using ids sw by simp
  ultimately show ?thesis
    using mirror_loop_alerts [OF mb n, of 0 n 0] by (simp add: mirror_alerts_def sw)
qed

lemma shown_report:
  assumes sh: "shown Qemu rom st x" and v: "map (\<lambda>i. status x ! (S_CAIJUE + i)) [0..<6] = want"
    and w: "status x ! S_VINTACT = 1" "status x ! S_IINTACT = 1" "status x ! S_NATOK = 1"
    and mail: "mailed x" and ids: "\<forall>p \<in> set (round_swarm x). msgid_of p = 33"
  shows "report_ok x"
proof -
  have "sup_shape x" using sh by (simp add: shown_def over_def serve_ok_def)
  then have mb: "length (mailbox x) = 2696" by (simp add: sup_shape_def)
  have on: "on_show x" and log: "attack_logged Qemu x" and n2: "status x ! S_NAT2 = 0xC0DE0002" using sh by (simp_all add: shown_def)
  have al: "status x ! S_JINGBAO = mirror_alerts x"
    using mirror_counts [OF mb mail ids] on by (simp add: on_show_def)
  have sv: "svok x" using on by (simp add: svok_def on_show_def not_less)
  have vs: "status x ! (S_CAIJUE + i) = want ! i" if "i < 6" for i
    using arg_cong [OF v, of "\<lambda>xs. xs ! i"] that by simp
  have ef: "expected_faults Qemu = zip wcause wmtval"
    by (simp add: expected_faults_def wcause_def wmtval_def)
  have lg: "status x ! (S_LOG0C + i * 2) = wcause ! i \<and> status x ! (S_LOG0C + 1 + i * 2) = wmtval ! i" if "i < 5" for i
  proof -
    have "length wcause = 5" "length wmtval = 5" by (simp_all add: wcause_def wmtval_def)
    then show ?thesis using log that by (simp add: attack_logged_def ef mult.commute)
  qed
  from log have "status x ! S_OWNOOK = 1" "status x ! S_RDROK = 1" "status x ! S_INTER = 5" by (simp_all add: attack_logged_def)
  then show ?thesis using al w n2 vs sv lg unfolding report_ok_def by simp
qed

end
