(* ===== verification/Fixtures.thy ===== *)
theory Fixtures
  imports Inputs
begin

text \<open>
  The mailboxes of the capacity sweep, byte for byte from \<^verbatim>\<open>qemu/fixture.h\<close>: the eight bytes of the header,
  then one row of 42 bytes per report.
\<close>

definition mailbox_n8 :: "u8 list" where
  "mailbox_n8 = [0x4D, 0x52, 0x41, 0x57, 0x08, 0x00, 0x00, 0x00] @ concat [
    [0xFD, 0x1E, 0x00, 0x00, 0x00, 0x02, 0x03, 0x21, 0x00, 0x00, 0x80, 0x2B, 0x53, 0x0B, 0x00, 0x95, 0xBA, 0x0A,
      0x50, 0xC3, 0x00, 0x00, 0x64, 0x00, 0x00, 0x00, 0x00, 0x00, 0x00, 0x00, 0x00, 0x00, 0x00, 0x00, 0x00, 0x00, 0x00, 0x00, 0xFF, 0xFF, 0xAB, 0xCD],
    [0xFD, 0x1E, 0x00, 0x00, 0x01, 0x02, 0x03, 0x21, 0x00, 0x00, 0x00, 0x46, 0xC3, 0x23, 0x00, 0x54, 0xEA, 0x2A,
      0x50, 0xC3, 0x00, 0x00, 0x64, 0x00, 0x00, 0x00, 0x00, 0x00, 0x00, 0x00, 0x00, 0x00, 0x00, 0x00, 0x00, 0x00, 0x00, 0x00, 0xFF, 0xFF, 0xAB, 0xCD],
    [0xFD, 0x1E, 0x00, 0x00, 0x02, 0x02, 0x03, 0x21, 0x00, 0x00, 0x80, 0x44, 0xE5, 0x2D, 0x80, 0xDF, 0x17, 0x10,
      0x50, 0xC3, 0x00, 0x00, 0x64, 0x00, 0x00, 0x00, 0x00, 0x00, 0x00, 0x00, 0x00, 0x00, 0x00, 0x00, 0x00, 0x00, 0x00, 0x00, 0xFF, 0xFF, 0xAB, 0xCD],
    [0xFD, 0x1E, 0x00, 0x00, 0x03, 0x02, 0x03, 0x21, 0x00, 0x00, 0x80, 0x85, 0xB5, 0x0D, 0x80, 0x58, 0x84, 0x0C,
      0x50, 0xC3, 0x00, 0x00, 0x64, 0x00, 0x00, 0x00, 0x00, 0x00, 0x00, 0x00, 0x00, 0x00, 0x00, 0x00, 0x00, 0x00, 0x00, 0x00, 0xFF, 0xFF, 0xAB, 0xCD],
    [0xFD, 0x1E, 0x00, 0x00, 0x04, 0x02, 0x03, 0x21, 0x00, 0x00, 0x80, 0x82, 0xF9, 0x21, 0x80, 0x90, 0x20, 0x29,
      0x50, 0xC3, 0x00, 0x00, 0x64, 0x00, 0x00, 0x00, 0x00, 0x00, 0x00, 0x00, 0x00, 0x00, 0x00, 0x00, 0x00, 0x00, 0x00, 0x00, 0xFF, 0xFF, 0xAB, 0xCD],
    [0xFD, 0x1E, 0x00, 0x00, 0x05, 0x02, 0x03, 0x21, 0x00, 0x00, 0x00, 0x81, 0x1B, 0x2C, 0x80, 0x1D, 0x2C, 0x04,
      0x50, 0xC3, 0x00, 0x00, 0x64, 0x00, 0x00, 0x00, 0x00, 0x00, 0x00, 0x00, 0x00, 0x00, 0x00, 0x00, 0x00, 0x00, 0x00, 0x00, 0xFF, 0xFF, 0xAB, 0xCD],
    [0xFD, 0x1E, 0x00, 0x00, 0x06, 0x02, 0x03, 0x21, 0x00, 0x00, 0x00, 0xA0, 0x25, 0x26, 0x80, 0xDF, 0x17, 0x10,
      0x50, 0xC3, 0x00, 0x00, 0x64, 0x00, 0x00, 0x00, 0x00, 0x00, 0x00, 0x00, 0x00, 0x00, 0x00, 0x00, 0x00, 0x00, 0x00, 0x00, 0xFF, 0xFF, 0xAB, 0xCD],
    [0xFD, 0x1E, 0x00, 0x00, 0x07, 0x02, 0x03, 0x21, 0x00, 0x00, 0x00, 0x5A, 0x62, 0x02, 0x80, 0x77, 0x8E, 0x06,
      0x50, 0xC3, 0x00, 0x00, 0x64, 0x00, 0x00, 0x00, 0x00, 0x00, 0x00, 0x00, 0x00, 0x00, 0x00, 0x00, 0x00, 0x00, 0x00, 0x00, 0xFF, 0xFF, 0xAB, 0xCD]]"

definition mailbox_n16 :: "u8 list" where
  "mailbox_n16 = [0x4D, 0x52, 0x41, 0x57, 0x10, 0x00, 0x00, 0x00] @ concat [
    [0xFD, 0x1E, 0x00, 0x00, 0x00, 0x02, 0x03, 0x21, 0x00, 0x00, 0x80, 0x2B, 0x53, 0x0B, 0x00, 0x95, 0xBA, 0x0A,
      0x50, 0xC3, 0x00, 0x00, 0x64, 0x00, 0x00, 0x00, 0x00, 0x00, 0x00, 0x00, 0x00, 0x00, 0x00, 0x00, 0x00, 0x00, 0x00, 0x00, 0xFF, 0xFF, 0xAB, 0xCD],
    [0xFD, 0x1E, 0x00, 0x00, 0x01, 0x02, 0x03, 0x21, 0x00, 0x00, 0x00, 0x46, 0xC3, 0x23, 0x00, 0x54, 0xEA, 0x2A,
      0x50, 0xC3, 0x00, 0x00, 0x64, 0x00, 0x00, 0x00, 0x00, 0x00, 0x00, 0x00, 0x00, 0x00, 0x00, 0x00, 0x00, 0x00, 0x00, 0x00, 0xFF, 0xFF, 0xAB, 0xCD],
    [0xFD, 0x1E, 0x00, 0x00, 0x02, 0x02, 0x03, 0x21, 0x00, 0x00, 0x80, 0x44, 0xE5, 0x2D, 0x80, 0xDF, 0x17, 0x10,
      0x50, 0xC3, 0x00, 0x00, 0x64, 0x00, 0x00, 0x00, 0x00, 0x00, 0x00, 0x00, 0x00, 0x00, 0x00, 0x00, 0x00, 0x00, 0x00, 0x00, 0xFF, 0xFF, 0xAB, 0xCD],
    [0xFD, 0x1E, 0x00, 0x00, 0x03, 0x02, 0x03, 0x21, 0x00, 0x00, 0x80, 0x85, 0xB5, 0x0D, 0x80, 0x58, 0x84, 0x0C,
      0x50, 0xC3, 0x00, 0x00, 0x64, 0x00, 0x00, 0x00, 0x00, 0x00, 0x00, 0x00, 0x00, 0x00, 0x00, 0x00, 0x00, 0x00, 0x00, 0x00, 0xFF, 0xFF, 0xAB, 0xCD],
    [0xFD, 0x1E, 0x00, 0x00, 0x04, 0x02, 0x03, 0x21, 0x00, 0x00, 0x80, 0x82, 0xF9, 0x21, 0x80, 0x90, 0x20, 0x29,
      0x50, 0xC3, 0x00, 0x00, 0x64, 0x00, 0x00, 0x00, 0x00, 0x00, 0x00, 0x00, 0x00, 0x00, 0x00, 0x00, 0x00, 0x00, 0x00, 0x00, 0xFF, 0xFF, 0xAB, 0xCD],
    [0xFD, 0x1E, 0x00, 0x00, 0x05, 0x02, 0x03, 0x21, 0x00, 0x00, 0x80, 0x9E, 0x47, 0x30, 0x80, 0xDF, 0x17, 0x10,
      0x50, 0xC3, 0x00, 0x00, 0x64, 0x00, 0x00, 0x00, 0x00, 0x00, 0x00, 0x00, 0x00, 0x00, 0x00, 0x00, 0x00, 0x00, 0x00, 0x00, 0xFF, 0xFF, 0xAB, 0xCD],
    [0xFD, 0x1E, 0x00, 0x00, 0x06, 0x02, 0x03, 0x21, 0x00, 0x00, 0x80, 0x58, 0x84, 0x0C, 0x00, 0x95, 0xBA, 0x0A,
      0x50, 0xC3, 0x00, 0x00, 0x64, 0x00, 0x00, 0x00, 0x00, 0x00, 0x00, 0x00, 0x00, 0x00, 0x00, 0x00, 0x00, 0x00, 0x00, 0x00, 0xFF, 0xFF, 0xAB, 0xCD],
    [0xFD, 0x1E, 0x00, 0x00, 0x07, 0x02, 0x03, 0x21, 0x00, 0x00, 0x80, 0x82, 0xF9, 0x21, 0x80, 0x63, 0xEF, 0x27,
      0x50, 0xC3, 0x00, 0x00, 0x64, 0x00, 0x00, 0x00, 0x00, 0x00, 0x00, 0x00, 0x00, 0x00, 0x00, 0x00, 0x00, 0x00, 0x00, 0x00, 0xFF, 0xFF, 0xAB, 0xCD],
    [0xFD, 0x1E, 0x00, 0x00, 0x08, 0x02, 0x03, 0x21, 0x00, 0x00, 0x00, 0x08, 0xAF, 0x2F, 0x00, 0xA3, 0xE1, 0x11,
      0x50, 0xC3, 0x00, 0x00, 0x64, 0x00, 0x00, 0x00, 0x00, 0x00, 0x00, 0x00, 0x00, 0x00, 0x00, 0x00, 0x00, 0x00, 0x00, 0x00, 0xFF, 0xFF, 0xAB, 0xCD],
    [0xFD, 0x1E, 0x00, 0x00, 0x09, 0x02, 0x03, 0x21, 0x00, 0x00, 0x80, 0xFE, 0x21, 0x0A, 0x00, 0x95, 0xBA, 0x0A,
      0x50, 0xC3, 0x00, 0x00, 0x64, 0x00, 0x00, 0x00, 0x00, 0x00, 0x00, 0x00, 0x00, 0x00, 0x00, 0x00, 0x00, 0x00, 0x00, 0x00, 0xFF, 0xFF, 0xAB, 0xCD],
    [0xFD, 0x1E, 0x00, 0x00, 0x0A, 0x02, 0x03, 0x21, 0x00, 0x00, 0x80, 0x77, 0x8E, 0x06, 0x00, 0x27, 0xB9, 0x29,
      0x50, 0xC3, 0x00, 0x00, 0x64, 0x00, 0x00, 0x00, 0x00, 0x00, 0x00, 0x00, 0x00, 0x00, 0x00, 0x00, 0x00, 0x00, 0x00, 0x00, 0xFF, 0xFF, 0xAB, 0xCD],
    [0xFD, 0x1E, 0x00, 0x00, 0x0B, 0x02, 0x03, 0x21, 0x00, 0x00, 0x00, 0xBF, 0x2F, 0x20, 0x80, 0x1D, 0x2C, 0x04,
      0x50, 0xC3, 0x00, 0x00, 0x64, 0x00, 0x00, 0x00, 0x00, 0x00, 0x00, 0x00, 0x00, 0x00, 0x00, 0x00, 0x00, 0x00, 0x00, 0x00, 0xFF, 0xFF, 0xAB, 0xCD],
    [0xFD, 0x1E, 0x00, 0x00, 0x0C, 0x02, 0x03, 0x21, 0x00, 0x00, 0x00, 0x54, 0xEA, 0x2A, 0x80, 0xD1, 0xF0, 0x08,
      0x50, 0xC3, 0x00, 0x00, 0x64, 0x00, 0x00, 0x00, 0x00, 0x00, 0x00, 0x00, 0x00, 0x00, 0x00, 0x00, 0x00, 0x00, 0x00, 0x00, 0xFF, 0xFF, 0xAB, 0xCD],
    [0xFD, 0x1E, 0x00, 0x00, 0x0D, 0x02, 0x03, 0x21, 0x00, 0x00, 0x00, 0x76, 0xB0, 0x10, 0x00, 0x08, 0xAF, 0x2F,
      0x50, 0xC3, 0x00, 0x00, 0x64, 0x00, 0x00, 0x00, 0x00, 0x00, 0x00, 0x00, 0x00, 0x00, 0x00, 0x00, 0x00, 0x00, 0x00, 0x00, 0xFF, 0xFF, 0xAB, 0xCD],
    [0xFD, 0x1E, 0x00, 0x00, 0x0E, 0x02, 0x03, 0x21, 0x00, 0x00, 0x00, 0x08, 0xAF, 0x2F, 0x00, 0x81, 0x1B, 0x2C,
      0x50, 0xC3, 0x00, 0x00, 0x64, 0x00, 0x00, 0x00, 0x00, 0x00, 0x00, 0x00, 0x00, 0x00, 0x00, 0x00, 0x00, 0x00, 0x00, 0x00, 0xFF, 0xFF, 0xAB, 0xCD],
    [0xFD, 0x1E, 0x00, 0x00, 0x0F, 0x02, 0x03, 0x21, 0x00, 0x00, 0x80, 0x1D, 0x2C, 0x04, 0x80, 0xEA, 0x82, 0x2B,
      0x50, 0xC3, 0x00, 0x00, 0x64, 0x00, 0x00, 0x00, 0x00, 0x00, 0x00, 0x00, 0x00, 0x00, 0x00, 0x00, 0x00, 0x00, 0x00, 0x00, 0xFF, 0xFF, 0xAB, 0xCD]]"

definition mailbox_n24 :: "u8 list" where
  "mailbox_n24 = [0x4D, 0x52, 0x41, 0x57, 0x18, 0x00, 0x00, 0x00] @ concat [
    [0xFD, 0x1E, 0x00, 0x00, 0x00, 0x02, 0x03, 0x21, 0x00, 0x00, 0x80, 0x2B, 0x53, 0x0B, 0x00, 0x95, 0xBA, 0x0A,
      0x50, 0xC3, 0x00, 0x00, 0x64, 0x00, 0x00, 0x00, 0x00, 0x00, 0x00, 0x00, 0x00, 0x00, 0x00, 0x00, 0x00, 0x00, 0x00, 0x00, 0xFF, 0xFF, 0xAB, 0xCD],
    [0xFD, 0x1E, 0x00, 0x00, 0x01, 0x02, 0x03, 0x21, 0x00, 0x00, 0x00, 0x46, 0xC3, 0x23, 0x00, 0x54, 0xEA, 0x2A,
      0x50, 0xC3, 0x00, 0x00, 0x64, 0x00, 0x00, 0x00, 0x00, 0x00, 0x00, 0x00, 0x00, 0x00, 0x00, 0x00, 0x00, 0x00, 0x00, 0x00, 0xFF, 0xFF, 0xAB, 0xCD],
    [0xFD, 0x1E, 0x00, 0x00, 0x02, 0x02, 0x03, 0x21, 0x00, 0x00, 0x80, 0x44, 0xE5, 0x2D, 0x80, 0xDF, 0x17, 0x10,
      0x50, 0xC3, 0x00, 0x00, 0x64, 0x00, 0x00, 0x00, 0x00, 0x00, 0x00, 0x00, 0x00, 0x00, 0x00, 0x00, 0x00, 0x00, 0x00, 0x00, 0xFF, 0xFF, 0xAB, 0xCD],
    [0xFD, 0x1E, 0x00, 0x00, 0x03, 0x02, 0x03, 0x21, 0x00, 0x00, 0x80, 0x85, 0xB5, 0x0D, 0x80, 0x58, 0x84, 0x0C,
      0x50, 0xC3, 0x00, 0x00, 0x64, 0x00, 0x00, 0x00, 0x00, 0x00, 0x00, 0x00, 0x00, 0x00, 0x00, 0x00, 0x00, 0x00, 0x00, 0x00, 0xFF, 0xFF, 0xAB, 0xCD],
    [0xFD, 0x1E, 0x00, 0x00, 0x04, 0x02, 0x03, 0x21, 0x00, 0x00, 0x80, 0x82, 0xF9, 0x21, 0x80, 0x90, 0x20, 0x29,
      0x50, 0xC3, 0x00, 0x00, 0x64, 0x00, 0x00, 0x00, 0x00, 0x00, 0x00, 0x00, 0x00, 0x00, 0x00, 0x00, 0x00, 0x00, 0x00, 0x00, 0xFF, 0xFF, 0xAB, 0xCD],
    [0xFD, 0x1E, 0x00, 0x00, 0x05, 0x02, 0x03, 0x21, 0x00, 0x00, 0x80, 0x9E, 0x47, 0x30, 0x80, 0xDF, 0x17, 0x10,
      0x50, 0xC3, 0x00, 0x00, 0x64, 0x00, 0x00, 0x00, 0x00, 0x00, 0x00, 0x00, 0x00, 0x00, 0x00, 0x00, 0x00, 0x00, 0x00, 0x00, 0xFF, 0xFF, 0xAB, 0xCD],
    [0xFD, 0x1E, 0x00, 0x00, 0x06, 0x02, 0x03, 0x21, 0x00, 0x00, 0x80, 0x58, 0x84, 0x0C, 0x00, 0x95, 0xBA, 0x0A,
      0x50, 0xC3, 0x00, 0x00, 0x64, 0x00, 0x00, 0x00, 0x00, 0x00, 0x00, 0x00, 0x00, 0x00, 0x00, 0x00, 0x00, 0x00, 0x00, 0x00, 0xFF, 0xFF, 0xAB, 0xCD],
    [0xFD, 0x1E, 0x00, 0x00, 0x07, 0x02, 0x03, 0x21, 0x00, 0x00, 0x80, 0x82, 0xF9, 0x21, 0x80, 0x63, 0xEF, 0x27,
      0x50, 0xC3, 0x00, 0x00, 0x64, 0x00, 0x00, 0x00, 0x00, 0x00, 0x00, 0x00, 0x00, 0x00, 0x00, 0x00, 0x00, 0x00, 0x00, 0x00, 0xFF, 0xFF, 0xAB, 0xCD],
    [0xFD, 0x1E, 0x00, 0x00, 0x08, 0x02, 0x03, 0x21, 0x00, 0x00, 0x00, 0x08, 0xAF, 0x2F, 0x00, 0xA3, 0xE1, 0x11,
      0x50, 0xC3, 0x00, 0x00, 0x64, 0x00, 0x00, 0x00, 0x00, 0x00, 0x00, 0x00, 0x00, 0x00, 0x00, 0x00, 0x00, 0x00, 0x00, 0x00, 0xFF, 0xFF, 0xAB, 0xCD],
    [0xFD, 0x1E, 0x00, 0x00, 0x09, 0x02, 0x03, 0x21, 0x00, 0x00, 0x80, 0xFE, 0x21, 0x0A, 0x00, 0x95, 0xBA, 0x0A,
      0x50, 0xC3, 0x00, 0x00, 0x64, 0x00, 0x00, 0x00, 0x00, 0x00, 0x00, 0x00, 0x00, 0x00, 0x00, 0x00, 0x00, 0x00, 0x00, 0x00, 0xFF, 0xFF, 0xAB, 0xCD],
    [0xFD, 0x1E, 0x00, 0x00, 0x0A, 0x02, 0x03, 0x21, 0x00, 0x00, 0x80, 0x82, 0xF9, 0x21, 0x80, 0xBD, 0x51, 0x2A,
      0x50, 0xC3, 0x00, 0x00, 0x64, 0x00, 0x00, 0x00, 0x00, 0x00, 0x00, 0x00, 0x00, 0x00, 0x00, 0x00, 0x00, 0x00, 0x00, 0x00, 0xFF, 0xFF, 0xAB, 0xCD],
    [0xFD, 0x1E, 0x00, 0x00, 0x0B, 0x02, 0x03, 0x21, 0x00, 0x00, 0x00, 0x08, 0xAF, 0x2F, 0x80, 0xDF, 0x17, 0x10,
      0x50, 0xC3, 0x00, 0x00, 0x64, 0x00, 0x00, 0x00, 0x00, 0x00, 0x00, 0x00, 0x00, 0x00, 0x00, 0x00, 0x00, 0x00, 0x00, 0x00, 0xFF, 0xFF, 0xAB, 0xCD],
    [0xFD, 0x1E, 0x00, 0x00, 0x0C, 0x02, 0x03, 0x21, 0x00, 0x00, 0x80, 0x85, 0xB5, 0x0D, 0x80, 0x58, 0x84, 0x0C,
      0x50, 0xC3, 0x00, 0x00, 0x64, 0x00, 0x00, 0x00, 0x00, 0x00, 0x00, 0x00, 0x00, 0x00, 0x00, 0x00, 0x00, 0x00, 0x00, 0x00, 0xFF, 0xFF, 0xAB, 0xCD],
    [0xFD, 0x1E, 0x00, 0x00, 0x0D, 0x02, 0x03, 0x21, 0x00, 0x00, 0x80, 0x82, 0xF9, 0x21, 0x00, 0xFA, 0x87, 0x28,
      0x50, 0xC3, 0x00, 0x00, 0x64, 0x00, 0x00, 0x00, 0x00, 0x00, 0x00, 0x00, 0x00, 0x00, 0x00, 0x00, 0x00, 0x00, 0x00, 0x00, 0xFF, 0xFF, 0xAB, 0xCD],
    [0xFD, 0x1E, 0x00, 0x00, 0x0E, 0x02, 0x03, 0x21, 0x00, 0x00, 0x00, 0x35, 0xE0, 0x30, 0x00, 0xD0, 0x12, 0x13,
      0x50, 0xC3, 0x00, 0x00, 0x64, 0x00, 0x00, 0x00, 0x00, 0x00, 0x00, 0x00, 0x00, 0x00, 0x00, 0x00, 0x00, 0x00, 0x00, 0x00, 0xFF, 0xFF, 0xAB, 0xCD],
    [0xFD, 0x1E, 0x00, 0x00, 0x0F, 0x02, 0x03, 0x21, 0x00, 0x00, 0x80, 0x58, 0x84, 0x0C, 0x80, 0xFE, 0x21, 0x0A,
      0x50, 0xC3, 0x00, 0x00, 0x64, 0x00, 0x00, 0x00, 0x00, 0x00, 0x00, 0x00, 0x00, 0x00, 0x00, 0x00, 0x00, 0x00, 0x00, 0x00, 0xFF, 0xFF, 0xAB, 0xCD],
    [0xFD, 0x1E, 0x00, 0x00, 0x10, 0x02, 0x03, 0x21, 0x00, 0x00, 0x80, 0xEA, 0x82, 0x2B, 0x00, 0x81, 0x1B, 0x2C,
      0x50, 0xC3, 0x00, 0x00, 0x64, 0x00, 0x00, 0x00, 0x00, 0x00, 0x00, 0x00, 0x00, 0x00, 0x00, 0x00, 0x00, 0x00, 0x00, 0x00, 0xFF, 0xFF, 0xAB, 0xCD],
    [0xFD, 0x1E, 0x00, 0x00, 0x11, 0x02, 0x03, 0x21, 0x00, 0x00, 0x00, 0x65, 0xCD, 0x1D, 0x00, 0x87, 0x93, 0x03,
      0x50, 0xC3, 0x00, 0x00, 0x64, 0x00, 0x00, 0x00, 0x00, 0x00, 0x00, 0x00, 0x00, 0x00, 0x00, 0x00, 0x00, 0x00, 0x00, 0x00, 0xFF, 0xFF, 0xAB, 0xCD],
    [0xFD, 0x1E, 0x00, 0x00, 0x12, 0x02, 0x03, 0x21, 0x00, 0x00, 0x00, 0x76, 0xB0, 0x10, 0x80, 0xF0, 0xFA, 0x02,
      0x50, 0xC3, 0x00, 0x00, 0x64, 0x00, 0x00, 0x00, 0x00, 0x00, 0x00, 0x00, 0x00, 0x00, 0x00, 0x00, 0x00, 0x00, 0x00, 0x00, 0xFF, 0xFF, 0xAB, 0xCD],
    [0xFD, 0x1E, 0x00, 0x00, 0x13, 0x02, 0x03, 0x21, 0x00, 0x00, 0x80, 0xBD, 0x51, 0x2A, 0x80, 0xFE, 0x21, 0x0A,
      0x50, 0xC3, 0x00, 0x00, 0x64, 0x00, 0x00, 0x00, 0x00, 0x00, 0x00, 0x00, 0x00, 0x00, 0x00, 0x00, 0x00, 0x00, 0x00, 0x00, 0xFF, 0xFF, 0xAB, 0xCD],
    [0xFD, 0x1E, 0x00, 0x00, 0x14, 0x02, 0x03, 0x21, 0x00, 0x00, 0x80, 0xC0, 0x0D, 0x16, 0x80, 0x28, 0x97, 0x1F,
      0x50, 0xC3, 0x00, 0x00, 0x64, 0x00, 0x00, 0x00, 0x00, 0x00, 0x00, 0x00, 0x00, 0x00, 0x00, 0x00, 0x00, 0x00, 0x00, 0x00, 0xFF, 0xFF, 0xAB, 0xCD],
    [0xFD, 0x1E, 0x00, 0x00, 0x15, 0x02, 0x03, 0x21, 0x00, 0x00, 0x00, 0x95, 0xBA, 0x0A, 0x80, 0x90, 0x20, 0x29,
      0x50, 0xC3, 0x00, 0x00, 0x64, 0x00, 0x00, 0x00, 0x00, 0x00, 0x00, 0x00, 0x00, 0x00, 0x00, 0x00, 0x00, 0x00, 0x00, 0x00, 0xFF, 0xFF, 0xAB, 0xCD],
    [0xFD, 0x1E, 0x00, 0x00, 0x16, 0x02, 0x03, 0x21, 0x00, 0x00, 0x80, 0xD1, 0xF0, 0x08, 0x80, 0xEA, 0x82, 0x2B,
      0x50, 0xC3, 0x00, 0x00, 0x64, 0x00, 0x00, 0x00, 0x00, 0x00, 0x00, 0x00, 0x00, 0x00, 0x00, 0x00, 0x00, 0x00, 0x00, 0x00, 0xFF, 0xFF, 0xAB, 0xCD],
    [0xFD, 0x1E, 0x00, 0x00, 0x17, 0x02, 0x03, 0x21, 0x00, 0x00, 0x80, 0xED, 0x3E, 0x17, 0x80, 0xBD, 0x51, 0x2A,
      0x50, 0xC3, 0x00, 0x00, 0x64, 0x00, 0x00, 0x00, 0x00, 0x00, 0x00, 0x00, 0x00, 0x00, 0x00, 0x00, 0x00, 0x00, 0x00, 0x00, 0xFF, 0xFF, 0xAB, 0xCD]]"

definition mailbox_n32 :: "u8 list" where
  "mailbox_n32 = [0x4D, 0x52, 0x41, 0x57, 0x20, 0x00, 0x00, 0x00] @ concat [
    [0xFD, 0x1E, 0x00, 0x00, 0x00, 0x02, 0x03, 0x21, 0x00, 0x00, 0x80, 0x2B, 0x53, 0x0B, 0x00, 0x95, 0xBA, 0x0A,
      0x50, 0xC3, 0x00, 0x00, 0x64, 0x00, 0x00, 0x00, 0x00, 0x00, 0x00, 0x00, 0x00, 0x00, 0x00, 0x00, 0x00, 0x00, 0x00, 0x00, 0xFF, 0xFF, 0xAB, 0xCD],
    [0xFD, 0x1E, 0x00, 0x00, 0x01, 0x02, 0x03, 0x21, 0x00, 0x00, 0x00, 0x46, 0xC3, 0x23, 0x00, 0x54, 0xEA, 0x2A,
      0x50, 0xC3, 0x00, 0x00, 0x64, 0x00, 0x00, 0x00, 0x00, 0x00, 0x00, 0x00, 0x00, 0x00, 0x00, 0x00, 0x00, 0x00, 0x00, 0x00, 0xFF, 0xFF, 0xAB, 0xCD],
    [0xFD, 0x1E, 0x00, 0x00, 0x02, 0x02, 0x03, 0x21, 0x00, 0x00, 0x80, 0x44, 0xE5, 0x2D, 0x80, 0xDF, 0x17, 0x10,
      0x50, 0xC3, 0x00, 0x00, 0x64, 0x00, 0x00, 0x00, 0x00, 0x00, 0x00, 0x00, 0x00, 0x00, 0x00, 0x00, 0x00, 0x00, 0x00, 0x00, 0xFF, 0xFF, 0xAB, 0xCD],
    [0xFD, 0x1E, 0x00, 0x00, 0x03, 0x02, 0x03, 0x21, 0x00, 0x00, 0x80, 0x85, 0xB5, 0x0D, 0x80, 0x58, 0x84, 0x0C,
      0x50, 0xC3, 0x00, 0x00, 0x64, 0x00, 0x00, 0x00, 0x00, 0x00, 0x00, 0x00, 0x00, 0x00, 0x00, 0x00, 0x00, 0x00, 0x00, 0x00, 0xFF, 0xFF, 0xAB, 0xCD],
    [0xFD, 0x1E, 0x00, 0x00, 0x04, 0x02, 0x03, 0x21, 0x00, 0x00, 0x80, 0x82, 0xF9, 0x21, 0x80, 0x90, 0x20, 0x29,
      0x50, 0xC3, 0x00, 0x00, 0x64, 0x00, 0x00, 0x00, 0x00, 0x00, 0x00, 0x00, 0x00, 0x00, 0x00, 0x00, 0x00, 0x00, 0x00, 0x00, 0xFF, 0xFF, 0xAB, 0xCD],
    [0xFD, 0x1E, 0x00, 0x00, 0x05, 0x02, 0x03, 0x21, 0x00, 0x00, 0x80, 0x9E, 0x47, 0x30, 0x80, 0xDF, 0x17, 0x10,
      0x50, 0xC3, 0x00, 0x00, 0x64, 0x00, 0x00, 0x00, 0x00, 0x00, 0x00, 0x00, 0x00, 0x00, 0x00, 0x00, 0x00, 0x00, 0x00, 0x00, 0xFF, 0xFF, 0xAB, 0xCD],
    [0xFD, 0x1E, 0x00, 0x00, 0x06, 0x02, 0x03, 0x21, 0x00, 0x00, 0x80, 0x58, 0x84, 0x0C, 0x00, 0x95, 0xBA, 0x0A,
      0x50, 0xC3, 0x00, 0x00, 0x64, 0x00, 0x00, 0x00, 0x00, 0x00, 0x00, 0x00, 0x00, 0x00, 0x00, 0x00, 0x00, 0x00, 0x00, 0x00, 0xFF, 0xFF, 0xAB, 0xCD],
    [0xFD, 0x1E, 0x00, 0x00, 0x07, 0x02, 0x03, 0x21, 0x00, 0x00, 0x80, 0x82, 0xF9, 0x21, 0x80, 0x63, 0xEF, 0x27,
      0x50, 0xC3, 0x00, 0x00, 0x64, 0x00, 0x00, 0x00, 0x00, 0x00, 0x00, 0x00, 0x00, 0x00, 0x00, 0x00, 0x00, 0x00, 0x00, 0x00, 0xFF, 0xFF, 0xAB, 0xCD],
    [0xFD, 0x1E, 0x00, 0x00, 0x08, 0x02, 0x03, 0x21, 0x00, 0x00, 0x00, 0x08, 0xAF, 0x2F, 0x00, 0xA3, 0xE1, 0x11,
      0x50, 0xC3, 0x00, 0x00, 0x64, 0x00, 0x00, 0x00, 0x00, 0x00, 0x00, 0x00, 0x00, 0x00, 0x00, 0x00, 0x00, 0x00, 0x00, 0x00, 0xFF, 0xFF, 0xAB, 0xCD],
    [0xFD, 0x1E, 0x00, 0x00, 0x09, 0x02, 0x03, 0x21, 0x00, 0x00, 0x80, 0xFE, 0x21, 0x0A, 0x00, 0x95, 0xBA, 0x0A,
      0x50, 0xC3, 0x00, 0x00, 0x64, 0x00, 0x00, 0x00, 0x00, 0x00, 0x00, 0x00, 0x00, 0x00, 0x00, 0x00, 0x00, 0x00, 0x00, 0x00, 0xFF, 0xFF, 0xAB, 0xCD],
    [0xFD, 0x1E, 0x00, 0x00, 0x0A, 0x02, 0x03, 0x21, 0x00, 0x00, 0x80, 0x82, 0xF9, 0x21, 0x80, 0xBD, 0x51, 0x2A,
      0x50, 0xC3, 0x00, 0x00, 0x64, 0x00, 0x00, 0x00, 0x00, 0x00, 0x00, 0x00, 0x00, 0x00, 0x00, 0x00, 0x00, 0x00, 0x00, 0x00, 0xFF, 0xFF, 0xAB, 0xCD],
    [0xFD, 0x1E, 0x00, 0x00, 0x0B, 0x02, 0x03, 0x21, 0x00, 0x00, 0x00, 0x08, 0xAF, 0x2F, 0x80, 0xDF, 0x17, 0x10,
      0x50, 0xC3, 0x00, 0x00, 0x64, 0x00, 0x00, 0x00, 0x00, 0x00, 0x00, 0x00, 0x00, 0x00, 0x00, 0x00, 0x00, 0x00, 0x00, 0x00, 0xFF, 0xFF, 0xAB, 0xCD],
    [0xFD, 0x1E, 0x00, 0x00, 0x0C, 0x02, 0x03, 0x21, 0x00, 0x00, 0x80, 0x85, 0xB5, 0x0D, 0x80, 0x58, 0x84, 0x0C,
      0x50, 0xC3, 0x00, 0x00, 0x64, 0x00, 0x00, 0x00, 0x00, 0x00, 0x00, 0x00, 0x00, 0x00, 0x00, 0x00, 0x00, 0x00, 0x00, 0x00, 0xFF, 0xFF, 0xAB, 0xCD],
    [0xFD, 0x1E, 0x00, 0x00, 0x0D, 0x02, 0x03, 0x21, 0x00, 0x00, 0x80, 0x82, 0xF9, 0x21, 0x00, 0xFA, 0x87, 0x28,
      0x50, 0xC3, 0x00, 0x00, 0x64, 0x00, 0x00, 0x00, 0x00, 0x00, 0x00, 0x00, 0x00, 0x00, 0x00, 0x00, 0x00, 0x00, 0x00, 0x00, 0xFF, 0xFF, 0xAB, 0xCD],
    [0xFD, 0x1E, 0x00, 0x00, 0x0E, 0x02, 0x03, 0x21, 0x00, 0x00, 0x00, 0x35, 0xE0, 0x30, 0x00, 0xD0, 0x12, 0x13,
      0x50, 0xC3, 0x00, 0x00, 0x64, 0x00, 0x00, 0x00, 0x00, 0x00, 0x00, 0x00, 0x00, 0x00, 0x00, 0x00, 0x00, 0x00, 0x00, 0x00, 0xFF, 0xFF, 0xAB, 0xCD],
    [0xFD, 0x1E, 0x00, 0x00, 0x0F, 0x02, 0x03, 0x21, 0x00, 0x00, 0x80, 0x58, 0x84, 0x0C, 0x80, 0xFE, 0x21, 0x0A,
      0x50, 0xC3, 0x00, 0x00, 0x64, 0x00, 0x00, 0x00, 0x00, 0x00, 0x00, 0x00, 0x00, 0x00, 0x00, 0x00, 0x00, 0x00, 0x00, 0x00, 0xFF, 0xFF, 0xAB, 0xCD],
    [0xFD, 0x1E, 0x00, 0x00, 0x10, 0x02, 0x03, 0x21, 0x00, 0x00, 0x80, 0xDC, 0x5B, 0x24, 0x80, 0xBD, 0x51, 0x2A,
      0x50, 0xC3, 0x00, 0x00, 0x64, 0x00, 0x00, 0x00, 0x00, 0x00, 0x00, 0x00, 0x00, 0x00, 0x00, 0x00, 0x00, 0x00, 0x00, 0x00, 0xFF, 0xFF, 0xAB, 0xCD],
    [0xFD, 0x1E, 0x00, 0x00, 0x11, 0x02, 0x03, 0x21, 0x00, 0x00, 0x00, 0x08, 0xAF, 0x2F, 0x80, 0xDF, 0x17, 0x10,
      0x50, 0xC3, 0x00, 0x00, 0x64, 0x00, 0x00, 0x00, 0x00, 0x00, 0x00, 0x00, 0x00, 0x00, 0x00, 0x00, 0x00, 0x00, 0x00, 0x00, 0xFF, 0xFF, 0xAB, 0xCD],
    [0xFD, 0x1E, 0x00, 0x00, 0x12, 0x02, 0x03, 0x21, 0x00, 0x00, 0x00, 0x95, 0xBA, 0x0A, 0x80, 0xFE, 0x21, 0x0A,
      0x50, 0xC3, 0x00, 0x00, 0x64, 0x00, 0x00, 0x00, 0x00, 0x00, 0x00, 0x00, 0x00, 0x00, 0x00, 0x00, 0x00, 0x00, 0x00, 0x00, 0xFF, 0xFF, 0xAB, 0xCD],
    [0xFD, 0x1E, 0x00, 0x00, 0x13, 0x02, 0x03, 0x21, 0x00, 0x00, 0x80, 0xDC, 0x5B, 0x24, 0x80, 0xEA, 0x82, 0x2B,
      0x50, 0xC3, 0x00, 0x00, 0x64, 0x00, 0x00, 0x00, 0x00, 0x00, 0x00, 0x00, 0x00, 0x00, 0x00, 0x00, 0x00, 0x00, 0x00, 0x00, 0xFF, 0xFF, 0xAB, 0xCD],
    [0xFD, 0x1E, 0x00, 0x00, 0x14, 0x02, 0x03, 0x21, 0x00, 0x00, 0x00, 0xDB, 0x7D, 0x2E, 0x80, 0x0C, 0x49, 0x11,
      0x50, 0xC3, 0x00, 0x00, 0x64, 0x00, 0x00, 0x00, 0x00, 0x00, 0x00, 0x00, 0x00, 0x00, 0x00, 0x00, 0x00, 0x00, 0x00, 0x00, 0xFF, 0xFF, 0xAB, 0xCD],
    [0xFD, 0x1E, 0x00, 0x00, 0x15, 0x02, 0x03, 0x21, 0x00, 0x00, 0x80, 0x28, 0x97, 0x1F, 0x00, 0x95, 0xBA, 0x0A,
      0x50, 0xC3, 0x00, 0x00, 0x64, 0x00, 0x00, 0x00, 0x00, 0x00, 0x00, 0x00, 0x00, 0x00, 0x00, 0x00, 0x00, 0x00, 0x00, 0x00, 0xFF, 0xFF, 0xAB, 0xCD],
    [0xFD, 0x1E, 0x00, 0x00, 0x16, 0x02, 0x03, 0x21, 0x00, 0x00, 0x80, 0x90, 0x20, 0x29, 0x80, 0xD1, 0xF0, 0x08,
      0x50, 0xC3, 0x00, 0x00, 0x64, 0x00, 0x00, 0x00, 0x00, 0x00, 0x00, 0x00, 0x00, 0x00, 0x00, 0x00, 0x00, 0x00, 0x00, 0x00, 0xFF, 0xFF, 0xAB, 0xCD],
    [0xFD, 0x1E, 0x00, 0x00, 0x17, 0x02, 0x03, 0x21, 0x00, 0x00, 0x80, 0xEA, 0x82, 0x2B, 0x80, 0xED, 0x3E, 0x17,
      0x50, 0xC3, 0x00, 0x00, 0x64, 0x00, 0x00, 0x00, 0x00, 0x00, 0x00, 0x00, 0x00, 0x00, 0x00, 0x00, 0x00, 0x00, 0x00, 0x00, 0xFF, 0xFF, 0xAB, 0xCD],
    [0xFD, 0x1E, 0x00, 0x00, 0x18, 0x02, 0x03, 0x21, 0x00, 0x00, 0x80, 0xBD, 0x51, 0x2A, 0x80, 0x25, 0xDB, 0x33,
      0x50, 0xC3, 0x00, 0x00, 0x64, 0x00, 0x00, 0x00, 0x00, 0x00, 0x00, 0x00, 0x00, 0x00, 0x00, 0x00, 0x00, 0x00, 0x00, 0x00, 0xFF, 0xFF, 0xAB, 0xCD],
    [0xFD, 0x1E, 0x00, 0x00, 0x19, 0x02, 0x03, 0x21, 0x00, 0x00, 0x80, 0x85, 0xB5, 0x0D, 0x80, 0xA4, 0xBF, 0x07,
      0x50, 0xC3, 0x00, 0x00, 0x64, 0x00, 0x00, 0x00, 0x00, 0x00, 0x00, 0x00, 0x00, 0x00, 0x00, 0x00, 0x00, 0x00, 0x00, 0x00, 0xFF, 0xFF, 0xAB, 0xCD],
    [0xFD, 0x1E, 0x00, 0x00, 0x1A, 0x02, 0x03, 0x21, 0x00, 0x00, 0x00, 0x81, 0x1B, 0x2C, 0x80, 0xEA, 0x82, 0x2B,
      0x50, 0xC3, 0x00, 0x00, 0x64, 0x00, 0x00, 0x00, 0x00, 0x00, 0x00, 0x00, 0x00, 0x00, 0x00, 0x00, 0x00, 0x00, 0x00, 0x00, 0xFF, 0xFF, 0xAB, 0xCD],
    [0xFD, 0x1E, 0x00, 0x00, 0x1B, 0x02, 0x03, 0x21, 0x00, 0x00, 0x80, 0x9E, 0x47, 0x30, 0x00, 0x1C, 0x4E, 0x0E,
      0x50, 0xC3, 0x00, 0x00, 0x64, 0x00, 0x00, 0x00, 0x00, 0x00, 0x00, 0x00, 0x00, 0x00, 0x00, 0x00, 0x00, 0x00, 0x00, 0x00, 0xFF, 0xFF, 0xAB, 0xCD],
    [0xFD, 0x1E, 0x00, 0x00, 0x1C, 0x02, 0x03, 0x21, 0x00, 0x00, 0x80, 0xA1, 0x03, 0x1C, 0x00, 0x0E, 0x27, 0x07,
      0x50, 0xC3, 0x00, 0x00, 0x64, 0x00, 0x00, 0x00, 0x00, 0x00, 0x00, 0x00, 0x00, 0x00, 0x00, 0x00, 0x00, 0x00, 0x00, 0x00, 0xFF, 0xFF, 0xAB, 0xCD],
    [0xFD, 0x1E, 0x00, 0x00, 0x1D, 0x02, 0x03, 0x21, 0x00, 0x00, 0x00, 0x27, 0xB9, 0x29, 0x80, 0x7F, 0x3D, 0x36,
      0x50, 0xC3, 0x00, 0x00, 0x64, 0x00, 0x00, 0x00, 0x00, 0x00, 0x00, 0x00, 0x00, 0x00, 0x00, 0x00, 0x00, 0x00, 0x00, 0x00, 0xFF, 0xFF, 0xAB, 0xCD],
    [0xFD, 0x1E, 0x00, 0x00, 0x1E, 0x02, 0x03, 0x21, 0x00, 0x00, 0x00, 0xB4, 0xC4, 0x04, 0x00, 0x54, 0xEA, 0x2A,
      0x50, 0xC3, 0x00, 0x00, 0x64, 0x00, 0x00, 0x00, 0x00, 0x00, 0x00, 0x00, 0x00, 0x00, 0x00, 0x00, 0x00, 0x00, 0x00, 0x00, 0xFF, 0xFF, 0xAB, 0xCD],
    [0xFD, 0x1E, 0x00, 0x00, 0x1F, 0x02, 0x03, 0x21, 0x00, 0x00, 0x80, 0x1D, 0x2C, 0x04, 0x80, 0x71, 0x16, 0x2F,
      0x50, 0xC3, 0x00, 0x00, 0x64, 0x00, 0x00, 0x00, 0x00, 0x00, 0x00, 0x00, 0x00, 0x00, 0x00, 0x00, 0x00, 0x00, 0x00, 0x00, 0xFF, 0xFF, 0xAB, 0xCD]]"

definition mailbox_n40 :: "u8 list" where
  "mailbox_n40 = [0x4D, 0x52, 0x41, 0x57, 0x28, 0x00, 0x00, 0x00] @ concat [
    [0xFD, 0x1E, 0x00, 0x00, 0x00, 0x02, 0x03, 0x21, 0x00, 0x00, 0x80, 0x2B, 0x53, 0x0B, 0x00, 0x95, 0xBA, 0x0A,
      0x50, 0xC3, 0x00, 0x00, 0x64, 0x00, 0x00, 0x00, 0x00, 0x00, 0x00, 0x00, 0x00, 0x00, 0x00, 0x00, 0x00, 0x00, 0x00, 0x00, 0xFF, 0xFF, 0xAB, 0xCD],
    [0xFD, 0x1E, 0x00, 0x00, 0x01, 0x02, 0x03, 0x21, 0x00, 0x00, 0x00, 0x46, 0xC3, 0x23, 0x00, 0x54, 0xEA, 0x2A,
      0x50, 0xC3, 0x00, 0x00, 0x64, 0x00, 0x00, 0x00, 0x00, 0x00, 0x00, 0x00, 0x00, 0x00, 0x00, 0x00, 0x00, 0x00, 0x00, 0x00, 0xFF, 0xFF, 0xAB, 0xCD],
    [0xFD, 0x1E, 0x00, 0x00, 0x02, 0x02, 0x03, 0x21, 0x00, 0x00, 0x80, 0x44, 0xE5, 0x2D, 0x80, 0xDF, 0x17, 0x10,
      0x50, 0xC3, 0x00, 0x00, 0x64, 0x00, 0x00, 0x00, 0x00, 0x00, 0x00, 0x00, 0x00, 0x00, 0x00, 0x00, 0x00, 0x00, 0x00, 0x00, 0xFF, 0xFF, 0xAB, 0xCD],
    [0xFD, 0x1E, 0x00, 0x00, 0x03, 0x02, 0x03, 0x21, 0x00, 0x00, 0x80, 0x85, 0xB5, 0x0D, 0x80, 0x58, 0x84, 0x0C,
      0x50, 0xC3, 0x00, 0x00, 0x64, 0x00, 0x00, 0x00, 0x00, 0x00, 0x00, 0x00, 0x00, 0x00, 0x00, 0x00, 0x00, 0x00, 0x00, 0x00, 0xFF, 0xFF, 0xAB, 0xCD],
    [0xFD, 0x1E, 0x00, 0x00, 0x04, 0x02, 0x03, 0x21, 0x00, 0x00, 0x80, 0x82, 0xF9, 0x21, 0x80, 0x90, 0x20, 0x29,
      0x50, 0xC3, 0x00, 0x00, 0x64, 0x00, 0x00, 0x00, 0x00, 0x00, 0x00, 0x00, 0x00, 0x00, 0x00, 0x00, 0x00, 0x00, 0x00, 0x00, 0xFF, 0xFF, 0xAB, 0xCD],
    [0xFD, 0x1E, 0x00, 0x00, 0x05, 0x02, 0x03, 0x21, 0x00, 0x00, 0x80, 0x9E, 0x47, 0x30, 0x80, 0xDF, 0x17, 0x10,
      0x50, 0xC3, 0x00, 0x00, 0x64, 0x00, 0x00, 0x00, 0x00, 0x00, 0x00, 0x00, 0x00, 0x00, 0x00, 0x00, 0x00, 0x00, 0x00, 0x00, 0xFF, 0xFF, 0xAB, 0xCD],
    [0xFD, 0x1E, 0x00, 0x00, 0x06, 0x02, 0x03, 0x21, 0x00, 0x00, 0x80, 0x58, 0x84, 0x0C, 0x00, 0x95, 0xBA, 0x0A,
      0x50, 0xC3, 0x00, 0x00, 0x64, 0x00, 0x00, 0x00, 0x00, 0x00, 0x00, 0x00, 0x00, 0x00, 0x00, 0x00, 0x00, 0x00, 0x00, 0x00, 0xFF, 0xFF, 0xAB, 0xCD],
    [0xFD, 0x1E, 0x00, 0x00, 0x07, 0x02, 0x03, 0x21, 0x00, 0x00, 0x80, 0x82, 0xF9, 0x21, 0x80, 0x63, 0xEF, 0x27,
      0x50, 0xC3, 0x00, 0x00, 0x64, 0x00, 0x00, 0x00, 0x00, 0x00, 0x00, 0x00, 0x00, 0x00, 0x00, 0x00, 0x00, 0x00, 0x00, 0x00, 0xFF, 0xFF, 0xAB, 0xCD],
    [0xFD, 0x1E, 0x00, 0x00, 0x08, 0x02, 0x03, 0x21, 0x00, 0x00, 0x00, 0x08, 0xAF, 0x2F, 0x00, 0xA3, 0xE1, 0x11,
      0x50, 0xC3, 0x00, 0x00, 0x64, 0x00, 0x00, 0x00, 0x00, 0x00, 0x00, 0x00, 0x00, 0x00, 0x00, 0x00, 0x00, 0x00, 0x00, 0x00, 0xFF, 0xFF, 0xAB, 0xCD],
    [0xFD, 0x1E, 0x00, 0x00, 0x09, 0x02, 0x03, 0x21, 0x00, 0x00, 0x80, 0xFE, 0x21, 0x0A, 0x00, 0x95, 0xBA, 0x0A,
      0x50, 0xC3, 0x00, 0x00, 0x64, 0x00, 0x00, 0x00, 0x00, 0x00, 0x00, 0x00, 0x00, 0x00, 0x00, 0x00, 0x00, 0x00, 0x00, 0x00, 0xFF, 0xFF, 0xAB, 0xCD],
    [0xFD, 0x1E, 0x00, 0x00, 0x0A, 0x02, 0x03, 0x21, 0x00, 0x00, 0x80, 0x82, 0xF9, 0x21, 0x80, 0xBD, 0x51, 0x2A,
      0x50, 0xC3, 0x00, 0x00, 0x64, 0x00, 0x00, 0x00, 0x00, 0x00, 0x00, 0x00, 0x00, 0x00, 0x00, 0x00, 0x00, 0x00, 0x00, 0x00, 0xFF, 0xFF, 0xAB, 0xCD],
    [0xFD, 0x1E, 0x00, 0x00, 0x0B, 0x02, 0x03, 0x21, 0x00, 0x00, 0x00, 0x08, 0xAF, 0x2F, 0x80, 0xDF, 0x17, 0x10,
      0x50, 0xC3, 0x00, 0x00, 0x64, 0x00, 0x00, 0x00, 0x00, 0x00, 0x00, 0x00, 0x00, 0x00, 0x00, 0x00, 0x00, 0x00, 0x00, 0x00, 0xFF, 0xFF, 0xAB, 0xCD],
    [0xFD, 0x1E, 0x00, 0x00, 0x0C, 0x02, 0x03, 0x21, 0x00, 0x00, 0x80, 0x85, 0xB5, 0x0D, 0x80, 0x58, 0x84, 0x0C,
      0x50, 0xC3, 0x00, 0x00, 0x64, 0x00, 0x00, 0x00, 0x00, 0x00, 0x00, 0x00, 0x00, 0x00, 0x00, 0x00, 0x00, 0x00, 0x00, 0x00, 0xFF, 0xFF, 0xAB, 0xCD],
    [0xFD, 0x1E, 0x00, 0x00, 0x0D, 0x02, 0x03, 0x21, 0x00, 0x00, 0x80, 0x82, 0xF9, 0x21, 0x00, 0xFA, 0x87, 0x28,
      0x50, 0xC3, 0x00, 0x00, 0x64, 0x00, 0x00, 0x00, 0x00, 0x00, 0x00, 0x00, 0x00, 0x00, 0x00, 0x00, 0x00, 0x00, 0x00, 0x00, 0xFF, 0xFF, 0xAB, 0xCD],
    [0xFD, 0x1E, 0x00, 0x00, 0x0E, 0x02, 0x03, 0x21, 0x00, 0x00, 0x00, 0x35, 0xE0, 0x30, 0x00, 0xD0, 0x12, 0x13,
      0x50, 0xC3, 0x00, 0x00, 0x64, 0x00, 0x00, 0x00, 0x00, 0x00, 0x00, 0x00, 0x00, 0x00, 0x00, 0x00, 0x00, 0x00, 0x00, 0x00, 0xFF, 0xFF, 0xAB, 0xCD],
    [0xFD, 0x1E, 0x00, 0x00, 0x0F, 0x02, 0x03, 0x21, 0x00, 0x00, 0x80, 0x58, 0x84, 0x0C, 0x80, 0xFE, 0x21, 0x0A,
      0x50, 0xC3, 0x00, 0x00, 0x64, 0x00, 0x00, 0x00, 0x00, 0x00, 0x00, 0x00, 0x00, 0x00, 0x00, 0x00, 0x00, 0x00, 0x00, 0x00, 0xFF, 0xFF, 0xAB, 0xCD],
    [0xFD, 0x1E, 0x00, 0x00, 0x10, 0x02, 0x03, 0x21, 0x00, 0x00, 0x80, 0xDC, 0x5B, 0x24, 0x80, 0xBD, 0x51, 0x2A,
      0x50, 0xC3, 0x00, 0x00, 0x64, 0x00, 0x00, 0x00, 0x00, 0x00, 0x00, 0x00, 0x00, 0x00, 0x00, 0x00, 0x00, 0x00, 0x00, 0x00, 0xFF, 0xFF, 0xAB, 0xCD],
    [0xFD, 0x1E, 0x00, 0x00, 0x11, 0x02, 0x03, 0x21, 0x00, 0x00, 0x00, 0x08, 0xAF, 0x2F, 0x80, 0xDF, 0x17, 0x10,
      0x50, 0xC3, 0x00, 0x00, 0x64, 0x00, 0x00, 0x00, 0x00, 0x00, 0x00, 0x00, 0x00, 0x00, 0x00, 0x00, 0x00, 0x00, 0x00, 0x00, 0xFF, 0xFF, 0xAB, 0xCD],
    [0xFD, 0x1E, 0x00, 0x00, 0x12, 0x02, 0x03, 0x21, 0x00, 0x00, 0x00, 0x95, 0xBA, 0x0A, 0x80, 0xFE, 0x21, 0x0A,
      0x50, 0xC3, 0x00, 0x00, 0x64, 0x00, 0x00, 0x00, 0x00, 0x00, 0x00, 0x00, 0x00, 0x00, 0x00, 0x00, 0x00, 0x00, 0x00, 0x00, 0xFF, 0xFF, 0xAB, 0xCD],
    [0xFD, 0x1E, 0x00, 0x00, 0x13, 0x02, 0x03, 0x21, 0x00, 0x00, 0x80, 0xDC, 0x5B, 0x24, 0x80, 0xEA, 0x82, 0x2B,
      0x50, 0xC3, 0x00, 0x00, 0x64, 0x00, 0x00, 0x00, 0x00, 0x00, 0x00, 0x00, 0x00, 0x00, 0x00, 0x00, 0x00, 0x00, 0x00, 0x00, 0xFF, 0xFF, 0xAB, 0xCD],
    [0xFD, 0x1E, 0x00, 0x00, 0x14, 0x02, 0x03, 0x21, 0x00, 0x00, 0x00, 0xDB, 0x7D, 0x2E, 0x80, 0x0C, 0x49, 0x11,
      0x50, 0xC3, 0x00, 0x00, 0x64, 0x00, 0x00, 0x00, 0x00, 0x00, 0x00, 0x00, 0x00, 0x00, 0x00, 0x00, 0x00, 0x00, 0x00, 0x00, 0xFF, 0xFF, 0xAB, 0xCD],
    [0xFD, 0x1E, 0x00, 0x00, 0x15, 0x02, 0x03, 0x21, 0x00, 0x00, 0x00, 0xC2, 0xEB, 0x0B, 0x00, 0x95, 0xBA, 0x0A,
      0x50, 0xC3, 0x00, 0x00, 0x64, 0x00, 0x00, 0x00, 0x00, 0x00, 0x00, 0x00, 0x00, 0x00, 0x00, 0x00, 0x00, 0x00, 0x00, 0x00, 0xFF, 0xFF, 0xAB, 0xCD],
    [0xFD, 0x1E, 0x00, 0x00, 0x16, 0x02, 0x03, 0x21, 0x00, 0x00, 0x80, 0xDC, 0x5B, 0x24, 0x80, 0x63, 0xEF, 0x27,
      0x50, 0xC3, 0x00, 0x00, 0x64, 0x00, 0x00, 0x00, 0x00, 0x00, 0x00, 0x00, 0x00, 0x00, 0x00, 0x00, 0x00, 0x00, 0x00, 0x00, 0xFF, 0xFF, 0xAB, 0xCD],
    [0xFD, 0x1E, 0x00, 0x00, 0x17, 0x02, 0x03, 0x21, 0x00, 0x00, 0x80, 0x9E, 0x47, 0x30, 0x80, 0x0C, 0x49, 0x11,
      0x50, 0xC3, 0x00, 0x00, 0x64, 0x00, 0x00, 0x00, 0x00, 0x00, 0x00, 0x00, 0x00, 0x00, 0x00, 0x00, 0x00, 0x00, 0x00, 0x00, 0xFF, 0xFF, 0xAB, 0xCD],
    [0xFD, 0x1E, 0x00, 0x00, 0x18, 0x02, 0x03, 0x21, 0x00, 0x00, 0x80, 0x58, 0x84, 0x0C, 0x80, 0x85, 0xB5, 0x0D,
      0x50, 0xC3, 0x00, 0x00, 0x64, 0x00, 0x00, 0x00, 0x00, 0x00, 0x00, 0x00, 0x00, 0x00, 0x00, 0x00, 0x00, 0x00, 0x00, 0x00, 0xFF, 0xFF, 0xAB, 0xCD],
    [0xFD, 0x1E, 0x00, 0x00, 0x19, 0x02, 0x03, 0x21, 0x00, 0x00, 0x00, 0x73, 0xF4, 0x24, 0x00, 0xFA, 0x87, 0x28,
      0x50, 0xC3, 0x00, 0x00, 0x64, 0x00, 0x00, 0x00, 0x00, 0x00, 0x00, 0x00, 0x00, 0x00, 0x00, 0x00, 0x00, 0x00, 0x00, 0x00, 0xFF, 0xFF, 0xAB, 0xCD],
    [0xFD, 0x1E, 0x00, 0x00, 0x1A, 0x02, 0x03, 0x21, 0x00, 0x00, 0x80, 0xA4, 0xBF, 0x07, 0x00, 0x81, 0x1B, 0x2C,
      0x50, 0xC3, 0x00, 0x00, 0x64, 0x00, 0x00, 0x00, 0x00, 0x00, 0x00, 0x00, 0x00, 0x00, 0x00, 0x00, 0x00, 0x00, 0x00, 0x00, 0xFF, 0xFF, 0xAB, 0xCD],
    [0xFD, 0x1E, 0x00, 0x00, 0x1B, 0x02, 0x03, 0x21, 0x00, 0x00, 0x80, 0xEA, 0x82, 0x2B, 0x80, 0x9E, 0x47, 0x30,
      0x50, 0xC3, 0x00, 0x00, 0x64, 0x00, 0x00, 0x00, 0x00, 0x00, 0x00, 0x00, 0x00, 0x00, 0x00, 0x00, 0x00, 0x00, 0x00, 0x00, 0xFF, 0xFF, 0xAB, 0xCD],
    [0xFD, 0x1E, 0x00, 0x00, 0x1C, 0x02, 0x03, 0x21, 0x00, 0x00, 0x00, 0x1C, 0x4E, 0x0E, 0x80, 0xA1, 0x03, 0x1C,
      0x50, 0xC3, 0x00, 0x00, 0x64, 0x00, 0x00, 0x00, 0x00, 0x00, 0x00, 0x00, 0x00, 0x00, 0x00, 0x00, 0x00, 0x00, 0x00, 0x00, 0xFF, 0xFF, 0xAB, 0xCD],
    [0xFD, 0x1E, 0x00, 0x00, 0x1D, 0x02, 0x03, 0x21, 0x00, 0x00, 0x00, 0x0E, 0x27, 0x07, 0x00, 0x27, 0xB9, 0x29,
      0x50, 0xC3, 0x00, 0x00, 0x64, 0x00, 0x00, 0x00, 0x00, 0x00, 0x00, 0x00, 0x00, 0x00, 0x00, 0x00, 0x00, 0x00, 0x00, 0x00, 0xFF, 0xFF, 0xAB, 0xCD],
    [0xFD, 0x1E, 0x00, 0x00, 0x1E, 0x02, 0x03, 0x21, 0x00, 0x00, 0x80, 0x7F, 0x3D, 0x36, 0x00, 0xB4, 0xC4, 0x04,
      0x50, 0xC3, 0x00, 0x00, 0x64, 0x00, 0x00, 0x00, 0x00, 0x00, 0x00, 0x00, 0x00, 0x00, 0x00, 0x00, 0x00, 0x00, 0x00, 0x00, 0xFF, 0xFF, 0xAB, 0xCD],
    [0xFD, 0x1E, 0x00, 0x00, 0x1F, 0x02, 0x03, 0x21, 0x00, 0x00, 0x00, 0x54, 0xEA, 0x2A, 0x80, 0x1D, 0x2C, 0x04,
      0x50, 0xC3, 0x00, 0x00, 0x64, 0x00, 0x00, 0x00, 0x00, 0x00, 0x00, 0x00, 0x00, 0x00, 0x00, 0x00, 0x00, 0x00, 0x00, 0x00, 0xFF, 0xFF, 0xAB, 0xCD],
    [0xFD, 0x1E, 0x00, 0x00, 0x20, 0x02, 0x03, 0x21, 0x00, 0x00, 0x80, 0x71, 0x16, 0x2F, 0x00, 0x49, 0x7F, 0x0F,
      0x50, 0xC3, 0x00, 0x00, 0x64, 0x00, 0x00, 0x00, 0x00, 0x00, 0x00, 0x00, 0x00, 0x00, 0x00, 0x00, 0x00, 0x00, 0x00, 0x00, 0xFF, 0xFF, 0xAB, 0xCD],
    [0xFD, 0x1E, 0x00, 0x00, 0x21, 0x02, 0x03, 0x21, 0x00, 0x00, 0x80, 0x09, 0x8D, 0x25, 0x80, 0x25, 0xDB, 0x33,
      0x50, 0xC3, 0x00, 0x00, 0x64, 0x00, 0x00, 0x00, 0x00, 0x00, 0x00, 0x00, 0x00, 0x00, 0x00, 0x00, 0x00, 0x00, 0x00, 0x00, 0xFF, 0xFF, 0xAB, 0xCD],
    [0xFD, 0x1E, 0x00, 0x00, 0x22, 0x02, 0x03, 0x21, 0x00, 0x00, 0x00, 0xFA, 0x87, 0x28, 0x00, 0xBF, 0x2F, 0x20,
      0x50, 0xC3, 0x00, 0x00, 0x64, 0x00, 0x00, 0x00, 0x00, 0x00, 0x00, 0x00, 0x00, 0x00, 0x00, 0x00, 0x00, 0x00, 0x00, 0x00, 0xFF, 0xFF, 0xAB, 0xCD],
    [0xFD, 0x1E, 0x00, 0x00, 0x23, 0x02, 0x03, 0x21, 0x00, 0x00, 0x80, 0x33, 0x02, 0x3B, 0x00, 0x84, 0xD7, 0x17,
      0x50, 0xC3, 0x00, 0x00, 0x64, 0x00, 0x00, 0x00, 0x00, 0x00, 0x00, 0x00, 0x00, 0x00, 0x00, 0x00, 0x00, 0x00, 0x00, 0x00, 0xFF, 0xFF, 0xAB, 0xCD],
    [0xFD, 0x1E, 0x00, 0x00, 0x24, 0x02, 0x03, 0x21, 0x00, 0x00, 0x80, 0xAF, 0x2A, 0x23, 0x00, 0x81, 0x1B, 0x2C,
      0x50, 0xC3, 0x00, 0x00, 0x64, 0x00, 0x00, 0x00, 0x00, 0x00, 0x00, 0x00, 0x00, 0x00, 0x00, 0x00, 0x00, 0x00, 0x00, 0x00, 0xFF, 0xFF, 0xAB, 0xCD],
    [0xFD, 0x1E, 0x00, 0x00, 0x25, 0x02, 0x03, 0x21, 0x00, 0x00, 0x00, 0x19, 0x92, 0x22, 0x00, 0x0B, 0x6B, 0x1B,
      0x50, 0xC3, 0x00, 0x00, 0x64, 0x00, 0x00, 0x00, 0x00, 0x00, 0x00, 0x00, 0x00, 0x00, 0x00, 0x00, 0x00, 0x00, 0x00, 0x00, 0xFF, 0xFF, 0xAB, 0xCD],
    [0xFD, 0x1E, 0x00, 0x00, 0x26, 0x02, 0x03, 0x21, 0x00, 0x00, 0x00, 0x57, 0xA6, 0x16, 0x80, 0x39, 0x7A, 0x12,
      0x50, 0xC3, 0x00, 0x00, 0x64, 0x00, 0x00, 0x00, 0x00, 0x00, 0x00, 0x00, 0x00, 0x00, 0x00, 0x00, 0x00, 0x00, 0x00, 0x00, 0xFF, 0xFF, 0xAB, 0xCD],
    [0xFD, 0x1E, 0x00, 0x00, 0x27, 0x02, 0x03, 0x21, 0x00, 0x00, 0x80, 0x85, 0xB5, 0x0D, 0x80, 0x52, 0x0C, 0x35,
      0x50, 0xC3, 0x00, 0x00, 0x64, 0x00, 0x00, 0x00, 0x00, 0x00, 0x00, 0x00, 0x00, 0x00, 0x00, 0x00, 0x00, 0x00, 0x00, 0x00, 0xFF, 0xFF, 0xAB, 0xCD]]"

definition mailbox_n48 :: "u8 list" where
  "mailbox_n48 = [0x4D, 0x52, 0x41, 0x57, 0x30, 0x00, 0x00, 0x00] @ concat [
    [0xFD, 0x1E, 0x00, 0x00, 0x00, 0x02, 0x03, 0x21, 0x00, 0x00, 0x80, 0x2B, 0x53, 0x0B, 0x00, 0x95, 0xBA, 0x0A,
      0x50, 0xC3, 0x00, 0x00, 0x64, 0x00, 0x00, 0x00, 0x00, 0x00, 0x00, 0x00, 0x00, 0x00, 0x00, 0x00, 0x00, 0x00, 0x00, 0x00, 0xFF, 0xFF, 0xAB, 0xCD],
    [0xFD, 0x1E, 0x00, 0x00, 0x01, 0x02, 0x03, 0x21, 0x00, 0x00, 0x00, 0x46, 0xC3, 0x23, 0x00, 0x54, 0xEA, 0x2A,
      0x50, 0xC3, 0x00, 0x00, 0x64, 0x00, 0x00, 0x00, 0x00, 0x00, 0x00, 0x00, 0x00, 0x00, 0x00, 0x00, 0x00, 0x00, 0x00, 0x00, 0xFF, 0xFF, 0xAB, 0xCD],
    [0xFD, 0x1E, 0x00, 0x00, 0x02, 0x02, 0x03, 0x21, 0x00, 0x00, 0x80, 0x44, 0xE5, 0x2D, 0x80, 0xDF, 0x17, 0x10,
      0x50, 0xC3, 0x00, 0x00, 0x64, 0x00, 0x00, 0x00, 0x00, 0x00, 0x00, 0x00, 0x00, 0x00, 0x00, 0x00, 0x00, 0x00, 0x00, 0x00, 0xFF, 0xFF, 0xAB, 0xCD],
    [0xFD, 0x1E, 0x00, 0x00, 0x03, 0x02, 0x03, 0x21, 0x00, 0x00, 0x80, 0x85, 0xB5, 0x0D, 0x80, 0x58, 0x84, 0x0C,
      0x50, 0xC3, 0x00, 0x00, 0x64, 0x00, 0x00, 0x00, 0x00, 0x00, 0x00, 0x00, 0x00, 0x00, 0x00, 0x00, 0x00, 0x00, 0x00, 0x00, 0xFF, 0xFF, 0xAB, 0xCD],
    [0xFD, 0x1E, 0x00, 0x00, 0x04, 0x02, 0x03, 0x21, 0x00, 0x00, 0x80, 0x82, 0xF9, 0x21, 0x80, 0x90, 0x20, 0x29,
      0x50, 0xC3, 0x00, 0x00, 0x64, 0x00, 0x00, 0x00, 0x00, 0x00, 0x00, 0x00, 0x00, 0x00, 0x00, 0x00, 0x00, 0x00, 0x00, 0x00, 0xFF, 0xFF, 0xAB, 0xCD],
    [0xFD, 0x1E, 0x00, 0x00, 0x05, 0x02, 0x03, 0x21, 0x00, 0x00, 0x80, 0x9E, 0x47, 0x30, 0x80, 0xDF, 0x17, 0x10,
      0x50, 0xC3, 0x00, 0x00, 0x64, 0x00, 0x00, 0x00, 0x00, 0x00, 0x00, 0x00, 0x00, 0x00, 0x00, 0x00, 0x00, 0x00, 0x00, 0x00, 0xFF, 0xFF, 0xAB, 0xCD],
    [0xFD, 0x1E, 0x00, 0x00, 0x06, 0x02, 0x03, 0x21, 0x00, 0x00, 0x80, 0x58, 0x84, 0x0C, 0x00, 0x95, 0xBA, 0x0A,
      0x50, 0xC3, 0x00, 0x00, 0x64, 0x00, 0x00, 0x00, 0x00, 0x00, 0x00, 0x00, 0x00, 0x00, 0x00, 0x00, 0x00, 0x00, 0x00, 0x00, 0xFF, 0xFF, 0xAB, 0xCD],
    [0xFD, 0x1E, 0x00, 0x00, 0x07, 0x02, 0x03, 0x21, 0x00, 0x00, 0x80, 0x82, 0xF9, 0x21, 0x80, 0x63, 0xEF, 0x27,
      0x50, 0xC3, 0x00, 0x00, 0x64, 0x00, 0x00, 0x00, 0x00, 0x00, 0x00, 0x00, 0x00, 0x00, 0x00, 0x00, 0x00, 0x00, 0x00, 0x00, 0xFF, 0xFF, 0xAB, 0xCD],
    [0xFD, 0x1E, 0x00, 0x00, 0x08, 0x02, 0x03, 0x21, 0x00, 0x00, 0x00, 0x08, 0xAF, 0x2F, 0x00, 0xA3, 0xE1, 0x11,
      0x50, 0xC3, 0x00, 0x00, 0x64, 0x00, 0x00, 0x00, 0x00, 0x00, 0x00, 0x00, 0x00, 0x00, 0x00, 0x00, 0x00, 0x00, 0x00, 0x00, 0xFF, 0xFF, 0xAB, 0xCD],
    [0xFD, 0x1E, 0x00, 0x00, 0x09, 0x02, 0x03, 0x21, 0x00, 0x00, 0x80, 0xFE, 0x21, 0x0A, 0x00, 0x95, 0xBA, 0x0A,
      0x50, 0xC3, 0x00, 0x00, 0x64, 0x00, 0x00, 0x00, 0x00, 0x00, 0x00, 0x00, 0x00, 0x00, 0x00, 0x00, 0x00, 0x00, 0x00, 0x00, 0xFF, 0xFF, 0xAB, 0xCD],
    [0xFD, 0x1E, 0x00, 0x00, 0x0A, 0x02, 0x03, 0x21, 0x00, 0x00, 0x80, 0x82, 0xF9, 0x21, 0x80, 0xBD, 0x51, 0x2A,
      0x50, 0xC3, 0x00, 0x00, 0x64, 0x00, 0x00, 0x00, 0x00, 0x00, 0x00, 0x00, 0x00, 0x00, 0x00, 0x00, 0x00, 0x00, 0x00, 0x00, 0xFF, 0xFF, 0xAB, 0xCD],
    [0xFD, 0x1E, 0x00, 0x00, 0x0B, 0x02, 0x03, 0x21, 0x00, 0x00, 0x00, 0x08, 0xAF, 0x2F, 0x80, 0xDF, 0x17, 0x10,
      0x50, 0xC3, 0x00, 0x00, 0x64, 0x00, 0x00, 0x00, 0x00, 0x00, 0x00, 0x00, 0x00, 0x00, 0x00, 0x00, 0x00, 0x00, 0x00, 0x00, 0xFF, 0xFF, 0xAB, 0xCD],
    [0xFD, 0x1E, 0x00, 0x00, 0x0C, 0x02, 0x03, 0x21, 0x00, 0x00, 0x80, 0x85, 0xB5, 0x0D, 0x80, 0x58, 0x84, 0x0C,
      0x50, 0xC3, 0x00, 0x00, 0x64, 0x00, 0x00, 0x00, 0x00, 0x00, 0x00, 0x00, 0x00, 0x00, 0x00, 0x00, 0x00, 0x00, 0x00, 0x00, 0xFF, 0xFF, 0xAB, 0xCD],
    [0xFD, 0x1E, 0x00, 0x00, 0x0D, 0x02, 0x03, 0x21, 0x00, 0x00, 0x80, 0x82, 0xF9, 0x21, 0x00, 0xFA, 0x87, 0x28,
      0x50, 0xC3, 0x00, 0x00, 0x64, 0x00, 0x00, 0x00, 0x00, 0x00, 0x00, 0x00, 0x00, 0x00, 0x00, 0x00, 0x00, 0x00, 0x00, 0x00, 0xFF, 0xFF, 0xAB, 0xCD],
    [0xFD, 0x1E, 0x00, 0x00, 0x0E, 0x02, 0x03, 0x21, 0x00, 0x00, 0x00, 0x35, 0xE0, 0x30, 0x00, 0xD0, 0x12, 0x13,
      0x50, 0xC3, 0x00, 0x00, 0x64, 0x00, 0x00, 0x00, 0x00, 0x00, 0x00, 0x00, 0x00, 0x00, 0x00, 0x00, 0x00, 0x00, 0x00, 0x00, 0xFF, 0xFF, 0xAB, 0xCD],
    [0xFD, 0x1E, 0x00, 0x00, 0x0F, 0x02, 0x03, 0x21, 0x00, 0x00, 0x80, 0x58, 0x84, 0x0C, 0x80, 0xFE, 0x21, 0x0A,
      0x50, 0xC3, 0x00, 0x00, 0x64, 0x00, 0x00, 0x00, 0x00, 0x00, 0x00, 0x00, 0x00, 0x00, 0x00, 0x00, 0x00, 0x00, 0x00, 0x00, 0xFF, 0xFF, 0xAB, 0xCD],
    [0xFD, 0x1E, 0x00, 0x00, 0x10, 0x02, 0x03, 0x21, 0x00, 0x00, 0x80, 0xDC, 0x5B, 0x24, 0x80, 0xBD, 0x51, 0x2A,
      0x50, 0xC3, 0x00, 0x00, 0x64, 0x00, 0x00, 0x00, 0x00, 0x00, 0x00, 0x00, 0x00, 0x00, 0x00, 0x00, 0x00, 0x00, 0x00, 0x00, 0xFF, 0xFF, 0xAB, 0xCD],
    [0xFD, 0x1E, 0x00, 0x00, 0x11, 0x02, 0x03, 0x21, 0x00, 0x00, 0x00, 0x08, 0xAF, 0x2F, 0x80, 0xDF, 0x17, 0x10,
      0x50, 0xC3, 0x00, 0x00, 0x64, 0x00, 0x00, 0x00, 0x00, 0x00, 0x00, 0x00, 0x00, 0x00, 0x00, 0x00, 0x00, 0x00, 0x00, 0x00, 0xFF, 0xFF, 0xAB, 0xCD],
    [0xFD, 0x1E, 0x00, 0x00, 0x12, 0x02, 0x03, 0x21, 0x00, 0x00, 0x00, 0x95, 0xBA, 0x0A, 0x80, 0xFE, 0x21, 0x0A,
      0x50, 0xC3, 0x00, 0x00, 0x64, 0x00, 0x00, 0x00, 0x00, 0x00, 0x00, 0x00, 0x00, 0x00, 0x00, 0x00, 0x00, 0x00, 0x00, 0x00, 0xFF, 0xFF, 0xAB, 0xCD],
    [0xFD, 0x1E, 0x00, 0x00, 0x13, 0x02, 0x03, 0x21, 0x00, 0x00, 0x80, 0xDC, 0x5B, 0x24, 0x80, 0xEA, 0x82, 0x2B,
      0x50, 0xC3, 0x00, 0x00, 0x64, 0x00, 0x00, 0x00, 0x00, 0x00, 0x00, 0x00, 0x00, 0x00, 0x00, 0x00, 0x00, 0x00, 0x00, 0x00, 0xFF, 0xFF, 0xAB, 0xCD],
    [0xFD, 0x1E, 0x00, 0x00, 0x14, 0x02, 0x03, 0x21, 0x00, 0x00, 0x00, 0xDB, 0x7D, 0x2E, 0x80, 0x0C, 0x49, 0x11,
      0x50, 0xC3, 0x00, 0x00, 0x64, 0x00, 0x00, 0x00, 0x00, 0x00, 0x00, 0x00, 0x00, 0x00, 0x00, 0x00, 0x00, 0x00, 0x00, 0x00, 0xFF, 0xFF, 0xAB, 0xCD],
    [0xFD, 0x1E, 0x00, 0x00, 0x15, 0x02, 0x03, 0x21, 0x00, 0x00, 0x00, 0xC2, 0xEB, 0x0B, 0x00, 0x95, 0xBA, 0x0A,
      0x50, 0xC3, 0x00, 0x00, 0x64, 0x00, 0x00, 0x00, 0x00, 0x00, 0x00, 0x00, 0x00, 0x00, 0x00, 0x00, 0x00, 0x00, 0x00, 0x00, 0xFF, 0xFF, 0xAB, 0xCD],
    [0xFD, 0x1E, 0x00, 0x00, 0x16, 0x02, 0x03, 0x21, 0x00, 0x00, 0x80, 0xDC, 0x5B, 0x24, 0x80, 0x63, 0xEF, 0x27,
      0x50, 0xC3, 0x00, 0x00, 0x64, 0x00, 0x00, 0x00, 0x00, 0x00, 0x00, 0x00, 0x00, 0x00, 0x00, 0x00, 0x00, 0x00, 0x00, 0x00, 0xFF, 0xFF, 0xAB, 0xCD],
    [0xFD, 0x1E, 0x00, 0x00, 0x17, 0x02, 0x03, 0x21, 0x00, 0x00, 0x80, 0x9E, 0x47, 0x30, 0x80, 0x0C, 0x49, 0x11,
      0x50, 0xC3, 0x00, 0x00, 0x64, 0x00, 0x00, 0x00, 0x00, 0x00, 0x00, 0x00, 0x00, 0x00, 0x00, 0x00, 0x00, 0x00, 0x00, 0x00, 0xFF, 0xFF, 0xAB, 0xCD],
    [0xFD, 0x1E, 0x00, 0x00, 0x18, 0x02, 0x03, 0x21, 0x00, 0x00, 0x80, 0x58, 0x84, 0x0C, 0x80, 0x85, 0xB5, 0x0D,
      0x50, 0xC3, 0x00, 0x00, 0x64, 0x00, 0x00, 0x00, 0x00, 0x00, 0x00, 0x00, 0x00, 0x00, 0x00, 0x00, 0x00, 0x00, 0x00, 0x00, 0xFF, 0xFF, 0xAB, 0xCD],
    [0xFD, 0x1E, 0x00, 0x00, 0x19, 0x02, 0x03, 0x21, 0x00, 0x00, 0x00, 0x73, 0xF4, 0x24, 0x00, 0xFA, 0x87, 0x28,
      0x50, 0xC3, 0x00, 0x00, 0x64, 0x00, 0x00, 0x00, 0x00, 0x00, 0x00, 0x00, 0x00, 0x00, 0x00, 0x00, 0x00, 0x00, 0x00, 0x00, 0xFF, 0xFF, 0xAB, 0xCD],
    [0xFD, 0x1E, 0x00, 0x00, 0x1A, 0x02, 0x03, 0x21, 0x00, 0x00, 0x80, 0x44, 0xE5, 0x2D, 0x80, 0x39, 0x7A, 0x12,
      0x50, 0xC3, 0x00, 0x00, 0x64, 0x00, 0x00, 0x00, 0x00, 0x00, 0x00, 0x00, 0x00, 0x00, 0x00, 0x00, 0x00, 0x00, 0x00, 0x00, 0xFF, 0xFF, 0xAB, 0xCD],
    [0xFD, 0x1E, 0x00, 0x00, 0x1B, 0x02, 0x03, 0x21, 0x00, 0x00, 0x80, 0x58, 0x84, 0x0C, 0x00, 0xEF, 0x1C, 0x0D,
      0x50, 0xC3, 0x00, 0x00, 0x64, 0x00, 0x00, 0x00, 0x00, 0x00, 0x00, 0x00, 0x00, 0x00, 0x00, 0x00, 0x00, 0x00, 0x00, 0x00, 0xFF, 0xFF, 0xAB, 0xCD],
    [0xFD, 0x1E, 0x00, 0x00, 0x1C, 0x02, 0x03, 0x21, 0x00, 0x00, 0x00, 0x19, 0x92, 0x22, 0x80, 0x90, 0x20, 0x29,
      0x50, 0xC3, 0x00, 0x00, 0x64, 0x00, 0x00, 0x00, 0x00, 0x00, 0x00, 0x00, 0x00, 0x00, 0x00, 0x00, 0x00, 0x00, 0x00, 0x00, 0xFF, 0xFF, 0xAB, 0xCD],
    [0xFD, 0x1E, 0x00, 0x00, 0x1D, 0x02, 0x03, 0x21, 0x00, 0x00, 0x80, 0x44, 0xE5, 0x2D, 0x80, 0x39, 0x7A, 0x12,
      0x50, 0xC3, 0x00, 0x00, 0x64, 0x00, 0x00, 0x00, 0x00, 0x00, 0x00, 0x00, 0x00, 0x00, 0x00, 0x00, 0x00, 0x00, 0x00, 0x00, 0xFF, 0xFF, 0xAB, 0xCD],
    [0xFD, 0x1E, 0x00, 0x00, 0x1E, 0x02, 0x03, 0x21, 0x00, 0x00, 0x00, 0xEF, 0x1C, 0x0D, 0x80, 0xFE, 0x21, 0x0A,
      0x50, 0xC3, 0x00, 0x00, 0x64, 0x00, 0x00, 0x00, 0x00, 0x00, 0x00, 0x00, 0x00, 0x00, 0x00, 0x00, 0x00, 0x00, 0x00, 0x00, 0xFF, 0xFF, 0xAB, 0xCD],
    [0xFD, 0x1E, 0x00, 0x00, 0x1F, 0x02, 0x03, 0x21, 0x00, 0x00, 0x80, 0xDC, 0x5B, 0x24, 0x80, 0x63, 0xEF, 0x27,
      0x50, 0xC3, 0x00, 0x00, 0x64, 0x00, 0x00, 0x00, 0x00, 0x00, 0x00, 0x00, 0x00, 0x00, 0x00, 0x00, 0x00, 0x00, 0x00, 0x00, 0xFF, 0xFF, 0xAB, 0xCD],
    [0xFD, 0x1E, 0x00, 0x00, 0x20, 0x02, 0x03, 0x21, 0x00, 0x00, 0x80, 0x71, 0x16, 0x2F, 0x00, 0x49, 0x7F, 0x0F,
      0x50, 0xC3, 0x00, 0x00, 0x64, 0x00, 0x00, 0x00, 0x00, 0x00, 0x00, 0x00, 0x00, 0x00, 0x00, 0x00, 0x00, 0x00, 0x00, 0x00, 0xFF, 0xFF, 0xAB, 0xCD],
    [0xFD, 0x1E, 0x00, 0x00, 0x21, 0x02, 0x03, 0x21, 0x00, 0x00, 0x80, 0x09, 0x8D, 0x25, 0x80, 0x25, 0xDB, 0x33,
      0x50, 0xC3, 0x00, 0x00, 0x64, 0x00, 0x00, 0x00, 0x00, 0x00, 0x00, 0x00, 0x00, 0x00, 0x00, 0x00, 0x00, 0x00, 0x00, 0x00, 0xFF, 0xFF, 0xAB, 0xCD],
    [0xFD, 0x1E, 0x00, 0x00, 0x22, 0x02, 0x03, 0x21, 0x00, 0x00, 0x00, 0xFA, 0x87, 0x28, 0x00, 0xBF, 0x2F, 0x20,
      0x50, 0xC3, 0x00, 0x00, 0x64, 0x00, 0x00, 0x00, 0x00, 0x00, 0x00, 0x00, 0x00, 0x00, 0x00, 0x00, 0x00, 0x00, 0x00, 0x00, 0xFF, 0xFF, 0xAB, 0xCD],
    [0xFD, 0x1E, 0x00, 0x00, 0x23, 0x02, 0x03, 0x21, 0x00, 0x00, 0x80, 0x33, 0x02, 0x3B, 0x00, 0x84, 0xD7, 0x17,
      0x50, 0xC3, 0x00, 0x00, 0x64, 0x00, 0x00, 0x00, 0x00, 0x00, 0x00, 0x00, 0x00, 0x00, 0x00, 0x00, 0x00, 0x00, 0x00, 0x00, 0xFF, 0xFF, 0xAB, 0xCD],
    [0xFD, 0x1E, 0x00, 0x00, 0x24, 0x02, 0x03, 0x21, 0x00, 0x00, 0x80, 0xAF, 0x2A, 0x23, 0x00, 0x81, 0x1B, 0x2C,
      0x50, 0xC3, 0x00, 0x00, 0x64, 0x00, 0x00, 0x00, 0x00, 0x00, 0x00, 0x00, 0x00, 0x00, 0x00, 0x00, 0x00, 0x00, 0x00, 0x00, 0xFF, 0xFF, 0xAB, 0xCD],
    [0xFD, 0x1E, 0x00, 0x00, 0x25, 0x02, 0x03, 0x21, 0x00, 0x00, 0x00, 0x19, 0x92, 0x22, 0x00, 0x0B, 0x6B, 0x1B,
      0x50, 0xC3, 0x00, 0x00, 0x64, 0x00, 0x00, 0x00, 0x00, 0x00, 0x00, 0x00, 0x00, 0x00, 0x00, 0x00, 0x00, 0x00, 0x00, 0x00, 0xFF, 0xFF, 0xAB, 0xCD],
    [0xFD, 0x1E, 0x00, 0x00, 0x26, 0x02, 0x03, 0x21, 0x00, 0x00, 0x00, 0x57, 0xA6, 0x16, 0x80, 0x39, 0x7A, 0x12,
      0x50, 0xC3, 0x00, 0x00, 0x64, 0x00, 0x00, 0x00, 0x00, 0x00, 0x00, 0x00, 0x00, 0x00, 0x00, 0x00, 0x00, 0x00, 0x00, 0x00, 0xFF, 0xFF, 0xAB, 0xCD],
    [0xFD, 0x1E, 0x00, 0x00, 0x27, 0x02, 0x03, 0x21, 0x00, 0x00, 0x80, 0x85, 0xB5, 0x0D, 0x80, 0x52, 0x0C, 0x35,
      0x50, 0xC3, 0x00, 0x00, 0x64, 0x00, 0x00, 0x00, 0x00, 0x00, 0x00, 0x00, 0x00, 0x00, 0x00, 0x00, 0x00, 0x00, 0x00, 0x00, 0xFF, 0xFF, 0xAB, 0xCD],
    [0xFD, 0x1E, 0x00, 0x00, 0x28, 0x02, 0x03, 0x21, 0x00, 0x00, 0x80, 0x33, 0x02, 0x3B, 0x80, 0x39, 0x7A, 0x12,
      0x50, 0xC3, 0x00, 0x00, 0x64, 0x00, 0x00, 0x00, 0x00, 0x00, 0x00, 0x00, 0x00, 0x00, 0x00, 0x00, 0x00, 0x00, 0x00, 0x00, 0xFF, 0xFF, 0xAB, 0xCD],
    [0xFD, 0x1E, 0x00, 0x00, 0x29, 0x02, 0x03, 0x21, 0x00, 0x00, 0x00, 0xE1, 0xF5, 0x05, 0x80, 0xEA, 0x82, 0x2B,
      0x50, 0xC3, 0x00, 0x00, 0x64, 0x00, 0x00, 0x00, 0x00, 0x00, 0x00, 0x00, 0x00, 0x00, 0x00, 0x00, 0x00, 0x00, 0x00, 0x00, 0xFF, 0xFF, 0xAB, 0xCD],
    [0xFD, 0x1E, 0x00, 0x00, 0x2A, 0x02, 0x03, 0x21, 0x00, 0x00, 0x00, 0x57, 0xA6, 0x16, 0x80, 0x63, 0xEF, 0x27,
      0x50, 0xC3, 0x00, 0x00, 0x64, 0x00, 0x00, 0x00, 0x00, 0x00, 0x00, 0x00, 0x00, 0x00, 0x00, 0x00, 0x00, 0x00, 0x00, 0x00, 0xFF, 0xFF, 0xAB, 0xCD],
    [0xFD, 0x1E, 0x00, 0x00, 0x2B, 0x02, 0x03, 0x21, 0x00, 0x00, 0x80, 0x09, 0x8D, 0x25, 0x80, 0x47, 0xA1, 0x19,
      0x50, 0xC3, 0x00, 0x00, 0x64, 0x00, 0x00, 0x00, 0x00, 0x00, 0x00, 0x00, 0x00, 0x00, 0x00, 0x00, 0x00, 0x00, 0x00, 0x00, 0xFF, 0xFF, 0xAB, 0xCD],
    [0xFD, 0x1E, 0x00, 0x00, 0x2C, 0x02, 0x03, 0x21, 0x00, 0x00, 0x80, 0xAC, 0x6E, 0x37, 0x80, 0x82, 0xF9, 0x21,
      0x50, 0xC3, 0x00, 0x00, 0x64, 0x00, 0x00, 0x00, 0x00, 0x00, 0x00, 0x00, 0x00, 0x00, 0x00, 0x00, 0x00, 0x00, 0x00, 0x00, 0xFF, 0xFF, 0xAB, 0xCD],
    [0xFD, 0x1E, 0x00, 0x00, 0x2D, 0x02, 0x03, 0x21, 0x00, 0x00, 0x00, 0x2A, 0x75, 0x15, 0x80, 0x44, 0xE5, 0x2D,
      0x50, 0xC3, 0x00, 0x00, 0x64, 0x00, 0x00, 0x00, 0x00, 0x00, 0x00, 0x00, 0x00, 0x00, 0x00, 0x00, 0x00, 0x00, 0x00, 0x00, 0xFF, 0xFF, 0xAB, 0xCD],
    [0xFD, 0x1E, 0x00, 0x00, 0x2E, 0x02, 0x03, 0x21, 0x00, 0x00, 0x80, 0x4A, 0x5D, 0x05, 0x80, 0xD1, 0xF0, 0x08,
      0x50, 0xC3, 0x00, 0x00, 0x64, 0x00, 0x00, 0x00, 0x00, 0x00, 0x00, 0x00, 0x00, 0x00, 0x00, 0x00, 0x00, 0x00, 0x00, 0x00, 0xFF, 0xFF, 0xAB, 0xCD],
    [0xFD, 0x1E, 0x00, 0x00, 0x2F, 0x02, 0x03, 0x21, 0x00, 0x00, 0x80, 0x36, 0xBE, 0x26, 0x80, 0x28, 0x97, 0x1F,
      0x50, 0xC3, 0x00, 0x00, 0x64, 0x00, 0x00, 0x00, 0x00, 0x00, 0x00, 0x00, 0x00, 0x00, 0x00, 0x00, 0x00, 0x00, 0x00, 0x00, 0xFF, 0xFF, 0xAB, 0xCD]]"

definition mailbox_n56 :: "u8 list" where
  "mailbox_n56 = [0x4D, 0x52, 0x41, 0x57, 0x38, 0x00, 0x00, 0x00] @ concat [
    [0xFD, 0x1E, 0x00, 0x00, 0x00, 0x02, 0x03, 0x21, 0x00, 0x00, 0x80, 0x2B, 0x53, 0x0B, 0x00, 0x95, 0xBA, 0x0A,
      0x50, 0xC3, 0x00, 0x00, 0x64, 0x00, 0x00, 0x00, 0x00, 0x00, 0x00, 0x00, 0x00, 0x00, 0x00, 0x00, 0x00, 0x00, 0x00, 0x00, 0xFF, 0xFF, 0xAB, 0xCD],
    [0xFD, 0x1E, 0x00, 0x00, 0x01, 0x02, 0x03, 0x21, 0x00, 0x00, 0x00, 0x46, 0xC3, 0x23, 0x00, 0x54, 0xEA, 0x2A,
      0x50, 0xC3, 0x00, 0x00, 0x64, 0x00, 0x00, 0x00, 0x00, 0x00, 0x00, 0x00, 0x00, 0x00, 0x00, 0x00, 0x00, 0x00, 0x00, 0x00, 0xFF, 0xFF, 0xAB, 0xCD],
    [0xFD, 0x1E, 0x00, 0x00, 0x02, 0x02, 0x03, 0x21, 0x00, 0x00, 0x80, 0x44, 0xE5, 0x2D, 0x80, 0xDF, 0x17, 0x10,
      0x50, 0xC3, 0x00, 0x00, 0x64, 0x00, 0x00, 0x00, 0x00, 0x00, 0x00, 0x00, 0x00, 0x00, 0x00, 0x00, 0x00, 0x00, 0x00, 0x00, 0xFF, 0xFF, 0xAB, 0xCD],
    [0xFD, 0x1E, 0x00, 0x00, 0x03, 0x02, 0x03, 0x21, 0x00, 0x00, 0x80, 0x85, 0xB5, 0x0D, 0x80, 0x58, 0x84, 0x0C,
      0x50, 0xC3, 0x00, 0x00, 0x64, 0x00, 0x00, 0x00, 0x00, 0x00, 0x00, 0x00, 0x00, 0x00, 0x00, 0x00, 0x00, 0x00, 0x00, 0x00, 0xFF, 0xFF, 0xAB, 0xCD],
    [0xFD, 0x1E, 0x00, 0x00, 0x04, 0x02, 0x03, 0x21, 0x00, 0x00, 0x80, 0x82, 0xF9, 0x21, 0x80, 0x90, 0x20, 0x29,
      0x50, 0xC3, 0x00, 0x00, 0x64, 0x00, 0x00, 0x00, 0x00, 0x00, 0x00, 0x00, 0x00, 0x00, 0x00, 0x00, 0x00, 0x00, 0x00, 0x00, 0xFF, 0xFF, 0xAB, 0xCD],
    [0xFD, 0x1E, 0x00, 0x00, 0x05, 0x02, 0x03, 0x21, 0x00, 0x00, 0x80, 0x9E, 0x47, 0x30, 0x80, 0xDF, 0x17, 0x10,
      0x50, 0xC3, 0x00, 0x00, 0x64, 0x00, 0x00, 0x00, 0x00, 0x00, 0x00, 0x00, 0x00, 0x00, 0x00, 0x00, 0x00, 0x00, 0x00, 0x00, 0xFF, 0xFF, 0xAB, 0xCD],
    [0xFD, 0x1E, 0x00, 0x00, 0x06, 0x02, 0x03, 0x21, 0x00, 0x00, 0x80, 0x58, 0x84, 0x0C, 0x00, 0x95, 0xBA, 0x0A,
      0x50, 0xC3, 0x00, 0x00, 0x64, 0x00, 0x00, 0x00, 0x00, 0x00, 0x00, 0x00, 0x00, 0x00, 0x00, 0x00, 0x00, 0x00, 0x00, 0x00, 0xFF, 0xFF, 0xAB, 0xCD],
    [0xFD, 0x1E, 0x00, 0x00, 0x07, 0x02, 0x03, 0x21, 0x00, 0x00, 0x80, 0x82, 0xF9, 0x21, 0x80, 0x63, 0xEF, 0x27,
      0x50, 0xC3, 0x00, 0x00, 0x64, 0x00, 0x00, 0x00, 0x00, 0x00, 0x00, 0x00, 0x00, 0x00, 0x00, 0x00, 0x00, 0x00, 0x00, 0x00, 0xFF, 0xFF, 0xAB, 0xCD],
    [0xFD, 0x1E, 0x00, 0x00, 0x08, 0x02, 0x03, 0x21, 0x00, 0x00, 0x00, 0x08, 0xAF, 0x2F, 0x00, 0xA3, 0xE1, 0x11,
      0x50, 0xC3, 0x00, 0x00, 0x64, 0x00, 0x00, 0x00, 0x00, 0x00, 0x00, 0x00, 0x00, 0x00, 0x00, 0x00, 0x00, 0x00, 0x00, 0x00, 0xFF, 0xFF, 0xAB, 0xCD],
    [0xFD, 0x1E, 0x00, 0x00, 0x09, 0x02, 0x03, 0x21, 0x00, 0x00, 0x80, 0xFE, 0x21, 0x0A, 0x00, 0x95, 0xBA, 0x0A,
      0x50, 0xC3, 0x00, 0x00, 0x64, 0x00, 0x00, 0x00, 0x00, 0x00, 0x00, 0x00, 0x00, 0x00, 0x00, 0x00, 0x00, 0x00, 0x00, 0x00, 0xFF, 0xFF, 0xAB, 0xCD],
    [0xFD, 0x1E, 0x00, 0x00, 0x0A, 0x02, 0x03, 0x21, 0x00, 0x00, 0x80, 0x82, 0xF9, 0x21, 0x80, 0xBD, 0x51, 0x2A,
      0x50, 0xC3, 0x00, 0x00, 0x64, 0x00, 0x00, 0x00, 0x00, 0x00, 0x00, 0x00, 0x00, 0x00, 0x00, 0x00, 0x00, 0x00, 0x00, 0x00, 0xFF, 0xFF, 0xAB, 0xCD],
    [0xFD, 0x1E, 0x00, 0x00, 0x0B, 0x02, 0x03, 0x21, 0x00, 0x00, 0x00, 0x08, 0xAF, 0x2F, 0x80, 0xDF, 0x17, 0x10,
      0x50, 0xC3, 0x00, 0x00, 0x64, 0x00, 0x00, 0x00, 0x00, 0x00, 0x00, 0x00, 0x00, 0x00, 0x00, 0x00, 0x00, 0x00, 0x00, 0x00, 0xFF, 0xFF, 0xAB, 0xCD],
    [0xFD, 0x1E, 0x00, 0x00, 0x0C, 0x02, 0x03, 0x21, 0x00, 0x00, 0x80, 0x85, 0xB5, 0x0D, 0x80, 0x58, 0x84, 0x0C,
      0x50, 0xC3, 0x00, 0x00, 0x64, 0x00, 0x00, 0x00, 0x00, 0x00, 0x00, 0x00, 0x00, 0x00, 0x00, 0x00, 0x00, 0x00, 0x00, 0x00, 0xFF, 0xFF, 0xAB, 0xCD],
    [0xFD, 0x1E, 0x00, 0x00, 0x0D, 0x02, 0x03, 0x21, 0x00, 0x00, 0x80, 0x82, 0xF9, 0x21, 0x00, 0xFA, 0x87, 0x28,
      0x50, 0xC3, 0x00, 0x00, 0x64, 0x00, 0x00, 0x00, 0x00, 0x00, 0x00, 0x00, 0x00, 0x00, 0x00, 0x00, 0x00, 0x00, 0x00, 0x00, 0xFF, 0xFF, 0xAB, 0xCD],
    [0xFD, 0x1E, 0x00, 0x00, 0x0E, 0x02, 0x03, 0x21, 0x00, 0x00, 0x00, 0x35, 0xE0, 0x30, 0x00, 0xD0, 0x12, 0x13,
      0x50, 0xC3, 0x00, 0x00, 0x64, 0x00, 0x00, 0x00, 0x00, 0x00, 0x00, 0x00, 0x00, 0x00, 0x00, 0x00, 0x00, 0x00, 0x00, 0x00, 0xFF, 0xFF, 0xAB, 0xCD],
    [0xFD, 0x1E, 0x00, 0x00, 0x0F, 0x02, 0x03, 0x21, 0x00, 0x00, 0x80, 0x58, 0x84, 0x0C, 0x80, 0xFE, 0x21, 0x0A,
      0x50, 0xC3, 0x00, 0x00, 0x64, 0x00, 0x00, 0x00, 0x00, 0x00, 0x00, 0x00, 0x00, 0x00, 0x00, 0x00, 0x00, 0x00, 0x00, 0x00, 0xFF, 0xFF, 0xAB, 0xCD],
    [0xFD, 0x1E, 0x00, 0x00, 0x10, 0x02, 0x03, 0x21, 0x00, 0x00, 0x80, 0xDC, 0x5B, 0x24, 0x80, 0xBD, 0x51, 0x2A,
      0x50, 0xC3, 0x00, 0x00, 0x64, 0x00, 0x00, 0x00, 0x00, 0x00, 0x00, 0x00, 0x00, 0x00, 0x00, 0x00, 0x00, 0x00, 0x00, 0x00, 0xFF, 0xFF, 0xAB, 0xCD],
    [0xFD, 0x1E, 0x00, 0x00, 0x11, 0x02, 0x03, 0x21, 0x00, 0x00, 0x00, 0x08, 0xAF, 0x2F, 0x80, 0xDF, 0x17, 0x10,
      0x50, 0xC3, 0x00, 0x00, 0x64, 0x00, 0x00, 0x00, 0x00, 0x00, 0x00, 0x00, 0x00, 0x00, 0x00, 0x00, 0x00, 0x00, 0x00, 0x00, 0xFF, 0xFF, 0xAB, 0xCD],
    [0xFD, 0x1E, 0x00, 0x00, 0x12, 0x02, 0x03, 0x21, 0x00, 0x00, 0x00, 0x95, 0xBA, 0x0A, 0x80, 0xFE, 0x21, 0x0A,
      0x50, 0xC3, 0x00, 0x00, 0x64, 0x00, 0x00, 0x00, 0x00, 0x00, 0x00, 0x00, 0x00, 0x00, 0x00, 0x00, 0x00, 0x00, 0x00, 0x00, 0xFF, 0xFF, 0xAB, 0xCD],
    [0xFD, 0x1E, 0x00, 0x00, 0x13, 0x02, 0x03, 0x21, 0x00, 0x00, 0x80, 0xDC, 0x5B, 0x24, 0x80, 0xEA, 0x82, 0x2B,
      0x50, 0xC3, 0x00, 0x00, 0x64, 0x00, 0x00, 0x00, 0x00, 0x00, 0x00, 0x00, 0x00, 0x00, 0x00, 0x00, 0x00, 0x00, 0x00, 0x00, 0xFF, 0xFF, 0xAB, 0xCD],
    [0xFD, 0x1E, 0x00, 0x00, 0x14, 0x02, 0x03, 0x21, 0x00, 0x00, 0x00, 0xDB, 0x7D, 0x2E, 0x80, 0x0C, 0x49, 0x11,
      0x50, 0xC3, 0x00, 0x00, 0x64, 0x00, 0x00, 0x00, 0x00, 0x00, 0x00, 0x00, 0x00, 0x00, 0x00, 0x00, 0x00, 0x00, 0x00, 0x00, 0xFF, 0xFF, 0xAB, 0xCD],
    [0xFD, 0x1E, 0x00, 0x00, 0x15, 0x02, 0x03, 0x21, 0x00, 0x00, 0x00, 0xC2, 0xEB, 0x0B, 0x00, 0x95, 0xBA, 0x0A,
      0x50, 0xC3, 0x00, 0x00, 0x64, 0x00, 0x00, 0x00, 0x00, 0x00, 0x00, 0x00, 0x00, 0x00, 0x00, 0x00, 0x00, 0x00, 0x00, 0x00, 0xFF, 0xFF, 0xAB, 0xCD],
    [0xFD, 0x1E, 0x00, 0x00, 0x16, 0x02, 0x03, 0x21, 0x00, 0x00, 0x80, 0xDC, 0x5B, 0x24, 0x80, 0x63, 0xEF, 0x27,
      0x50, 0xC3, 0x00, 0x00, 0x64, 0x00, 0x00, 0x00, 0x00, 0x00, 0x00, 0x00, 0x00, 0x00, 0x00, 0x00, 0x00, 0x00, 0x00, 0x00, 0xFF, 0xFF, 0xAB, 0xCD],
    [0xFD, 0x1E, 0x00, 0x00, 0x17, 0x02, 0x03, 0x21, 0x00, 0x00, 0x80, 0x9E, 0x47, 0x30, 0x80, 0x0C, 0x49, 0x11,
      0x50, 0xC3, 0x00, 0x00, 0x64, 0x00, 0x00, 0x00, 0x00, 0x00, 0x00, 0x00, 0x00, 0x00, 0x00, 0x00, 0x00, 0x00, 0x00, 0x00, 0xFF, 0xFF, 0xAB, 0xCD],
    [0xFD, 0x1E, 0x00, 0x00, 0x18, 0x02, 0x03, 0x21, 0x00, 0x00, 0x80, 0x58, 0x84, 0x0C, 0x80, 0x85, 0xB5, 0x0D,
      0x50, 0xC3, 0x00, 0x00, 0x64, 0x00, 0x00, 0x00, 0x00, 0x00, 0x00, 0x00, 0x00, 0x00, 0x00, 0x00, 0x00, 0x00, 0x00, 0x00, 0xFF, 0xFF, 0xAB, 0xCD],
    [0xFD, 0x1E, 0x00, 0x00, 0x19, 0x02, 0x03, 0x21, 0x00, 0x00, 0x00, 0x73, 0xF4, 0x24, 0x00, 0xFA, 0x87, 0x28,
      0x50, 0xC3, 0x00, 0x00, 0x64, 0x00, 0x00, 0x00, 0x00, 0x00, 0x00, 0x00, 0x00, 0x00, 0x00, 0x00, 0x00, 0x00, 0x00, 0x00, 0xFF, 0xFF, 0xAB, 0xCD],
    [0xFD, 0x1E, 0x00, 0x00, 0x1A, 0x02, 0x03, 0x21, 0x00, 0x00, 0x80, 0x44, 0xE5, 0x2D, 0x80, 0x39, 0x7A, 0x12,
      0x50, 0xC3, 0x00, 0x00, 0x64, 0x00, 0x00, 0x00, 0x00, 0x00, 0x00, 0x00, 0x00, 0x00, 0x00, 0x00, 0x00, 0x00, 0x00, 0x00, 0xFF, 0xFF, 0xAB, 0xCD],
    [0xFD, 0x1E, 0x00, 0x00, 0x1B, 0x02, 0x03, 0x21, 0x00, 0x00, 0x80, 0x58, 0x84, 0x0C, 0x00, 0xEF, 0x1C, 0x0D,
      0x50, 0xC3, 0x00, 0x00, 0x64, 0x00, 0x00, 0x00, 0x00, 0x00, 0x00, 0x00, 0x00, 0x00, 0x00, 0x00, 0x00, 0x00, 0x00, 0x00, 0xFF, 0xFF, 0xAB, 0xCD],
    [0xFD, 0x1E, 0x00, 0x00, 0x1C, 0x02, 0x03, 0x21, 0x00, 0x00, 0x00, 0x19, 0x92, 0x22, 0x80, 0x90, 0x20, 0x29,
      0x50, 0xC3, 0x00, 0x00, 0x64, 0x00, 0x00, 0x00, 0x00, 0x00, 0x00, 0x00, 0x00, 0x00, 0x00, 0x00, 0x00, 0x00, 0x00, 0x00, 0xFF, 0xFF, 0xAB, 0xCD],
    [0xFD, 0x1E, 0x00, 0x00, 0x1D, 0x02, 0x03, 0x21, 0x00, 0x00, 0x80, 0x44, 0xE5, 0x2D, 0x80, 0x39, 0x7A, 0x12,
      0x50, 0xC3, 0x00, 0x00, 0x64, 0x00, 0x00, 0x00, 0x00, 0x00, 0x00, 0x00, 0x00, 0x00, 0x00, 0x00, 0x00, 0x00, 0x00, 0x00, 0xFF, 0xFF, 0xAB, 0xCD],
    [0xFD, 0x1E, 0x00, 0x00, 0x1E, 0x02, 0x03, 0x21, 0x00, 0x00, 0x00, 0xEF, 0x1C, 0x0D, 0x80, 0xFE, 0x21, 0x0A,
      0x50, 0xC3, 0x00, 0x00, 0x64, 0x00, 0x00, 0x00, 0x00, 0x00, 0x00, 0x00, 0x00, 0x00, 0x00, 0x00, 0x00, 0x00, 0x00, 0x00, 0xFF, 0xFF, 0xAB, 0xCD],
    [0xFD, 0x1E, 0x00, 0x00, 0x1F, 0x02, 0x03, 0x21, 0x00, 0x00, 0x80, 0xDC, 0x5B, 0x24, 0x80, 0x63, 0xEF, 0x27,
      0x50, 0xC3, 0x00, 0x00, 0x64, 0x00, 0x00, 0x00, 0x00, 0x00, 0x00, 0x00, 0x00, 0x00, 0x00, 0x00, 0x00, 0x00, 0x00, 0x00, 0xFF, 0xFF, 0xAB, 0xCD],
    [0xFD, 0x1E, 0x00, 0x00, 0x20, 0x02, 0x03, 0x21, 0x00, 0x00, 0x80, 0x9E, 0x47, 0x30, 0x00, 0x76, 0xB0, 0x10,
      0x50, 0xC3, 0x00, 0x00, 0x64, 0x00, 0x00, 0x00, 0x00, 0x00, 0x00, 0x00, 0x00, 0x00, 0x00, 0x00, 0x00, 0x00, 0x00, 0x00, 0xFF, 0xFF, 0xAB, 0xCD],
    [0xFD, 0x1E, 0x00, 0x00, 0x21, 0x02, 0x03, 0x21, 0x00, 0x00, 0x00, 0xC2, 0xEB, 0x0B, 0x00, 0xEF, 0x1C, 0x0D,
      0x50, 0xC3, 0x00, 0x00, 0x64, 0x00, 0x00, 0x00, 0x00, 0x00, 0x00, 0x00, 0x00, 0x00, 0x00, 0x00, 0x00, 0x00, 0x00, 0x00, 0xFF, 0xFF, 0xAB, 0xCD],
    [0xFD, 0x1E, 0x00, 0x00, 0x22, 0x02, 0x03, 0x21, 0x00, 0x00, 0x80, 0xDC, 0x5B, 0x24, 0x00, 0x27, 0xB9, 0x29,
      0x50, 0xC3, 0x00, 0x00, 0x64, 0x00, 0x00, 0x00, 0x00, 0x00, 0x00, 0x00, 0x00, 0x00, 0x00, 0x00, 0x00, 0x00, 0x00, 0x00, 0xFF, 0xFF, 0xAB, 0xCD],
    [0xFD, 0x1E, 0x00, 0x00, 0x23, 0x02, 0x03, 0x21, 0x00, 0x00, 0x80, 0xCB, 0x78, 0x31, 0x80, 0x0C, 0x49, 0x11,
      0x50, 0xC3, 0x00, 0x00, 0x64, 0x00, 0x00, 0x00, 0x00, 0x00, 0x00, 0x00, 0x00, 0x00, 0x00, 0x00, 0x00, 0x00, 0x00, 0x00, 0xFF, 0xFF, 0xAB, 0xCD],
    [0xFD, 0x1E, 0x00, 0x00, 0x24, 0x02, 0x03, 0x21, 0x00, 0x00, 0x00, 0xC2, 0xEB, 0x0B, 0x80, 0x58, 0x84, 0x0C,
      0x50, 0xC3, 0x00, 0x00, 0x64, 0x00, 0x00, 0x00, 0x00, 0x00, 0x00, 0x00, 0x00, 0x00, 0x00, 0x00, 0x00, 0x00, 0x00, 0x00, 0xFF, 0xFF, 0xAB, 0xCD],
    [0xFD, 0x1E, 0x00, 0x00, 0x25, 0x02, 0x03, 0x21, 0x00, 0x00, 0x00, 0x19, 0x92, 0x22, 0x00, 0x0B, 0x6B, 0x1B,
      0x50, 0xC3, 0x00, 0x00, 0x64, 0x00, 0x00, 0x00, 0x00, 0x00, 0x00, 0x00, 0x00, 0x00, 0x00, 0x00, 0x00, 0x00, 0x00, 0x00, 0xFF, 0xFF, 0xAB, 0xCD],
    [0xFD, 0x1E, 0x00, 0x00, 0x26, 0x02, 0x03, 0x21, 0x00, 0x00, 0x00, 0x57, 0xA6, 0x16, 0x80, 0x39, 0x7A, 0x12,
      0x50, 0xC3, 0x00, 0x00, 0x64, 0x00, 0x00, 0x00, 0x00, 0x00, 0x00, 0x00, 0x00, 0x00, 0x00, 0x00, 0x00, 0x00, 0x00, 0x00, 0xFF, 0xFF, 0xAB, 0xCD],
    [0xFD, 0x1E, 0x00, 0x00, 0x27, 0x02, 0x03, 0x21, 0x00, 0x00, 0x80, 0x85, 0xB5, 0x0D, 0x80, 0x52, 0x0C, 0x35,
      0x50, 0xC3, 0x00, 0x00, 0x64, 0x00, 0x00, 0x00, 0x00, 0x00, 0x00, 0x00, 0x00, 0x00, 0x00, 0x00, 0x00, 0x00, 0x00, 0x00, 0xFF, 0xFF, 0xAB, 0xCD],
    [0xFD, 0x1E, 0x00, 0x00, 0x28, 0x02, 0x03, 0x21, 0x00, 0x00, 0x80, 0x33, 0x02, 0x3B, 0x80, 0x39, 0x7A, 0x12,
      0x50, 0xC3, 0x00, 0x00, 0x64, 0x00, 0x00, 0x00, 0x00, 0x00, 0x00, 0x00, 0x00, 0x00, 0x00, 0x00, 0x00, 0x00, 0x00, 0x00, 0xFF, 0xFF, 0xAB, 0xCD],
    [0xFD, 0x1E, 0x00, 0x00, 0x29, 0x02, 0x03, 0x21, 0x00, 0x00, 0x00, 0xE1, 0xF5, 0x05, 0x80, 0xEA, 0x82, 0x2B,
      0x50, 0xC3, 0x00, 0x00, 0x64, 0x00, 0x00, 0x00, 0x00, 0x00, 0x00, 0x00, 0x00, 0x00, 0x00, 0x00, 0x00, 0x00, 0x00, 0x00, 0xFF, 0xFF, 0xAB, 0xCD],
    [0xFD, 0x1E, 0x00, 0x00, 0x2A, 0x02, 0x03, 0x21, 0x00, 0x00, 0x00, 0x57, 0xA6, 0x16, 0x80, 0x63, 0xEF, 0x27,
      0x50, 0xC3, 0x00, 0x00, 0x64, 0x00, 0x00, 0x00, 0x00, 0x00, 0x00, 0x00, 0x00, 0x00, 0x00, 0x00, 0x00, 0x00, 0x00, 0x00, 0xFF, 0xFF, 0xAB, 0xCD],
    [0xFD, 0x1E, 0x00, 0x00, 0x2B, 0x02, 0x03, 0x21, 0x00, 0x00, 0x80, 0x09, 0x8D, 0x25, 0x80, 0x47, 0xA1, 0x19,
      0x50, 0xC3, 0x00, 0x00, 0x64, 0x00, 0x00, 0x00, 0x00, 0x00, 0x00, 0x00, 0x00, 0x00, 0x00, 0x00, 0x00, 0x00, 0x00, 0x00, 0xFF, 0xFF, 0xAB, 0xCD],
    [0xFD, 0x1E, 0x00, 0x00, 0x2C, 0x02, 0x03, 0x21, 0x00, 0x00, 0x80, 0xAC, 0x6E, 0x37, 0x80, 0x82, 0xF9, 0x21,
      0x50, 0xC3, 0x00, 0x00, 0x64, 0x00, 0x00, 0x00, 0x00, 0x00, 0x00, 0x00, 0x00, 0x00, 0x00, 0x00, 0x00, 0x00, 0x00, 0x00, 0xFF, 0xFF, 0xAB, 0xCD],
    [0xFD, 0x1E, 0x00, 0x00, 0x2D, 0x02, 0x03, 0x21, 0x00, 0x00, 0x00, 0x2A, 0x75, 0x15, 0x80, 0x44, 0xE5, 0x2D,
      0x50, 0xC3, 0x00, 0x00, 0x64, 0x00, 0x00, 0x00, 0x00, 0x00, 0x00, 0x00, 0x00, 0x00, 0x00, 0x00, 0x00, 0x00, 0x00, 0x00, 0xFF, 0xFF, 0xAB, 0xCD],
    [0xFD, 0x1E, 0x00, 0x00, 0x2E, 0x02, 0x03, 0x21, 0x00, 0x00, 0x80, 0x4A, 0x5D, 0x05, 0x80, 0xD1, 0xF0, 0x08,
      0x50, 0xC3, 0x00, 0x00, 0x64, 0x00, 0x00, 0x00, 0x00, 0x00, 0x00, 0x00, 0x00, 0x00, 0x00, 0x00, 0x00, 0x00, 0x00, 0x00, 0xFF, 0xFF, 0xAB, 0xCD],
    [0xFD, 0x1E, 0x00, 0x00, 0x2F, 0x02, 0x03, 0x21, 0x00, 0x00, 0x80, 0x36, 0xBE, 0x26, 0x80, 0x28, 0x97, 0x1F,
      0x50, 0xC3, 0x00, 0x00, 0x64, 0x00, 0x00, 0x00, 0x00, 0x00, 0x00, 0x00, 0x00, 0x00, 0x00, 0x00, 0x00, 0x00, 0x00, 0x00, 0xFF, 0xFF, 0xAB, 0xCD],
    [0xFD, 0x1E, 0x00, 0x00, 0x30, 0x02, 0x03, 0x21, 0x00, 0x00, 0x80, 0x58, 0x84, 0x0C, 0x00, 0x70, 0x38, 0x39,
      0x50, 0xC3, 0x00, 0x00, 0x64, 0x00, 0x00, 0x00, 0x00, 0x00, 0x00, 0x00, 0x00, 0x00, 0x00, 0x00, 0x00, 0x00, 0x00, 0x00, 0xFF, 0xFF, 0xAB, 0xCD],
    [0xFD, 0x1E, 0x00, 0x00, 0x31, 0x02, 0x03, 0x21, 0x00, 0x00, 0x80, 0x47, 0xA1, 0x19, 0x80, 0x2B, 0x53, 0x0B,
      0x50, 0xC3, 0x00, 0x00, 0x64, 0x00, 0x00, 0x00, 0x00, 0x00, 0x00, 0x00, 0x00, 0x00, 0x00, 0x00, 0x00, 0x00, 0x00, 0x00, 0xFF, 0xFF, 0xAB, 0xCD],
    [0xFD, 0x1E, 0x00, 0x00, 0x32, 0x02, 0x03, 0x21, 0x00, 0x00, 0x00, 0x73, 0xF4, 0x24, 0x80, 0x28, 0x97, 0x1F,
      0x50, 0xC3, 0x00, 0x00, 0x64, 0x00, 0x00, 0x00, 0x00, 0x00, 0x00, 0x00, 0x00, 0x00, 0x00, 0x00, 0x00, 0x00, 0x00, 0x00, 0xFF, 0xFF, 0xAB, 0xCD],
    [0xFD, 0x1E, 0x00, 0x00, 0x33, 0x02, 0x03, 0x21, 0x00, 0x00, 0x80, 0xF0, 0xFA, 0x02, 0x80, 0xF8, 0xA9, 0x32,
      0x50, 0xC3, 0x00, 0x00, 0x64, 0x00, 0x00, 0x00, 0x00, 0x00, 0x00, 0x00, 0x00, 0x00, 0x00, 0x00, 0x00, 0x00, 0x00, 0x00, 0xFF, 0xFF, 0xAB, 0xCD],
    [0xFD, 0x1E, 0x00, 0x00, 0x34, 0x02, 0x03, 0x21, 0x00, 0x00, 0x80, 0x4A, 0x5D, 0x05, 0x80, 0x06, 0xD1, 0x39,
      0x50, 0xC3, 0x00, 0x00, 0x64, 0x00, 0x00, 0x00, 0x00, 0x00, 0x00, 0x00, 0x00, 0x00, 0x00, 0x00, 0x00, 0x00, 0x00, 0x00, 0xFF, 0xFF, 0xAB, 0xCD],
    [0xFD, 0x1E, 0x00, 0x00, 0x35, 0x02, 0x03, 0x21, 0x00, 0x00, 0x80, 0xBD, 0x51, 0x2A, 0x80, 0xEA, 0x82, 0x2B,
      0x50, 0xC3, 0x00, 0x00, 0x64, 0x00, 0x00, 0x00, 0x00, 0x00, 0x00, 0x00, 0x00, 0x00, 0x00, 0x00, 0x00, 0x00, 0x00, 0x00, 0xFF, 0xFF, 0xAB, 0xCD],
    [0xFD, 0x1E, 0x00, 0x00, 0x36, 0x02, 0x03, 0x21, 0x00, 0x00, 0x00, 0x84, 0xD7, 0x17, 0x80, 0x47, 0xA1, 0x19,
      0x50, 0xC3, 0x00, 0x00, 0x64, 0x00, 0x00, 0x00, 0x00, 0x00, 0x00, 0x00, 0x00, 0x00, 0x00, 0x00, 0x00, 0x00, 0x00, 0x00, 0xFF, 0xFF, 0xAB, 0xCD],
    [0xFD, 0x1E, 0x00, 0x00, 0x37, 0x02, 0x03, 0x21, 0x00, 0x00, 0x00, 0xBC, 0x73, 0x34, 0x00, 0xDE, 0x39, 0x1A,
      0x50, 0xC3, 0x00, 0x00, 0x64, 0x00, 0x00, 0x00, 0x00, 0x00, 0x00, 0x00, 0x00, 0x00, 0x00, 0x00, 0x00, 0x00, 0x00, 0x00, 0xFF, 0xFF, 0xAB, 0xCD]]"

definition mailbox_n64 :: "u8 list" where
  "mailbox_n64 = [0x4D, 0x52, 0x41, 0x57, 0x40, 0x00, 0x00, 0x00] @ concat [
    [0xFD, 0x1E, 0x00, 0x00, 0x00, 0x02, 0x03, 0x21, 0x00, 0x00, 0x80, 0x2B, 0x53, 0x0B, 0x00, 0x95, 0xBA, 0x0A,
      0x50, 0xC3, 0x00, 0x00, 0x64, 0x00, 0x00, 0x00, 0x00, 0x00, 0x00, 0x00, 0x00, 0x00, 0x00, 0x00, 0x00, 0x00, 0x00, 0x00, 0xFF, 0xFF, 0xAB, 0xCD],
    [0xFD, 0x1E, 0x00, 0x00, 0x01, 0x02, 0x03, 0x21, 0x00, 0x00, 0x00, 0x46, 0xC3, 0x23, 0x00, 0x54, 0xEA, 0x2A,
      0x50, 0xC3, 0x00, 0x00, 0x64, 0x00, 0x00, 0x00, 0x00, 0x00, 0x00, 0x00, 0x00, 0x00, 0x00, 0x00, 0x00, 0x00, 0x00, 0x00, 0xFF, 0xFF, 0xAB, 0xCD],
    [0xFD, 0x1E, 0x00, 0x00, 0x02, 0x02, 0x03, 0x21, 0x00, 0x00, 0x80, 0x44, 0xE5, 0x2D, 0x80, 0xDF, 0x17, 0x10,
      0x50, 0xC3, 0x00, 0x00, 0x64, 0x00, 0x00, 0x00, 0x00, 0x00, 0x00, 0x00, 0x00, 0x00, 0x00, 0x00, 0x00, 0x00, 0x00, 0x00, 0xFF, 0xFF, 0xAB, 0xCD],
    [0xFD, 0x1E, 0x00, 0x00, 0x03, 0x02, 0x03, 0x21, 0x00, 0x00, 0x80, 0x85, 0xB5, 0x0D, 0x80, 0x58, 0x84, 0x0C,
      0x50, 0xC3, 0x00, 0x00, 0x64, 0x00, 0x00, 0x00, 0x00, 0x00, 0x00, 0x00, 0x00, 0x00, 0x00, 0x00, 0x00, 0x00, 0x00, 0x00, 0xFF, 0xFF, 0xAB, 0xCD],
    [0xFD, 0x1E, 0x00, 0x00, 0x04, 0x02, 0x03, 0x21, 0x00, 0x00, 0x80, 0x82, 0xF9, 0x21, 0x80, 0x90, 0x20, 0x29,
      0x50, 0xC3, 0x00, 0x00, 0x64, 0x00, 0x00, 0x00, 0x00, 0x00, 0x00, 0x00, 0x00, 0x00, 0x00, 0x00, 0x00, 0x00, 0x00, 0x00, 0xFF, 0xFF, 0xAB, 0xCD],
    [0xFD, 0x1E, 0x00, 0x00, 0x05, 0x02, 0x03, 0x21, 0x00, 0x00, 0x80, 0x9E, 0x47, 0x30, 0x80, 0xDF, 0x17, 0x10,
      0x50, 0xC3, 0x00, 0x00, 0x64, 0x00, 0x00, 0x00, 0x00, 0x00, 0x00, 0x00, 0x00, 0x00, 0x00, 0x00, 0x00, 0x00, 0x00, 0x00, 0xFF, 0xFF, 0xAB, 0xCD],
    [0xFD, 0x1E, 0x00, 0x00, 0x06, 0x02, 0x03, 0x21, 0x00, 0x00, 0x80, 0x58, 0x84, 0x0C, 0x00, 0x95, 0xBA, 0x0A,
      0x50, 0xC3, 0x00, 0x00, 0x64, 0x00, 0x00, 0x00, 0x00, 0x00, 0x00, 0x00, 0x00, 0x00, 0x00, 0x00, 0x00, 0x00, 0x00, 0x00, 0xFF, 0xFF, 0xAB, 0xCD],
    [0xFD, 0x1E, 0x00, 0x00, 0x07, 0x02, 0x03, 0x21, 0x00, 0x00, 0x80, 0x82, 0xF9, 0x21, 0x80, 0x63, 0xEF, 0x27,
      0x50, 0xC3, 0x00, 0x00, 0x64, 0x00, 0x00, 0x00, 0x00, 0x00, 0x00, 0x00, 0x00, 0x00, 0x00, 0x00, 0x00, 0x00, 0x00, 0x00, 0xFF, 0xFF, 0xAB, 0xCD],
    [0xFD, 0x1E, 0x00, 0x00, 0x08, 0x02, 0x03, 0x21, 0x00, 0x00, 0x00, 0x08, 0xAF, 0x2F, 0x00, 0xA3, 0xE1, 0x11,
      0x50, 0xC3, 0x00, 0x00, 0x64, 0x00, 0x00, 0x00, 0x00, 0x00, 0x00, 0x00, 0x00, 0x00, 0x00, 0x00, 0x00, 0x00, 0x00, 0x00, 0xFF, 0xFF, 0xAB, 0xCD],
    [0xFD, 0x1E, 0x00, 0x00, 0x09, 0x02, 0x03, 0x21, 0x00, 0x00, 0x80, 0xFE, 0x21, 0x0A, 0x00, 0x95, 0xBA, 0x0A,
      0x50, 0xC3, 0x00, 0x00, 0x64, 0x00, 0x00, 0x00, 0x00, 0x00, 0x00, 0x00, 0x00, 0x00, 0x00, 0x00, 0x00, 0x00, 0x00, 0x00, 0xFF, 0xFF, 0xAB, 0xCD],
    [0xFD, 0x1E, 0x00, 0x00, 0x0A, 0x02, 0x03, 0x21, 0x00, 0x00, 0x80, 0x82, 0xF9, 0x21, 0x80, 0xBD, 0x51, 0x2A,
      0x50, 0xC3, 0x00, 0x00, 0x64, 0x00, 0x00, 0x00, 0x00, 0x00, 0x00, 0x00, 0x00, 0x00, 0x00, 0x00, 0x00, 0x00, 0x00, 0x00, 0xFF, 0xFF, 0xAB, 0xCD],
    [0xFD, 0x1E, 0x00, 0x00, 0x0B, 0x02, 0x03, 0x21, 0x00, 0x00, 0x00, 0x08, 0xAF, 0x2F, 0x80, 0xDF, 0x17, 0x10,
      0x50, 0xC3, 0x00, 0x00, 0x64, 0x00, 0x00, 0x00, 0x00, 0x00, 0x00, 0x00, 0x00, 0x00, 0x00, 0x00, 0x00, 0x00, 0x00, 0x00, 0xFF, 0xFF, 0xAB, 0xCD],
    [0xFD, 0x1E, 0x00, 0x00, 0x0C, 0x02, 0x03, 0x21, 0x00, 0x00, 0x80, 0x85, 0xB5, 0x0D, 0x80, 0x58, 0x84, 0x0C,
      0x50, 0xC3, 0x00, 0x00, 0x64, 0x00, 0x00, 0x00, 0x00, 0x00, 0x00, 0x00, 0x00, 0x00, 0x00, 0x00, 0x00, 0x00, 0x00, 0x00, 0xFF, 0xFF, 0xAB, 0xCD],
    [0xFD, 0x1E, 0x00, 0x00, 0x0D, 0x02, 0x03, 0x21, 0x00, 0x00, 0x80, 0x82, 0xF9, 0x21, 0x00, 0xFA, 0x87, 0x28,
      0x50, 0xC3, 0x00, 0x00, 0x64, 0x00, 0x00, 0x00, 0x00, 0x00, 0x00, 0x00, 0x00, 0x00, 0x00, 0x00, 0x00, 0x00, 0x00, 0x00, 0xFF, 0xFF, 0xAB, 0xCD],
    [0xFD, 0x1E, 0x00, 0x00, 0x0E, 0x02, 0x03, 0x21, 0x00, 0x00, 0x00, 0x35, 0xE0, 0x30, 0x00, 0xD0, 0x12, 0x13,
      0x50, 0xC3, 0x00, 0x00, 0x64, 0x00, 0x00, 0x00, 0x00, 0x00, 0x00, 0x00, 0x00, 0x00, 0x00, 0x00, 0x00, 0x00, 0x00, 0x00, 0xFF, 0xFF, 0xAB, 0xCD],
    [0xFD, 0x1E, 0x00, 0x00, 0x0F, 0x02, 0x03, 0x21, 0x00, 0x00, 0x80, 0x58, 0x84, 0x0C, 0x80, 0xFE, 0x21, 0x0A,
      0x50, 0xC3, 0x00, 0x00, 0x64, 0x00, 0x00, 0x00, 0x00, 0x00, 0x00, 0x00, 0x00, 0x00, 0x00, 0x00, 0x00, 0x00, 0x00, 0x00, 0xFF, 0xFF, 0xAB, 0xCD],
    [0xFD, 0x1E, 0x00, 0x00, 0x10, 0x02, 0x03, 0x21, 0x00, 0x00, 0x80, 0xDC, 0x5B, 0x24, 0x80, 0xBD, 0x51, 0x2A,
      0x50, 0xC3, 0x00, 0x00, 0x64, 0x00, 0x00, 0x00, 0x00, 0x00, 0x00, 0x00, 0x00, 0x00, 0x00, 0x00, 0x00, 0x00, 0x00, 0x00, 0xFF, 0xFF, 0xAB, 0xCD],
    [0xFD, 0x1E, 0x00, 0x00, 0x11, 0x02, 0x03, 0x21, 0x00, 0x00, 0x00, 0x08, 0xAF, 0x2F, 0x80, 0xDF, 0x17, 0x10,
      0x50, 0xC3, 0x00, 0x00, 0x64, 0x00, 0x00, 0x00, 0x00, 0x00, 0x00, 0x00, 0x00, 0x00, 0x00, 0x00, 0x00, 0x00, 0x00, 0x00, 0xFF, 0xFF, 0xAB, 0xCD],
    [0xFD, 0x1E, 0x00, 0x00, 0x12, 0x02, 0x03, 0x21, 0x00, 0x00, 0x00, 0x95, 0xBA, 0x0A, 0x80, 0xFE, 0x21, 0x0A,
      0x50, 0xC3, 0x00, 0x00, 0x64, 0x00, 0x00, 0x00, 0x00, 0x00, 0x00, 0x00, 0x00, 0x00, 0x00, 0x00, 0x00, 0x00, 0x00, 0x00, 0xFF, 0xFF, 0xAB, 0xCD],
    [0xFD, 0x1E, 0x00, 0x00, 0x13, 0x02, 0x03, 0x21, 0x00, 0x00, 0x80, 0xDC, 0x5B, 0x24, 0x80, 0xEA, 0x82, 0x2B,
      0x50, 0xC3, 0x00, 0x00, 0x64, 0x00, 0x00, 0x00, 0x00, 0x00, 0x00, 0x00, 0x00, 0x00, 0x00, 0x00, 0x00, 0x00, 0x00, 0x00, 0xFF, 0xFF, 0xAB, 0xCD],
    [0xFD, 0x1E, 0x00, 0x00, 0x14, 0x02, 0x03, 0x21, 0x00, 0x00, 0x00, 0xDB, 0x7D, 0x2E, 0x80, 0x0C, 0x49, 0x11,
      0x50, 0xC3, 0x00, 0x00, 0x64, 0x00, 0x00, 0x00, 0x00, 0x00, 0x00, 0x00, 0x00, 0x00, 0x00, 0x00, 0x00, 0x00, 0x00, 0x00, 0xFF, 0xFF, 0xAB, 0xCD],
    [0xFD, 0x1E, 0x00, 0x00, 0x15, 0x02, 0x03, 0x21, 0x00, 0x00, 0x00, 0xC2, 0xEB, 0x0B, 0x00, 0x95, 0xBA, 0x0A,
      0x50, 0xC3, 0x00, 0x00, 0x64, 0x00, 0x00, 0x00, 0x00, 0x00, 0x00, 0x00, 0x00, 0x00, 0x00, 0x00, 0x00, 0x00, 0x00, 0x00, 0xFF, 0xFF, 0xAB, 0xCD],
    [0xFD, 0x1E, 0x00, 0x00, 0x16, 0x02, 0x03, 0x21, 0x00, 0x00, 0x80, 0xDC, 0x5B, 0x24, 0x80, 0x63, 0xEF, 0x27,
      0x50, 0xC3, 0x00, 0x00, 0x64, 0x00, 0x00, 0x00, 0x00, 0x00, 0x00, 0x00, 0x00, 0x00, 0x00, 0x00, 0x00, 0x00, 0x00, 0x00, 0xFF, 0xFF, 0xAB, 0xCD],
    [0xFD, 0x1E, 0x00, 0x00, 0x17, 0x02, 0x03, 0x21, 0x00, 0x00, 0x80, 0x9E, 0x47, 0x30, 0x80, 0x0C, 0x49, 0x11,
      0x50, 0xC3, 0x00, 0x00, 0x64, 0x00, 0x00, 0x00, 0x00, 0x00, 0x00, 0x00, 0x00, 0x00, 0x00, 0x00, 0x00, 0x00, 0x00, 0x00, 0xFF, 0xFF, 0xAB, 0xCD],
    [0xFD, 0x1E, 0x00, 0x00, 0x18, 0x02, 0x03, 0x21, 0x00, 0x00, 0x80, 0x58, 0x84, 0x0C, 0x80, 0x85, 0xB5, 0x0D,
      0x50, 0xC3, 0x00, 0x00, 0x64, 0x00, 0x00, 0x00, 0x00, 0x00, 0x00, 0x00, 0x00, 0x00, 0x00, 0x00, 0x00, 0x00, 0x00, 0x00, 0xFF, 0xFF, 0xAB, 0xCD],
    [0xFD, 0x1E, 0x00, 0x00, 0x19, 0x02, 0x03, 0x21, 0x00, 0x00, 0x00, 0x73, 0xF4, 0x24, 0x00, 0xFA, 0x87, 0x28,
      0x50, 0xC3, 0x00, 0x00, 0x64, 0x00, 0x00, 0x00, 0x00, 0x00, 0x00, 0x00, 0x00, 0x00, 0x00, 0x00, 0x00, 0x00, 0x00, 0x00, 0xFF, 0xFF, 0xAB, 0xCD],
    [0xFD, 0x1E, 0x00, 0x00, 0x1A, 0x02, 0x03, 0x21, 0x00, 0x00, 0x80, 0x44, 0xE5, 0x2D, 0x80, 0x39, 0x7A, 0x12,
      0x50, 0xC3, 0x00, 0x00, 0x64, 0x00, 0x00, 0x00, 0x00, 0x00, 0x00, 0x00, 0x00, 0x00, 0x00, 0x00, 0x00, 0x00, 0x00, 0x00, 0xFF, 0xFF, 0xAB, 0xCD],
    [0xFD, 0x1E, 0x00, 0x00, 0x1B, 0x02, 0x03, 0x21, 0x00, 0x00, 0x80, 0x58, 0x84, 0x0C, 0x00, 0xEF, 0x1C, 0x0D,
      0x50, 0xC3, 0x00, 0x00, 0x64, 0x00, 0x00, 0x00, 0x00, 0x00, 0x00, 0x00, 0x00, 0x00, 0x00, 0x00, 0x00, 0x00, 0x00, 0x00, 0xFF, 0xFF, 0xAB, 0xCD],
    [0xFD, 0x1E, 0x00, 0x00, 0x1C, 0x02, 0x03, 0x21, 0x00, 0x00, 0x00, 0x19, 0x92, 0x22, 0x80, 0x90, 0x20, 0x29,
      0x50, 0xC3, 0x00, 0x00, 0x64, 0x00, 0x00, 0x00, 0x00, 0x00, 0x00, 0x00, 0x00, 0x00, 0x00, 0x00, 0x00, 0x00, 0x00, 0x00, 0xFF, 0xFF, 0xAB, 0xCD],
    [0xFD, 0x1E, 0x00, 0x00, 0x1D, 0x02, 0x03, 0x21, 0x00, 0x00, 0x80, 0x44, 0xE5, 0x2D, 0x80, 0x39, 0x7A, 0x12,
      0x50, 0xC3, 0x00, 0x00, 0x64, 0x00, 0x00, 0x00, 0x00, 0x00, 0x00, 0x00, 0x00, 0x00, 0x00, 0x00, 0x00, 0x00, 0x00, 0x00, 0xFF, 0xFF, 0xAB, 0xCD],
    [0xFD, 0x1E, 0x00, 0x00, 0x1E, 0x02, 0x03, 0x21, 0x00, 0x00, 0x00, 0xEF, 0x1C, 0x0D, 0x80, 0xFE, 0x21, 0x0A,
      0x50, 0xC3, 0x00, 0x00, 0x64, 0x00, 0x00, 0x00, 0x00, 0x00, 0x00, 0x00, 0x00, 0x00, 0x00, 0x00, 0x00, 0x00, 0x00, 0x00, 0xFF, 0xFF, 0xAB, 0xCD],
    [0xFD, 0x1E, 0x00, 0x00, 0x1F, 0x02, 0x03, 0x21, 0x00, 0x00, 0x80, 0xDC, 0x5B, 0x24, 0x80, 0x63, 0xEF, 0x27,
      0x50, 0xC3, 0x00, 0x00, 0x64, 0x00, 0x00, 0x00, 0x00, 0x00, 0x00, 0x00, 0x00, 0x00, 0x00, 0x00, 0x00, 0x00, 0x00, 0x00, 0xFF, 0xFF, 0xAB, 0xCD],
    [0xFD, 0x1E, 0x00, 0x00, 0x20, 0x02, 0x03, 0x21, 0x00, 0x00, 0x80, 0x9E, 0x47, 0x30, 0x00, 0x76, 0xB0, 0x10,
      0x50, 0xC3, 0x00, 0x00, 0x64, 0x00, 0x00, 0x00, 0x00, 0x00, 0x00, 0x00, 0x00, 0x00, 0x00, 0x00, 0x00, 0x00, 0x00, 0x00, 0xFF, 0xFF, 0xAB, 0xCD],
    [0xFD, 0x1E, 0x00, 0x00, 0x21, 0x02, 0x03, 0x21, 0x00, 0x00, 0x00, 0xC2, 0xEB, 0x0B, 0x00, 0xEF, 0x1C, 0x0D,
      0x50, 0xC3, 0x00, 0x00, 0x64, 0x00, 0x00, 0x00, 0x00, 0x00, 0x00, 0x00, 0x00, 0x00, 0x00, 0x00, 0x00, 0x00, 0x00, 0x00, 0xFF, 0xFF, 0xAB, 0xCD],
    [0xFD, 0x1E, 0x00, 0x00, 0x22, 0x02, 0x03, 0x21, 0x00, 0x00, 0x80, 0xDC, 0x5B, 0x24, 0x00, 0x27, 0xB9, 0x29,
      0x50, 0xC3, 0x00, 0x00, 0x64, 0x00, 0x00, 0x00, 0x00, 0x00, 0x00, 0x00, 0x00, 0x00, 0x00, 0x00, 0x00, 0x00, 0x00, 0x00, 0xFF, 0xFF, 0xAB, 0xCD],
    [0xFD, 0x1E, 0x00, 0x00, 0x23, 0x02, 0x03, 0x21, 0x00, 0x00, 0x80, 0xCB, 0x78, 0x31, 0x80, 0x0C, 0x49, 0x11,
      0x50, 0xC3, 0x00, 0x00, 0x64, 0x00, 0x00, 0x00, 0x00, 0x00, 0x00, 0x00, 0x00, 0x00, 0x00, 0x00, 0x00, 0x00, 0x00, 0x00, 0xFF, 0xFF, 0xAB, 0xCD],
    [0xFD, 0x1E, 0x00, 0x00, 0x24, 0x02, 0x03, 0x21, 0x00, 0x00, 0x00, 0xC2, 0xEB, 0x0B, 0x80, 0x58, 0x84, 0x0C,
      0x50, 0xC3, 0x00, 0x00, 0x64, 0x00, 0x00, 0x00, 0x00, 0x00, 0x00, 0x00, 0x00, 0x00, 0x00, 0x00, 0x00, 0x00, 0x00, 0x00, 0xFF, 0xFF, 0xAB, 0xCD],
    [0xFD, 0x1E, 0x00, 0x00, 0x25, 0x02, 0x03, 0x21, 0x00, 0x00, 0x00, 0x46, 0xC3, 0x23, 0x80, 0x90, 0x20, 0x29,
      0x50, 0xC3, 0x00, 0x00, 0x64, 0x00, 0x00, 0x00, 0x00, 0x00, 0x00, 0x00, 0x00, 0x00, 0x00, 0x00, 0x00, 0x00, 0x00, 0x00, 0xFF, 0xFF, 0xAB, 0xCD],
    [0xFD, 0x1E, 0x00, 0x00, 0x26, 0x02, 0x03, 0x21, 0x00, 0x00, 0x80, 0x71, 0x16, 0x2F, 0x00, 0x76, 0xB0, 0x10,
      0x50, 0xC3, 0x00, 0x00, 0x64, 0x00, 0x00, 0x00, 0x00, 0x00, 0x00, 0x00, 0x00, 0x00, 0x00, 0x00, 0x00, 0x00, 0x00, 0x00, 0xFF, 0xFF, 0xAB, 0xCD],
    [0xFD, 0x1E, 0x00, 0x00, 0x27, 0x02, 0x03, 0x21, 0x00, 0x00, 0x80, 0x85, 0xB5, 0x0D, 0x00, 0x95, 0xBA, 0x0A,
      0x50, 0xC3, 0x00, 0x00, 0x64, 0x00, 0x00, 0x00, 0x00, 0x00, 0x00, 0x00, 0x00, 0x00, 0x00, 0x00, 0x00, 0x00, 0x00, 0x00, 0xFF, 0xFF, 0xAB, 0xCD],
    [0xFD, 0x1E, 0x00, 0x00, 0x28, 0x02, 0x03, 0x21, 0x00, 0x00, 0x00, 0x73, 0xF4, 0x24, 0x80, 0xEA, 0x82, 0x2B,
      0x50, 0xC3, 0x00, 0x00, 0x64, 0x00, 0x00, 0x00, 0x00, 0x00, 0x00, 0x00, 0x00, 0x00, 0x00, 0x00, 0x00, 0x00, 0x00, 0x00, 0xFF, 0xFF, 0xAB, 0xCD],
    [0xFD, 0x1E, 0x00, 0x00, 0x29, 0x02, 0x03, 0x21, 0x00, 0x00, 0x00, 0xDB, 0x7D, 0x2E, 0x80, 0xDF, 0x17, 0x10,
      0x50, 0xC3, 0x00, 0x00, 0x64, 0x00, 0x00, 0x00, 0x00, 0x00, 0x00, 0x00, 0x00, 0x00, 0x00, 0x00, 0x00, 0x00, 0x00, 0x00, 0xFF, 0xFF, 0xAB, 0xCD],
    [0xFD, 0x1E, 0x00, 0x00, 0x2A, 0x02, 0x03, 0x21, 0x00, 0x00, 0x80, 0xEA, 0x82, 0x2B, 0x00, 0x57, 0xA6, 0x16,
      0x50, 0xC3, 0x00, 0x00, 0x64, 0x00, 0x00, 0x00, 0x00, 0x00, 0x00, 0x00, 0x00, 0x00, 0x00, 0x00, 0x00, 0x00, 0x00, 0x00, 0xFF, 0xFF, 0xAB, 0xCD],
    [0xFD, 0x1E, 0x00, 0x00, 0x2B, 0x02, 0x03, 0x21, 0x00, 0x00, 0x80, 0x63, 0xEF, 0x27, 0x80, 0x09, 0x8D, 0x25,
      0x50, 0xC3, 0x00, 0x00, 0x64, 0x00, 0x00, 0x00, 0x00, 0x00, 0x00, 0x00, 0x00, 0x00, 0x00, 0x00, 0x00, 0x00, 0x00, 0x00, 0xFF, 0xFF, 0xAB, 0xCD],
    [0xFD, 0x1E, 0x00, 0x00, 0x2C, 0x02, 0x03, 0x21, 0x00, 0x00, 0x80, 0x47, 0xA1, 0x19, 0x80, 0xAC, 0x6E, 0x37,
      0x50, 0xC3, 0x00, 0x00, 0x64, 0x00, 0x00, 0x00, 0x00, 0x00, 0x00, 0x00, 0x00, 0x00, 0x00, 0x00, 0x00, 0x00, 0x00, 0x00, 0xFF, 0xFF, 0xAB, 0xCD],
    [0xFD, 0x1E, 0x00, 0x00, 0x2D, 0x02, 0x03, 0x21, 0x00, 0x00, 0x80, 0x82, 0xF9, 0x21, 0x00, 0x2A, 0x75, 0x15,
      0x50, 0xC3, 0x00, 0x00, 0x64, 0x00, 0x00, 0x00, 0x00, 0x00, 0x00, 0x00, 0x00, 0x00, 0x00, 0x00, 0x00, 0x00, 0x00, 0x00, 0xFF, 0xFF, 0xAB, 0xCD],
    [0xFD, 0x1E, 0x00, 0x00, 0x2E, 0x02, 0x03, 0x21, 0x00, 0x00, 0x80, 0x44, 0xE5, 0x2D, 0x80, 0x4A, 0x5D, 0x05,
      0x50, 0xC3, 0x00, 0x00, 0x64, 0x00, 0x00, 0x00, 0x00, 0x00, 0x00, 0x00, 0x00, 0x00, 0x00, 0x00, 0x00, 0x00, 0x00, 0x00, 0xFF, 0xFF, 0xAB, 0xCD],
    [0xFD, 0x1E, 0x00, 0x00, 0x2F, 0x02, 0x03, 0x21, 0x00, 0x00, 0x80, 0xD1, 0xF0, 0x08, 0x80, 0x36, 0xBE, 0x26,
      0x50, 0xC3, 0x00, 0x00, 0x64, 0x00, 0x00, 0x00, 0x00, 0x00, 0x00, 0x00, 0x00, 0x00, 0x00, 0x00, 0x00, 0x00, 0x00, 0x00, 0xFF, 0xFF, 0xAB, 0xCD],
    [0xFD, 0x1E, 0x00, 0x00, 0x30, 0x02, 0x03, 0x21, 0x00, 0x00, 0x80, 0x28, 0x97, 0x1F, 0x80, 0x58, 0x84, 0x0C,
      0x50, 0xC3, 0x00, 0x00, 0x64, 0x00, 0x00, 0x00, 0x00, 0x00, 0x00, 0x00, 0x00, 0x00, 0x00, 0x00, 0x00, 0x00, 0x00, 0x00, 0xFF, 0xFF, 0xAB, 0xCD],
    [0xFD, 0x1E, 0x00, 0x00, 0x31, 0x02, 0x03, 0x21, 0x00, 0x00, 0x00, 0x70, 0x38, 0x39, 0x80, 0x47, 0xA1, 0x19,
      0x50, 0xC3, 0x00, 0x00, 0x64, 0x00, 0x00, 0x00, 0x00, 0x00, 0x00, 0x00, 0x00, 0x00, 0x00, 0x00, 0x00, 0x00, 0x00, 0x00, 0xFF, 0xFF, 0xAB, 0xCD],
    [0xFD, 0x1E, 0x00, 0x00, 0x32, 0x02, 0x03, 0x21, 0x00, 0x00, 0x80, 0x2B, 0x53, 0x0B, 0x00, 0x73, 0xF4, 0x24,
      0x50, 0xC3, 0x00, 0x00, 0x64, 0x00, 0x00, 0x00, 0x00, 0x00, 0x00, 0x00, 0x00, 0x00, 0x00, 0x00, 0x00, 0x00, 0x00, 0x00, 0xFF, 0xFF, 0xAB, 0xCD],
    [0xFD, 0x1E, 0x00, 0x00, 0x33, 0x02, 0x03, 0x21, 0x00, 0x00, 0x80, 0x28, 0x97, 0x1F, 0x80, 0xF0, 0xFA, 0x02,
      0x50, 0xC3, 0x00, 0x00, 0x64, 0x00, 0x00, 0x00, 0x00, 0x00, 0x00, 0x00, 0x00, 0x00, 0x00, 0x00, 0x00, 0x00, 0x00, 0x00, 0xFF, 0xFF, 0xAB, 0xCD],
    [0xFD, 0x1E, 0x00, 0x00, 0x34, 0x02, 0x03, 0x21, 0x00, 0x00, 0x80, 0xF8, 0xA9, 0x32, 0x80, 0x4A, 0x5D, 0x05,
      0x50, 0xC3, 0x00, 0x00, 0x64, 0x00, 0x00, 0x00, 0x00, 0x00, 0x00, 0x00, 0x00, 0x00, 0x00, 0x00, 0x00, 0x00, 0x00, 0x00, 0xFF, 0xFF, 0xAB, 0xCD],
    [0xFD, 0x1E, 0x00, 0x00, 0x35, 0x02, 0x03, 0x21, 0x00, 0x00, 0x80, 0x06, 0xD1, 0x39, 0x80, 0xBD, 0x51, 0x2A,
      0x50, 0xC3, 0x00, 0x00, 0x64, 0x00, 0x00, 0x00, 0x00, 0x00, 0x00, 0x00, 0x00, 0x00, 0x00, 0x00, 0x00, 0x00, 0x00, 0x00, 0xFF, 0xFF, 0xAB, 0xCD],
    [0xFD, 0x1E, 0x00, 0x00, 0x36, 0x02, 0x03, 0x21, 0x00, 0x00, 0x80, 0xEA, 0x82, 0x2B, 0x00, 0x84, 0xD7, 0x17,
      0x50, 0xC3, 0x00, 0x00, 0x64, 0x00, 0x00, 0x00, 0x00, 0x00, 0x00, 0x00, 0x00, 0x00, 0x00, 0x00, 0x00, 0x00, 0x00, 0x00, 0xFF, 0xFF, 0xAB, 0xCD],
    [0xFD, 0x1E, 0x00, 0x00, 0x37, 0x02, 0x03, 0x21, 0x00, 0x00, 0x80, 0x47, 0xA1, 0x19, 0x00, 0xBC, 0x73, 0x34,
      0x50, 0xC3, 0x00, 0x00, 0x64, 0x00, 0x00, 0x00, 0x00, 0x00, 0x00, 0x00, 0x00, 0x00, 0x00, 0x00, 0x00, 0x00, 0x00, 0x00, 0xFF, 0xFF, 0xAB, 0xCD],
    [0xFD, 0x1E, 0x00, 0x00, 0x38, 0x02, 0x03, 0x21, 0x00, 0x00, 0x00, 0xDE, 0x39, 0x1A, 0x00, 0xAE, 0x4C, 0x2D,
      0x50, 0xC3, 0x00, 0x00, 0x64, 0x00, 0x00, 0x00, 0x00, 0x00, 0x00, 0x00, 0x00, 0x00, 0x00, 0x00, 0x00, 0x00, 0x00, 0x00, 0xFF, 0xFF, 0xAB, 0xCD],
    [0xFD, 0x1E, 0x00, 0x00, 0x39, 0x02, 0x03, 0x21, 0x00, 0x00, 0x80, 0x09, 0x8D, 0x25, 0x00, 0x81, 0x1B, 0x2C,
      0x50, 0xC3, 0x00, 0x00, 0x64, 0x00, 0x00, 0x00, 0x00, 0x00, 0x00, 0x00, 0x00, 0x00, 0x00, 0x00, 0x00, 0x00, 0x00, 0x00, 0xFF, 0xFF, 0xAB, 0xCD],
    [0xFD, 0x1E, 0x00, 0x00, 0x3A, 0x02, 0x03, 0x21, 0x00, 0x00, 0x00, 0x19, 0x92, 0x22, 0x00, 0xB4, 0xC4, 0x04,
      0x50, 0xC3, 0x00, 0x00, 0x64, 0x00, 0x00, 0x00, 0x00, 0x00, 0x00, 0x00, 0x00, 0x00, 0x00, 0x00, 0x00, 0x00, 0x00, 0x00, 0xFF, 0xFF, 0xAB, 0xCD],
    [0xFD, 0x1E, 0x00, 0x00, 0x3B, 0x02, 0x03, 0x21, 0x00, 0x00, 0x80, 0x77, 0x8E, 0x06, 0x00, 0xFD, 0x43, 0x14,
      0x50, 0xC3, 0x00, 0x00, 0x64, 0x00, 0x00, 0x00, 0x00, 0x00, 0x00, 0x00, 0x00, 0x00, 0x00, 0x00, 0x00, 0x00, 0x00, 0x00, 0xFF, 0xFF, 0xAB, 0xCD],
    [0xFD, 0x1E, 0x00, 0x00, 0x3C, 0x02, 0x03, 0x21, 0x00, 0x00, 0x00, 0x46, 0xC3, 0x23, 0x80, 0x52, 0x0C, 0x35,
      0x50, 0xC3, 0x00, 0x00, 0x64, 0x00, 0x00, 0x00, 0x00, 0x00, 0x00, 0x00, 0x00, 0x00, 0x00, 0x00, 0x00, 0x00, 0x00, 0x00, 0xFF, 0xFF, 0xAB, 0xCD],
    [0xFD, 0x1E, 0x00, 0x00, 0x3D, 0x02, 0x03, 0x21, 0x00, 0x00, 0x80, 0xF8, 0xA9, 0x32, 0x00, 0xB4, 0xC4, 0x04,
      0x50, 0xC3, 0x00, 0x00, 0x64, 0x00, 0x00, 0x00, 0x00, 0x00, 0x00, 0x00, 0x00, 0x00, 0x00, 0x00, 0x00, 0x00, 0x00, 0x00, 0xFF, 0xFF, 0xAB, 0xCD],
    [0xFD, 0x1E, 0x00, 0x00, 0x3E, 0x02, 0x03, 0x21, 0x00, 0x00, 0x80, 0x1D, 0x2C, 0x04, 0x80, 0xAC, 0x6E, 0x37,
      0x50, 0xC3, 0x00, 0x00, 0x64, 0x00, 0x00, 0x00, 0x00, 0x00, 0x00, 0x00, 0x00, 0x00, 0x00, 0x00, 0x00, 0x00, 0x00, 0x00, 0xFF, 0xFF, 0xAB, 0xCD],
    [0xFD, 0x1E, 0x00, 0x00, 0x3F, 0x02, 0x03, 0x21, 0x00, 0x00, 0x80, 0x52, 0x0C, 0x35, 0x80, 0xED, 0x3E, 0x17,
      0x50, 0xC3, 0x00, 0x00, 0x64, 0x00, 0x00, 0x00, 0x00, 0x00, 0x00, 0x00, 0x00, 0x00, 0x00, 0x00, 0x00, 0x00, 0x00, 0x00, 0xFF, 0xFF, 0xAB, 0xCD]]"

text \<open>An array and the number of its reports.\<close>

definition sweeps :: "(u8 list \<times> nat) list" where
  "sweeps =
     [(mailbox_n8, 8),
      (mailbox_n16, 16),
      (mailbox_n24, 24),
      (mailbox_n32, 32),
      (mailbox_n40, 40),
      (mailbox_n48, 48),
      (mailbox_n56, 56),
      (mailbox_n64, 64)]"

subsection \<open>What they hold\<close>

text \<open>A header that announces \<open>n\<close> reports, and \<open>n\<close> packets with the message id the policy counts.\<close>

definition holds_reports :: "u8 list \<Rightarrow> nat \<Rightarrow> bool" where
  "holds_reports d n \<longleftrightarrow>
     length d = 8 + 42 * n \<and> le32 d 0 = MO_SHU \<and> le32 d 4 = word_of_nat n \<and> 8 \<le> n \<and> n \<le> 64 \<and>
     (\<forall>i < n. msgid_of (mailbox_packet d i) = 33)"

abbreviation report_row :: "u8 list \<Rightarrow> bool" where
  "report_row r \<equiv> length r = 42 \<and> r ! 7 = 0x21 \<and> r ! 8 = 0 \<and> r ! 9 = 0"

lemma drop_rows:
  "list_all report_row rows \<Longrightarrow> i < length rows \<Longrightarrow> take 42 (drop (i * 42) (concat rows)) = rows ! i"
proof (induction rows arbitrary: i)
  case Nil
  then show ?case by simp
next
  case (Cons r rows)
  then show ?case by (cases i) (simp_all add: add.commute [of 42])
qed

lemma length_rows: "list_all report_row rows \<Longrightarrow> length (concat rows) = 42 * length rows"
  by (induction rows) simp_all

lemma rows_reports:
  assumes "d = h @ concat rows" "h = [0x4D, 0x52, 0x41, 0x57, b, 0, 0, 0]" "list_all report_row rows"
    and "length rows = n" "n = unat b" "8 \<le> n" "n \<le> 64"
  shows "holds_reports d n"
proof -
  have h: "length h = 8" using assms(2) by simp
  have "mailbox_packet d i = rows ! i" if "i < n" for i
    unfolding mailbox_packet_def assms(1) drop_append h
    using drop_rows [OF assms(3)] assms(4) h that by simp
  moreover have "msgid_of (rows ! i) = 33" if "i < n" for i
    using assms(3,4) that by (simp add: list_all_length msgid_of_def)
  ultimately have "\<forall>i < n. msgid_of (mailbox_packet d i) = 33" by simp
  moreover have "ucast b = (word_of_nat n :: u32)" using assms(5) by simp
  ultimately show ?thesis
    using assms length_rows [OF assms(3)] by (simp add: holds_reports_def le32_def MO_SHU_def)
qed

lemma fixtures_hold: "(d, n) \<in> set sweeps \<Longrightarrow> holds_reports d n"
proof -
  have "holds_reports mailbox_n8 8" by (rule rows_reports [OF mailbox_n8_def refl]) simp_all
  moreover have "holds_reports mailbox_n16 16" by (rule rows_reports [OF mailbox_n16_def refl]) simp_all
  moreover have "holds_reports mailbox_n24 24" by (rule rows_reports [OF mailbox_n24_def refl]) simp_all
  moreover have "holds_reports mailbox_n32 32" by (rule rows_reports [OF mailbox_n32_def refl]) simp_all
  moreover have "holds_reports mailbox_n40 40" by (rule rows_reports [OF mailbox_n40_def refl]) simp_all
  moreover have "holds_reports mailbox_n48 48" by (rule rows_reports [OF mailbox_n48_def refl]) simp_all
  moreover have "holds_reports mailbox_n56 56" by (rule rows_reports [OF mailbox_n56_def refl]) simp_all
  moreover have "holds_reports mailbox_n64 64" by (rule rows_reports [OF mailbox_n64_def refl]) simp_all
  ultimately show "(d, n) \<in> set sweeps \<Longrightarrow> holds_reports d n" by (auto simp: sweeps_def)
qed

subsection \<open>How crowded they are\<close>

text \<open>The number of alerts, from the cells of the reports: \<open>seen\<close> holds those before the next one.\<close>

fun count_alerts :: "nat list \<Rightarrow> nat list \<Rightarrow> nat" where
  "count_alerts seen [] = 0"
| "count_alerts seen (c # cs) =
     (let s = c # seen
      in (if 3 < count_list s c \<or> 3 < count_list s ((c + 63) mod 64) \<or> 3 < count_list s ((c + 1) mod 64) then 1 else 0) +
         count_alerts s cs)"

abbreviation cell_of :: "u8 list \<Rightarrow> nat" where
  "cell_of r \<equiv> grid_index (swarm_cell r)"

lemma reports_count:
  "\<forall>p \<in> set ps. msgid_of p = 33 \<Longrightarrow> reports ps k = count_list (rev (map cell_of ps)) k"
  by (induction ps) (auto simp: reports_def)

lemma alerts_count:
  "\<forall>p \<in> set (ps @ qs). msgid_of p = 33 \<Longrightarrow> alerts (ps @ qs) (length ps) = count_alerts (rev (map cell_of ps)) (map cell_of qs)"
proof (induction qs arbitrary: ps)
  case Nil
  then show ?case by (simp add: alerts_def)
next
  case (Cons q qs)
  let ?v = "screen_verdict (ps @ q # qs) (length ps)"
  have ids: "\<forall>p \<in> set (ps @ [q]). msgid_of p = 33" using Cons.prems by simp
  have s: "reports (ps @ [q]) k = count_list (cell_of q # rev (map cell_of ps)) k" for k
    using reports_count [OF ids, of k] by simp
  have "?v = 5 \<longleftrightarrow> crowded (ps @ [q]) q" by (simp add: screen_verdict_def)
  also have "\<dots> \<longleftrightarrow> 3 < count_list (cell_of q # rev (map cell_of ps)) (cell_of q) \<or>
      3 < count_list (cell_of q # rev (map cell_of ps)) ((cell_of q + 63) mod 64) \<or>
      3 < count_list (cell_of q # rev (map cell_of ps)) ((cell_of q + 1) mod 64)"
    using ids s by (simp add: crowded_def Let_def)
  finally have v: "?v = 5 \<longleftrightarrow> \<dots>" .
  have "alerts (ps @ q # qs) (length ps) = (if ?v = 5 then 1 else 0) + alerts ((ps @ [q]) @ qs) (length (ps @ [q]))"
  proof -
    have "[length ps..<length (ps @ q # qs)] = length ps # [Suc (length ps)..<length (ps @ q # qs)]"
      by (rule upt_conv_Cons) simp
    moreover have "(ps @ [q]) @ qs = ps @ q # qs" "length (ps @ [q]) = Suc (length ps)" by simp_all
    ultimately show ?thesis unfolding alerts_def by (simp only: filter.simps) simp
  qed
  also have "alerts ((ps @ [q]) @ qs) (length (ps @ [q])) = count_alerts (rev (map cell_of (ps @ [q]))) (map cell_of qs)"
    using Cons.IH [of "ps @ [q]"] Cons.prems by simp
  finally show ?case unfolding v by (simp add: Let_def)
qed

lemma rows_alerts:
  assumes "d = h @ concat rows" "length h = 8" "list_all report_row rows" "length rows = n" "map cell_of rows = cs"
  shows "alerts (map (mailbox_packet d) [0..<n]) 0 = count_alerts [] cs"
proof -
  have "mailbox_packet d i = rows ! i" if "i < n" for i
    unfolding mailbox_packet_def assms(1) drop_append assms(2)
    using drop_rows [OF assms(3)] assms(2,4) that by simp
  then have "map (mailbox_packet d) [0..<n] = rows" using assms(4) by (simp add: list_eq_iff_nth_eq)
  moreover have "\<forall>p \<in> set rows. msgid_of p = 33"
    using assms(3) by (auto simp: list_all_iff msgid_of_def)
  ultimately show ?thesis using alerts_count [of "[]" rows] assms(5) by simp
qed

lemmas cell_simps = swarm_cell_def grid_index_def le32_def

lemma n8_alerts: "alerts (map (mailbox_packet mailbox_n8) [0..<8]) 0 = 0"
proof -
  have "alerts (map (mailbox_packet mailbox_n8) [0..<8]) 0 = count_alerts []
      [18, 2, 28, 27, 2, 25, 12, 1]"
    by (rule rows_alerts [OF mailbox_n8_def]) (simp_all add: cell_simps)
  also have "\<dots> = 0" by code_simp
  finally show ?thesis .
qed

lemma n16_alerts: "alerts (map (mailbox_packet mailbox_n16) [0..<16]) 0 = 0"
proof -
  have "alerts (map (mailbox_packet mailbox_n16) [0..<16]) 0 = count_alerts []
      [18, 2, 28, 27, 2, 36, 26, 1, 28, 18, 10, 1, 18, 35, 27, 10]"
    by (rule rows_alerts [OF mailbox_n16_def]) (simp_all add: cell_simps)
  also have "\<dots> = 0" by code_simp
  finally show ?thesis .
qed

lemma n24_alerts: "alerts (map (mailbox_packet mailbox_n24) [0..<24]) 0 = 3"
proof -
  have "alerts (map (mailbox_packet mailbox_n24) [0..<24]) 0 = count_alerts []
      [18, 2, 28, 27, 2, 36, 26, 1, 28, 18, 2, 28, 27, 2, 36, 26, 19, 56, 32, 18, 47, 18, 18, 42]"
    by (rule rows_alerts [OF mailbox_n24_def]) (simp_all add: cell_simps)
  also have "\<dots> = 3" by code_simp
  finally show ?thesis .
qed

lemma n32_alerts: "alerts (map (mailbox_packet mailbox_n32) [0..<32]) 0 = 4"
proof -
  have "alerts (map (mailbox_packet mailbox_n32) [0..<32]) 0 = count_alerts []
      [18, 2, 28, 27, 2, 36, 26, 1, 28, 18, 2, 28, 27, 2, 36, 26, 10, 28, 18, 10, 28, 58, 18, 21, 20, 25, 26, 35, 57, 21, 10, 11]"
    by (rule rows_alerts [OF mailbox_n32_def]) (simp_all add: cell_simps)
  also have "\<dots> = 4" by code_simp
  finally show ?thesis .
qed

lemma n40_alerts: "alerts (map (mailbox_packet mailbox_n40) [0..<40]) 0 = 10"
proof -
  have "alerts (map (mailbox_packet mailbox_n40) [0..<40]) 0 = count_alerts []
      [18, 2, 28, 27, 2, 36, 26, 1, 28, 18, 2, 28, 27, 2, 36, 26, 10, 28, 18, 10, 28, 18, 9, 36, 27, 10, 11, 20, 31, 10, 41, 17, 27, 12, 16, 53, 3, 6, 44, 29]"
    by (rule rows_alerts [OF mailbox_n40_def]) (simp_all add: cell_simps)
  also have "\<dots> = 10" by code_simp
  finally show ?thesis .
qed

lemma n48_alerts: "alerts (map (mailbox_packet mailbox_n48) [0..<48]) 0 = 15"
proof -
  have "alerts (map (mailbox_packet mailbox_n48) [0..<48]) 0 = count_alerts []
      [18, 2, 28, 27, 2, 36, 26, 1, 28, 18, 2, 28, 27, 2, 36, 26, 10, 28, 18, 10, 28, 18, 9, 36, 27, 10, 28, 27, 2, 28, 26, 9, 27, 12, 16, 53, 3, 6, 44, 29, 52, 10, 41, 14, 40, 43, 10, 15]"
    by (rule rows_alerts [OF mailbox_n48_def]) (simp_all add: cell_simps)
  also have "\<dots> = 15" by code_simp
  finally show ?thesis .
qed

lemma n56_alerts: "alerts (map (mailbox_packet mailbox_n56) [0..<56]) 0 = 19"
proof -
  have "alerts (map (mailbox_packet mailbox_n56) [0..<56]) 0 = count_alerts []
      [18, 2, 28, 27, 2, 36, 26, 1, 28, 18, 2, 28, 27, 2, 36, 26, 10, 28, 18, 10, 28, 18, 9, 36, 27, 10, 28, 27, 2, 28, 26, 9, 36, 19, 10, 36, 19, 6, 44, 29, 52, 10, 41, 14, 40, 43, 10, 15, 30, 50, 15, 4, 14, 18, 46, 46]"
    by (rule rows_alerts [OF mailbox_n56_def]) (simp_all add: cell_simps)
  also have "\<dots> = 19" by code_simp
  finally show ?thesis .
qed

lemma n64_alerts: "alerts (map (mailbox_packet mailbox_n64) [0..<64]) 0 = 26"
proof -
  have "alerts (map (mailbox_packet mailbox_n64) [0..<64]) 0 = count_alerts []
      [18, 2, 28, 27, 2, 36, 26, 1, 28, 18, 2, 28, 27, 2, 36, 26, 10, 28, 18, 10, 28, 18, 9, 36, 27, 10, 28, 27, 2, 28, 26, 9, 36, 19, 10, 36, 19, 2, 28, 26, 10, 28, 21, 9, 53, 5, 25, 17, 59, 54, 17, 56, 33, 50, 21, 53, 51, 11, 1, 13, 5, 33, 13, 45]"
    by (rule rows_alerts [OF mailbox_n64_def]) (simp_all add: cell_simps)
  also have "\<dots> = 26" by code_simp
  finally show ?thesis .
qed

text \<open>
  The alerts the sweep expects.  By the counting specification of the screening policy, the reports of
  the eight fixtures raise 0, 0, 3, 4, 10, 15, 19 and 26 alerts: the numbers noted beside the arrays.
\<close>

theorem fixture_alerts:
  "map (\<lambda>(d, n). alerts (map (mailbox_packet d) [0..<n]) 0) sweeps = [0, 0, 3, 4, 10, 15, 19, 26]"
  by (simp add: sweeps_def n8_alerts n16_alerts n24_alerts n32_alerts n40_alerts n48_alerts n56_alerts n64_alerts del: upt_Suc upt_rec_numeral)

end
