(* ===== verification/Sweep.thy ===== *)
theory Sweep
  imports Report Fixtures
begin

text \<open>
  The capacity sweep of \<^verbatim>\<open>qemu/main_qemu.c\<close>: the firmware is booted once per fixture, and after the report of a
  round the driver counts the failures and boots the next; after the last it exits the emulator with the verdict.
\<close>

subsection \<open>The driver\<close>

record sweep =
  sweep_t :: u32
  sweep_fails :: u32

definition NFIX :: u32 where "NFIX = word_of_nat (length sweeps)"

definition put_fixture :: "u8 list \<times> nat \<Rightarrow> sup \<Rightarrow> sup" where
  "put_fixture f st = st\<lparr>mailbox := blit 0 (take (8 + 42 * snd f) (fst f)) (mailbox st)\<rparr>"

text \<open>The word written to the test device.\<close>

definition qemu_exit :: "u32 \<Rightarrow> u32" where
  "qemu_exit code = (if code = 0 then 0x5555 else 0x3333)"

datatype emu = Round sweep ctl | Exited u32 sup

definition boot_fixture :: "rom \<Rightarrow> boot_env \<Rightarrow> u32 \<Rightarrow> sup \<Rightarrow> ctl" where
  "boot_fixture rom env k st =
     boot_main Qemu rom env (supervisor_reset (put_fixture (sweeps ! unat k) st))"

definition sweep_boot :: "rom \<Rightarrow> boot_env \<Rightarrow> sup \<Rightarrow> emu" where
  "sweep_boot rom env st =
     Round \<lparr>sweep_t = 0, sweep_fails = 0\<rparr>
       (boot_fixture rom env 0 (st\<lparr>wire := wire st @ uart_puts ''== pmp-ebpf qemu: capacity sweep =='' @ newline\<rparr>))"

definition sweep_next :: "rom \<Rightarrow> (u32 \<Rightarrow> boot_env) \<Rightarrow> u32 \<Rightarrow> sweep \<Rightarrow> sup \<Rightarrow> emu" where
  "sweep_next rom envs ok sw st =
     (let st = st\<lparr>wire := wire st @ newline\<rparr>;
          fails = (if ok = 0 then sweep_fails sw + 1 else sweep_fails sw);
          k = sweep_t sw + 1
      in if k \<ge> NFIX
         then Exited (qemu_exit (if fails \<noteq> 0 then 1 else 0))
                (st\<lparr>wire := wire st @ uart_puts (if fails \<noteq> 0 then ''== SWEEP FAILED =='' else ''== SWEEP 8/8 MATCH =='') @ newline\<rparr>)
         else Round \<lparr>sweep_t = k, sweep_fails = fails\<rparr> (boot_fixture rom (envs k) k st))"

text \<open>The firmware runs; when its round is reported the driver goes on.  \<open>envs\<close>: what each boot meets.\<close>

inductive emu_step :: "rom \<Rightarrow> (u32 \<Rightarrow> boot_env) \<Rightarrow> emu \<Rightarrow> emu \<Rightarrow> bool" for rom envs where
  activation: "ship_step Qemu rom c c' \<Longrightarrow> emu_step rom envs (Round sw c) (Round sw c')"
| reported: "report st = (ok, st') \<Longrightarrow> emu_step rom envs (Round sw (Reports st)) (sweep_next rom envs ok sw st')"

text \<open>A console on which nothing arrives until the window of the boot is over.\<close>

definition silent :: "boot_env \<Rightarrow> bool" where
  "silent env \<longleftrightarrow> quiet_console env \<and> (\<exists>p \<in> set (load_polls env). UART_WINDOW < fst p - load_t0 env)"

subsection \<open>One fixture\<close>

definition ready :: "rom \<Rightarrow> sup \<Rightarrow> bool" where
  "ready rom st \<longleftrightarrow> sup_shape st \<and> blank_store st \<and> length (native_demo rom) \<le> 0x1000"

lemma recv_silent:
  "\<forall>p \<in> set polls. snd p = None \<Longrightarrow> \<exists>p \<in> set polls. UART_WINDOW < fst p - t0 \<Longrightarrow>
    recv_loop t0 polls dst cap rx = RDone 0 dst rx"
  by (induction t0 polls dst cap rx rule: recv_loop.induct) auto

lemma silent_boots:
  assumes "silent env"
  shows "boot_main Qemu rom env st \<noteq> Waiting"
proof -
  obtain st1 where s1: "boot_status Qemu env st = Some st1" by (simp add: boot_status_def Let_def timer_now_def)
  have "recv_loop (load_t0 env) (load_polls env) dst cap rx = RDone 0 dst rx" for dst cap rx
    using assms recv_silent by (simp add: silent_def quiet_console_def)
  then obtain st2 where s2: "uart_load (load_t0 env) (load_polls env) st1 = Some st2"
    by (simp add: uart_load_def uart_recv_def Let_def)
  have "schedule_round Qemu rom s \<noteq> Waiting" for s
    using enter_no_wait by (simp add: schedule_round_def Let_def case_prod_unfold)
  then show ?thesis using s1 s2 boot_gate_clear by (simp add: boot_main_def Let_def split: option.split)
qed

lemma fixture_swarm:
  assumes "holds_reports d n" "length mb = 2696" "mailbox st = blit 0 (take (8 + 42 * n) d) mb"
  shows "mailed st" "round_swarm st = map (mailbox_packet d) [0..<n]"
proof -
  have d: "length d = 8 + 42 * n" "le32 d 0 = MO_SHU" "le32 d 4 = word_of_nat n" "8 \<le> n" "n \<le> 64"
    using assms(1) by (simp_all add: holds_reports_def)
  have mb: "mailbox st = d @ drop (8 + 42 * n) mb" using assms(3) d(1) by (simp add: blit_def)
  have le: "le32 (mailbox st) 0 = MO_SHU" "le32 (mailbox st) 4 = word_of_nat n"
    using d by (simp_all add: mb le32_def nth_append)
  have un: "unat (word_of_nat n :: u32) = n" using d(5) by (simp add: unat_of_nat take_bit_nat_eq_self)
  then show "mailed st" using le d(4,5) by (simp add: mailed_def word_le_nat_alt)
  moreover have "mailbox_packet (mailbox st) i = mailbox_packet d i" if "i < n" for i
    using that d(1) by (simp add: mailbox_packet_def mb)
  ultimately show "round_swarm st = map (mailbox_packet d) [0..<n]" using le un by (simp add: round_swarm_def)
qed

lemma fixture_boots:
  assumes ok: "ready rom st" and env: "silent env" and k: "unat k < length sweeps"
  shows "\<exists>cpu st'. boot_fixture rom env k st = Runs cpu st' \<and> run_ok Qemu cpu st' \<and> tracks Qemu rom st' \<and> g_phase st' = 1 \<and>
    mailed st' \<and> (\<forall>p \<in> set (round_swarm st'). msgid_of p = 33)"
proof -
  obtain d n where f: "sweeps ! unat k = (d, n)" by (cases "sweeps ! unat k")
  then have h: "holds_reports d n" using k fixtures_hold nth_mem by metis
  then have len: "length d = 8 + 42 * n" "8 \<le> n" "n \<le> 64" by (simp_all add: holds_reports_def)
  have sh: "sup_shape st" and bl: "blank_store st" and fits: "length (native_demo rom) \<le> 0x1000"
    using ok by (simp_all add: ready_def)
  have mb: "length (mailbox st) = 2696" using sh by (simp add: sup_shape_def)
  define s where "s = supervisor_reset (put_fixture (d, n) st)"
  have m: "mailbox s = blit 0 (take (8 + 42 * n) d) (mailbox st)" by (simp add: s_def supervisor_reset_def put_fixture_def)
  have "length (mailbox s) = 2696" using mb len by (simp add: m)
  then have shs: "sup_shape s" using sh by (simp add: s_def supervisor_reset_def put_fixture_def sup_shape_def)
  have bls: "blank_store s" using bl by (simp add: s_def supervisor_reset_def put_fixture_def blank_store_def)
  have ring: "g_ri_index s = 0" by (simp add: s_def supervisor_reset_def)
  note sw = fixture_swarm [OF h mb m]
  have "8 \<le> length (round_swarm s)" using sw(2) len by simp
  from boot_tracks [OF shs fits bls _ ring this silent_boots [OF env]] env obtain cpu st' where
    r: "boot_main Qemu rom env s = Runs cpu st'" "run_ok Qemu cpu st'" "tracks Qemu rom st'" "g_phase st' = 1" "mailbox st' = mailbox s"
    by (auto simp: silent_def)
  have "mailed st'" "\<forall>p \<in> set (round_swarm st'). msgid_of p = 33"
    using sw h r(5) round_swarm_same [OF r(5)] by (auto simp: mailed_def holds_reports_def)
  with r show ?thesis by (simp add: boot_fixture_def f s_def)
qed

lemma fixture_passes:
  assumes ok: "ready rom st" and env: "silent env" and k: "unat k < length sweeps"
  shows "\<exists>c. (ship_step Qemu rom ^^ 11) (boot_fixture rom env k st) c"
    "(ship_step Qemu rom ^^ 11) (boot_fixture rom env k st) c \<Longrightarrow> \<exists>x. c = Reports x \<and> report_ok x \<and> ready rom x"
proof -
  from fixture_boots [OF assms] obtain cpu st' where
    r: "boot_fixture rom env k st = Runs cpu st'" "run_ok Qemu cpu st'" "tracks Qemu rom st'" "g_phase st' = 1"
      "mailed st'" "\<forall>p \<in> set (round_swarm st'). msgid_of p = 33" by blast
  note rr = round_reported [OF r(2,4,3)]
  show "\<exists>c. (ship_step Qemu rom ^^ 11) (boot_fixture rom env k st) c" using rr(1) r(1) by simp
  assume "(ship_step Qemu rom ^^ 11) (boot_fixture rom env k st) c"
  with rr(2) r(1) obtain x where x: "ends_with Qemu x c" "shown Qemu rom st' x"
      "map (\<lambda>i. status x ! (S_CAIJUE + i)) [0..<6] = want" "status x ! S_VINTACT = 1" "status x ! S_IINTACT = 1" "status x ! S_NATOK = 1"
    by auto
  have mx: "mailbox x = mailbox st'" using x(2) by (simp add: shown_def)
  have "report_ok x"
    using shown_report [OF x(2-6)] r(5,6) mx round_swarm_same [OF mx] by (simp add: mailed_def)
  moreover have "ready rom x" using x(2) ok by (simp add: shown_def over_def serve_ok_def demo_live_def ready_def)
  ultimately show "\<exists>x. c = Reports x \<and> report_ok x \<and> ready rom x" using x(1) by (simp add: ends_with_def)
qed

lemma fixture_running:
  assumes "ready rom st" "silent env" "unat k < length sweeps" "(ship_step Qemu rom ^^ m) (boot_fixture rom env k st) c" "m < 11"
  shows "\<exists>cpu s. c = Runs cpu s"
proof -
  from fixture_boots [OF assms(1-3)] obtain cpu st' where
    r: "boot_fixture rom env k st = Runs cpu st'" "run_ok Qemu cpu st'" "tracks Qemu rom st'" "g_phase st' = 1" by blast
  then have "rank st' = 11" by (simp add: rank_def)
  with ship_path [OF r(2,3), of m c] assms(4,5) r(1) show ?thesis by auto
qed

subsection \<open>The sweep\<close>

lemma length_sweeps: "length sweeps = 8" "NFIX = 8"
  by (simp_all add: sweeps_def NFIX_def)

text \<open>Where a sweep is: no failure so far, and some activations into the round of the current fixture.\<close>

definition sweeping :: "rom \<Rightarrow> (u32 \<Rightarrow> boot_env) \<Rightarrow> emu \<Rightarrow> bool" where
  "sweeping rom envs e \<longleftrightarrow>
     (case e of
        Exited code x \<Rightarrow> code = 0x5555
      | Round sw c \<Rightarrow> sweep_fails sw = 0 \<and> unat (sweep_t sw) < 8 \<and>
          (\<exists>st m. ready rom st \<and> m \<le> 11 \<and> (ship_step Qemu rom ^^ m) (boot_fixture rom (envs (sweep_t sw)) (sweep_t sw) st) c))"

lemma ready_wire: "ready rom (st\<lparr>wire := w\<rparr>) = ready rom st"
  by (simp add: ready_def sup_shape_def blank_store_def)

lemma sweep_starts: "ready rom st \<Longrightarrow> sweeping rom envs (sweep_boot rom (envs 0) st)"
  unfolding sweeping_def sweep_boot_def emu.case
  by (simp, rule exI [of _ "st\<lparr>wire := wire st @ uart_puts ''== pmp-ebpf qemu: capacity sweep =='' @ newline\<rparr>"],
      simp add: ready_wire, rule exI [of _ 0], simp)

text \<open>The driver after a good report.\<close>

lemma next_fixture:
  assumes "report_ok x" "ready rom x" "report x = (ok, x')" "sweep_fails sw = 0" "unat (sweep_t sw) < 8"
  shows "sweep_next rom envs ok sw x' =
    (if unat (sweep_t sw) = 7
     then Exited 0x5555 (x'\<lparr>wire := wire x' @ newline @ uart_puts ''== SWEEP 8/8 MATCH =='' @ newline\<rparr>)
     else Round \<lparr>sweep_t = sweep_t sw + 1, sweep_fails = 0\<rparr>
       (boot_fixture rom (envs (sweep_t sw + 1)) (sweep_t sw + 1) (x'\<lparr>wire := wire x' @ newline\<rparr>)))"
    "ready rom (x'\<lparr>wire := wire x' @ newline\<rparr>)"
proof -
  have x: "ok = 1" "ready rom x'" using assms(1-3) by (auto simp: report_def ready_wire)
  then show "ready rom (x'\<lparr>wire := wire x' @ newline\<rparr>)" by (simp add: ready_wire)
  have u: "unat (sweep_t sw + 1) = unat (sweep_t sw) + 1" using assms(5) by (simp add: unat_word_ariths)
  have "sweep_t sw + 1 \<ge> NFIX \<longleftrightarrow> unat (sweep_t sw) = 7"
    using assms(5) u by (auto simp: word_le_nat_alt length_sweeps)
  then show "sweep_next rom envs ok sw x' =
    (if unat (sweep_t sw) = 7
     then Exited 0x5555 (x'\<lparr>wire := wire x' @ newline @ uart_puts ''== SWEEP 8/8 MATCH =='' @ newline\<rparr>)
     else Round \<lparr>sweep_t = sweep_t sw + 1, sweep_fails = 0\<rparr>
       (boot_fixture rom (envs (sweep_t sw + 1)) (sweep_t sw + 1) (x'\<lparr>wire := wire x' @ newline\<rparr>)))"
    using assms(4) x(1) by (simp add: sweep_next_def Let_def qemu_exit_def)
qed

lemma report_stuck: "\<not> ship_step t rom (Reports x) c"
  by (auto elim: ship_step.cases)

lemma sweep_keeps:
  assumes "sweeping rom envs e" "emu_step rom envs e e'" and env: "\<forall>k. silent (envs k)"
  shows "sweeping rom envs e'"
  using assms(2,1)
proof (cases rule: emu_step.cases)
  case (activation c c' sw)
  then obtain st m where s: "sweep_fails sw = 0" "unat (sweep_t sw) < 8" "ready rom st" "m \<le> 11"
      "(ship_step Qemu rom ^^ m) (boot_fixture rom (envs (sweep_t sw)) (sweep_t sw) st) c"
    using assms(1) by (auto simp: sweeping_def)
  have "m \<noteq> 11"
  proof
    assume "m = 11"
    with fixture_passes(2) [OF s(3), of "envs (sweep_t sw)" "sweep_t sw" c] s env
    obtain x where "c = Reports x" by (auto simp: length_sweeps)
    then show False using activation(3) report_stuck by simp
  qed
  then have "Suc m \<le> 11" using s(4) by simp
  moreover have "(ship_step Qemu rom ^^ Suc m) (boot_fixture rom (envs (sweep_t sw)) (sweep_t sw) st) c'"
    using s(5) activation(3) by auto
  ultimately show ?thesis using s(1-3) unfolding sweeping_def activation(2) emu.case by blast
next
  case (reported x ok x' sw)
  then obtain st m where s: "sweep_fails sw = 0" "unat (sweep_t sw) < 8" "ready rom st" "m \<le> 11"
      "(ship_step Qemu rom ^^ m) (boot_fixture rom (envs (sweep_t sw)) (sweep_t sw) st) (Reports x)"
    using assms(1) by (auto simp: sweeping_def)
  have "m = 11"
    using fixture_running [OF s(3) _ _ s(5)] s(2,4) env by (cases "m = 11") (auto simp: length_sweeps)
  with fixture_passes(2) [OF s(3)] s(2,5) env have good: "report_ok x" "ready rom x" by (auto simp: length_sweeps)
  note nx = next_fixture(1) [OF good reported(3) s(1,2), of envs] next_fixture(2) [OF good reported(3) s(1,2)]
  have u: "unat (sweep_t sw + 1) = unat (sweep_t sw) + 1" using s(2) by (simp add: unat_word_ariths)
  show ?thesis
  proof (cases "unat (sweep_t sw) = 7")
    case True
    then show ?thesis using nx(1) reported(2) by (simp add: sweeping_def)
  next
    case False
    then have "unat (sweep_t sw + 1) < 8" using s(2) u by simp
    moreover have "e' = Round \<lparr>sweep_t = sweep_t sw + 1, sweep_fails = 0\<rparr>
       (boot_fixture rom (envs (sweep_t sw + 1)) (sweep_t sw + 1) (x'\<lparr>wire := wire x' @ newline\<rparr>))"
      using False nx(1) reported(2) by simp
    ultimately show ?thesis
      unfolding sweeping_def using nx(2)
      by (simp, intro exI [of _ "x'\<lparr>wire := wire x' @ newline\<rparr>"] conjI exI [of _ 0]) simp_all
  qed
qed

lemma activations:
  "(ship_step Qemu rom ^^ m) c c' \<Longrightarrow> (emu_step rom envs ^^ m) (Round sw c) (Round sw c')"
proof (induction m arbitrary: c')
  case 0
  then show ?case by simp
next
  case (Suc m)
  then show ?case by (auto intro!: relcomppI emu_step.activation)
qed

text \<open>The last line of the output.\<close>

definition matched :: "sup \<Rightarrow> bool" where
  "matched x \<longleftrightarrow> (\<exists>w. wire x = w @ uart_puts ''== SWEEP 8/8 MATCH =='' @ newline)"

lemma sweep_exits:
  assumes env: "\<forall>k. silent (envs k)" and "ready rom st" "unat k + Suc d = 8"
  shows "\<exists>x. (emu_step rom envs ^^ (12 * Suc d)) (Round \<lparr>sweep_t = k, sweep_fails = 0\<rparr> (boot_fixture rom (envs k) k st))
      (Exited 0x5555 x) \<and> matched x"
  using assms(2,3)
proof (induction d arbitrary: k st)
  case 0
  then have k: "unat k = 7" "unat k < length sweeps" by (simp_all add: length_sweeps)
  from fixture_passes [OF 0(1) _ k(2)] env obtain x where
    x: "(ship_step Qemu rom ^^ 11) (boot_fixture rom (envs k) k st) (Reports x)" "report_ok x" "ready rom x" by blast
  obtain ok x' where r: "report x = (ok, x')" by (cases "report x")
  define y where "y = x'\<lparr>wire := wire x' @ newline @ uart_puts ''== SWEEP 8/8 MATCH =='' @ newline\<rparr>"
  have "emu_step rom envs (Round \<lparr>sweep_t = k, sweep_fails = 0\<rparr> (Reports x)) (Exited 0x5555 y)"
    using emu_step.reported [OF r, of rom envs "\<lparr>sweep_t = k, sweep_fails = 0\<rparr>"]
      next_fixture(1) [OF x(2,3) r, of "\<lparr>sweep_t = k, sweep_fails = 0\<rparr>" envs] k by (simp add: y_def)
  with activations [OF x(1)]
  have "(emu_step rom envs ^^ Suc 11) (Round \<lparr>sweep_t = k, sweep_fails = 0\<rparr> (boot_fixture rom (envs k) k st)) (Exited 0x5555 y)"
    by (rule relpowp_Suc_I)
  moreover have "wire y = (wire x' @ newline) @ uart_puts ''== SWEEP 8/8 MATCH =='' @ newline" by (simp add: y_def)
  then have "matched y" unfolding matched_def by blast
  moreover have "12 * Suc 0 = Suc 11" by simp
  ultimately show ?case by metis
next
  case (Suc d)
  then have k: "unat k \<noteq> 7" "unat k < 8" "unat k < length sweeps" by (simp_all add: length_sweeps)
  from fixture_passes [OF Suc(2) _ k(3)] env obtain x where
    x: "(ship_step Qemu rom ^^ 11) (boot_fixture rom (envs k) k st) (Reports x)" "report_ok x" "ready rom x" by blast
  obtain ok x' where r: "report x = (ok, x')" by (cases "report x")
  let ?sw = "\<lparr>sweep_t = k, sweep_fails = 0\<rparr>"
  have sw: "sweep_fails ?sw = 0" "unat (sweep_t ?sw) < 8" using k by simp_all
  note nx = next_fixture(1) [OF x(2,3) r sw, of envs] next_fixture(2) [OF x(2,3) r sw]
  let ?next = "Round \<lparr>sweep_t = k + 1, sweep_fails = 0\<rparr> (boot_fixture rom (envs (k + 1)) (k + 1) (x'\<lparr>wire := wire x' @ newline\<rparr>))"
  have "emu_step rom envs (Round \<lparr>sweep_t = k, sweep_fails = 0\<rparr> (Reports x)) ?next"
    using emu_step.reported [OF r, of rom envs "\<lparr>sweep_t = k, sweep_fails = 0\<rparr>"] nx(1) k by simp
  with activations [OF x(1)] have a: "(emu_step rom envs ^^ Suc 11) (Round \<lparr>sweep_t = k, sweep_fails = 0\<rparr> (boot_fixture rom (envs k) k st)) ?next"
    by (rule relpowp_Suc_I)
  have "unat (k + 1) + Suc d = 8" using Suc(3) k by (simp add: unat_word_ariths)
  from Suc.IH [OF nx(2) this] obtain y where y: "(emu_step rom envs ^^ (12 * Suc d)) ?next (Exited 0x5555 y)" "matched y" by blast
  have "(emu_step rom envs ^^ (Suc 11 + 12 * Suc d)) (Round ?sw (boot_fixture rom (envs k) k st)) (Exited 0x5555 y)"
    unfolding relpowp_add using a y(1) by (rule relcomppI)
  moreover have "Suc 11 + 12 * Suc d = 12 * Suc (Suc d)" by simp
  ultimately show ?case using y(2) by metis
qed

interpretation emu: guarded_steps "emu_step rom envs" "\<lambda>e. (\<forall>k. silent (envs k)) \<and> sweeping rom envs e"
  by unfold_locales (use sweep_keeps in blast)

text \<open>
  C7: the sweep passes.  From any memory in which nothing is stored, with a console on which nothing arrives, the
  sweep exits after 96 steps, twelve per fixture, by writing the passing word to the test device, with the line that says
  so as the end of the output; and no run of it exits with any other word: in every round the verdicts, the forensics of
  the five faults, the integrity flags, the native proof word and the alerts are what the report expects.
\<close>

theorem sweep_passes:
  assumes "ready rom st" "\<forall>k. silent (envs k)"
  shows "(\<exists>x w. (emu_step rom envs ^^ 96) (sweep_boot rom (envs 0) st) (Exited 0x5555 x) \<and>
      wire x = w @ uart_puts ''== SWEEP 8/8 MATCH =='' @ newline) \<and>
    (\<forall>n code x. (emu_step rom envs ^^ n) (sweep_boot rom (envs 0) st) (Exited code x) \<longrightarrow> code = 0x5555)"
proof -
  have "sweeping rom envs e" if "(emu_step rom envs ^^ n) (sweep_boot rom (envs 0) st) e" for n e
    using emu.path_inv [OF that] sweep_starts [OF assms(1)] assms(2) by blast
  then have "\<forall>n code x. (emu_step rom envs ^^ n) (sweep_boot rom (envs 0) st) (Exited code x) \<longrightarrow> code = 0x5555"
    by (force simp: sweeping_def)
  moreover have "\<exists>x. (emu_step rom envs ^^ (12 * Suc 7)) (sweep_boot rom (envs 0) st) (Exited 0x5555 x) \<and> matched x"
    unfolding sweep_boot_def by (rule sweep_exits [OF assms(2)]) (simp_all add: ready_wire assms(1))
  moreover have "12 * Suc 7 = 96" by simp
  ultimately show ?thesis unfolding matched_def by metis
qed

theorem sweep_passes_witness:
  "\<exists>n x. (emu_step demo_rom (\<lambda>_. demo_env) ^^ n) (sweep_boot demo_rom demo_env idle_sup) (Exited 0x5555 x)"
proof -
  have "ready demo_rom idle_sup"
    using idle_sup_shape by (simp add: ready_def blank_store_def idle_sup_def le32_def PROG_MAGIC_def MIR_MAGIC_def demo_rom_def)
  moreover have "silent demo_env" by (simp add: silent_def quiet_console_def demo_env_def UART_WINDOW_def)
  ultimately show ?thesis using sweep_passes [of demo_rom idle_sup "\<lambda>_. demo_env"] by blast
qed

subsection \<open>The second count of the swarm\<close>

text \<open>
  C25: the report counts the swarm as the policy does.  Over a mailbox in order whose packets all carry the message
  id of a position report, the C loop of the report over cells and neighbours computes the number of alerts of the counting
  specification, with which the eBPF policy was shown to agree.
\<close>

theorem report_recounts:
  assumes "length (mailbox st) = 2696" "mailed st" "\<forall>p \<in> set (round_swarm st). msgid_of p = 33"
    and "status st ! S_CHONGTU_N = word_of_nat (length (round_swarm st))"
  shows "mirror_alerts st = word_of_nat (alerts (round_swarm st) 0)"
  using assms by (rule mirror_counts)

definition fixture_sup :: sup where
  "fixture_sup = idle_sup\<lparr>mailbox := blit 0 (take (8 + 42 * 24) mailbox_n24) (replicate 2696 0),
     status := (replicate 106 0)[84 := 24]\<rparr>"

theorem report_recounts_witness: "mailed fixture_sup \<and> mirror_alerts fixture_sup = 3"
proof -
  have h: "holds_reports mailbox_n24 24" by (rule fixtures_hold) (simp add: sweeps_def)
  have mb: "mailbox fixture_sup = blit 0 (take (8 + 42 * 24) mailbox_n24) (replicate 2696 0)" by (simp add: fixture_sup_def)
  note sw = fixture_swarm [OF h length_replicate mb]
  have "length mailbox_n24 = 8 + 42 * 24" using h by (simp add: holds_reports_def)
  then have "length (mailbox fixture_sup) = 2696" unfolding mb by simp
  moreover have "\<forall>p \<in> set (round_swarm fixture_sup). msgid_of p = 33" using sw(2) h by (auto simp: holds_reports_def)
  moreover have "status fixture_sup ! S_CHONGTU_N = word_of_nat (length (round_swarm fixture_sup))"
    using sw(2) by (simp add: fixture_sup_def S_CHONGTU_N_def del: upt_Suc upt_rec_numeral)
  ultimately have "mirror_alerts fixture_sup = word_of_nat (alerts (round_swarm fixture_sup) 0)"
    using report_recounts sw(1) by blast
  then show ?thesis using sw n24_alerts by simp
qed

text \<open>The report counts packets of every message type, the policy only those with id 33.\<close>

theorem report_counts_all:
  "\<exists>st. mailed st \<and> status st ! S_CHONGTU_N = word_of_nat (length (round_swarm st)) \<and>
    mirror_alerts st = 1 \<and> alerts (round_swarm st) 0 = 0"
proof -
  define mb :: "u8 list" where "mb = [0x4D, 0x52, 0x41, 0x57, 4, 0, 0, 0] @ replicate 2688 0"
  define st where "st = idle_sup\<lparr>mailbox := mb, status := (replicate 106 0)[84 := 4]\<rparr>"
  have le: "le32 mb 0 = MO_SHU" "le32 mb 4 = 4" "\<And>i. 8 \<le> i \<Longrightarrow> i < 2600 \<Longrightarrow> le32 mb i = 0"
    by (simp_all add: mb_def le32_def MO_SHU_def nth_append)
  then have m: "mailed st" by (simp add: mailed_def st_def)
  have sw: "round_swarm st = map (mailbox_packet mb) [0..<4]" using m le(2) by (simp add: round_swarm_def st_def)
  have z: "msgid_of (mailbox_packet mb i) = 0" if "i < 4" for i
    using that by (simp add: msgid_of_def mailbox_packet_def mb_def nth_append)
  have "report_cell mb i = 0" if "i < 4" for i using that le(3) by (simp add: report_cell_def)
  then have "mirror_alerts st = 1" by (simp add: mirror_alerts_def st_def S_CHONGTU_N_def upt_rec)
  moreover have "alerts (round_swarm st) 0 = 0" 
  proof -
    have "screen_verdict (round_swarm st) i \<noteq> 5" if "i < 4" for i
      using z [OF that] crowded_33 [of _ "round_swarm st ! i"] that by (auto simp: screen_verdict_def sw)
    then show ?thesis by (simp add: alerts_def sw del: upt_Suc upt_rec_numeral)
  qed
  moreover have "length (round_swarm st) = 4" by (simp add: sw)
  then have "status st ! S_CHONGTU_N = word_of_nat (length (round_swarm st))" by (simp add: st_def S_CHONGTU_N_def)
  ultimately show ?thesis using m by blast
qed

end
